(* ===== verification/Prelude.thy ===== *)
theory Prelude
  imports Main "HOL-Library.List_Lexorder" "HOL-Library.Char_ord"
begin

text \<open>
  Shared vocabulary of the Forst development: Go strings as byte lists, the slicing
  operation of Go with its panics, the string helpers of the Go standard library that
  the compiler uses (\<open>strings.Join\<close>, \<open>strings.HasPrefix\<close>, \<open>fmt\<close> decimal rendering,
  rune to UTF-8 conversion), order-preserving deduplication by key, and the lemma
  collections the component theories extend.
\<close>

named_theorems lex_simps \<open>unfolding rules of the scanner\<close>
named_theorems path_simps \<open>rules on access paths and their keys\<close>
named_theorems slot_simps \<open>rules on provider slots\<close>
named_theorems wp \<open>weakest preconditions of the parser combinators\<close>
named_theorems calls \<open>progress of the parsers, as rules for a call\<close>
named_theorems below_intros \<open>monotonicity of the parsers in their recursive calls\<close>

type_synonym go_string = string

section \<open>Lists\<close>

text \<open>
  The loop \<open>for x := range xs { if seen[key(x)] { continue }; seen[key(x)] = true; out = append(out, x) }\<close>,
  with \<open>seen\<close> the keys met so far. It occurs in the predicate interner, in the path sets and in
  the atom intersection.
\<close>

fun dedup_by :: "('a \<Rightarrow> 'k) \<Rightarrow> 'k set \<Rightarrow> 'a list \<Rightarrow> 'a list" where
  "dedup_by key seen [] = []"
| "dedup_by key seen (x # xs) =
     (if key x \<in> seen then dedup_by key seen xs
      else x # dedup_by key (insert (key x) seen) xs)"

lemma dedup_by_subset: "set (dedup_by key seen xs) \<subseteq> set xs"
  by (induction xs arbitrary: seen) auto

lemma dedup_by_seen: "x \<in> set (dedup_by key seen xs) \<Longrightarrow> key x \<notin> seen"
  by (induction xs arbitrary: seen) (auto split: if_splits)

lemma dedup_by_keys: "key ` set (dedup_by key seen xs) = key ` set xs - seen"
  by (induction xs arbitrary: seen) auto

lemma dedup_by_distinct: "distinct (map key (dedup_by key seen xs))"
proof (induction xs arbitrary: seen)
  case Nil
  then show ?case by simp
next
  case (Cons x xs)
  have "key x \<notin> key ` set (dedup_by key (insert (key x) seen) xs)"
    by (simp add: dedup_by_keys)
  with Cons show ?case by simp
qed

lemma dedup_by_id:
  "distinct (map key xs) \<Longrightarrow> key ` set xs \<inter> seen = {} \<Longrightarrow> dedup_by key seen xs = xs"
  by (induction xs arbitrary: seen) auto

lemma dedup_by_covers:
  "x \<in> set xs \<Longrightarrow> key x \<notin> seen \<Longrightarrow> \<exists>y \<in> set (dedup_by key seen xs). key y = key x"
  using dedup_by_keys [of key seen xs] by (metis DiffI imageE imageI)

lemma dedup_by_length: "length (dedup_by key seen xs) \<le> length xs"
  by (induction xs arbitrary: seen) (auto intro: le_SucI)

lemma sorted_map_dedup_by: "sorted (map f xs) \<Longrightarrow> sorted (map f (dedup_by key seen xs))"
proof (induction xs arbitrary: seen)
  case Nil
  then show ?case by simp
next
  case (Cons x xs)
  have "set (dedup_by key s xs) \<subseteq> set xs" for s by (rule dedup_by_subset)
  with Cons show ?case by (simp add: subset_iff)
qed

section \<open>Go slices and strings\<close>

text \<open>
  A Go slice is a window on an array: \<open>line\<close> is what is visible, \<open>spare\<close> what follows it up to
  the capacity. \<open>line[lo:hi]\<close> may reach into the spare part and panics (\<open>None\<close>) beyond it.
  \<open>line[lo:]\<close> panics when \<open>lo\<close> is beyond the length.
\<close>

definition go_slice :: "'a list \<Rightarrow> 'a list \<Rightarrow> nat \<Rightarrow> nat \<Rightarrow> 'a list option" where
  "go_slice line spare lo hi =
     (if lo \<le> hi \<and> hi \<le> length line + length spare
      then Some (take (hi - lo) (drop lo (line @ spare))) else None)"

definition go_suffix :: "'a list \<Rightarrow> nat \<Rightarrow> 'a list option" where
  "go_suffix line lo = (if lo \<le> length line then Some (drop lo line) else None)"

lemma go_slice_within:
  "lo \<le> hi \<Longrightarrow> hi \<le> length line \<Longrightarrow> go_slice line spare lo hi = Some (take (hi - lo) (drop lo line))"
  by (simp add: go_slice_def)

fun join_strings :: "go_string \<Rightarrow> go_string list \<Rightarrow> go_string" where
  "join_strings sep [] = []"
| "join_strings sep [x] = x"
| "join_strings sep (x # y # xs) = x @ sep @ join_strings sep (y # xs)"

text \<open>\<open>strings.Split\<close> at a single character.\<close>

fun split_on :: "char \<Rightarrow> go_string \<Rightarrow> go_string list" where
  "split_on c [] = [[]]"
| "split_on c (x # xs) =
     (if x = c then [] # split_on c xs
      else (case split_on c xs of [] \<Rightarrow> [[x]] | p # ps \<Rightarrow> (x # p) # ps))"

text \<open>\<open>string(b)\<close> for a byte \<open>b\<close>: the UTF-8 encoding of the code point with that number.\<close>

definition utf8_2 :: "nat \<Rightarrow> go_string" where
  "utf8_2 n = [char_of (192 + n div 64), char_of (128 + n mod 64)]"

definition string_of_byte :: "char \<Rightarrow> go_string" where
  "string_of_byte c = (if of_char c < (128::nat) then [c] else utf8_2 (of_char c))"

text \<open>\<open>%c\<close> and \<open>string(rune)\<close>: UTF-8, with U+FFFD for what is no Unicode scalar value.\<close>

definition utf8_of_rune :: "int \<Rightarrow> go_string" where
  "utf8_of_rune r =
     (if r < 0 \<or> 1114111 < r \<or> (55296 \<le> r \<and> r \<le> 57343)
      then [char_of (239::nat), char_of (191::nat), char_of (189::nat)]
      else let n = nat r in
        if n < 128 then [char_of n]
        else if n < 2048 then utf8_2 n
        else if n < 65536
        then [char_of (224 + n div 4096), char_of (128 + n div 64 mod 64), char_of (128 + n mod 64)]
        else [char_of (240 + n div 262144), char_of (128 + n div 4096 mod 64),
              char_of (128 + n div 64 mod 64), char_of (128 + n mod 64)])"

lemma string_of_byte_ascii [simp]: "of_char c < (128::nat) \<Longrightarrow> string_of_byte c = [c]"
  by (simp add: string_of_byte_def)

text \<open>\<open>%d\<close> of \<open>fmt\<close>: decimal digits without leading zeros.\<close>

fun dec_nat :: "nat \<Rightarrow> go_string" where
  "dec_nat n = (if n < 10 then [char_of (48 + n)] else dec_nat (n div 10) @ [char_of (48 + n mod 10)])"

declare dec_nat.simps [simp del]

definition dec_int :: "int \<Rightarrow> go_string" where
  "dec_int i = (if i < 0 then CHR ''-'' # dec_nat (nat (- i)) else dec_nat (nat i))"

definition digit_char :: "char \<Rightarrow> bool" where
  "digit_char c \<longleftrightarrow> 48 \<le> (of_char c :: nat) \<and> (of_char c :: nat) \<le> 57"

lemma of_char_digit [simp]: "(n::nat) < 10 \<Longrightarrow> of_char (char_of (48 + n) :: char) = 48 + n"
  by simp

lemma digit_char_of: "(n::nat) < 10 \<Longrightarrow> digit_char (char_of (48 + n))"
  by (simp add: digit_char_def)

lemma dec_nat_nonempty: "dec_nat n \<noteq> []"
  by (subst dec_nat.simps) simp

lemma dec_nat_digits: "\<forall>c \<in> set (dec_nat n). digit_char c"
proof (induction n rule: dec_nat.induct)
  case (1 n)
  show ?case
  proof (cases "n < 10")
    case True
    then show ?thesis by (subst dec_nat.simps) (simp add: digit_char_of)
  next
    case False
    with 1 show ?thesis by (subst dec_nat.simps) (auto intro: digit_char_of)
  qed
qed

lemma dec_nat_inject: "dec_nat m = dec_nat n \<Longrightarrow> m = n"
proof (induction m arbitrary: n rule: dec_nat.induct)
  case (1 m)
  have unf: "dec_nat k = (if k < 10 then [char_of (48 + k)]
      else dec_nat (k div 10) @ [char_of (48 + k mod 10)])" for k
    by (rule dec_nat.simps)
  have ne: "dec_nat (k div 10) @ [c] \<noteq> [d]" for k c d
    using dec_nat_nonempty [of "k div 10"] by simp
  have ch: "a = b" if "char_of (48 + a) = (char_of (48 + b) :: char)" "a < 10" "b < 10" for a b :: nat
    using arg_cong [where f = "of_char :: char \<Rightarrow> nat", OF that(1)] that(2,3) by simp
  show ?case
  proof (cases "m < 10")
    case True
    then have "n < 10" using "1.prems" ne [of n] by (auto simp: unf [of m] unf [of n] split: if_splits)
    with True "1.prems" show ?thesis by (intro ch) (simp_all add: unf [of m] unf [of n])
  next
    case False
    then have "\<not> n < 10" using "1.prems" ne [of m] by (auto simp: unf [of m] unf [of n] split: if_splits)
    with False "1.prems" have d: "dec_nat (m div 10) = dec_nat (n div 10)"
      and c: "char_of (48 + m mod 10) = (char_of (48 + n mod 10) :: char)"
      by (simp_all add: unf [of m] unf [of n])
    have "m div 10 = n div 10" using "1.IH" [OF False d] .
    moreover have "m mod 10 = n mod 10" by (rule ch [OF c]) simp_all
    ultimately show ?thesis by (metis mult_div_mod_eq)
  qed
qed

section \<open>Results with errors\<close>

definition and_then :: "'e + 'a \<Rightarrow> ('a \<Rightarrow> 'e + 'b) \<Rightarrow> 'e + 'b" where
  "and_then r f = (case r of Inl e \<Rightarrow> Inl e | Inr x \<Rightarrow> f x)"

lemma and_then_cong [fundef_cong]:
  "r = r' \<Longrightarrow> (\<And>x. r' = Inr x \<Longrightarrow> f x = f' x) \<Longrightarrow> and_then r f = and_then r' f'"
  by (cases r') (auto simp: and_then_def)

definition map_ok :: "('a \<Rightarrow> 'b) \<Rightarrow> 'e + 'a \<Rightarrow> 'e + 'b" where
  "map_ok f r = (case r of Inl e \<Rightarrow> Inl e | Inr x \<Rightarrow> Inr (f x))"

text \<open>The results of a list, or the first error.\<close>

fun all_ok :: "('e + 'a) list \<Rightarrow> 'e + 'a list" where
  "all_ok [] = Inr []"
| "all_ok (r # rs) = and_then r (\<lambda>x. map_ok (\<lambda>xs. x # xs) (all_ok rs))"

lemma and_then_simps [simp]:
  "and_then (Inr x) f = f x" "and_then (Inl e) f = Inl e" "map_ok g (Inr x) = Inr (g x)" "map_ok g (Inl e) = Inl e"
  by (simp_all add: and_then_def map_ok_def)

lemma and_then_Inr: "and_then r f = Inr y \<longleftrightarrow> (\<exists>x. r = Inr x \<and> f x = Inr y)"
  by (cases r) auto

lemma map_ok_Inr: "map_ok f r = Inr y \<longleftrightarrow> (\<exists>x. r = Inr x \<and> y = f x)"
  by (cases r) auto

lemma all_ok_Inr: "(\<exists>xs. all_ok rs = Inr xs) \<longleftrightarrow> (\<forall>r\<in>set rs. \<exists>x. r = Inr x)"
  by (induction rs) (auto simp: and_then_Inr map_ok_Inr)

end
