(* ===== verification/Tokens.thy ===== *)
theory Tokens
  imports Prelude
begin

text \<open>
  \<open>internal/ast/tokens.go\<close> and \<open>internal/ast/compound_assign.go\<close>: token identifiers, tokens and
  the classification predicates the parser and the editor support use. \<open>TokenIdent\<close> is a Go string
  type, so its constants are string constants here too.
\<close>

type_synonym TokenIdent = string

abbreviation TokenImport :: TokenIdent where "TokenImport \<equiv> ''IMPORT''"
abbreviation TokenPackage :: TokenIdent where "TokenPackage \<equiv> ''PACKAGE''"
abbreviation TokenIdentifier :: TokenIdent where "TokenIdentifier \<equiv> ''IDENTIFIER''"
abbreviation TokenFunc :: TokenIdent where "TokenFunc \<equiv> ''FUNCTION''"
abbreviation TokenType :: TokenIdent where "TokenType \<equiv> ''TYPE''"
abbreviation TokenError :: TokenIdent where "TokenError \<equiv> ''ERROR_KW''"
abbreviation TokenInt :: TokenIdent where "TokenInt \<equiv> ''TYPE_INT''"
abbreviation TokenFloat :: TokenIdent where "TokenFloat \<equiv> ''TYPE_FLOAT''"
abbreviation TokenString :: TokenIdent where "TokenString \<equiv> ''TYPE_STRING''"
abbreviation TokenBool :: TokenIdent where "TokenBool \<equiv> ''TYPE_BOOL''"
abbreviation TokenArray :: TokenIdent where "TokenArray \<equiv> ''TYPE_ARRAY''"
abbreviation TokenStruct :: TokenIdent where "TokenStruct \<equiv> ''TYPE_STRUCT''"
abbreviation TokenVoid :: TokenIdent where "TokenVoid \<equiv> ''TYPE_VOID''"
abbreviation TokenIntLiteral :: TokenIdent where "TokenIntLiteral \<equiv> ''INT_LITERAL''"
abbreviation TokenFloatLiteral :: TokenIdent where "TokenFloatLiteral \<equiv> ''FLOAT_LITERAL''"
abbreviation TokenStringLiteral :: TokenIdent where "TokenStringLiteral \<equiv> ''STRING_LITERAL''"
abbreviation TokenRuneLiteral :: TokenIdent where "TokenRuneLiteral \<equiv> ''RUNE_LITERAL''"
abbreviation TokenTrue :: TokenIdent where "TokenTrue \<equiv> ''TRUE_LITERAL''"
abbreviation TokenFalse :: TokenIdent where "TokenFalse \<equiv> ''FALSE_LITERAL''"
abbreviation TokenNil :: TokenIdent where "TokenNil \<equiv> ''NIL_LITERAL''"
abbreviation TokenLParen :: TokenIdent where "TokenLParen \<equiv> ''LPAREN''"
abbreviation TokenRParen :: TokenIdent where "TokenRParen \<equiv> ''RPAREN''"
abbreviation TokenLBrace :: TokenIdent where "TokenLBrace \<equiv> ''LBRACE''"
abbreviation TokenRBrace :: TokenIdent where "TokenRBrace \<equiv> ''RBRACE''"
abbreviation TokenLBracket :: TokenIdent where "TokenLBracket \<equiv> ''LBRACKET''"
abbreviation TokenRBracket :: TokenIdent where "TokenRBracket \<equiv> ''RBRACKET''"
abbreviation TokenReturn :: TokenIdent where "TokenReturn \<equiv> ''RETURN''"
abbreviation TokenEnsure :: TokenIdent where "TokenEnsure \<equiv> ''ENSURE''"
abbreviation TokenUse :: TokenIdent where "TokenUse \<equiv> ''USE''"
abbreviation TokenWith :: TokenIdent where "TokenWith \<equiv> ''WITH''"
abbreviation TokenIs :: TokenIdent where "TokenIs \<equiv> ''IS''"
abbreviation TokenOr :: TokenIdent where "TokenOr \<equiv> ''OR''"
abbreviation TokenEOF :: TokenIdent where "TokenEOF \<equiv> ''EOF''"
abbreviation TokenColon :: TokenIdent where "TokenColon \<equiv> ''COLON''"
abbreviation TokenComma :: TokenIdent where "TokenComma \<equiv> ''COMMA''"
abbreviation TokenDot :: TokenIdent where "TokenDot \<equiv> ''DOT''"
abbreviation TokenEllipsis :: TokenIdent where "TokenEllipsis \<equiv> ''ELLIPSIS''"
abbreviation TokenColonEquals :: TokenIdent where "TokenColonEquals \<equiv> ''COLON_EQUALS''"
abbreviation TokenSemicolon :: TokenIdent where "TokenSemicolon \<equiv> ''SEMICOLON''"
abbreviation TokenPlusPlus :: TokenIdent where "TokenPlusPlus \<equiv> ''PLUS_PLUS''"
abbreviation TokenMinusMinus :: TokenIdent where "TokenMinusMinus \<equiv> ''MINUS_MINUS''"
abbreviation TokenPlus :: TokenIdent where "TokenPlus \<equiv> ''PLUS''"
abbreviation TokenMinus :: TokenIdent where "TokenMinus \<equiv> ''MINUS''"
abbreviation TokenStar :: TokenIdent where "TokenStar \<equiv> ''STAR''"
abbreviation TokenDivide :: TokenIdent where "TokenDivide \<equiv> ''DIVIDE''"
abbreviation TokenModulo :: TokenIdent where "TokenModulo \<equiv> ''MODULO''"
abbreviation TokenEquals :: TokenIdent where "TokenEquals \<equiv> ''EQUALS''"
abbreviation TokenNotEquals :: TokenIdent where "TokenNotEquals \<equiv> ''NOT_EQUALS''"
abbreviation TokenGreater :: TokenIdent where "TokenGreater \<equiv> ''GREATER''"
abbreviation TokenLess :: TokenIdent where "TokenLess \<equiv> ''LESS''"
abbreviation TokenGreaterEqual :: TokenIdent where "TokenGreaterEqual \<equiv> ''GREATER_EQUAL''"
abbreviation TokenLessEqual :: TokenIdent where "TokenLessEqual \<equiv> ''LESS_EQUAL''"
abbreviation TokenLogicalAnd :: TokenIdent where "TokenLogicalAnd \<equiv> ''LOGICAL_AND''"
abbreviation TokenLogicalOr :: TokenIdent where "TokenLogicalOr \<equiv> ''LOGICAL_OR''"
abbreviation TokenLogicalNot :: TokenIdent where "TokenLogicalNot \<equiv> ''LOGICAL_NOT''"
abbreviation TokenBitwiseAnd :: TokenIdent where "TokenBitwiseAnd \<equiv> ''BITWISE_AND''"
abbreviation TokenBitwiseOr :: TokenIdent where "TokenBitwiseOr \<equiv> ''BITWISE_OR''"
abbreviation TokenXor :: TokenIdent where "TokenXor \<equiv> ''XOR''"
abbreviation TokenLShift :: TokenIdent where "TokenLShift \<equiv> ''LSHIFT''"
abbreviation TokenRShift :: TokenIdent where "TokenRShift \<equiv> ''RSHIFT''"
abbreviation TokenAndNot :: TokenIdent where "TokenAndNot \<equiv> ''AND_NOT''"
abbreviation TokenComment :: TokenIdent where "TokenComment \<equiv> ''COMMENT''"
abbreviation TokenIf :: TokenIdent where "TokenIf \<equiv> ''IF''"
abbreviation TokenElseIf :: TokenIdent where "TokenElseIf \<equiv> ''ELSE_IF''"
abbreviation TokenElse :: TokenIdent where "TokenElse \<equiv> ''ELSE''"
abbreviation TokenFor :: TokenIdent where "TokenFor \<equiv> ''FOR''"
abbreviation TokenRange :: TokenIdent where "TokenRange \<equiv> ''RANGE''"
abbreviation TokenBreak :: TokenIdent where "TokenBreak \<equiv> ''BREAK''"
abbreviation TokenContinue :: TokenIdent where "TokenContinue \<equiv> ''CONTINUE''"
abbreviation TokenSwitch :: TokenIdent where "TokenSwitch \<equiv> ''SWITCH''"
abbreviation TokenCase :: TokenIdent where "TokenCase \<equiv> ''CASE''"
abbreviation TokenDefault :: TokenIdent where "TokenDefault \<equiv> ''DEFAULT''"
abbreviation TokenFallthrough :: TokenIdent where "TokenFallthrough \<equiv> ''FALLTHROUGH''"
abbreviation TokenVar :: TokenIdent where "TokenVar \<equiv> ''VAR''"
abbreviation TokenConst :: TokenIdent where "TokenConst \<equiv> ''CONST''"
abbreviation TokenIota :: TokenIdent where "TokenIota \<equiv> ''IOTA''"
abbreviation TokenMap :: TokenIdent where "TokenMap \<equiv> ''MAP''"
abbreviation TokenChan :: TokenIdent where "TokenChan \<equiv> ''CHAN''"
abbreviation TokenArrow :: TokenIdent where "TokenArrow \<equiv> ''ARROW''"
abbreviation TokenInterface :: TokenIdent where "TokenInterface \<equiv> ''INTERFACE''"
abbreviation TokenGo :: TokenIdent where "TokenGo \<equiv> ''GO''"
abbreviation TokenDefer :: TokenIdent where "TokenDefer \<equiv> ''DEFER''"
abbreviation TokenGoto :: TokenIdent where "TokenGoto \<equiv> ''GOTO''"
abbreviation TokenPlusEq :: TokenIdent where "TokenPlusEq \<equiv> ''PLUS_EQ''"
abbreviation TokenMinusEq :: TokenIdent where "TokenMinusEq \<equiv> ''MINUS_EQ''"
abbreviation TokenStarEq :: TokenIdent where "TokenStarEq \<equiv> ''STAR_EQ''"
abbreviation TokenDivideEq :: TokenIdent where "TokenDivideEq \<equiv> ''DIVIDE_EQ''"
abbreviation TokenModuloEq :: TokenIdent where "TokenModuloEq \<equiv> ''MODULO_EQ''"
abbreviation TokenBitwiseAndEq :: TokenIdent where "TokenBitwiseAndEq \<equiv> ''BITWISE_AND_EQ''"
abbreviation TokenBitwiseOrEq :: TokenIdent where "TokenBitwiseOrEq \<equiv> ''BITWISE_OR_EQ''"
abbreviation TokenXorEq :: TokenIdent where "TokenXorEq \<equiv> ''XOR_EQ''"
abbreviation TokenLShiftEq :: TokenIdent where "TokenLShiftEq \<equiv> ''LSHIFT_EQ''"
abbreviation TokenRShiftEq :: TokenIdent where "TokenRShiftEq \<equiv> ''RSHIFT_EQ''"
abbreviation TokenAndNotEq :: TokenIdent where "TokenAndNotEq \<equiv> ''AND_NOT_EQ''"

record Token =
  Type :: TokenIdent
  Value :: go_string
  FileID :: go_string
  Line :: nat
  Column :: nat

section \<open>Operator classes\<close>

definition IsBinaryOperator :: "TokenIdent \<Rightarrow> bool" where
  "IsBinaryOperator t \<longleftrightarrow> t = TokenPlus \<or> t = TokenMinus \<or>
     t = TokenStar \<or> t = TokenDivide \<or>
     t = TokenModulo \<or> t = TokenEquals \<or>
     t = TokenNotEquals \<or> t = TokenGreater \<or>
     t = TokenLess \<or> t = TokenGreaterEqual \<or>
     t = TokenLessEqual \<or> t = TokenLogicalAnd \<or>
     t = TokenLogicalOr \<or> t = TokenIs \<or>
     t = TokenBitwiseAnd \<or> t = TokenBitwiseOr \<or>
     t = TokenXor \<or> t = TokenLShift \<or> t = TokenRShift \<or>
     t = TokenAndNot"

definition IsUnaryOperator :: "TokenIdent \<Rightarrow> bool" where
  "IsUnaryOperator t \<longleftrightarrow> t = TokenLogicalNot"

definition IsLiteral :: "TokenIdent \<Rightarrow> bool" where
  "IsLiteral t \<longleftrightarrow> t = TokenIntLiteral \<or> t = TokenFloatLiteral \<or> t = TokenStringLiteral \<or>
     t = TokenRuneLiteral \<or> t = TokenTrue \<or> t = TokenFalse \<or> t = TokenNil"

definition IsArithmeticBinaryOperator :: "TokenIdent \<Rightarrow> bool" where
  "IsArithmeticBinaryOperator t \<longleftrightarrow>
     t = TokenPlus \<or> t = TokenMinus \<or> t = TokenStar \<or> t = TokenDivide \<or> t = TokenModulo"

definition IsComparisonBinaryOperator :: "TokenIdent \<Rightarrow> bool" where
  "IsComparisonBinaryOperator t \<longleftrightarrow> t = TokenEquals \<or> t = TokenNotEquals \<or> t = TokenGreater \<or>
     t = TokenLess \<or> t = TokenGreaterEqual \<or> t = TokenLessEqual"

definition IsLogicalBinaryOperator :: "TokenIdent \<Rightarrow> bool" where
  "IsLogicalBinaryOperator t \<longleftrightarrow> t = TokenLogicalAnd \<or> t = TokenLogicalOr"

definition IsBitwiseBinaryOperator :: "TokenIdent \<Rightarrow> bool" where
  "IsBitwiseBinaryOperator t \<longleftrightarrow> t = TokenBitwiseAnd \<or> t = TokenBitwiseOr \<or>
     t = TokenXor \<or> t = TokenLShift \<or> t = TokenRShift \<or> t = TokenAndNot"

definition CanEndOperand :: "TokenIdent \<Rightarrow> bool" where
  "CanEndOperand t \<longleftrightarrow>
     (if t \<in> {TokenIdentifier, TokenRParen, TokenRBracket, TokenRBrace,
              TokenPlusPlus, TokenMinusMinus, TokenIota}
      then True else IsLiteral t)"

definition TokenIdent_String :: "TokenIdent \<Rightarrow> go_string" where
  "TokenIdent_String t =
     (if t = TokenBitwiseAnd then ''&''
      else if t = TokenBitwiseOr then ''|''
      else if t = TokenXor then ''^''
      else if t = TokenLShift then ''<<''
      else if t = TokenRShift then ''>>''
      else if t = TokenAndNot then ''&^''
      else if t = TokenLogicalAnd then ''&&''
      else if t = TokenLogicalOr then ''||''
      else t)"

lemmas operator_class_defs =
  IsBinaryOperator_def IsArithmeticBinaryOperator_def IsComparisonBinaryOperator_def
  IsLogicalBinaryOperator_def IsBitwiseBinaryOperator_def IsUnaryOperator_def IsLiteral_def

section \<open>Unary and binary ampersand\<close>

text \<open>
  The loop of \<open>PreviousNonCommentTokenIndex\<close> counts down from \<open>idx - 1\<close>. Go's \<open>-1\<close> is
  \<open>None\<close>. An index beyond the tokens would panic in Go; both callers pass an index in range.
\<close>

fun PreviousNonCommentTokenIndex :: "Token list \<Rightarrow> nat \<Rightarrow> nat option" where
  "PreviousNonCommentTokenIndex tokens 0 = None"
| "PreviousNonCommentTokenIndex tokens (Suc i) =
     (if Type (tokens ! i) \<noteq> TokenComment then Some i
      else PreviousNonCommentTokenIndex tokens i)"

definition IsUnaryAmpersandAt :: "Token list \<Rightarrow> int \<Rightarrow> bool" where
  "IsUnaryAmpersandAt tokens idx \<longleftrightarrow>
     (if idx < 0 \<or> idx \<ge> int (length tokens) \<or> Type (tokens ! nat idx) \<noteq> TokenBitwiseAnd
      then False
      else case PreviousNonCommentTokenIndex tokens (nat idx) of
             None \<Rightarrow> True
           | Some prev \<Rightarrow> \<not> CanEndOperand (Type (tokens ! prev)))"

lemma PreviousNonCommentTokenIndex_Some:
  "PreviousNonCommentTokenIndex tokens n = Some i \<longleftrightarrow>
     i < n \<and> Type (tokens ! i) \<noteq> TokenComment \<and>
     (\<forall>j. i < j \<and> j < n \<longrightarrow> Type (tokens ! j) = TokenComment)"
proof (induction n)
  case 0
  then show ?case by simp
next
  case (Suc n)
  show ?case
  proof (cases "Type (tokens ! n) = TokenComment")
    case True
    with Suc.IH show ?thesis by (auto simp: less_Suc_eq)
  next
    case False
    then show ?thesis by (auto simp: less_Suc_eq)
  qed
qed

lemma PreviousNonCommentTokenIndex_None:
  "PreviousNonCommentTokenIndex tokens n = None \<longleftrightarrow>
     (\<forall>j < n. Type (tokens ! j) = TokenComment)"
  by (induction n) (auto simp: less_Suc_eq)

section \<open>Compound assignment\<close>

definition IsCompoundAssignToken :: "TokenIdent \<Rightarrow> bool" where
  "IsCompoundAssignToken t \<longleftrightarrow>
     t \<in> {TokenPlusEq, TokenMinusEq, TokenStarEq, TokenDivideEq, TokenModuloEq,
          TokenBitwiseAndEq, TokenBitwiseOrEq, TokenXorEq, TokenLShiftEq, TokenRShiftEq,
          TokenAndNotEq}"

definition IsAssignmentOperatorToken :: "Token \<Rightarrow> bool" where
  "IsAssignmentOperatorToken tok \<longleftrightarrow>
     (if Type tok = TokenColonEquals then True
      else if Type tok = TokenEquals then Value tok = ''=''
      else IsCompoundAssignToken (Type tok))"

definition CompoundAssignBinaryOp :: "TokenIdent \<Rightarrow> TokenIdent option" where
  "CompoundAssignBinaryOp t =
     (if t = TokenPlusEq then Some TokenPlus
      else if t = TokenMinusEq then Some TokenMinus
      else if t = TokenStarEq then Some TokenStar
      else if t = TokenDivideEq then Some TokenDivide
      else if t = TokenModuloEq then Some TokenModulo
      else if t = TokenBitwiseAndEq then Some TokenBitwiseAnd
      else if t = TokenBitwiseOrEq then Some TokenBitwiseOr
      else if t = TokenXorEq then Some TokenXor
      else if t = TokenLShiftEq then Some TokenLShift
      else if t = TokenRShiftEq then Some TokenRShift
      else if t = TokenAndNotEq then Some TokenAndNot
      else None)"

definition CompoundAssignOperatorString :: "TokenIdent \<Rightarrow> go_string" where
  "CompoundAssignOperatorString t =
     (if t = TokenPlusEq then ''+=''
      else if t = TokenMinusEq then ''-=''
      else if t = TokenStarEq then ''*=''
      else if t = TokenDivideEq then ''/=''
      else if t = TokenModuloEq then ''%=''
      else if t = TokenBitwiseAndEq then ''&=''
      else if t = TokenBitwiseOrEq then ''|=''
      else if t = TokenXorEq then ''^=''
      else if t = TokenLShiftEq then ''<<=''
      else if t = TokenRShiftEq then ''>>=''
      else if t = TokenAndNotEq then ''&^=''
      else t)"

lemma CompoundAssignBinaryOp_total:
  "(CompoundAssignBinaryOp t \<noteq> None) = IsCompoundAssignToken t"
  by (simp add: CompoundAssignBinaryOp_def IsCompoundAssignToken_def)

end
