(* ===== verification/Lexer_Scan.thy ===== *)
theory Lexer_Scan
  imports Tokens
begin

text \<open>
  \<open>internal/lexer/classify.go\<close>, \<open>tokens.go\<close> and \<open>process.go\<close>: character classes, the keyword and
  operator tables, and the three functions that cut one token out of a line. A line is the list of
  its bytes. Go's \<open>unicode\<close> predicates are applied to \<open>rune(c)\<close> for a byte \<open>c\<close>, so they are
  the Latin-1 parts of those classes. A run-time panic is \<open>None\<close>.
\<close>

section \<open>Character classes\<close>

definition isSpecialChar :: "char \<Rightarrow> bool" where
  "isSpecialChar c \<longleftrightarrow> c \<in> set ''(){}:,+-*/%=!><&|.[];^''"

definition is_space :: "char \<Rightarrow> bool" where
  "is_space c \<longleftrightarrow> (let n = (of_char c :: nat) in (9 \<le> n \<and> n \<le> 13) \<or> n = 32 \<or> n = 133 \<or> n = 160)"

definition is_letter :: "char \<Rightarrow> bool" where
  "is_letter c \<longleftrightarrow> (let n = (of_char c :: nat) in
     (65 \<le> n \<and> n \<le> 90) \<or> (97 \<le> n \<and> n \<le> 122) \<or> n = 170 \<or> n = 181 \<or> n = 186 \<or>
     (192 \<le> n \<and> n \<le> 214) \<or> (216 \<le> n \<and> n \<le> 246) \<or> 248 \<le> n)"

definition isDigit :: "char \<Rightarrow> bool" where
  "isDigit c \<longleftrightarrow> digit_char c"

definition three_char_operators :: "string list" where
  "three_char_operators = [''<<='', ''>>='', ''&^='']"

definition two_char_operators :: "string list" where
  "two_char_operators =
     [''->'', ''<-'', ''=='', ''!='', ''>='', ''<='', ''&&'', ''||'', '':='', ''//'',
      ''++'', ''--'', ''+='', ''-='', ''*='', ''/='', ''%='', ''&='', ''|='',
      ''<<'', ''>>'', ''&^'', ''^='']"

definition operatorSpan :: "string \<Rightarrow> nat \<Rightarrow> nat" where
  "operatorSpan line start =
     (if start \<ge> length line then 0
      else if start + 2 < length line \<and> take 3 (drop start line) \<in> set three_char_operators then 3
      else if start + 1 < length line \<and> take 2 (drop start line) \<in> set two_char_operators then 2
      else 1)"

definition isTwoCharOperator :: "string \<Rightarrow> bool" where
  "isTwoCharOperator s \<longleftrightarrow> length s = 2 \<and> operatorSpan s 0 = 2"

definition isEllipsis :: "string \<Rightarrow> nat \<Rightarrow> bool" where
  "isEllipsis line start \<longleftrightarrow>
     start + 2 < length line \<and> line ! start = CHR ''.'' \<and> line ! (start + 1) = CHR ''.'' \<and>
     line ! (start + 2) = CHR ''.''"

section \<open>Keyword and operator tables\<close>

definition Keywords :: "(string \<times> TokenIdent) list" where
  "Keywords =
     [(''func'', TokenFunc),
      (''import'', TokenImport),
      (''package'', TokenPackage),
      (''String'', TokenString),
      (''Int'', TokenInt),
      (''Float'', TokenFloat),
      (''Bool'', TokenBool),
      (''Void'', TokenVoid),
      (''Array'', TokenArray),
      (''return'', TokenReturn),
      (''ensure'', TokenEnsure),
      (''use'', TokenUse),
      (''with'', TokenWith),
      (''is'', TokenIs),
      (''or'', TokenOr),
      (''type'', TokenType),
      (''error'', TokenError),
      (''if'', TokenIf),
      (''else if'', TokenElseIf),
      (''else'', TokenElse),
      (''for'', TokenFor),
      (''range'', TokenRange),
      (''break'', TokenBreak),
      (''continue'', TokenContinue),
      (''switch'', TokenSwitch),
      (''case'', TokenCase),
      (''default'', TokenDefault),
      (''fallthrough'', TokenFallthrough),
      (''var'', TokenVar),
      (''const'', TokenConst),
      (''iota'', TokenIota),
      (''map'', TokenMap),
      (''chan'', TokenChan),
      (''interface'', TokenInterface),
      (''struct'', TokenStruct),
      (''go'', TokenGo),
      (''defer'', TokenDefer),
      (''goto'', TokenGoto),
      (''nil'', TokenNil),
      (''true'', TokenTrue),
      (''false'', TokenFalse)]"

definition Operators :: "(string \<times> TokenIdent) list" where
  "Operators =
     [(''//'', TokenComment),
      (''('', TokenLParen),
      ('')'', TokenRParen),
      (''{'', TokenLBrace),
      (''}'', TokenRBrace),
      (''['', TokenLBracket),
      ('']'', TokenRBracket),
      (''+'', TokenPlus),
      (''++'', TokenPlusPlus),
      (''-'', TokenMinus),
      (''--'', TokenMinusMinus),
      (''*'', TokenStar),
      (''/'', TokenDivide),
      (''%'', TokenModulo),
      (''=='', TokenEquals),
      (''!='', TokenNotEquals),
      (''>'', TokenGreater),
      (''<'', TokenLess),
      (''>='', TokenGreaterEqual),
      (''<='', TokenLessEqual),
      (''&&'', TokenLogicalAnd),
      (''||'', TokenLogicalOr),
      ('':='', TokenColonEquals),
      (''!'', TokenLogicalNot),
      ('':'', TokenColon),
      ('','', TokenComma),
      (''.'', TokenDot),
      (''...'', TokenEllipsis),
      ('';'', TokenSemicolon),
      (''='', TokenEquals),
      (''&'', TokenBitwiseAnd),
      (''|'', TokenBitwiseOr),
      (''^'', TokenXor),
      (''<<'', TokenLShift),
      (''>>'', TokenRShift),
      (''&^'', TokenAndNot),
      (''->'', TokenArrow),
      (''<-'', TokenArrow),
      (''+='', TokenPlusEq),
      (''-='', TokenMinusEq),
      (''*='', TokenStarEq),
      (''/='', TokenDivideEq),
      (''%='', TokenModuloEq),
      (''&='', TokenBitwiseAndEq),
      (''|='', TokenBitwiseOrEq),
      (''^='', TokenXorEq),
      (''<<='', TokenLShiftEq),
      (''>>='', TokenRShiftEq),
      (''&^='', TokenAndNotEq)]"

definition GetTokenType :: "string \<Rightarrow> TokenIdent option" where
  "GetTokenType word =
     (case map_of Keywords word of
        Some tokenType \<Rightarrow> Some tokenType
      | None \<Rightarrow>
        (case map_of Operators word of
           Some tokenType \<Rightarrow> Some tokenType
         | None \<Rightarrow>
           (case word of
              [] \<Rightarrow> None
            | c # _ \<Rightarrow>
              if isDigit c
              then if \<exists>d \<in> set word. d \<in> {CHR ''.'', CHR ''e'', CHR ''E'', CHR ''i''}
                   then Some TokenFloatLiteral else Some TokenIntLiteral
              else Some TokenIdentifier)))"

section \<open>Cutting one token out of a line\<close>

definition mk_token :: "TokenIdent \<Rightarrow> string \<Rightarrow> string \<Rightarrow> nat \<Rightarrow> nat \<Rightarrow> Token" where
  "mk_token ty v fileID lineNum col =
     \<lparr>Type = ty, Value = v, FileID = fileID, Line = lineNum, Column = col\<rparr>"

lemma mk_token_sel [simp]:
  "Type (mk_token ty v f l c) = ty" "Value (mk_token ty v f l c) = v"
  "FileID (mk_token ty v f l c) = f" "Line (mk_token ty v f l c) = l" "Column (mk_token ty v f l c) = c"
  by (simp_all add: mk_token_def)

abbreviation backslash :: char where "backslash \<equiv> CHR 0x5C"
abbreviation backtick :: char where "backtick \<equiv> CHR 0x60"
abbreviation dquote :: char where "dquote \<equiv> CHR 0x22"
abbreviation squote :: char where "squote \<equiv> CHR 0x27"
abbreviation newline :: char where "newline \<equiv> CHR 0x0A"

function scan_backtick :: "string \<Rightarrow> nat \<Rightarrow> nat" where
  "scan_backtick line column =
     (if column < length line \<and> line ! column \<noteq> backtick then scan_backtick line (column + 1)
      else column)"
  by pat_completeness auto
termination
  by (relation "measure (\<lambda>(line, column). length line - column)") auto

function scan_quoted :: "string \<Rightarrow> char \<Rightarrow> nat \<Rightarrow> nat" where
  "scan_quoted line quoteChar column =
     (if column < length line
      then if line ! column = backslash then scan_quoted line quoteChar (column + 2)
           else if line ! column = quoteChar then column + 1
           else scan_quoted line quoteChar (column + 1)
      else column)"
  by pat_completeness auto
termination
  by (relation "measure (\<lambda>(line, q, column). length line - column)") auto

definition processStringLiteral ::
  "string \<Rightarrow> string \<Rightarrow> nat \<Rightarrow> string \<Rightarrow> nat \<Rightarrow> (Token \<times> nat) option" where
  "processStringLiteral line spare startCol fileID lineNum =
     (if startCol \<ge> length line then None
      else let quoteChar = line ! startCol in
        if quoteChar = backtick
        then let c = scan_backtick line (startCol + 1);
                 column = (if c < length line then c + 1 else c)
             in map_option (\<lambda>word. (mk_token TokenStringLiteral word fileID lineNum (startCol + 1), column))
                  (go_slice line spare startCol column)
        else let column = scan_quoted line quoteChar (startCol + 1);
                 tokType = (if quoteChar = squote then TokenRuneLiteral else TokenStringLiteral)
             in map_option (\<lambda>word. (mk_token tokType word fileID lineNum (startCol + 1), column))
                  (go_slice line spare startCol column))"

definition special_end :: "string \<Rightarrow> nat \<Rightarrow> nat" where
  "special_end line startCol =
     (if isEllipsis line startCol then startCol + 3
      else let span = operatorSpan line startCol in startCol + (if span \<le> 0 then 1 else span))"

definition processSpecialChar ::
  "string \<Rightarrow> string \<Rightarrow> nat \<Rightarrow> string \<Rightarrow> nat \<Rightarrow> (Token \<times> nat) option" where
  "processSpecialChar line spare startCol fileID lineNum =
     (let column = special_end line startCol
      in case go_slice line spare startCol column of
           None \<Rightarrow> None
         | Some word \<Rightarrow>
           if word = ''//''
           then Some (mk_token TokenComment (''//'' @ concat (map string_of_byte (drop column line)))
                        fileID lineNum (startCol + 1), max column (length line))
           else map_option (\<lambda>ty. (mk_token ty word fileID lineNum (startCol + 1), column))
                  (GetTokenType word))"

text \<open>The digit loop of \<open>processWord\<close> returns the column and whether a decimal point, an exponent or
  an imaginary suffix was met.\<close>

function scan_number :: "string \<Rightarrow> nat \<Rightarrow> bool \<Rightarrow> bool \<Rightarrow> nat \<times> bool" where
  "scan_number line column hasDecimal hasExponent =
     (if column < length line
      then let c = line ! column in
        if c = CHR ''.'' \<and> \<not> hasDecimal \<and> \<not> hasExponent
        then scan_number line (column + 1) True hasExponent
        else if (c = CHR ''e'' \<or> c = CHR ''E'') \<and> \<not> hasExponent
        then scan_number line
               (if column + 1 < length line \<and> (line ! (column + 1) = CHR ''+'' \<or> line ! (column + 1) = CHR ''-'')
                then column + 2 else column + 1)
               hasDecimal True
        else if c = CHR ''i'' then (column + 1, True)
        else if \<not> isDigit c \<and> \<not> is_letter c then (column, hasDecimal \<or> hasExponent)
        else scan_number line (column + 1) hasDecimal hasExponent
      else (column, hasDecimal \<or> hasExponent))"
  by pat_completeness auto
termination
  by (relation "measure (\<lambda>(line, column, d, e). length line - column)") (auto split: if_splits)

function scan_word :: "string \<Rightarrow> nat \<Rightarrow> nat" where
  "scan_word line column =
     (if column < length line \<and> \<not> is_space (line ! column) \<and> \<not> isSpecialChar (line ! column)
      then scan_word line (column + 1) else column)"
  by pat_completeness auto
termination
  by (relation "measure (\<lambda>(line, column). length line - column)") auto

declare scan_backtick.simps [simp del] scan_quoted.simps [simp del]
  scan_number.simps [simp del] scan_word.simps [simp del]

definition number_start :: "string \<Rightarrow> nat \<Rightarrow> nat" where
  "number_start line column =
     (if line ! column = CHR ''0'' \<and> column + 1 < length line \<and>
         line ! (column + 1) \<in> set ''xXbBoO''
      then column + 2 else column)"

definition processWord ::
  "string \<Rightarrow> string \<Rightarrow> nat \<Rightarrow> string \<Rightarrow> nat \<Rightarrow> (Token \<times> nat) option" where
  "processWord line spare startCol fileID lineNum =
     (if startCol \<ge> length line then None
      else if isDigit (line ! startCol)
      then case scan_number line (number_start line startCol) False False of
             (column, isFloat) \<Rightarrow>
               map_option (\<lambda>word. (mk_token (if isFloat then TokenFloatLiteral else TokenIntLiteral) word
                                      fileID lineNum (startCol + 1), column))
                 (go_slice line spare startCol column)
      else let column = scan_word line startCol in
        case go_slice line spare startCol column of
          None \<Rightarrow> None
        | Some word \<Rightarrow>
          map_option (\<lambda>ty. (mk_token ty word fileID lineNum (startCol + 1), column)) (GetTokenType word))"

section \<open>Bounds and progress of the scanners\<close>

lemma scan_backtick_bounds:
  "column \<le> length line \<Longrightarrow> column \<le> scan_backtick line column \<and> scan_backtick line column \<le> length line"
proof (induction line column rule: scan_backtick.induct)
  case (1 line column)
  then show ?case by (subst (1 2) scan_backtick.simps) auto
qed

text \<open>A quoted scan passes the end of the line only by the skipped byte of a trailing escape.\<close>

lemma scan_quoted_bounds:
  "column \<le> length line + 1 \<Longrightarrow>
     column \<le> scan_quoted line q column \<and> scan_quoted line q column \<le> length line + 1"
proof (induction line q column rule: scan_quoted.induct)
  case (1 line q column)
  then show ?case by (subst (1 2) scan_quoted.simps) auto
qed

lemma scan_quoted_no_escape:
  "column \<le> length line \<Longrightarrow> backslash \<notin> set line \<Longrightarrow> scan_quoted line q column \<le> length line"
proof (induction line q column rule: scan_quoted.induct)
  case (1 line q column)
  then show ?case by (subst scan_quoted.simps) (auto simp: in_set_conv_nth)
qed

lemma scan_number_bounds:
  "column \<le> length line \<Longrightarrow>
     column \<le> fst (scan_number line column d e) \<and> fst (scan_number line column d e) \<le> length line"
proof (induction line column d e rule: scan_number.induct)
  case (1 line column d e)
  show ?case
  proof (cases "column < length line")
    case False
    with 1 show ?thesis by (subst (1 2) scan_number.simps) simp
  next
    case True
    note IH = 1(1) [OF True refl] 1(2) [OF True refl] 1(3) [OF True refl]
    from True show ?thesis
      using IH by (subst (1 2) scan_number.simps) (auto simp: Let_def split: if_splits)
  qed
qed

lemma scan_number_progress:
  assumes "column < length line" and "isDigit (line ! column)"
  shows "column < fst (scan_number line column d e)"
proof -
  have "isDigit (line ! column) \<Longrightarrow> line ! column \<noteq> CHR ''.'' \<and> line ! column \<noteq> CHR ''e'' \<and>
      line ! column \<noteq> CHR ''E'' \<and> line ! column \<noteq> CHR ''i''"
    by (auto simp: isDigit_def digit_char_def)
  with assms have "scan_number line column d e = scan_number line (column + 1) d e"
    by (subst scan_number.simps) (simp add: Let_def)
  with assms scan_number_bounds [of "column + 1" line d e] show ?thesis by simp
qed

lemma number_start_bounds:
  "column < length line \<Longrightarrow> column \<le> number_start line column \<and> number_start line column \<le> length line"
  by (auto simp: number_start_def)

lemma scan_word_bounds:
  "column \<le> length line \<Longrightarrow> column \<le> scan_word line column \<and> scan_word line column \<le> length line"
proof (induction line column rule: scan_word.induct)
  case (1 line column)
  then show ?case by (subst (1 2) scan_word.simps) auto
qed

lemma scan_word_progress:
  assumes "column < length line" "\<not> is_space (line ! column)" "\<not> isSpecialChar (line ! column)"
  shows "column < scan_word line column"
proof -
  have "scan_word line column = scan_word line (column + 1)"
    using assms by (subst scan_word.simps) simp
  with assms scan_word_bounds [of "column + 1" line] show ?thesis by simp
qed

lemma processStringLiteral_progress:
  "processStringLiteral line spare c f n = Some (tok, c') \<Longrightarrow> c < c'"
  using scan_quoted_bounds [of "c + 1" line "line ! c"] scan_backtick_bounds [of "c + 1" line]
  by (auto simp: processStringLiteral_def Let_def split: if_splits)

lemma processSpecialChar_progress:
  "processSpecialChar line spare c f n = Some (tok, c') \<Longrightarrow> c < c'"
  by (auto simp: processSpecialChar_def special_end_def Let_def operatorSpan_def split: if_splits option.splits)

lemma processWord_progress:
  assumes "processWord line spare c f n = Some (tok, c')"
    and "\<not> is_space (line ! c)" and "\<not> isSpecialChar (line ! c)"
  shows "c < c'"
proof -
  from assms(1) have c: "c < length line" by (auto simp: processWord_def split: if_splits)
  show ?thesis
  proof (cases "isDigit (line ! c)")
    case True
    have "c < fst (scan_number line (number_start line c) False False)"
    proof (cases "number_start line c = c")
      case True
      with c \<open>isDigit (line ! c)\<close> show ?thesis by (simp add: scan_number_progress)
    next
      case False
      with number_start_bounds [OF c] scan_number_bounds [of "number_start line c" line False False]
      show ?thesis by simp
    qed
    with assms(1) c True show ?thesis
      by (auto simp: processWord_def split: prod.splits)
  next
    case False
    with assms(1) c scan_word_progress [OF c assms(2,3)] show ?thesis
      by (auto simp: processWord_def Let_def split: option.splits)
  qed
qed

end
