(* ===== verification/Lexer.thy ===== *)
theory Lexer
  imports Lexer_Scan
begin

text \<open>
  \<open>internal/lexer/lexer.go\<close> and \<open>lex.go\<close>: the lexer object and its main loop, line by line, with
  the block comments and raw strings that span lines kept in the state. \<open>None\<close> is a run-time panic
  (an out-of-range slice); logging is left out.
\<close>

section \<open>State\<close>

record Location =
  LineNum :: nat
  locColumn :: nat
  locFileID :: string

record Lexer =
  tokens :: "Token list"
  location :: Location
  accumulatingBlockComment :: bool
  blockCommentValue :: string
  blockCommentStartLine :: nat
  blockCommentStartCol :: nat
  blockCommentNesting :: int
  accumulatingBacktickString :: bool
  backtickStringValue :: string
  backtickStringStartLine :: nat
  backtickStringStartCol :: nat

definition New :: "string \<Rightarrow> Lexer" where
  "New fileID = \<lparr>tokens = [], location = \<lparr>LineNum = 0, locColumn = 0, locFileID = fileID\<rparr>,
     accumulatingBlockComment = False, blockCommentValue = [], blockCommentStartLine = 0,
     blockCommentStartCol = 0, blockCommentNesting = 0,
     accumulatingBacktickString = False, backtickStringValue = [], backtickStringStartLine = 0,
     backtickStringStartCol = 0\<rparr>"

abbreviation column_of :: "Lexer \<Rightarrow> nat" where
  "column_of l \<equiv> locColumn (location l)"

definition set_column :: "nat \<Rightarrow> Lexer \<Rightarrow> Lexer" where
  "set_column c l = l\<lparr>location := (location l)\<lparr>locColumn := c\<rparr>\<rparr>"

definition storeToken :: "Token \<Rightarrow> Lexer \<Rightarrow> Lexer" where
  "storeToken tok l = l\<lparr>tokens := tokens l @ [tok]\<rparr>"

section \<open>Block comments\<close>

text \<open>The scanning loop shared by the continuation of a block comment and its first line: column,
  collected text, nesting depth, and whether the comment was closed.\<close>

function scan_block_comment :: "string \<Rightarrow> nat \<Rightarrow> string \<Rightarrow> int \<Rightarrow> nat \<times> string \<times> int \<times> bool" where
  "scan_block_comment line column val nesting =
     (if column < length line
      then if column + 1 < length line \<and> line ! column = CHR ''/'' \<and> line ! (column + 1) = CHR ''*''
           then scan_block_comment line (column + 2) (val @ ''/*'') (nesting + 1)
           else if column + 1 < length line \<and> line ! column = CHR ''*'' \<and> line ! (column + 1) = CHR ''/''
           then if nesting - 1 = 0 then (column + 2, val @ ''*/'', 0, True)
                else scan_block_comment line (column + 2) (val @ ''*/'') (nesting - 1)
           else scan_block_comment line (column + 1) (val @ string_of_byte (line ! column)) nesting
      else (column, val, nesting, False))"
  by pat_completeness auto
termination
  by (relation "measure (\<lambda>(line, column, v, n). length line - column)") auto

declare scan_block_comment.simps [simp del]

text \<open>What both loops do with the result: emit the comment token when it was closed.\<close>

definition finish_block_comment :: "nat \<times> string \<times> int \<times> bool \<Rightarrow> Lexer \<Rightarrow> Lexer" where
  "finish_block_comment r l =
     (case r of (column, val, nesting, closed) \<Rightarrow>
        let l1 = set_column column (l\<lparr>blockCommentValue := val, blockCommentNesting := nesting\<rparr>)
        in if closed
           then (storeToken (mk_token TokenComment val (locFileID (location l1))
                   (blockCommentStartLine l1) (blockCommentStartCol l1)) l1)
                \<lparr>accumulatingBlockComment := False, blockCommentValue := []\<rparr>
           else l1)"

definition continue_block_comment :: "string \<Rightarrow> Lexer \<Rightarrow> Lexer" where
  "continue_block_comment line l =
     finish_block_comment
       (scan_block_comment line (column_of l) (blockCommentValue l @ [newline]) (blockCommentNesting l)) l"

definition start_block_comment :: "string \<Rightarrow> Lexer \<Rightarrow> Lexer" where
  "start_block_comment line l =
     (let l1 = l\<lparr>accumulatingBlockComment := True, blockCommentStartLine := LineNum (location l),
                 blockCommentStartCol := column_of l + 1\<rparr>
      in finish_block_comment (scan_block_comment line (column_of l + 2) ''/*'' 1) l1)"

section \<open>Raw strings\<close>

definition index_byte :: "string \<Rightarrow> char \<Rightarrow> nat option" where
  "index_byte s c = (let n = length (takeWhile (\<lambda>d. d \<noteq> c) s) in if n < length s then Some n else None)"

text \<open>\<open>True\<close>: the closing backtick was found on this line.\<close>

definition close_backtick :: "string \<Rightarrow> nat \<Rightarrow> Lexer \<Rightarrow> Lexer" where
  "close_backtick val column l =
     set_column column
       ((storeToken (mk_token TokenStringLiteral ([backtick] @ val @ [backtick]) (locFileID (location l))
           (backtickStringStartLine l) (backtickStringStartCol l)) l)
        \<lparr>accumulatingBacktickString := False, backtickStringValue := []\<rparr>)"

definition continue_backtick :: "string \<Rightarrow> Lexer \<Rightarrow> bool \<times> Lexer" where
  "continue_backtick line l =
     (let val = backtickStringValue l @ [newline] in
      case index_byte line backtick of
        Some endIdx \<Rightarrow> (True, close_backtick (val @ take endIdx line) (endIdx + 1) l)
      | None \<Rightarrow> (False, l\<lparr>backtickStringValue := val @ line\<rparr>))"

definition start_backtick :: "string \<Rightarrow> Lexer \<Rightarrow> bool \<times> Lexer" where
  "start_backtick line l =
     (let l1 = l\<lparr>accumulatingBacktickString := True, backtickStringValue := [],
                 backtickStringStartLine := LineNum (location l),
                 backtickStringStartCol := column_of l + 1\<rparr>;
          lineRest = drop (column_of l + 1) line
      in case index_byte lineRest backtick of
           Some endIdx \<Rightarrow> (True, close_backtick (take endIdx lineRest) (column_of l + endIdx + 2) l1)
         | None \<Rightarrow> (False, l1\<lparr>backtickStringValue := lineRest\<rparr>))"

section \<open>One token, one line, the whole input\<close>

function skip_space :: "string \<Rightarrow> nat \<Rightarrow> nat" where
  "skip_space line column =
     (if column < length line \<and> is_space (line ! column) then skip_space line (column + 1) else column)"
  by pat_completeness auto
termination
  by (relation "measure (\<lambda>(line, column). length line - column)") auto

declare skip_space.simps [simp del]

datatype flow = Continue | Break

definition store_at :: "(Token \<times> nat) \<Rightarrow> Lexer \<Rightarrow> Lexer" where
  "store_at r l = set_column (snd r) (storeToken (fst r) l)"

text \<open>One round of the loop \<open>for len(line[l.location.Column:]) > 0\<close>.\<close>

definition lex_step :: "string \<Rightarrow> string \<Rightarrow> Lexer \<Rightarrow> (flow \<times> Lexer) option" where
  "lex_step line spare l0 =
     (let col = skip_space line (column_of l0);
          l = set_column col l0;
          fileID = locFileID (location l);
          lineNum = LineNum (location l)
      in if col \<ge> length line then Some (Break, l)
         else if line ! col = dquote \<or> line ! col = squote
         then map_option (\<lambda>r. (Continue, store_at r l)) (processStringLiteral line spare col fileID lineNum)
         else if line ! col = backtick
         then (case start_backtick line l of (closed, l') \<Rightarrow> Some (if closed then Continue else Break, l'))
         else if col + 1 < length line \<and> line ! col = CHR ''/'' \<and> line ! (col + 1) = CHR ''*''
         then (let l' = start_block_comment line l
               in Some (if accumulatingBlockComment l' then Break else Continue, l'))
         else if isSpecialChar (line ! col)
         then map_option (\<lambda>r. (if Type (fst r) = TokenComment then Break else Continue, store_at r l))
                (processSpecialChar line spare col fileID lineNum)
         else map_option (\<lambda>r. (Continue, store_at r l)) (processWord line spare col fileID lineNum))"

lemma skip_space_bounds:
  "column \<le> length line \<Longrightarrow> column \<le> skip_space line column \<and> skip_space line column \<le> length line"
proof (induction line column rule: skip_space.induct)
  case (1 line column)
  then show ?case by (subst (1 2) skip_space.simps) auto
qed

lemma skip_space_le: "column \<le> skip_space line column"
proof (induction line column rule: skip_space.induct)
  case (1 line column)
  then show ?case by (subst skip_space.simps) auto
qed

lemma skip_space_stop:
  "skip_space line column < length line \<Longrightarrow> \<not> is_space (line ! skip_space line column)"
proof (induction line column rule: skip_space.induct)
  case (1 line column)
  then show ?case using skip_space.simps [of line column] by (auto split: if_splits)
qed

lemma scan_block_comment_le: "column \<le> fst (scan_block_comment line column val n)"
proof (induction line column val n rule: scan_block_comment.induct)
  case (1 line column val n)
  then show ?case by (subst scan_block_comment.simps) auto
qed

lemma column_set_column [simp]: "column_of (set_column c l) = c"
  by (simp add: set_column_def)

lemma column_storeToken [simp]: "column_of (storeToken t l) = column_of l"
  by (simp add: storeToken_def)

lemma column_store_at [simp]: "column_of (store_at r l) = snd r"
  by (simp add: store_at_def)

lemma column_finish [simp]: "column_of (finish_block_comment r l) = fst r"
  by (auto simp: finish_block_comment_def Let_def storeToken_def set_column_def split: prod.splits)

lemma lex_step_progress:
  assumes "lex_step line spare l = Some (Continue, l')"
  shows "column_of l < column_of l'"
proof -
  let ?c = "skip_space line (column_of l)"
  have le: "column_of l \<le> ?c" by (rule skip_space_le)
  have "?c < column_of l'"
    using assms skip_space_stop [of line "column_of l"]
      scan_block_comment_le [of "?c + 2" line "''/*''" 1]
    by (auto simp: lex_step_def Let_def start_backtick_def close_backtick_def start_block_comment_def
        dest!: processStringLiteral_progress processSpecialChar_progress processWord_progress
        split: if_splits option.splits prod.splits)
  with le show ?thesis by simp
qed

function lex_line_loop :: "string \<Rightarrow> string \<Rightarrow> Lexer \<Rightarrow> Lexer option" where
  "lex_line_loop line spare l =
     (case go_suffix line (column_of l) of
        None \<Rightarrow> None
      | Some rest \<Rightarrow>
        if length rest > 0
        then (case lex_step line spare l of
                None \<Rightarrow> None
              | Some (Break, l') \<Rightarrow> Some l'
              | Some (Continue, l') \<Rightarrow> lex_line_loop line spare l')
        else Some l)"
  by pat_completeness auto
termination
proof (relation "measure (\<lambda>(line, spare, l). length line - column_of l)", goal_cases)
  case 1
  then show ?case by simp
next
  case (2 line spare l rest r flow l')
  then show ?case
    using lex_step_progress [of line spare l l'] by (auto simp: go_suffix_def split: if_splits)
qed

declare lex_line_loop.simps [simp del]

definition next_line :: "Lexer \<Rightarrow> Lexer" where
  "next_line l = l\<lparr>location := (location l)\<lparr>LineNum := LineNum (location l) + 1, locColumn := 0\<rparr>\<rparr>"

definition lex_line :: "string \<times> string \<Rightarrow> Lexer \<Rightarrow> Lexer option" where
  "lex_line ls l0 =
     (let line = fst ls; spare = snd ls;
          l1 = next_line l0;
          l2 = (if accumulatingBlockComment l1 then continue_block_comment line l1 else l1)
      in if accumulatingBlockComment l2 then Some l2
         else if accumulatingBacktickString l2
         then (case continue_backtick line l2 of
                 (True, l3) \<Rightarrow> lex_line_loop line spare l3
               | (False, l3) \<Rightarrow> Some l3)
         else lex_line_loop line spare l2)"

text \<open>\<open>reader.ReadBytes('\n')\<close> followed by \<open>bytes.TrimRight(line, "\n")\<close>: each line with the byte
  (the newline, if there was one) that stays in the slice's capacity.\<close>

function read_lines :: "string \<Rightarrow> (string \<times> string) list" where
  "read_lines input =
     (if input = [] then []
      else let line = takeWhile (\<lambda>c. c \<noteq> newline) input; rest = dropWhile (\<lambda>c. c \<noteq> newline) input
           in case rest of
                [] \<Rightarrow> [(line, [])]
              | nl # rest' \<Rightarrow> (line, [nl]) # read_lines rest')"
  by pat_completeness auto
termination
proof (relation "measure length", goal_cases)
  case 1
  then show ?case by simp
next
  case (2 input line rest nl rest')
  have "length (dropWhile (\<lambda>c. c \<noteq> newline) input) \<le> length input" by (rule length_dropWhile_le)
  moreover from 2 have "length (dropWhile (\<lambda>c. c \<noteq> newline) input) = Suc (length rest')"
    by (metis length_Cons)
  ultimately show ?case by simp
qed

declare read_lines.simps [simp del]

fun lex_lines :: "(string \<times> string) list \<Rightarrow> Lexer \<Rightarrow> Lexer option" where
  "lex_lines [] l = Some l"
| "lex_lines (ls # rest) l = (case lex_line ls l of None \<Rightarrow> None | Some l' \<Rightarrow> lex_lines rest l')"

definition eof_token :: "Lexer \<Rightarrow> Token" where
  "eof_token l = mk_token TokenEOF [] (locFileID (location l)) (LineNum (location l) + 1) 1"

definition Lex :: "string \<Rightarrow> Lexer \<Rightarrow> Lexer option" where
  "Lex input l0 =
     (let l = l0\<lparr>location := \<lparr>LineNum = 0, locColumn = 0, locFileID = locFileID (location l0)\<rparr>\<rparr>
      in map_option (\<lambda>l'. storeToken (eof_token l') l') (lex_lines (read_lines input) l))"

text \<open>\<open>New(input, fileID).Lex()\<close>.\<close>

definition lex :: "string \<Rightarrow> string \<Rightarrow> Token list option" where
  "lex fileID input = map_option tokens (Lex input (New fileID))"

end
