(* ===== verification/Lexer_Props.thy ===== *)
theory Lexer_Props
  imports Lexer
begin

text \<open>
  What the lexer guarantees: it keeps every byte that is not white space, places every token where
  its text is, orders tokens by position, ends the stream with exactly one end-of-file token, and
  panics only on a line whose last byte is a backslash.
\<close>

section \<open>Text kept by the scanners\<close>

definition strip :: "string \<Rightarrow> string" where
  "strip s = filter (\<lambda>c. \<not> is_space c) s"

definition ascii :: "string \<Rightarrow> bool" where
  "ascii s \<longleftrightarrow> (\<forall>c \<in> set s. of_char c < (128::nat))"

lemma strip_append [simp]: "strip (a @ b) = strip a @ strip b"
  by (simp add: strip_def)

lemma strip_Nil [simp]: "strip [] = []"
  by (simp add: strip_def)

lemma strip_newline [simp]: "strip (newline # s) = strip s"
  by (simp add: strip_def is_space_def Let_def)

lemma strip_backtick [simp]: "strip (backtick # s) = backtick # strip s"
  by (simp add: strip_def is_space_def Let_def)

lemma ascii_drop: "ascii s \<Longrightarrow> ascii (drop n s)"
  by (auto simp: ascii_def dest: in_set_dropD)

lemma ascii_bytes: "ascii s \<Longrightarrow> concat (map string_of_byte s) = s"
  by (induction s) (auto simp: ascii_def)

text \<open>\<open>window line a b\<close> is the text between two columns.\<close>

definition window :: "string \<Rightarrow> nat \<Rightarrow> nat \<Rightarrow> string" where
  "window line a b = take (b - a) (drop a line)"

lemma window_split: "a \<le> b \<Longrightarrow> b \<le> c \<Longrightarrow> window line a c = window line a b @ window line b c"
  using take_add [of "b - a" "c - b" "drop a line"] by (simp add: window_def)

lemma drop_window: "a \<le> b \<Longrightarrow> drop a line = window line a b @ drop b line"
  using append_take_drop_id [of "b - a" "drop a line"] by (simp add: window_def)

lemma take_window: "a \<le> b \<Longrightarrow> take b line = take a line @ window line a b"
  by (metis le_add_diff_inverse take_add window_def)

lemma window_one: "a < length line \<Longrightarrow> window line a (a + 1) = [line ! a]"
  by (simp add: window_def take_Suc_conv_app_nth take_Suc hd_drop_conv_nth)

lemma window_two:
  "a + 1 < length line \<Longrightarrow> window line a (a + 2) = [line ! a, line ! (a + 1)]"
  using window_split [of a "a + 1" "a + 2" line] window_one [of a line] window_one [of "a + 1" line]
  by simp

lemma scan_block_comment_text:
  assumes "ascii line"
  shows "fst (snd (scan_block_comment line column val n)) =
     val @ window line column (fst (scan_block_comment line column val n))"
  using assms
proof (induction line column val n rule: scan_block_comment.induct)
  case (1 line column val n)
  let ?r = "scan_block_comment line column val n"
  consider (nest) "column + 1 < length line" "line ! column = CHR ''/''" "line ! (column + 1) = CHR ''*''"
    | (unnest) "column + 1 < length line" "line ! column = CHR ''*''" "line ! (column + 1) = CHR ''/''"
    | (byte) "column < length line"
        "\<not> (column + 1 < length line \<and> line ! column = CHR ''/'' \<and> line ! (column + 1) = CHR ''*'')"
        "\<not> (column + 1 < length line \<and> line ! column = CHR ''*'' \<and> line ! (column + 1) = CHR ''/'')"
    | (stop) "\<not> column < length line"
    by fastforce
  then show ?case
  proof cases
    case nest
    then have "?r = scan_block_comment line (column + 2) (val @ ''/*'') (n + 1)"
      by (subst scan_block_comment.simps) simp
    with nest "1.IH"(1) "1.prems" show ?thesis
      using window_split [of column "column + 2" "fst ?r" line] window_two [of column line]
        scan_block_comment_le [of "column + 2" line "val @ ''/*''" "n + 1"] by simp
  next
    case unnest
    show ?thesis
    proof (cases "n - 1 = 0")
      case True
      with unnest have "?r = (column + 2, val @ ''*/'', 0, True)"
        by (subst scan_block_comment.simps) simp
      with unnest show ?thesis using window_two [of column line] by simp
    next
      case False
      with unnest have "?r = scan_block_comment line (column + 2) (val @ ''*/'') (n - 1)"
        by (subst scan_block_comment.simps) simp
      with unnest False "1.IH"(2) "1.prems" show ?thesis
        using window_split [of column "column + 2" "fst ?r" line] window_two [of column line]
          scan_block_comment_le [of "column + 2" line "val @ ''*/''" "n - 1"] by simp
    qed
  next
    case byte
    then have r: "?r = scan_block_comment line (column + 1) (val @ string_of_byte (line ! column)) n"
      by (subst scan_block_comment.simps) auto
    have "string_of_byte (line ! column) = [line ! column]"
      using byte(1) "1.prems" by (simp add: ascii_def)
    with byte r "1.IH"(3) "1.prems" show ?thesis
      using window_split [of column "column + 1" "fst ?r" line] window_one [of column line]
        scan_block_comment_le [of "column + 1" line "val @ [line ! column]" n] by simp
  next
    case stop
    then show ?thesis by (subst (1 2) scan_block_comment.simps) (simp add: window_def)
  qed
qed

lemma scan_block_comment_bounds:
  "column \<le> length line \<Longrightarrow> fst (scan_block_comment line column val n) \<le> length line"
proof (induction line column val n rule: scan_block_comment.induct)
  case (1 line column val n)
  then show ?case by (subst scan_block_comment.simps) auto
qed

lemma scan_block_comment_open:
  "scan_block_comment line column val n = (c, v, m, False) \<Longrightarrow> length line \<le> c"
proof (induction line column val n rule: scan_block_comment.induct)
  case (1 line column val n)
  show ?case
    using "1.prems" "1.IH" scan_block_comment.simps [of line column val n] by (simp split: if_splits)
qed

section \<open>No byte is lost\<close>

definition token_text :: "Lexer \<Rightarrow> string" where
  "token_text l = concat (map Value (tokens l))"

text \<open>Text of the comment or raw string that is still open.\<close>

definition pending :: "Lexer \<Rightarrow> string" where
  "pending l = (if accumulatingBlockComment l then blockCommentValue l
     else if accumulatingBacktickString l then backtick # backtickStringValue l else [])"

definition kept :: "Lexer \<Rightarrow> string" where
  "kept l = strip (token_text l @ pending l)"

definition idle :: "Lexer \<Rightarrow> bool" where
  "idle l \<longleftrightarrow> \<not> accumulatingBlockComment l \<and> \<not> accumulatingBacktickString l"

definition exclusive :: "Lexer \<Rightarrow> bool" where
  "exclusive l \<longleftrightarrow> \<not> (accumulatingBlockComment l \<and> accumulatingBacktickString l)"

definition line_end :: "string \<Rightarrow> bool" where
  "line_end spare \<longleftrightarrow> spare = [] \<or> spare = [newline]"

lemmas kept_simps = kept_def token_text_def pending_def idle_def exclusive_def storeToken_def
  set_column_def store_at_def

lemma go_slice_strip:
  assumes "go_slice line spare a b = Some w" and "line_end spare"
  shows "strip w = strip (window line a b)"
proof -
  from assms(1) have b: "a \<le> b" "b \<le> length line + length spare"
    and w: "w = take (b - a) (drop a (line @ spare))"
    by (auto simp: go_slice_def split: if_splits)
  have nl: "strip (take m (drop k spare)) = []" for m k
    using assms(2) by (cases m; cases k) (auto simp: line_end_def)
  show ?thesis unfolding w window_def drop_append take_append by (simp add: nl)
qed

lemma processStringLiteral_text:
  "processStringLiteral line spare c f n = Some (tok, c') \<Longrightarrow> line_end spare \<Longrightarrow>
     strip (Value tok) = strip (window line c c')"
  by (auto simp: processStringLiteral_def Let_def dest!: go_slice_strip split: if_splits)

lemma processWord_text:
  "processWord line spare c f n = Some (tok, c') \<Longrightarrow> line_end spare \<Longrightarrow>
     strip (Value tok) = strip (window line c c')"
  by (auto simp: processWord_def Let_def dest!: go_slice_strip split: if_splits option.splits prod.splits)

lemma processSpecialChar_text:
  assumes "processSpecialChar line spare c f n = Some (tok, c')" and "line_end spare" and "ascii line"
  shows "strip (Value tok) = strip (window line c c')"
proof -
  obtain col w where w: "go_slice line spare c col = Some w" and cle: "c \<le> col"
    and res: "(w = ''//'' \<and> Value tok = ''//'' @ concat (map string_of_byte (drop col line)) \<and>
        c' = max col (length line)) \<or> (Value tok = w \<and> c' = col)"
    using assms(1)
    by (auto simp: processSpecialChar_def special_end_def Let_def split: option.splits if_splits)
  from res show ?thesis
  proof
    assume r: "w = ''//'' \<and> Value tok = ''//'' @ concat (map string_of_byte (drop col line)) \<and>
        c' = max col (length line)"
    have "window line col c' = drop col line"
      using r by (simp add: window_def max_def)
    moreover have "window line c c' = window line c col @ window line col c'"
      using r cle by (intro window_split) auto
    moreover have "strip w = strip (window line c col)" by (rule go_slice_strip [OF w assms(2)])
    moreover have "Value tok = w @ drop col line"
      using r assms(3) by (simp add: ascii_bytes ascii_drop)
    ultimately show ?thesis by simp
  next
    assume "Value tok = w \<and> c' = col"
    then show ?thesis using go_slice_strip [OF w assms(2)] by simp
  qed
qed

lemma skip_space_text: "strip (window line column (skip_space line column)) = []"
proof (induction line column rule: skip_space.induct)
  case (1 line column)
  show ?case
  proof (cases "column < length line \<and> is_space (line ! column)")
    case True
    then have r: "skip_space line column = skip_space line (column + 1)"
      by (subst skip_space.simps) simp
    have "window line column (skip_space line column) =
        window line column (column + 1) @ window line (column + 1) (skip_space line (column + 1))"
      unfolding r using skip_space_le [of "column + 1" line] by (intro window_split) auto
    moreover have "strip (window line column (column + 1)) = []"
      using True window_one [of column line] by (simp add: strip_def)
    ultimately show ?thesis using True "1.IH" by simp
  next
    case False
    then have "skip_space line column = column" by (subst skip_space.simps) auto
    then show ?thesis by (simp add: window_def)
  qed
qed

lemma kept_store_at:
  "idle l \<Longrightarrow> kept (store_at r l) = kept l @ strip (Value (fst r)) \<and> idle (store_at r l)"
  by (auto simp: kept_simps)

lemma kept_set_column [simp]: "kept (set_column c l) = kept l" "idle (set_column c l) = idle l"
  by (simp_all add: kept_simps)

lemma kept_finish_block_comment:
  assumes "ascii line" and "accumulatingBlockComment l" and "\<not> accumulatingBacktickString l"
    and "c \<le> length line"
    and "l' = finish_block_comment (scan_block_comment line c val n) l"
  shows "kept l' = strip (token_text l @ val) @ strip (window line c (column_of l'))"
    and "exclusive l'" and "\<not> accumulatingBacktickString l'"
    and "accumulatingBlockComment l' \<Longrightarrow> column_of l' = length line"
proof -
  obtain c2 v2 n2 closed where r: "scan_block_comment line c val n = (c2, v2, n2, closed)"
    by (metis prod_cases4)
  have v2: "v2 = val @ window line c c2" using scan_block_comment_text [OF assms(1), of c val n] r by simp
  show "kept l' = strip (token_text l @ val) @ strip (window line c (column_of l'))"
    using assms(2,3,5) v2 by (auto simp: r finish_block_comment_def Let_def kept_simps)
  show "exclusive l'" "\<not> accumulatingBacktickString l'"
    using assms(2,3,5) by (auto simp: r finish_block_comment_def Let_def kept_simps)
  assume "accumulatingBlockComment l'"
  then have "\<not> closed" using assms(5) by (auto simp: r finish_block_comment_def Let_def kept_simps)
  then show "column_of l' = length line"
    using scan_block_comment_open [of line c val n c2 v2 n2] scan_block_comment_bounds [OF assms(4), of val n]
      assms(5) r by simp
qed

lemma index_byte_Some:
  assumes "index_byte s c = Some i"
  shows "i < length s" and "s ! i = c" and "take (i + 1) s = take i s @ [c]"
proof -
  from assms have i: "i = length (takeWhile (\<lambda>d. d \<noteq> c) s)" "i < length s"
    by (auto simp: index_byte_def Let_def split: if_splits)
  then show "i < length s" "s ! i = c"
    using nth_length_takeWhile [of "\<lambda>d. d \<noteq> c" s] by auto
  then show "take (i + 1) s = take i s @ [c]" by (simp add: take_Suc_conv_app_nth)
qed

lemma kept_close_backtick:
  assumes "\<not> accumulatingBlockComment l"
  shows "kept (close_backtick val c l) = strip (token_text l @ backtick # val @ [backtick])"
    and "idle (close_backtick val c l)" and "column_of (close_backtick val c l) = c"
  using assms by (auto simp: close_backtick_def kept_simps)

lemma kept_start_backtick:
  assumes "idle l" and "column_of l < length line" and "line ! column_of l = backtick"
    and "start_backtick line l = (closed, l')"
  shows "closed \<Longrightarrow> idle l' \<and> kept l' = kept l @ strip (window line (column_of l) (column_of l'))"
    and "\<not> closed \<Longrightarrow> exclusive l' \<and> kept l' = kept l @ strip (drop (column_of l) line)"
proof -
  let ?c = "column_of l" and ?rest = "drop (column_of l + 1) line"
  have d: "drop ?c line = backtick # ?rest"
    using assms(2,3) Cons_nth_drop_Suc [of ?c line] by simp
  {
    assume closed
    with assms(4) obtain i where i: "index_byte ?rest backtick = Some i"
      and l': "l' = close_backtick (take i ?rest) (?c + i + 2)
        (l\<lparr>accumulatingBacktickString := True, backtickStringValue := [],
           backtickStringStartLine := LineNum (location l), backtickStringStartCol := ?c + 1\<rparr>)"
      by (auto simp: start_backtick_def Let_def split: option.splits)
    have "window line ?c (?c + i + 2) = backtick # take i ?rest @ [backtick]"
      using index_byte_Some(3) [OF i] by (simp add: window_def d)
    with assms(1) show "idle l' \<and> kept l' = kept l @ strip (window line ?c (column_of l'))"
      unfolding l' by (simp add: close_backtick_def kept_simps)
  }
  {
    assume "\<not> closed"
    with assms(1,4) show "exclusive l' \<and> kept l' = kept l @ strip (drop ?c line)"
      unfolding d by (auto simp: start_backtick_def Let_def kept_simps split: option.splits)
  }
qed

lemma kept_start_block_comment:
  assumes "ascii line" and "idle l" and "column_of l + 1 < length line"
    and "line ! column_of l = CHR ''/''" and "line ! (column_of l + 1) = CHR ''*''"
  shows "kept (start_block_comment line l) =
      kept l @ strip (window line (column_of l) (column_of (start_block_comment line l)))"
    and "exclusive (start_block_comment line l)"
    and "\<not> accumulatingBacktickString (start_block_comment line l)"
    and "accumulatingBlockComment (start_block_comment line l) \<Longrightarrow>
      column_of (start_block_comment line l) = length line"
proof -
  let ?c = "column_of l"
  let ?l1 = "l\<lparr>accumulatingBlockComment := True, blockCommentStartLine := LineNum (location l),
                blockCommentStartCol := ?c + 1\<rparr>"
  have eq: "start_block_comment line l = finish_block_comment (scan_block_comment line (?c + 2) ''/*'' 1) ?l1"
    by (simp add: start_block_comment_def Let_def)
  have pre: "accumulatingBlockComment ?l1" "\<not> accumulatingBacktickString ?l1" "?c + 2 \<le> length line"
    using assms(2,3) by (auto simp: idle_def)
  note K = kept_finish_block_comment [OF assms(1) pre eq]
  show "kept (start_block_comment line l) =
      kept l @ strip (window line ?c (column_of (start_block_comment line l)))"
  proof -
    have "window line ?c (column_of (start_block_comment line l)) =
        ''/*'' @ window line (?c + 2) (column_of (start_block_comment line l))"
      using window_split [of ?c "?c + 2" "column_of (start_block_comment line l)" line]
        window_two [OF assms(3)] assms(4,5) scan_block_comment_le [of "?c + 2" line "''/*''" 1]
      by (simp add: eq)
    moreover have "token_text ?l1 = token_text l" "kept l = strip (token_text l)"
      using assms(2) by (simp_all add: kept_simps)
    ultimately show ?thesis using K(1) by (simp only: strip_append append_assoc)
  qed
  show "exclusive (start_block_comment line l)" by (rule K(2))
  show "\<not> accumulatingBacktickString (start_block_comment line l)" by (rule K(3))
  show "accumulatingBlockComment (start_block_comment line l) \<Longrightarrow>
      column_of (start_block_comment line l) = length line" by (rule K(4))
qed

section \<open>One round of the loop, case by case\<close>

lemma lex_step_cases:
  assumes "lex_step line spare l = Some (fl, l')"
  obtains (eol) "length line \<le> skip_space line (column_of l)" "fl = Break"
      "l' = set_column (skip_space line (column_of l)) l"
  | (str) c tok c' where "c = skip_space line (column_of l)" "c < length line"
      "line ! c = dquote \<or> line ! c = squote"
      "processStringLiteral line spare c (locFileID (location l)) (LineNum (location l)) = Some (tok, c')"
      "fl = Continue" "l' = store_at (tok, c') (set_column c l)"
  | (raw) c closed where "c = skip_space line (column_of l)" "c < length line" "line ! c = backtick"
      "start_backtick line (set_column c l) = (closed, l')" "fl = (if closed then Continue else Break)"
  | (comment) c where "c = skip_space line (column_of l)" "c + 1 < length line"
      "line ! c = CHR ''/''" "line ! (c + 1) = CHR ''*''" "l' = start_block_comment line (set_column c l)"
      "fl = (if accumulatingBlockComment l' then Break else Continue)"
  | (special) c tok c' where "c = skip_space line (column_of l)" "c < length line"
      "isSpecialChar (line ! c)"
      "processSpecialChar line spare c (locFileID (location l)) (LineNum (location l)) = Some (tok, c')"
      "fl = (if Type tok = TokenComment then Break else Continue)" "l' = store_at (tok, c') (set_column c l)"
  | (word) c tok c' where "c = skip_space line (column_of l)" "c < length line"
      "\<not> is_space (line ! c)" "\<not> isSpecialChar (line ! c)" "line ! c \<noteq> backtick"
      "processWord line spare c (locFileID (location l)) (LineNum (location l)) = Some (tok, c')"
      "fl = Continue" "l' = store_at (tok, c') (set_column c l)"
proof -
  let ?c = "skip_space line (column_of l)" and ?m = "set_column (skip_space line (column_of l)) l"
  have loc: "locFileID (location ?m) = locFileID (location l)" "LineNum (location ?m) = LineNum (location l)"
    by (simp_all add: set_column_def)
  note S = assms [unfolded lex_step_def Let_def loc]
  show thesis
  proof (cases "length line \<le> ?c")
    case True
    with S show ?thesis by (intro eol) auto
  next
    case False
    then have lt: "?c < length line" by simp
    note sp = skip_space_stop [OF lt]
    consider "line ! ?c = dquote \<or> line ! ?c = squote"
      | "\<not> (line ! ?c = dquote \<or> line ! ?c = squote)" "line ! ?c = backtick"
      | "\<not> (line ! ?c = dquote \<or> line ! ?c = squote)" "line ! ?c \<noteq> backtick"
        "?c + 1 < length line \<and> line ! ?c = CHR ''/'' \<and> line ! (?c + 1) = CHR ''*''"
      | "\<not> (line ! ?c = dquote \<or> line ! ?c = squote)" "line ! ?c \<noteq> backtick"
        "\<not> (?c + 1 < length line \<and> line ! ?c = CHR ''/'' \<and> line ! (?c + 1) = CHR ''*'')"
        "isSpecialChar (line ! ?c)"
      | "\<not> (line ! ?c = dquote \<or> line ! ?c = squote)" "line ! ?c \<noteq> backtick"
        "\<not> (?c + 1 < length line \<and> line ! ?c = CHR ''/'' \<and> line ! (?c + 1) = CHR ''*'')"
        "\<not> isSpecialChar (line ! ?c)"
      by blast
    then show ?thesis
    proof cases
      case 1
      with S False show ?thesis by (auto intro!: str [OF refl lt])
    next
      case 2
      with S False show ?thesis by (auto intro!: raw [OF refl lt] split: prod.splits)
    next
      case 3
      with S False show ?thesis by (auto intro!: comment [OF refl])
    next
      case 4
      with S False obtain tok c' where
        "processSpecialChar line spare ?c (locFileID (location l)) (LineNum (location l)) = Some (tok, c')"
        "fl = (if Type tok = TokenComment then Break else Continue)" "l' = store_at (tok, c') ?m"
        by auto
      then show ?thesis by (rule special [OF refl lt 4(4)])
    next
      case 5
      with S False obtain tok c' where
        "processWord line spare ?c (locFileID (location l)) (LineNum (location l)) = Some (tok, c')"
        "fl = Continue" "l' = store_at (tok, c') ?m"
        by auto
      then show ?thesis by (rule word [OF refl lt sp 5(4,2)])
    qed
  qed
qed

lemma GetTokenType_comment:
  assumes "GetTokenType w = Some TokenComment"
  shows "w = ''//''"
proof -
  have "map_of Keywords w \<noteq> Some TokenComment"
    by (auto dest!: map_of_SomeD simp: Keywords_def)
  moreover have "map_of Operators w = Some TokenComment \<Longrightarrow> w = ''//''"
    by (drule map_of_SomeD) (simp add: Operators_def)
  ultimately show ?thesis using assms
    by (auto simp: GetTokenType_def split: option.splits list.splits if_splits)
qed

lemma lex_step_kept:
  assumes "lex_step line spare l = Some (fl, l')" and "idle l" and "ascii line" and "line_end spare"
    and "column_of l \<le> length line"
  shows "(fl = Continue \<longrightarrow> idle l' \<and>
      kept l' = kept l @ strip (window line (column_of l) (column_of l'))) \<and>
    (fl = Break \<longrightarrow> exclusive l' \<and> kept l' = kept l @ strip (drop (column_of l) line))"
proof -
  let ?c = "skip_space line (column_of l)"
  have cl: "column_of l \<le> ?c" "?c \<le> length line"
    using skip_space_bounds [OF assms(5)] by simp_all
  have m: "idle (set_column c l)" "kept (set_column c l) = kept l" for c using assms(2) by simp_all
  have W: "strip (window line (column_of l) d) = strip (window line ?c d)" if "?c \<le> d" for d
    using window_split [of "column_of l" ?c d line] that cl skip_space_text [of line "column_of l"]
    by simp
  have full: "window line a d = drop a line" if "length line \<le> d" for a d
    using that by (simp add: window_def)
  have D: "strip (drop (column_of l) line) = strip (drop ?c line)"
    using W [of "length line"] cl full by simp
  have ex: "idle x \<Longrightarrow> exclusive x" for x by (auto simp: idle_def exclusive_def)
  from assms(1) show ?thesis
  proof (cases rule: lex_step_cases)
    case eol
    with m D ex [OF m(1)] show ?thesis by simp
  next
    case (str c tok c')
    with processStringLiteral_text [OF str(4) assms(4)] processStringLiteral_progress [OF str(4)]
      kept_store_at [OF m(1) [of c], of "(tok, c')"] W [of c'] m(2) show ?thesis by simp
  next
    case (raw c closed)
    have c: "column_of (set_column c l) < length line" "line ! column_of (set_column c l) = backtick"
      using raw by simp_all
    note K = kept_start_backtick [OF m(1) c raw(4)]
    have "closed \<Longrightarrow> ?c \<le> column_of l'"
      using raw by (auto simp: start_backtick_def close_backtick_def Let_def split: option.splits)
    with K raw W D m(2) show ?thesis by (cases closed) simp_all
  next
    case (comment c)
    have c: "column_of (set_column c l) + 1 < length line" "line ! column_of (set_column c l) = CHR ''/''"
      "line ! (column_of (set_column c l) + 1) = CHR ''*''" using comment by simp_all
    note K = kept_start_block_comment [OF assms(3) m(1) c]
    have "?c \<le> column_of l'"
      using comment scan_block_comment_le [of "?c + 2" line "''/*''" 1]
      by (simp add: start_block_comment_def Let_def)
    with K W [of "column_of l'"] D full [of "column_of l'"] m(2) show ?thesis
      unfolding comment(5,6) by (auto simp: idle_def comment(1))
  next
    case (special c tok c')
    have "Type tok = TokenComment \<Longrightarrow> length line \<le> c'"
      using special(4) GetTokenType_comment
      by (auto simp: processSpecialChar_def Let_def split: option.splits if_splits)
    with special processSpecialChar_text [OF special(4) assms(4,3)] processSpecialChar_progress [OF special(4)]
      kept_store_at [OF m(1) [of c], of "(tok, c')"] W [of c'] m(2) D full [of c'] ex
    show ?thesis by auto
  next
    case (word c tok c')
    with processWord_text [OF word(6) assms(4)] processWord_progress [OF word(6,3,4)]
      kept_store_at [OF m(1) [of c], of "(tok, c')"] W [of c'] m(2) show ?thesis by simp
  qed
qed

section \<open>Induction over the rounds of a line\<close>

lemma lex_line_loop_cases:
  assumes "lex_line_loop line spare l = Some l'"
  obtains (stop) "column_of l = length line" "l' = l"
  | (break) "column_of l < length line" "lex_step line spare l = Some (Break, l')"
  | (step) m where "column_of l < length line" "lex_step line spare l = Some (Continue, m)"
      "lex_line_loop line spare m = Some l'"
proof -
  note eq = lex_line_loop.simps [of line spare l]
  from assms have c: "column_of l \<le> length line"
    by (subst (asm) eq) (auto simp: go_suffix_def split: if_splits)
  show thesis
  proof (cases "column_of l = length line")
    case True
    with assms eq show ?thesis by (intro stop) (auto simp: go_suffix_def)
  next
    case False
    with c have lt: "column_of l < length line" by simp
    then have e: "(case lex_step line spare l of None \<Rightarrow> None | Some (Break, l') \<Rightarrow> Some l'
        | Some (Continue, l') \<Rightarrow> lex_line_loop line spare l') = Some l'"
      using assms eq by (simp add: go_suffix_def)
    show ?thesis
    proof (cases "lex_step line spare l")
      case None
      with e show ?thesis by simp
    next
      case (Some r)
      obtain fl m where r: "r = (fl, m)" by (cases r)
      with Some e lt show ?thesis by (cases fl) (auto intro: break step)
    qed
  qed
qed

lemma lex_line_loop_rounds [consumes 1, case_names stop break step]:
  assumes "lex_line_loop line spare l = Some l'"
    and "\<And>l. column_of l = length line \<Longrightarrow> P l l"
    and "\<And>l l'. column_of l < length line \<Longrightarrow> lex_step line spare l = Some (Break, l') \<Longrightarrow> P l l'"
    and "\<And>l m l'. column_of l < length line \<Longrightarrow> lex_step line spare l = Some (Continue, m) \<Longrightarrow>
      lex_line_loop line spare m = Some l' \<Longrightarrow> P m l' \<Longrightarrow> P l l'"
  shows "P l l'"
  using assms(1)
proof (induction "length line - column_of l" arbitrary: l rule: less_induct)
  case less
  from less.prems show ?case
  proof (cases rule: lex_line_loop_cases)
    case stop
    with assms(2) show ?thesis by simp
  next
    case break
    then show ?thesis by (rule assms(3))
  next
    case (step m)
    have "length line - column_of m < length line - column_of l"
      using step(1) lex_step_progress [OF step(2)] by simp
    from less.hyps [OF this step(3)] show ?thesis by (rule assms(4) [OF step])
  qed
qed

lemma lex_line_loop_kept:
  assumes "lex_line_loop line spare l = Some l'" and "idle l" and "ascii line" and "line_end spare"
  shows "exclusive l' \<and> kept l' = kept l @ strip (drop (column_of l) line)"
  using assms
proof (induction rule: lex_line_loop_rounds)
  case (stop l)
  then show ?case by (simp add: idle_def exclusive_def)
next
  case (break l l')
  then show ?case using lex_step_kept [OF break(2)] by simp
next
  case (step l m l')
  have w: "drop (column_of l) line = window line (column_of l) (column_of m) @ drop (column_of m) line"
    using lex_step_progress [OF step(2)] by (intro drop_window) simp
  from step lex_step_kept [OF step(2)] have "idle m"
    "kept m = kept l @ strip (window line (column_of l) (column_of m))" by simp_all
  with step.IH step.prems show ?case by (simp add: w)
qed

lemma lex_line_kept:
  assumes "lex_line (line, spare) l = Some l'" and "exclusive l" and "ascii line" and "line_end spare"
  shows "exclusive l' \<and> kept l' = kept l @ strip line"
proof -
  define l1 where "l1 = next_line l"
  have l1: "kept l1 = kept l" "column_of l1 = 0" "accumulatingBlockComment l1 = accumulatingBlockComment l"
    "accumulatingBacktickString l1 = accumulatingBacktickString l" "exclusive l1"
    "token_text l1 = token_text l" "blockCommentValue l1 = blockCommentValue l"
    "backtickStringValue l1 = backtickStringValue l"
    using assms(2) by (simp_all add: l1_def next_line_def kept_simps)
  have sp: "strip (x @ [newline]) = strip x" for x by simp
  consider (block) "accumulatingBlockComment l" | (raw) "\<not> accumulatingBlockComment l" "accumulatingBacktickString l"
    | (none) "idle l" by (auto simp: idle_def)
  then show ?thesis
  proof cases
    case block
    define m where "m = continue_block_comment line l1"
    have pre: "accumulatingBlockComment l1" "\<not> accumulatingBacktickString l1" "0 \<le> length line"
      using block assms(2) l1 by (auto simp: exclusive_def)
    have m: "m = finish_block_comment (scan_block_comment line 0 (blockCommentValue l1 @ [newline]) (blockCommentNesting l1)) l1"
      by (simp add: m_def continue_block_comment_def l1)
    note K = kept_finish_block_comment [OF assms(3) pre m]
    have "kept l = strip (token_text l1 @ (blockCommentValue l1 @ [newline]))"
      using block l1 by (simp add: kept_def pending_def)
    with K(1) have km: "kept m = kept l @ strip (take (column_of m) line)" by (simp add: window_def)
    have res: "(if accumulatingBlockComment m then Some m else lex_line_loop line spare m) = Some l'"
      using assms(1) pre(1) K(3) by (auto simp: lex_line_def Let_def l1_def [symmetric] m_def [symmetric])
    show ?thesis
    proof (cases "accumulatingBlockComment m")
      case True
      with res km K(2,4) show ?thesis by simp
    next
      case False
      with K(3) have "idle m" by (simp add: idle_def)
      from lex_line_loop_kept [OF _ this assms(3,4)] res False km
      have "exclusive l' \<and> kept l' = kept l @ strip (take (column_of m) line) @ strip (drop (column_of m) line)"
        by simp
      then show ?thesis by (metis append_take_drop_id strip_append)
    qed
  next
    case raw
    obtain closed m where m: "continue_backtick line l1 = (closed, m)" by (cases "continue_backtick line l1")
    have res: "(if closed then lex_line_loop line spare m else Some m) = Some l'"
      using assms(1) raw l1 m by (auto simp: lex_line_def Let_def l1_def [symmetric] split: bool.splits)
    have kl: "kept l = strip (token_text l1) @ strip [backtick] @ strip (backtickStringValue l1)"
      using raw l1 by (simp add: kept_def pending_def)
    show ?thesis
    proof (cases closed)
      case False
      with m res raw l1 kl show ?thesis
        by (auto simp: continue_backtick_def Let_def kept_def token_text_def pending_def exclusive_def
            split: option.splits)
    next
      case True
      with m obtain i where i: "index_byte line backtick = Some i"
        and mm: "m = close_backtick ((backtickStringValue l1 @ [newline]) @ take i line) (i + 1) l1"
        by (auto simp: continue_backtick_def Let_def split: option.splits)
      have nb: "\<not> accumulatingBlockComment l1" using raw l1 by simp
      note C = kept_close_backtick [OF nb, of "(backtickStringValue l1 @ [newline]) @ take i line" "i + 1", folded mm]
      have "kept m = kept l @ strip (take (i + 1) line)"
        using C(1) kl index_byte_Some(3) [OF i] by simp
      with lex_line_loop_kept [OF _ C(2) assms(3,4)] res True C(3)
      have "exclusive l' \<and> kept l' = kept l @ strip (take (i + 1) line) @ strip (drop (i + 1) line)" by simp
      then show ?thesis by (metis append_take_drop_id strip_append)
    qed
  next
    case none
    then have "idle l1" "lex_line_loop line spare l1 = Some l'"
      using assms(1) l1 by (auto simp: idle_def lex_line_def Let_def l1_def [symmetric])
    from lex_line_loop_kept [OF this(2,1) assms(3,4)] l1 show ?thesis by simp
  qed
qed

lemma read_lines_cases:
  obtains (empty) "input = []" "read_lines input = []"
  | (last) "input \<noteq> []" "newline \<notin> set input" "read_lines input = [(input, [])]"
  | (line) line rest where "input = line @ newline # rest" "newline \<notin> set line"
      "read_lines input = (line, [newline]) # read_lines rest" "length rest < length input"
proof (cases "newline \<in> set input")
  case True
  then obtain line rest where i: "input = line @ newline # rest" "newline \<notin> set line"
    by (meson split_list_first)
  then have "takeWhile (\<lambda>c. c \<noteq> newline) input = line" "dropWhile (\<lambda>c. c \<noteq> newline) input = newline # rest"
    by (auto simp: takeWhile_tail takeWhile_eq_all_conv dropWhile_append3)
  then have "read_lines input = (line, [newline]) # read_lines rest"
    using i by (subst read_lines.simps) (simp add: Let_def)
  with i show ?thesis by (intro line) auto
next
  case False
  then have w: "takeWhile (\<lambda>c. c \<noteq> newline) input = input" "dropWhile (\<lambda>c. c \<noteq> newline) input = []"
    by (auto simp: takeWhile_eq_all_conv dropWhile_eq_Nil_conv)
  have "input \<noteq> [] \<Longrightarrow> read_lines input = [(input, [])]"
    by (subst read_lines.simps) (simp add: Let_def w)
  moreover have "read_lines [] = []" by (subst read_lines.simps) simp
  ultimately show ?thesis using False empty last by blast
qed

lemma read_lines_parts:
  "concat (map (\<lambda>(a, b). a @ b) (read_lines input)) = input \<and>
   (\<forall>x \<in> set (read_lines input). line_end (snd x) \<and> newline \<notin> set (fst x))"
proof (induction "length input" arbitrary: input rule: less_induct)
  case less
  show ?case
  proof (cases input rule: read_lines_cases)
    case (line l rest)
    with less [OF line(4)] show ?thesis by (auto simp: line_end_def)
  qed (auto simp: line_end_def)
qed

lemma lex_lines_kept:
  "lex_lines ls l = Some l' \<Longrightarrow> exclusive l \<Longrightarrow> \<forall>(line, spare) \<in> set ls. ascii line \<and> line_end spare \<Longrightarrow>
     kept l' = kept l @ strip (concat (map fst ls))"
proof (induction ls arbitrary: l)
  case Nil
  then show ?case by simp
next
  case (Cons x ls)
  obtain line spare where x: "x = (line, spare)" by (cases x)
  from Cons.prems(1) obtain m where m: "lex_line (line, spare) l = Some m" "lex_lines ls m = Some l'"
    by (auto simp: x split: option.splits)
  with Cons.prems have "exclusive m \<and> kept m = kept l @ strip line"
    by (intro lex_line_kept [OF m(1)]) (auto simp: x)
  with Cons.IH [OF m(2)] Cons.prems(3) show ?case by (simp add: x)
qed

lemma strip_read_lines: "strip (concat (map fst (read_lines input))) = strip input"
proof (induction "length input" arbitrary: input rule: less_induct)
  case less
  show ?case
  proof (cases input rule: read_lines_cases)
    case (line l rest)
    with less [OF line(4)] show ?thesis by simp
  qed auto
qed

lemma ascii_read_lines:
  assumes "ascii input" and "(line, spare) \<in> set (read_lines input)"
  shows "ascii line"
proof -
  have "set line \<subseteq> set (concat (map (\<lambda>(a, b). a @ b) (read_lines input)))"
    using assms(2) by force
  with read_lines_parts [of input] assms(1) show ?thesis by (auto simp: ascii_def)
qed

section \<open>Where tokens are\<close>

definition src_line :: "(string \<times> string) list \<Rightarrow> nat \<Rightarrow> string" where
  "src_line ls n = fst (ls ! (n - 1))"

text \<open>Token \<open>t\<close> starts in line \<open>line\<close> at its column; unless it is a comment or a raw string
  (which may go on in later lines), its value is the text of the line there.\<close>

definition placed :: "string \<Rightarrow> Token \<Rightarrow> bool" where
  "placed line t \<longleftrightarrow> 1 \<le> Column t \<and> Column t \<le> length line \<and> Value t \<noteq> [] \<and> Type t \<noteq> TokenEOF \<and>
     hd (Value t) = line ! (Column t - 1) \<and>
     (Type t \<noteq> TokenComment \<and> hd (Value t) \<noteq> backtick \<longrightarrow>
        Value t = window line (Column t - 1) (Column t - 1 + length (Value t)))"

lemma window_length: "a \<le> b \<Longrightarrow> b \<le> length line \<Longrightarrow> length (window line a b) = b - a"
  by (simp add: window_def)

lemma hd_window: "a < b \<Longrightarrow> a < length line \<Longrightarrow> hd (window line a b) = line ! a"
  by (simp add: window_def hd_drop_conv_nth)

lemma placed_window:
  assumes "Value t = window line c c'" "Column t = c + 1" "c < c'" "c' \<le> length line" "Type t \<noteq> TokenEOF"
  shows "placed line t"
  using assms window_length [of c c' line] hd_window [of c c' line]
  by (auto simp: placed_def)

lemma GetTokenType_not_eof: "GetTokenType w \<noteq> Some TokenEOF"
proof -
  have "map_of Keywords w \<noteq> Some TokenEOF" by (auto dest!: map_of_SomeD simp: Keywords_def)
  moreover have "map_of Operators w \<noteq> Some TokenEOF" by (auto dest!: map_of_SomeD simp: Operators_def)
  ultimately show ?thesis by (auto simp: GetTokenType_def split: option.splits list.splits)
qed

lemma go_slice_window:
  "go_slice line spare a b = Some w \<Longrightarrow> b \<le> length line \<Longrightarrow> w = window line a b"
  by (auto simp: go_slice_def window_def split: if_splits)

lemma processStringLiteral_placed:
  assumes "processStringLiteral line spare c f n = Some (tok, c')" and "c' \<le> length line"
  shows "placed line tok \<and> Line tok = n \<and> Column tok = c + 1"
proof -
  from assms have "Value tok = window line c c'" "Column tok = c + 1" "Type tok \<noteq> TokenEOF" "Line tok = n"
    by (auto simp: processStringLiteral_def Let_def dest!: go_slice_window split: if_splits)
  with processStringLiteral_progress [OF assms(1)] assms(2) show ?thesis by (simp add: placed_window)
qed

lemma processWord_placed:
  assumes "processWord line spare c f n = Some (tok, c')"
    and "\<not> is_space (line ! c)" and "\<not> isSpecialChar (line ! c)"
  shows "placed line tok \<and> Line tok = n \<and> Column tok = c + 1 \<and> c' \<le> length line"
proof -
  from assms(1) have c: "c < length line" by (auto simp: processWord_def split: if_splits)
  have c': "c' \<le> length line"
    using assms(1) c number_start_bounds [OF c] scan_word_bounds [of c line]
      scan_number_bounds [of "number_start line c" line False False]
    by (auto simp: processWord_def Let_def split: if_splits option.splits prod.splits)
  with assms(1) have "Value tok = window line c c'" "Column tok = c + 1" "Type tok \<noteq> TokenEOF" "Line tok = n"
    by (auto simp: processWord_def Let_def GetTokenType_not_eof dest!: go_slice_window
        split: if_splits option.splits prod.splits)
  with processWord_progress [OF assms] c' show ?thesis by (simp add: placed_window)
qed

lemma special_end_bounds:
  "c < length line \<Longrightarrow> c < special_end line c \<and> special_end line c \<le> length line"
  by (auto simp: special_end_def isEllipsis_def operatorSpan_def Let_def)

lemma processSpecialChar_placed:
  assumes "processSpecialChar line spare c f n = Some (tok, c')" and c: "c < length line"
  shows "placed line tok \<and> Line tok = n \<and> Column tok = c + 1 \<and> c' \<le> length line"
proof -
  define col where "col = special_end line c"
  have col: "c < col" "col \<le> length line" using special_end_bounds [OF c] by (simp_all add: col_def)
  then have sl: "go_slice line spare c col = Some (window line c col)"
    by (simp add: go_slice_within window_def)
  from col hd_window [of c col line] have hd: "hd (window line c col) = line ! c" by simp
  show ?thesis
  proof (cases "window line c col = ''//''")
    case True
    then have "tok = mk_token TokenComment (''//'' @ concat (map string_of_byte (drop col line))) f n (c + 1)"
      "c' = length line"
      using assms(1) sl col by (auto simp: processSpecialChar_def Let_def col_def [symmetric])
    with True hd c show ?thesis by (simp add: placed_def)
  next
    case False
    with assms(1) sl have "Value tok = window line c col" "Column tok = c + 1" "Type tok \<noteq> TokenEOF"
      "Line tok = n" "c' = col"
      by (auto simp: processSpecialChar_def Let_def col_def [symmetric] GetTokenType_not_eof)
    with col show ?thesis by (simp add: placed_window)
  qed
qed

section \<open>The invariant on stored tokens\<close>

fun pos_before :: "nat \<times> nat \<Rightarrow> nat \<times> nat \<Rightarrow> bool" where
  "pos_before (a, b) (c, d) = (a < c \<or> (a = c \<and> b < d))"

definition token_pos :: "Token \<Rightarrow> nat \<times> nat" where
  "token_pos t = (Line t, Column t)"

definition ordered :: "Token list \<Rightarrow> nat \<times> nat \<Rightarrow> bool" where
  "ordered ts p \<longleftrightarrow> sorted_wrt (\<lambda>a b. pos_before (token_pos a) (token_pos b)) ts \<and>
     (\<forall>t \<in> set ts. pos_before (token_pos t) p)"

lemma pos_before_trans: "pos_before p q \<Longrightarrow> pos_before q r \<Longrightarrow> pos_before p r"
  by (cases p; cases q; cases r) auto

lemma ordered_mono: "ordered ts p \<Longrightarrow> p = q \<or> pos_before p q \<Longrightarrow> ordered ts q"
  by (auto simp: ordered_def intro: pos_before_trans)

lemma ordered_snoc: "ordered ts (token_pos t) \<Longrightarrow> pos_before (token_pos t) q \<Longrightarrow> ordered (ts @ [t]) q"
  by (auto simp: ordered_def sorted_wrt_append intro: pos_before_trans)

text \<open>The position before which all stored tokens lie: the start of the open comment or raw string,
  or the cursor.\<close>

definition mark :: "Lexer \<Rightarrow> nat \<times> nat" where
  "mark l = (if accumulatingBlockComment l then (blockCommentStartLine l, blockCommentStartCol l)
     else if accumulatingBacktickString l then (backtickStringStartLine l, backtickStringStartCol l)
     else (LineNum (location l), column_of l + 1))"

definition starts :: "(string \<times> string) list \<Rightarrow> nat \<Rightarrow> nat \<times> nat \<Rightarrow> char \<Rightarrow> bool" where
  "starts ls n p ch \<longleftrightarrow> 1 \<le> fst p \<and> fst p \<le> n \<and> 1 \<le> snd p \<and> snd p \<le> length (src_line ls (fst p)) \<and>
     src_line ls (fst p) ! (snd p - 1) = ch"

definition stored :: "(string \<times> string) list \<Rightarrow> nat \<Rightarrow> Token \<Rightarrow> bool" where
  "stored ls n t \<longleftrightarrow> 1 \<le> Line t \<and> Line t \<le> n \<and> placed (src_line ls (Line t)) t"

definition well :: "(string \<times> string) list \<Rightarrow> Lexer \<Rightarrow> bool" where
  "well ls l \<longleftrightarrow> exclusive l \<and> (\<forall>t \<in> set (tokens l). stored ls (LineNum (location l)) t) \<and>
     ordered (tokens l) (mark l) \<and>
     (accumulatingBlockComment l \<longrightarrow> starts ls (LineNum (location l)) (mark l) (CHR ''/'') \<and>
        blockCommentValue l \<noteq> [] \<and> hd (blockCommentValue l) = CHR ''/'') \<and>
     (accumulatingBacktickString l \<longrightarrow> starts ls (LineNum (location l)) (mark l) backtick)"

lemma well_store:
  assumes "well ls l" "idle l" "placed (src_line ls (LineNum (location l))) t"
    "Line t = LineNum (location l)" "Column t = c + 1" "column_of l \<le> c" "c < c'" "1 \<le> LineNum (location l)"
  shows "well ls (store_at (t, c') (set_column c l))" "idle (store_at (t, c') (set_column c l))"
proof -
  have "ordered (tokens l) (token_pos t)"
  proof (rule ordered_mono)
    show "ordered (tokens l) (mark l)" using assms(1) by (simp add: well_def)
    show "mark l = token_pos t \<or> pos_before (mark l) (token_pos t)"
      using assms(2,4,5,6) by (auto simp: mark_def idle_def token_pos_def)
  qed
  then have "ordered (tokens l @ [t]) (LineNum (location l), c' + 1)"
    using assms(4,5,7) by (intro ordered_snoc) (auto simp: token_pos_def)
  moreover have "stored ls (LineNum (location l)) t" using assms(3,4,8) by (simp add: stored_def)
  moreover have "\<forall>t \<in> set (tokens l). stored ls (LineNum (location l)) t"
    using assms(1) by (simp add: well_def)
  ultimately show "well ls (store_at (t, c') (set_column c l))"
    using assms(2) by (simp add: well_def mark_def idle_def exclusive_def store_at_def set_column_def storeToken_def)
  from assms show "idle (store_at (t, c') (set_column c l))"
    by (simp add: idle_def store_at_def set_column_def storeToken_def)
qed

text \<open>Emitting a comment or raw string that started at \<open>p\<close>.\<close>

lemma well_emit:
  assumes "\<forall>t \<in> set (tokens l). stored ls n t" "ordered (tokens l) p" "starts ls n p ch" "pos_before p q"
    "v \<noteq> []" "hd v = ch" "ty = TokenComment \<or> ch = backtick" "ty \<noteq> TokenEOF"
  shows "(\<forall>t \<in> set (tokens l @ [mk_token ty v f (fst p) (snd p)]). stored ls n t) \<and>
    ordered (tokens l @ [mk_token ty v f (fst p) (snd p)]) q"
proof
  have "stored ls n (mk_token ty v f (fst p) (snd p))"
    using assms by (auto simp: stored_def placed_def starts_def)
  with assms(1) show "\<forall>t \<in> set (tokens l @ [mk_token ty v f (fst p) (snd p)]). stored ls n t" by auto
  from assms(2,4) show "ordered (tokens l @ [mk_token ty v f (fst p) (snd p)]) q"
    by (intro ordered_snoc) (simp_all add: token_pos_def)
qed

lemma scan_block_comment_hd:
  "val \<noteq> [] \<Longrightarrow> fst (snd (scan_block_comment line c val n)) \<noteq> [] \<and>
     hd (fst (snd (scan_block_comment line c val n))) = hd val"
proof (induction line c val n rule: scan_block_comment.induct)
  case (1 line c val n)
  then show ?case by (subst (1 2) scan_block_comment.simps) simp
qed

lemma well_finish_block_comment:
  assumes "accumulatingBlockComment l" "\<not> accumulatingBacktickString l" "well ls l"
    "val \<noteq> []" "hd val = CHR ''/''"
    "pos_before (mark l) (LineNum (location l), fst (scan_block_comment line c val n) + 1)"
    "l' = finish_block_comment (scan_block_comment line c val n) l"
  shows "well ls l'" "LineNum (location l') = LineNum (location l)" "\<not> accumulatingBacktickString l'"
proof -
  obtain c2 v2 n2 closed where r: "scan_block_comment line c val n = (c2, v2, n2, closed)"
    by (metis prod_cases4)
  have v2: "v2 \<noteq> []" "hd v2 = CHR ''/''" using scan_block_comment_hd [OF assms(4), of line c n] r assms(5) by auto
  have st: "starts ls (LineNum (location l)) (mark l) (CHR ''/'')"
    "\<forall>t \<in> set (tokens l). stored ls (LineNum (location l)) t" "ordered (tokens l) (mark l)"
    using assms(1,3) by (simp_all add: well_def)
  note E = well_emit [OF st(2,3,1) assms(6) v2, of TokenComment "locFileID (location l)", simplified]
  show "LineNum (location l') = LineNum (location l)" "\<not> accumulatingBacktickString l'"
    using assms(2,7) by (auto simp: r finish_block_comment_def Let_def set_column_def storeToken_def)
  show "well ls l'"
  proof (cases closed)
    case True
    with assms(1,2,7) E show ?thesis
      by (auto simp: r finish_block_comment_def Let_def set_column_def storeToken_def well_def mark_def exclusive_def)
  next
    case False
    with assms(1,2,3,7) v2 show ?thesis
      by (auto simp: r finish_block_comment_def Let_def set_column_def storeToken_def well_def mark_def exclusive_def)
  qed
qed

lemma well_close_backtick:
  assumes "\<not> accumulatingBlockComment l" "accumulatingBacktickString l" "well ls l"
    "pos_before (mark l) (LineNum (location l), c + 1)"
  shows "well ls (close_backtick val c l)" "idle (close_backtick val c l)"
    "LineNum (location (close_backtick val c l)) = LineNum (location l)"
proof -
  have st: "starts ls (LineNum (location l)) (mark l) backtick"
    "\<forall>t \<in> set (tokens l). stored ls (LineNum (location l)) t" "ordered (tokens l) (mark l)"
    using assms(2,3) by (simp_all add: well_def)
  note E = well_emit [OF st(2,3,1) assms(4), of "[backtick] @ val @ [backtick]" TokenStringLiteral
      "locFileID (location l)", simplified]
  show "well ls (close_backtick val c l)" "idle (close_backtick val c l)"
    "LineNum (location (close_backtick val c l)) = LineNum (location l)"
    using assms E by (auto simp: close_backtick_def set_column_def storeToken_def well_def mark_def
        exclusive_def idle_def)
qed

lemma well_set_column:
  assumes "well ls l" "idle l" "column_of l \<le> c"
  shows "well ls (set_column c l)" "idle (set_column c l)"
    "LineNum (location (set_column c l)) = LineNum (location l)" "tokens (set_column c l) = tokens l"
proof -
  have "ordered (tokens l) (LineNum (location l), c + 1)"
  proof (rule ordered_mono)
    show "ordered (tokens l) (mark l)" using assms(1) by (simp add: well_def)
    show "mark l = (LineNum (location l), c + 1) \<or> pos_before (mark l) (LineNum (location l), c + 1)"
      using assms(2,3) by (auto simp: mark_def idle_def)
  qed
  moreover have "\<forall>t \<in> set (tokens l). stored ls (LineNum (location l)) t"
    using assms(1) by (simp add: well_def)
  ultimately show "well ls (set_column c l)"
    using assms(2) by (simp add: well_def mark_def idle_def exclusive_def set_column_def)
  from assms show "idle (set_column c l)" "tokens (set_column c l) = tokens l"
    "LineNum (location (set_column c l)) = LineNum (location l)" by (simp_all add: idle_def set_column_def)
qed

lemma well_start_backtick:
  assumes "well ls l" "idle l" "line = src_line ls (LineNum (location l))" "1 \<le> LineNum (location l)"
    "column_of l < length line" "line ! column_of l = backtick" "start_backtick line l = (closed, l')"
  shows "well ls l' \<and> LineNum (location l') = LineNum (location l) \<and> (closed \<longrightarrow> idle l')"
proof -
  let ?c = "column_of l" and ?rest = "drop (column_of l + 1) line"
  let ?l1 = "l\<lparr>accumulatingBacktickString := True, backtickStringValue := [],
      backtickStringStartLine := LineNum (location l), backtickStringStartCol := ?c + 1\<rparr>"
  have w: "\<forall>t \<in> set (tokens l). stored ls (LineNum (location l)) t" "ordered (tokens l) (LineNum (location l), ?c + 1)"
    using assms(1,2) by (simp_all add: well_def mark_def idle_def)
  have st: "starts ls (LineNum (location l)) (LineNum (location l), ?c + 1) backtick"
    using assms(3-6) by (simp add: starts_def)
  have w1: "well ls ?l1"
    using assms(2) w st by (simp add: well_def mark_def idle_def exclusive_def)
  show ?thesis
  proof (cases "index_byte ?rest backtick")
    case None
    with assms(7) have "l' = ?l1\<lparr>backtickStringValue := ?rest\<rparr>" "\<not> closed"
      by (auto simp: start_backtick_def Let_def)
    with w st assms(2) show ?thesis by (simp add: well_def mark_def idle_def exclusive_def)
  next
    case (Some i)
    with assms(7) have l': "l' = close_backtick (take i ?rest) (?c + i + 2) ?l1" "closed"
      by (auto simp: start_backtick_def Let_def)
    from assms(2) have "\<not> accumulatingBlockComment ?l1" "accumulatingBacktickString ?l1"
      "pos_before (mark ?l1) (LineNum (location ?l1), ?c + i + 2 + 1)"
      by (simp_all add: idle_def mark_def)
    from well_close_backtick [OF this(1,2) w1 this(3), of "take i ?rest"] l' show ?thesis by simp
  qed
qed

lemma well_start_block_comment:
  assumes "well ls l" "idle l" "line = src_line ls (LineNum (location l))" "1 \<le> LineNum (location l)"
    "column_of l + 1 < length line" "line ! column_of l = CHR ''/''"
    "l' = start_block_comment line l"
  shows "well ls l' \<and> LineNum (location l') = LineNum (location l) \<and> \<not> accumulatingBacktickString l'"
proof -
  let ?c = "column_of l"
  let ?l1 = "l\<lparr>accumulatingBlockComment := True, blockCommentStartLine := LineNum (location l),
                blockCommentStartCol := ?c + 1, blockCommentValue := ''/*''\<rparr>"
  have eq: "l' = finish_block_comment (scan_block_comment line (?c + 2) ''/*'' 1) ?l1"
    by (auto simp: assms(7) start_block_comment_def finish_block_comment_def Let_def storeToken_def
        set_column_def split: prod.splits)
  have w: "\<forall>t \<in> set (tokens l). stored ls (LineNum (location l)) t" "ordered (tokens l) (LineNum (location l), ?c + 1)"
    using assms(1,2) by (simp_all add: well_def mark_def idle_def)
  have "starts ls (LineNum (location l)) (LineNum (location l), ?c + 1) (CHR ''/'')"
    using assms(3-6) by (simp add: starts_def)
  with w assms(2) have w1: "well ls ?l1"
    by (simp add: well_def mark_def idle_def exclusive_def)
  from assms(2) scan_block_comment_le [of "?c + 2" line "''/*''" 1] have
    "accumulatingBlockComment ?l1" "\<not> accumulatingBacktickString ?l1"
    "pos_before (mark ?l1) (LineNum (location ?l1), fst (scan_block_comment line (?c + 2) ''/*'' 1) + 1)"
    by (simp_all add: idle_def mark_def)
  from well_finish_block_comment [OF this(1,2) w1 _ _ this(3) eq] show ?thesis by simp
qed

lemma lex_step_well:
  assumes "lex_step line spare l = Some (fl, l')" "well ls l" "idle l"
    "line = src_line ls (LineNum (location l))" "1 \<le> LineNum (location l)"
    "fl = Continue \<Longrightarrow> column_of l' \<le> length line"
  shows "well ls l' \<and> LineNum (location l') = LineNum (location l) \<and> (fl = Continue \<longrightarrow> idle l')"
proof -
  note W = well_set_column [OF assms(2,3) skip_space_le [of "column_of l" line]]
  have L: "LineNum (location (store_at r (set_column c l))) = LineNum (location l)" for r c
    by (simp add: store_at_def set_column_def storeToken_def)
  note P = well_store [OF assms(2,3) _ _ _ _ _ assms(5)]
  from assms(1) show ?thesis
  proof (cases rule: lex_step_cases)
    case eol
    with W show ?thesis by simp
  next
    case (str c tok c')
    with assms(6) have "c' \<le> length line" by simp
    note S = processStringLiteral_placed [OF str(4) this]
    from P [of tok c c'] S assms(4) str skip_space_le [of "column_of l" line]
      processStringLiteral_progress [OF str(4)] L show ?thesis by simp
  next
    case (raw c closed)
    with well_start_backtick [OF W(1,2) _ _ _ _ raw(4) [unfolded raw(1)]] W assms(4,5) show ?thesis by auto
  next
    case (comment c)
    with well_start_block_comment [OF W(1,2) _ _ _ _ comment(5) [unfolded comment(1)]] W assms(4,5)
    show ?thesis by (auto simp: idle_def)
  next
    case (special c tok c')
    note S = processSpecialChar_placed [OF special(4,2)]
    from P [of tok c c'] S assms(4) special skip_space_le [of "column_of l" line]
      processSpecialChar_progress [OF special(4)] L show ?thesis by simp
  next
    case (word c tok c')
    note S = processWord_placed [OF word(6,3,4)]
    from P [of tok c c'] S assms(4) word skip_space_le [of "column_of l" line]
      processWord_progress [OF word(6,3,4)] L show ?thesis by simp
  qed
qed

lemma lex_line_loop_well:
  assumes "lex_line_loop line spare l = Some l'" "well ls l" "idle l"
    "line = src_line ls (LineNum (location l))" "1 \<le> LineNum (location l)"
  shows "well ls l' \<and> LineNum (location l') = LineNum (location l)"
  using assms
proof (induction rule: lex_line_loop_rounds)
  case (stop l)
  then show ?case by simp
next
  case (break l l')
  then show ?case using lex_step_well [OF break(2)] by blast
next
  case (step l m l')
  from step(3) have "column_of m \<le> length line" by (cases rule: lex_line_loop_cases) auto
  with step.prems lex_step_well [OF step(2)] have
    "well ls m \<and> LineNum (location m) = LineNum (location l) \<and> idle m" by blast
  with step.IH step.prems show ?case by simp
qed

end
