(* ===== verification/Lexer_Thms.thy ===== *)
theory Lexer_Thms
  imports Lexer_Props "HOL-Library.Sublist"
begin

text \<open>
  The lexer's properties: the invariant of \<open>Lexer_Props\<close> over all lines, and what it gives for
  the token stream that \<open>Lex\<close> returns.
\<close>

section \<open>All lines\<close>

lemma starts_mono: "starts ls n p c \<Longrightarrow> n \<le> n' \<Longrightarrow> starts ls n' p c"
  by (auto simp: starts_def)

lemma stored_mono: "stored ls n t \<Longrightarrow> n \<le> n' \<Longrightarrow> stored ls n' t"
  by (auto simp: stored_def)

lemma next_line_sel [simp]:
  "LineNum (location (next_line l)) = LineNum (location l) + 1" "column_of (next_line l) = 0"
  "accumulatingBlockComment (next_line l) = accumulatingBlockComment l"
  "accumulatingBacktickString (next_line l) = accumulatingBacktickString l"
  "blockCommentValue (next_line l) = blockCommentValue l"
  "exclusive (next_line l) = exclusive l" "idle (next_line l) = idle l" "tokens (next_line l) = tokens l"
  by (simp_all add: next_line_def exclusive_def idle_def)

lemma mark_next_line: "\<not> idle l \<Longrightarrow> mark (next_line l) = mark l"
  by (auto simp: mark_def idle_def next_line_def)

lemma wellI:
  assumes "exclusive l" "\<And>t. t \<in> set (tokens l) \<Longrightarrow> stored ls (LineNum (location l)) t"
    "ordered (tokens l) (mark l)"
    "accumulatingBlockComment l \<Longrightarrow> starts ls (LineNum (location l)) (mark l) (CHR ''/'')"
    "accumulatingBlockComment l \<Longrightarrow> blockCommentValue l \<noteq> [] \<and> hd (blockCommentValue l) = CHR ''/''"
    "accumulatingBacktickString l \<Longrightarrow> starts ls (LineNum (location l)) (mark l) backtick"
  shows "well ls l"
  using assms unfolding well_def by blast

lemma wellD:
  assumes "well ls l"
  shows "exclusive l" "t \<in> set (tokens l) \<Longrightarrow> stored ls (LineNum (location l)) t"
    "ordered (tokens l) (mark l)"
    "accumulatingBlockComment l \<Longrightarrow> starts ls (LineNum (location l)) (mark l) (CHR ''/'')"
    "accumulatingBlockComment l \<Longrightarrow> blockCommentValue l \<noteq> [] \<and> hd (blockCommentValue l) = CHR ''/''"
    "accumulatingBacktickString l \<Longrightarrow> starts ls (LineNum (location l)) (mark l) backtick"
  using assms unfolding well_def by blast+

lemma well_next_line:
  assumes "well ls l"
  shows "well ls (next_line l)"
proof (rule wellI)
  note W = wellD [OF assms]
  have mk: "mark (next_line l) = mark l" if "accumulatingBlockComment l \<or> accumulatingBacktickString l"
    using that by (intro mark_next_line) (auto simp: idle_def)
  have "mark l = mark (next_line l) \<or> pos_before (mark l) (mark (next_line l))"
  proof (cases "idle l")
    case True
    then show ?thesis by (simp add: mark_def idle_def)
  next
    case False
    then show ?thesis by (simp add: mark_next_line)
  qed
  with W(3) show "ordered (tokens (next_line l)) (mark (next_line l))"
    using ordered_mono by auto
  show "exclusive (next_line l)" using W(1) by simp
  show "stored ls (LineNum (location (next_line l))) t" if "t \<in> set (tokens (next_line l))" for t
    using stored_mono [OF W(2), of t] that by simp
  show "starts ls (LineNum (location (next_line l))) (mark (next_line l)) (CHR ''/'')"
    if "accumulatingBlockComment (next_line l)" using that W(4) mk by (auto intro: starts_mono)
  show "starts ls (LineNum (location (next_line l))) (mark (next_line l)) backtick"
    if "accumulatingBacktickString (next_line l)" using that W(6) mk by (auto intro: starts_mono)
  show "blockCommentValue (next_line l) \<noteq> [] \<and> hd (blockCommentValue (next_line l)) = CHR ''/''"
    if "accumulatingBlockComment (next_line l)" using that W(5) by simp
qed

lemma well_backtickStringValue: "well ls l \<Longrightarrow> well ls (l\<lparr>backtickStringValue := v\<rparr>)"
proof -
  have "mark (l\<lparr>backtickStringValue := v\<rparr>) = mark l" "exclusive (l\<lparr>backtickStringValue := v\<rparr>) = exclusive l"
    by (simp_all add: mark_def exclusive_def)
  then show "well ls l \<Longrightarrow> well ls (l\<lparr>backtickStringValue := v\<rparr>)" by (simp add: well_def)
qed

lemma lex_line_well:
  assumes "lex_line (line, spare) l = Some l'" "well ls l" "line = src_line ls (LineNum (location l) + 1)"
  shows "well ls l' \<and> LineNum (location l') = LineNum (location l) + 1"
proof -
  note N = well_next_line [OF assms(2)]
  note W = wellD [OF assms(2)]
  have before: "pos_before (mark (next_line l)) (LineNum (location (next_line l)), c)" if "\<not> idle l" for c
  proof -
    have "fst (mark l) \<le> LineNum (location l)"
      using that W(4,6) by (auto simp: starts_def idle_def)
    with that show ?thesis by (cases "mark l") (simp add: mark_next_line)
  qed
  consider (block) "accumulatingBlockComment l" | (raw) "\<not> accumulatingBlockComment l" "accumulatingBacktickString l"
    | (none) "idle l" by (auto simp: idle_def)
  then show ?thesis
  proof cases
    case block
    define m where "m = continue_block_comment line (next_line l)"
    have pre: "accumulatingBlockComment (next_line l)" "\<not> accumulatingBacktickString (next_line l)" "\<not> idle l"
      using block W(1) by (auto simp: exclusive_def idle_def)
    have bv: "blockCommentValue (next_line l) @ [newline] \<noteq> []"
      "hd (blockCommentValue (next_line l) @ [newline]) = CHR ''/''"
      using W(5) [OF block] by auto
    note F = well_finish_block_comment [OF pre(1,2) N bv before [OF pre(3)]
        m_def [unfolded continue_block_comment_def]]
    have F': "well ls m" "LineNum (location m) = LineNum (location l) + 1" "\<not> accumulatingBacktickString m"
      using F by simp_all
    have res: "(if accumulatingBlockComment m then Some m else lex_line_loop line spare m) = Some l'"
      using assms(1) pre(1) F'(3) by (auto simp: lex_line_def Let_def m_def [symmetric])
    show ?thesis
    proof (cases "accumulatingBlockComment m")
      case True
      with res F' show ?thesis by simp
    next
      case False
      with F'(3) have "idle m" by (simp add: idle_def)
      with lex_line_loop_well [OF _ F'(1) this, of line spare l'] res False F'(2) assms(3) show ?thesis by simp
    qed
  next
    case raw
    obtain closed m where m: "continue_backtick line (next_line l) = (closed, m)"
      by (cases "continue_backtick line (next_line l)")
    have res: "(if closed then lex_line_loop line spare m else Some m) = Some l'"
      using assms(1) raw m by (simp add: lex_line_def split: bool.splits)
    show ?thesis
    proof (cases closed)
      case False
      with m have "m = (next_line l)\<lparr>backtickStringValue := backtickStringValue (next_line l) @ newline # line\<rparr>"
        by (auto simp: continue_backtick_def Let_def split: option.splits)
      with res False have "l' = (next_line l)\<lparr>backtickStringValue := backtickStringValue (next_line l) @ newline # line\<rparr>"
        by simp
      then show ?thesis using well_backtickStringValue [OF N] by (simp add: next_line_def)
    next
      case True
      with m obtain i v where "m = close_backtick v (i + 1) (next_line l)"
        by (auto simp: continue_backtick_def Let_def split: option.splits)
      with well_close_backtick [OF _ _ N before, of v "i + 1"] raw
      have "well ls m" "idle m" "LineNum (location m) = LineNum (location l) + 1" by (simp_all add: idle_def)
      with lex_line_loop_well [OF _ this(1,2), of line spare l'] res True assms(3) show ?thesis by simp
    qed
  next
    case none
    then have "idle (next_line l)" "lex_line_loop line spare (next_line l) = Some l'"
      using assms(1) by (auto simp: idle_def lex_line_def Let_def)
    from lex_line_loop_well [OF this(2) N this(1)] assms(3) show ?thesis by simp
  qed
qed

lemma lex_lines_well:
  "lex_lines ls l = Some l' \<Longrightarrow> well (pre @ ls) l \<Longrightarrow> LineNum (location l) = length pre \<Longrightarrow>
     well (pre @ ls) l' \<and> LineNum (location l') = length pre + length ls"
proof (induction ls arbitrary: l pre)
  case Nil
  then show ?case by simp
next
  case (Cons x ls)
  obtain line spare where x: "x = (line, spare)" by (cases x)
  from Cons.prems(1) obtain m where m: "lex_line (line, spare) l = Some m" "lex_lines ls m = Some l'"
    by (auto simp: x split: option.splits)
  from lex_line_well [OF m(1) Cons.prems(2)] Cons.prems(3)
  have "well (pre @ x # ls) m" "LineNum (location m) = length (pre @ [x])"
    by (simp_all add: src_line_def x nth_append)
  with Cons.IH [OF m(2), of "pre @ [x]"] show ?case by simp
qed

lemma New_sel [simp]: "tokens (New f) = []" "\<not> accumulatingBlockComment (New f)"
  "\<not> accumulatingBacktickString (New f)" "LineNum (location (New f)) = 0"
  by (simp_all add: New_def)

lemma well_New: "well ls (New f)" "exclusive (New f)" "idle (New f)" "kept (New f) = []"
  by (simp_all add: well_def exclusive_def ordered_def idle_def kept_def token_text_def pending_def)

lemma Lex_New: "Lex input (New f) = map_option (\<lambda>l. storeToken (eof_token l) l) (lex_lines (read_lines input) (New f))"
  by (simp add: Lex_def New_def)

section \<open>No panic\<close>

definition no_trailing_escape :: "string \<Rightarrow> bool" where
  "no_trailing_escape line \<longleftrightarrow> line = [] \<or> last line \<noteq> backslash"

lemma scan_quoted_in_line:
  "column \<le> length line \<Longrightarrow> no_trailing_escape line \<Longrightarrow> scan_quoted line q column \<le> length line"
proof (induction line q column rule: scan_quoted.induct)
  case (1 line q column)
  have "column < length line \<Longrightarrow> line ! column = backslash \<Longrightarrow> column + 2 \<le> length line"
  proof (cases "column + 1 = length line")
    case True
    then have "last line = line ! column" by (cases line) (simp_all add: last_conv_nth)
    moreover assume "column < length line" "line ! column = backslash"
    ultimately show ?thesis using "1.prems"(2) by (auto simp: no_trailing_escape_def)
  qed simp
  with 1 show ?case by (subst scan_quoted.simps) simp
qed

lemma GetTokenType_total: "w \<noteq> [] \<Longrightarrow> GetTokenType w \<noteq> None"
  by (auto simp: GetTokenType_def split: option.splits list.splits)

lemma lex_step_total:
  assumes "column_of l < length line" "no_trailing_escape line"
  shows "\<exists>fl l'. lex_step line spare l = Some (fl, l') \<and> (fl = Continue \<longrightarrow> column_of l' \<le> length line)"
proof -
  let ?c = "skip_space line (column_of l)"
  have c: "?c \<le> length line" using skip_space_bounds [of "column_of l" line] assms(1) by simp
  define m where "m = set_column ?c l"
  have str: "\<exists>r. processStringLiteral line spare ?c f n = Some r \<and> snd r \<le> length line"
    if "?c < length line" "line ! ?c \<noteq> backtick" for f n
    using that scan_quoted_in_line [OF _ assms(2), of "?c + 1"] scan_quoted_bounds [of "?c + 1" line "line ! ?c"]
    by (simp add: processStringLiteral_def Let_def go_slice_within)
  have wrd: "\<exists>r. processWord line spare ?c f n = Some r \<and> snd r \<le> length line"
    if "?c < length line" "\<not> isSpecialChar (line ! ?c)" for f n
  proof (cases "isDigit (line ! ?c)")
    case True
    from that number_start_bounds [OF that(1)] scan_number_bounds [of "number_start line ?c" line False False]
    have "?c \<le> fst (scan_number line (number_start line ?c) False False)"
      "fst (scan_number line (number_start line ?c) False False) \<le> length line" by auto
    with that True show ?thesis
      by (auto simp: processWord_def go_slice_within split: prod.splits)
  next
    case False
    let ?e = "scan_word line ?c"
    have e: "?c < ?e" "?e \<le> length line"
      using scan_word_progress [OF that(1) skip_space_stop [OF that(1)] that(2)] scan_word_bounds [of ?c line] c by auto
    then have w: "go_slice line spare ?c ?e = Some (window line ?c ?e)" "window line ?c ?e \<noteq> []"
      using that(1) by (simp_all add: go_slice_within window_def)
    then obtain ty where "GetTokenType (window line ?c ?e) = Some ty" using GetTokenType_total by blast
    with w e that False show ?thesis by (simp add: processWord_def Let_def)
  qed
  have spc: "\<exists>r. processSpecialChar line spare ?c f n = Some r \<and> snd r \<le> length line"
    if "?c < length line" for f n
  proof -
    let ?e = "special_end line ?c"
    have e: "?c < ?e" "?e \<le> length line" using special_end_bounds [OF that] by auto
    then have w: "go_slice line spare ?c ?e = Some (window line ?c ?e)" "window line ?c ?e \<noteq> []"
      using that by (simp_all add: go_slice_within window_def)
    then obtain ty where "GetTokenType (window line ?c ?e) = Some ty" using GetTokenType_total by blast
    with w e show ?thesis by (simp add: processSpecialChar_def Let_def max_def)
  qed
  consider (eol) "?c = length line"
    | (quoted) "?c < length line" "line ! ?c = dquote \<or> line ! ?c = squote"
    | (raw) "?c < length line" "line ! ?c = backtick"
    | (com) "?c + 1 < length line" "line ! ?c = CHR ''/''" "line ! (?c + 1) = CHR ''*''"
    | (spec) "?c < length line" "\<not> (line ! ?c = dquote \<or> line ! ?c = squote)" "line ! ?c \<noteq> backtick"
        "\<not> (?c + 1 < length line \<and> line ! ?c = CHR ''/'' \<and> line ! (?c + 1) = CHR ''*'')"
    using c by linarith
  then show ?thesis
  proof cases
    case eol
    then show ?thesis by (simp add: lex_step_def)
  next
    case quoted
    then show ?thesis using str by (fastforce simp: lex_step_def Let_def)
  next
    case raw
    then show ?thesis
      by (auto simp: lex_step_def Let_def start_backtick_def close_backtick_def dest!: index_byte_Some(1)
          split: option.splits)
  next
    case com
    then show ?thesis using scan_block_comment_bounds [of "?c + 2" line "''/*''" 1]
      by (auto simp: lex_step_def Let_def start_block_comment_def)
  next
    case spec
    let ?f = "locFileID (location (set_column ?c l))" and ?n = "LineNum (location (set_column ?c l))"
    show ?thesis
    proof (cases "isSpecialChar (line ! ?c)")
      case True
      obtain r where "processSpecialChar line spare ?c ?f ?n = Some r" "snd r \<le> length line"
        using spc [OF spec(1)] by blast
      with spec True show ?thesis by (auto simp: lex_step_def Let_def)
    next
      case False
      obtain r where "processWord line spare ?c ?f ?n = Some r" "snd r \<le> length line"
        using wrd [OF spec(1) False] by blast
      with spec False show ?thesis by (auto simp: lex_step_def Let_def)
    qed
  qed
qed

lemma lex_line_loop_total:
  assumes "column_of l \<le> length line" "no_trailing_escape line"
  shows "\<exists>l'. lex_line_loop line spare l = Some l'"
  using assms(1)
proof (induction "length line - column_of l" arbitrary: l rule: less_induct)
  case less
  show ?case
  proof (cases "column_of l < length line")
    case False
    with less.prems show ?thesis by (subst lex_line_loop.simps) (simp add: go_suffix_def)
  next
    case True
    then obtain fl m where m: "lex_step line spare l = Some (fl, m)" "fl = Continue \<longrightarrow> column_of m \<le> length line"
      using lex_step_total [OF True assms(2)] by blast
    show ?thesis
    proof (cases fl)
      case Continue
      with m lex_step_progress [of line spare l m] True have
        "length line - column_of m < length line - column_of l" "column_of m \<le> length line" by auto
      then have "\<exists>l'. lex_line_loop line spare m = Some l'" by (rule less.hyps)
      with m Continue True show ?thesis by (subst lex_line_loop.simps) (simp add: go_suffix_def)
    next
      case Break
      with m True show ?thesis by (subst lex_line_loop.simps) (simp add: go_suffix_def)
    qed
  qed
qed

lemma lex_line_total:
  assumes "no_trailing_escape line"
  shows "\<exists>l'. lex_line (line, spare) l = Some l'"
proof -
  have "column_of (continue_block_comment line (next_line l)) \<le> length line"
    using scan_block_comment_bounds by (simp add: continue_block_comment_def)
  note loop = lex_line_loop_total [OF _ assms, of _ spare] lex_line_loop_total [OF this assms, of spare]
  have bt: "\<exists>l'. (case continue_backtick line m of (True, l3) \<Rightarrow> lex_line_loop line spare l3 | (False, l3) \<Rightarrow> Some l3) = Some l'" for m
  proof (cases "index_byte line backtick")
    case None
    then show ?thesis by (simp add: continue_backtick_def)
  next
    case (Some i)
    with index_byte_Some(1) [OF Some] loop(1) show ?thesis by (simp add: continue_backtick_def close_backtick_def)
  qed
  show ?thesis using loop(2) loop(1) [of "next_line l"] bt by (simp add: lex_line_def Let_def)
qed

lemma lex_lines_total:
  "\<forall>x \<in> set ls. no_trailing_escape (fst x) \<Longrightarrow> \<exists>l'. lex_lines ls l = Some l'"
proof (induction ls arbitrary: l)
  case (Cons x ls)
  obtain line spare where x: "x = (line, spare)" by (cases x)
  with Cons.prems obtain m where "lex_line x l = Some m" using lex_line_total [of line spare l] by auto
  with Cons show ?case by simp
qed simp

section \<open>File identifiers\<close>

definition filed :: "string \<Rightarrow> Lexer \<Rightarrow> bool" where
  "filed f l \<longleftrightarrow> locFileID (location l) = f \<and> (\<forall>t \<in> set (tokens l). FileID t = f)"

lemma filed_simps [simp]:
  "filed f (set_column c l) = filed f l" "filed f (next_line l) = filed f l"
  "filed f (close_backtick v c l) = filed f l" "filed f (finish_block_comment r l) = filed f l"
  "filed f (start_block_comment line l) = filed f l" "filed f (continue_block_comment line l) = filed f l"
proof -
  show fin: "filed f (finish_block_comment r l) = filed f l" for r l
    by (auto simp: filed_def finish_block_comment_def Let_def set_column_def storeToken_def split: prod.splits)
  show "filed f (set_column c l) = filed f l" "filed f (next_line l) = filed f l"
    "filed f (close_backtick v c l) = filed f l"
    by (auto simp: filed_def set_column_def next_line_def close_backtick_def storeToken_def)
  show "filed f (continue_block_comment line l) = filed f l"
    by (simp add: continue_block_comment_def fin)
  show "filed f (start_block_comment line l) = filed f l"
    by (simp add: start_block_comment_def fin) (simp add: filed_def)
qed

lemma filed_backtick:
  "start_backtick line l = (closed, l') \<Longrightarrow> filed f l' = filed f l"
  "continue_backtick line l = (closed, l') \<Longrightarrow> filed f l' = filed f l"
  by (auto simp: start_backtick_def continue_backtick_def Let_def close_backtick_def storeToken_def
      set_column_def filed_def split: option.splits)

lemma process_file:
  "processStringLiteral line spare c f n = Some (tok, c') \<Longrightarrow> FileID tok = f"
  "processSpecialChar line spare c f n = Some (tok, c') \<Longrightarrow> FileID tok = f"
  "processWord line spare c f n = Some (tok, c') \<Longrightarrow> FileID tok = f"
  by (auto simp: processStringLiteral_def processSpecialChar_def processWord_def Let_def
      split: if_splits option.splits prod.splits)

lemma lex_step_filed:
  assumes "lex_step line spare l = Some (fl, l')" "filed f l"
  shows "filed f l'"
proof -
  have S: "filed f (store_at (tok, c') (set_column c l))" if "FileID tok = locFileID (location l)" for tok c c'
    using that assms(2) by (simp add: store_at_def) (simp add: filed_def set_column_def storeToken_def)
  from assms(1) show ?thesis
  proof (cases rule: lex_step_cases)
    case eol
    with assms(2) show ?thesis by simp
  next
    case (str c tok c')
    with S [OF process_file(1) [OF str(4)]] show ?thesis by simp
  next
    case (raw c closed)
    with filed_backtick(1) [OF raw(4)] assms(2) show ?thesis by simp
  next
    case (comment c)
    with assms(2) show ?thesis by simp
  next
    case (special c tok c')
    with S [OF process_file(2) [OF special(4)]] show ?thesis by simp
  next
    case (word c tok c')
    with S [OF process_file(3) [OF word(6)]] show ?thesis by simp
  qed
qed

lemma lex_line_loop_filed: "lex_line_loop line spare l = Some l' \<Longrightarrow> filed f l \<Longrightarrow> filed f l'"
  by (induction rule: lex_line_loop_rounds) (auto dest: lex_step_filed)

lemma lex_line_filed:
  assumes "lex_line x l = Some l'" "filed f l"
  shows "filed f l'"
proof -
  obtain line spare where x: "x = (line, spare)" by (cases x)
  define m where "m = (if accumulatingBlockComment l then continue_block_comment line (next_line l) else next_line l)"
  have m: "filed f m" using assms(2) by (simp add: m_def)
  obtain closed k where k: "continue_backtick line m = (closed, k)" by (cases "continue_backtick line m")
  have "Some l' = (if accumulatingBlockComment m then Some m
      else if accumulatingBacktickString m then (if closed then lex_line_loop line spare k else Some k)
      else lex_line_loop line spare m)"
    using assms(1) k by (cases closed) (simp_all add: lex_line_def x m_def [symmetric] split: if_splits)
  with m filed_backtick(2) [OF k] lex_line_loop_filed [of line spare k l' f]
    lex_line_loop_filed [of line spare m l' f] show ?thesis by (auto split: if_splits)
qed

lemma lex_lines_filed: "lex_lines ls l = Some l' \<Longrightarrow> filed f l \<Longrightarrow> filed f l'"
  by (induction ls arbitrary: l) (auto split: option.splits dest: lex_line_filed)

section \<open>The token stream\<close>

lemma Lex_Some:
  assumes "Lex input (New f) = Some l"
  obtains m where "lex_lines (read_lines input) (New f) = Some m" "l = storeToken (eof_token m) m"
    "well (read_lines input) m" "LineNum (location m) = length (read_lines input)" "filed f m"
proof -
  from assms obtain m where m: "lex_lines (read_lines input) (New f) = Some m" "l = storeToken (eof_token m) m"
    by (auto simp: Lex_New)
  from lex_lines_well [OF m(1), of "[]"] well_New(1) have
    "well (read_lines input) m" "LineNum (location m) = length (read_lines input)" by auto
  moreover have "filed f m" using lex_lines_filed [OF m(1), of f] by (simp add: filed_def New_def)
  ultimately show ?thesis using that m by blast
qed

lemma lex_Some:
  assumes "lex f input = Some ts"
  obtains m where "ts = tokens m @ [mk_token TokenEOF [] f (length (read_lines input) + 1) 1]"
    "well (read_lines input) m" "LineNum (location m) = length (read_lines input)" "filed f m"
proof -
  from assms obtain l where l: "Lex input (New f) = Some l" "ts = tokens l" by (auto simp: lex_def)
  from l(1) show ?thesis
  proof (rule Lex_Some)
    fix m
    assume m: "l = storeToken (eof_token m) m" "well (read_lines input) m"
      "LineNum (location m) = length (read_lines input)" "filed f m"
    then have "ts = tokens m @ [mk_token TokenEOF [] f (length (read_lines input) + 1) 1]"
      using l(2) by (simp add: storeToken_def eof_token_def filed_def)
    with m show thesis using that by blast
  qed
qed

text \<open>C1. No byte is lost: on ASCII input, the values of the tokens together with the text of a comment
  or raw string left open at the end are, white space apart, exactly the input.\<close>

theorem lex_lossless:
  assumes "Lex input (New f) = Some l" and "ascii input"
  shows "strip (token_text l @ pending l) = strip input"
proof -
  obtain m where m: "lex_lines (read_lines input) (New f) = Some m" "l = storeToken (eof_token m) m"
    using assms(1) by (rule Lex_Some)
  have "kept m = kept (New f) @ strip (concat (map fst (read_lines input)))"
    using ascii_read_lines [OF assms(2)] read_lines_parts [of input]
    by (intro lex_lines_kept [OF m(1)]) (auto simp: well_New)
  moreover have "token_text l = token_text m" "pending l = pending m"
    by (simp_all add: m(2) token_text_def pending_def storeToken_def eof_token_def)
  ultimately show ?thesis by (simp add: kept_def [symmetric] well_New strip_read_lines del: strip_append)
qed

text \<open>The stream ends with exactly one end-of-file token, at column 1 of the line after the last,
  and every token carries the file's identifier.\<close>

theorem lex_ends_with_eof:
  assumes "lex f input = Some ts"
  shows "\<exists>xs. ts = xs @ [mk_token TokenEOF [] f (length (read_lines input) + 1) 1] \<and>
    (\<forall>t \<in> set xs. Type t \<noteq> TokenEOF \<and> FileID t = f)"
  using assms
proof (rule lex_Some)
  fix m
  assume "ts = tokens m @ [mk_token TokenEOF [] f (length (read_lines input) + 1) 1]"
    "well (read_lines input) m" "filed f m"
  then show ?thesis using wellD(2) [of "read_lines input" m]
    by (auto simp: filed_def stored_def placed_def)
qed

text \<open>Tokens come in strictly increasing source position, the end-of-file token last.\<close>

theorem lex_positions_increase:
  assumes "lex f input = Some ts"
  shows "sorted_wrt (\<lambda>a b. pos_before (token_pos a) (token_pos b)) ts"
  using assms
proof (rule lex_Some)
  fix m
  let ?e = "mk_token TokenEOF [] f (length (read_lines input) + 1) 1"
  assume m: "ts = tokens m @ [?e]" "well (read_lines input) m" "LineNum (location m) = length (read_lines input)"
  have "pos_before (token_pos t) (token_pos ?e)" if "t \<in> set (tokens m)" for t
    using wellD(2) [OF m(2) that] m(3) by (simp add: stored_def token_pos_def)
  with wellD(3) [OF m(2)] m(1) show ?thesis by (simp add: ordered_def sorted_wrt_append)
qed


text \<open>C28. The lexer returns (it neither loops nor panics) on every input none of whose lines ends
  with a backslash.\<close>

theorem lex_returns:
  assumes "\<forall>x \<in> set (read_lines input). no_trailing_escape (fst x)"
  shows "\<exists>ts. lex f input = Some ts"
  using lex_lines_total [OF assms, of "New f"] by (auto simp: lex_def Lex_New)

lemma read_lines_newline:
  assumes "newline \<notin> set line"
  shows "read_lines (line @ newline # rest) = (line, [newline]) # read_lines rest"
proof -
  from assms have "takeWhile (\<lambda>c. c \<noteq> newline) (line @ newline # rest) = line"
    "dropWhile (\<lambda>c. c \<noteq> newline) (line @ newline # rest) = newline # rest"
    by (auto simp: takeWhile_tail takeWhile_eq_all_conv dropWhile_append3)
  then show ?thesis by (subst read_lines.simps) (simp add: Let_def)
qed

lemma scan_quoted_trailing:
  "q \<notin> set s \<Longrightarrow> backslash \<notin> set s \<Longrightarrow>
     scan_quoted (pre @ s @ [backslash]) q (length pre) = length pre + length s + 2"
proof (induction s arbitrary: pre)
  case Nil
  then show ?case by (subst scan_quoted.simps) (simp add: scan_quoted.simps [of _ _ "Suc (Suc (length pre))"])
next
  case (Cons x s)
  then show ?case using Cons.IH [of "pre @ [x]"] by (subst scan_quoted.simps) auto
qed

lemma panic_line:
  assumes "dquote \<notin> set s" "backslash \<notin> set s" "idle l" "spare = [] \<or> spare = [newline]"
  shows "lex_line (dquote # s @ [backslash], spare) l = None"
proof -
  let ?line = "dquote # s @ [backslash]"
  have sq: "scan_quoted ?line dquote (Suc 0) = length s + 3"
    using scan_quoted_trailing [OF assms(1,2), of "[dquote]"] by simp
  have sk: "skip_space ?line 0 = 0" by (subst skip_space.simps) (simp add: is_space_def)
  have "lex_line_loop ?line spare (next_line l) = None"
  proof (cases "processStringLiteral ?line spare 0 (locFileID (location (set_column 0 (next_line l))))
      (LineNum (location (set_column 0 (next_line l))))")
    case None
    then have "lex_step ?line spare (next_line l) = None" by (simp add: lex_step_def sk)
    then show ?thesis by (subst lex_line_loop.simps) (simp add: go_suffix_def)
  next
    case (Some r)
    then have r: "snd r = length s + 3" by (auto simp: processStringLiteral_def Let_def sq)
    from Some have "lex_step ?line spare (next_line l) = Some (Continue, store_at r (set_column 0 (next_line l)))"
      by (simp add: lex_step_def sk)
    moreover have "lex_line_loop ?line spare (store_at r (set_column 0 (next_line l))) = None"
      by (subst lex_line_loop.simps) (simp add: go_suffix_def r)
    ultimately show ?thesis by (subst lex_line_loop.simps) (simp add: go_suffix_def)
  qed
  with assms(3) show ?thesis by (simp add: lex_line_def idle_def)
qed

text \<open>A string literal whose line ends in a backslash makes the lexer panic: the escape steps the
  column past the end of the line, and the loop then slices the line there.\<close>

theorem lex_trailing_escape_panics:
  assumes "dquote \<notin> set s" and "backslash \<notin> set s" and "newline \<notin> set s"
  shows "lex f (dquote # s @ backslash # newline # rest) = None"
proof -
  have "read_lines ((dquote # s @ [backslash]) @ newline # rest) =
      (dquote # s @ [backslash], [newline]) # read_lines rest"
    using assms by (intro read_lines_newline) simp
  moreover have "lex_line (dquote # s @ [backslash], [newline]) (New f) = None"
    using panic_line [OF assms(1,2) well_New(3)] by simp
  ultimately show ?thesis by (simp add: lex_def Lex_New)
qed

section \<open>Witnesses\<close>

text \<open>The program \<open>x:=1\<close>, in the file \<open>f\<close>.\<close>

definition sample_tokens :: "Token list" where
  "sample_tokens = [mk_token TokenIdentifier ''x'' ''f'' 1 1, mk_token TokenColonEquals '':='' ''f'' 1 2,
     mk_token TokenIntLiteral ''1'' ''f'' 1 4, mk_token TokenEOF [] ''f'' 2 1]"

lemma lex_sample: "lex ''f'' ''x:=1'' = Some sample_tokens"
  by code_simp

lemma read_lines_sample: "read_lines ''x:=1'' = [(''x:=1'', [])]"
  by code_simp

theorem lex_lossless_witness:
  "strip (token_text (the (Lex ''x:=1'' (New ''f''))) @ pending (the (Lex ''x:=1'' (New ''f'')))) = ''x:=1''"
proof -
  obtain l where l: "Lex ''x:=1'' (New ''f'') = Some l" using lex_sample by (auto simp: lex_def)
  have "ascii ''x:=1''" by (simp add: ascii_def)
  moreover have "strip ''x:=1'' = ''x:=1''" by code_simp
  ultimately show ?thesis using lex_lossless [OF l] l by simp
qed

theorem lex_ends_with_eof_witness:
  "\<exists>xs. sample_tokens = xs @ [mk_token TokenEOF [] ''f'' 2 1] \<and> (\<forall>t \<in> set xs. Type t \<noteq> TokenEOF \<and> FileID t = ''f'')"
  using lex_ends_with_eof [OF lex_sample] by (simp add: read_lines_sample numeral_2_eq_2)

theorem lex_positions_increase_witness:
  "sorted_wrt (\<lambda>a b. pos_before (token_pos a) (token_pos b)) sample_tokens"
  by (rule lex_positions_increase [OF lex_sample])


theorem lex_returns_witness: "\<exists>ts. lex ''f'' ''x:=1'' = Some ts"
  by (rule lex_returns) (simp add: read_lines_sample no_trailing_escape_def)

theorem lex_trailing_escape_panics_witness: "lex ''f'' [dquote, CHR ''a'', backslash, newline] = None"
  using lex_trailing_escape_panics [of "''a''" "''f''" "[]"] by simp

section \<open>Operators\<close>

lemma operator_table_lengths:
  "list_all (\<lambda>w. length w = 1 \<or> (length w = 2 \<and> w \<in> set two_char_operators) \<or>
     (length w = 3 \<and> (w \<in> set three_char_operators \<or> w = ''...''))) (map fst Operators)"
  by code_simp

lemma ellipsis_prefix:
  "isEllipsis line c \<longleftrightarrow> c + 2 < length line \<and> take 3 (drop c line) = ''...''"
proof (cases "c + 2 < length line")
  case True
  then have "take 3 (drop c line) = [line ! c, line ! (c + 1), line ! (c + 2)]"
    by (simp add: take_Suc_conv_app_nth numeral_3_eq_3)
  with True show ?thesis by (auto simp: isEllipsis_def)
qed (simp add: isEllipsis_def)

text \<open>Maximal munch: the text cut out for an operator is the longest entry of the operator table
  that the line has at that column.\<close>

theorem special_end_longest:
  assumes "w \<in> set (map fst Operators)" and "prefix w (drop c line)" and "c < length line"
  shows "c + length w \<le> special_end line c \<and> special_end line c \<le> length line"
proof -
  from assms(2) obtain r where r: "drop c line = w @ r" by (auto simp: prefix_def)
  then have w: "take (length w) (drop c line) = w" by simp
  have len: "c + length w \<le> length line" using arg_cong [OF r, of length] assms(3) by simp
  have "length w = 1 \<or> (length w = 2 \<and> w \<in> set two_char_operators) \<or>
      (length w = 3 \<and> (w \<in> set three_char_operators \<or> w = ''...''))"
    using operator_table_lengths assms(1) unfolding list_all_iff by (rule bspec)
  then have "c + length w \<le> special_end line c"
    using w len assms(3) by (auto simp: special_end_def operatorSpan_def ellipsis_prefix Let_def numeral_3_eq_3)
  moreover have "special_end line c \<le> length line"
    using assms(3) by (auto simp: special_end_def operatorSpan_def isEllipsis_def Let_def)
  ultimately show ?thesis by blast
qed

theorem special_end_longest_witness: "special_end ''a<<=b'' 1 = 4"
proof -
  have "''<<='' \<in> set (map fst Operators)" by code_simp
  from special_end_longest [OF this, of 1 "''a<<=b''"] have "4 \<le> special_end ''a<<=b'' 1" by simp
  moreover have "special_end ''a<<=b'' 1 \<le> 4" by code_simp
  ultimately show ?thesis by simp
qed

text \<open>Compound assignment: the text of every compound operator is lexed back to that operator, and
  without its equals sign to the binary operator it applies.\<close>

theorem compound_assign_roundtrip:
  assumes "IsCompoundAssignToken t"
  shows "GetTokenType (CompoundAssignOperatorString t) = Some t \<and>
         GetTokenType (butlast (CompoundAssignOperatorString t)) = CompoundAssignBinaryOp t \<and>
         (\<exists>op. CompoundAssignBinaryOp t = Some op \<and> IsBinaryOperator op)"
proof -
  have "list_all (\<lambda>t. GetTokenType (CompoundAssignOperatorString t) = Some t \<and>
      GetTokenType (butlast (CompoundAssignOperatorString t)) = CompoundAssignBinaryOp t \<and>
      (case CompoundAssignBinaryOp t of None \<Rightarrow> False | Some op \<Rightarrow> IsBinaryOperator op))
    [TokenPlusEq, TokenMinusEq, TokenStarEq, TokenDivideEq, TokenModuloEq, TokenBitwiseAndEq, TokenBitwiseOrEq,
     TokenXorEq, TokenLShiftEq, TokenRShiftEq, TokenAndNotEq]"
    by code_simp
  moreover have "t \<in> set [TokenPlusEq, TokenMinusEq, TokenStarEq, TokenDivideEq, TokenModuloEq, TokenBitwiseAndEq,
     TokenBitwiseOrEq, TokenXorEq, TokenLShiftEq, TokenRShiftEq, TokenAndNotEq]"
    using assms by (simp add: IsCompoundAssignToken_def)
  ultimately have "GetTokenType (CompoundAssignOperatorString t) = Some t \<and>
      GetTokenType (butlast (CompoundAssignOperatorString t)) = CompoundAssignBinaryOp t \<and>
      (case CompoundAssignBinaryOp t of None \<Rightarrow> False | Some op \<Rightarrow> IsBinaryOperator op)"
    unfolding list_all_iff by (rule bspec)
  then show ?thesis by (auto split: option.splits)
qed

theorem compound_assign_roundtrip_witness:
  "GetTokenType (CompoundAssignOperatorString TokenLShiftEq) = Some TokenLShiftEq"
  using compound_assign_roundtrip [of TokenLShiftEq] by (simp add: IsCompoundAssignToken_def)

text \<open>An ampersand is unary exactly when, comments apart, it starts the input or follows a token that
  cannot end an operand.\<close>

theorem unary_ampersand_iff:
  "IsUnaryAmpersandAt toks (int i) \<longleftrightarrow>
     i < length toks \<and> Type (toks ! i) = TokenBitwiseAnd \<and>
     (case filter (\<lambda>t. Type t \<noteq> TokenComment) (rev (take i toks)) of
        [] \<Rightarrow> True
      | t # _ \<Rightarrow> \<not> CanEndOperand (Type t))"
proof (cases "i < length toks")
  case True
  have "n \<le> length toks \<Longrightarrow>
     (case PreviousNonCommentTokenIndex toks n of None \<Rightarrow> [] | Some j \<Rightarrow> [toks ! j]) =
     take 1 (filter (\<lambda>t. Type t \<noteq> TokenComment) (rev (take n toks)))" for n
    by (induction n) (auto simp: take_Suc_conv_app_nth)
  from this [of i] True show ?thesis
    by (cases "filter (\<lambda>t. Type t \<noteq> TokenComment) (rev (take i toks))")
       (auto simp: IsUnaryAmpersandAt_def split: option.splits)
qed (simp add: IsUnaryAmpersandAt_def)

end
