(* ===== verification/Ast.thy ===== *)
theory Ast
  imports Tokens
begin

text \<open>
  \<open>internal/ast\<close>: the type, assertion, shape, parameter and expression nodes of the syntax tree, their
  \<open>String\<close> methods and the normalising constructors of union and intersection types. Source spans
  are left out: no definition here reads them. A nil pointer or a nil interface is \<open>None\<close>, a Go map
  an association list (looked up with \<open>map_of\<close>), a \<open>float64\<close> its \<open>%g\<close> text, an \<open>int64\<close> literal value
  an \<open>int\<close>. The type of a map literal is \<open>Map(K, V)\<close>, so the node carries the two types. The body of a
  function literal is not part of its text and is left out.
\<close>

section \<open>Type identifiers and kinds\<close>

type_synonym TypeIdent = string
type_synonym TypeKind = string
type_synonym Identifier = string

abbreviation TypeInt :: TypeIdent where "TypeInt \<equiv> ''TYPE_INT''"
abbreviation TypeFloat :: TypeIdent where "TypeFloat \<equiv> ''TYPE_FLOAT''"
abbreviation TypeString :: TypeIdent where "TypeString \<equiv> ''TYPE_STRING''"
abbreviation TypeBool :: TypeIdent where "TypeBool \<equiv> ''TYPE_BOOL''"
abbreviation TypeVoid :: TypeIdent where "TypeVoid \<equiv> ''TYPE_VOID''"
abbreviation TypeError :: TypeIdent where "TypeError \<equiv> ''TYPE_ERROR''"
abbreviation TypeBytes :: TypeIdent where "TypeBytes \<equiv> ''TYPE_BYTES''"
abbreviation TypeComplex64 :: TypeIdent where "TypeComplex64 \<equiv> ''TYPE_COMPLEX64''"
abbreviation TypeComplex128 :: TypeIdent where "TypeComplex128 \<equiv> ''TYPE_COMPLEX128''"
abbreviation TypeObject :: TypeIdent where "TypeObject \<equiv> ''TYPE_OBJECT''"
abbreviation TypeArray :: TypeIdent where "TypeArray \<equiv> ''TYPE_ARRAY''"
abbreviation TypeMap :: TypeIdent where "TypeMap \<equiv> ''TYPE_MAP''"
abbreviation TypeAssertion :: TypeIdent where "TypeAssertion \<equiv> ''TYPE_ASSERTION''"
abbreviation TypeImplicit :: TypeIdent where "TypeImplicit \<equiv> ''TYPE_IMPLICIT''"
abbreviation TypeShape :: TypeIdent where "TypeShape \<equiv> ''TYPE_SHAPE''"
abbreviation TypePointer :: TypeIdent where "TypePointer \<equiv> ''TYPE_POINTER''"
abbreviation TypeResult :: TypeIdent where "TypeResult \<equiv> ''TYPE_RESULT''"
abbreviation TypeTuple :: TypeIdent where "TypeTuple \<equiv> ''TYPE_TUPLE''"
abbreviation TypeChannel :: TypeIdent where "TypeChannel \<equiv> ''TYPE_CHANNEL''"
abbreviation TypeUnion :: TypeIdent where "TypeUnion \<equiv> ''TYPE_UNION''"
abbreviation TypeIntersection :: TypeIdent where "TypeIntersection \<equiv> ''TYPE_INTERSECTION''"
abbreviation TypeFunc :: TypeIdent where "TypeFunc \<equiv> ''TYPE_FUNC''"

abbreviation TypeKindBuiltin :: TypeKind where "TypeKindBuiltin \<equiv> ''TYPE_KIND_BUILTIN''"
abbreviation TypeKindUserDefined :: TypeKind where "TypeKindUserDefined \<equiv> ''TYPE_KIND_USER_DEFINED''"
abbreviation TypeKindHashBased :: TypeKind where "TypeKindHashBased \<equiv> ''TYPE_KIND_HASH_BASED''"
abbreviation TypeKindTypeParam :: TypeKind where "TypeKindTypeParam \<equiv> ''TYPE_KIND_TYPE_PARAM''"

abbreviation ValueConstraint :: string where "ValueConstraint \<equiv> ''Value''"

section \<open>Nodes\<close>

datatype TypeNode = TypeNode (TIdent: TypeIdent) (TAssertion: "AssertionNode option")
    (TypeParams: "TypeNode list") (TKind: TypeKind) (ArrayLen: "int option")
    (FuncParams: "ParamNode list") (FuncReturns: "TypeNode list")
and AssertionNode = AssertionNode (BaseType: "TypeIdent option") (Constraints: "ConstraintNode list")
    (OrChains: "AssertionNode list") (ATypeParams: "TypeNode list") (AArrayLen: "int option")
and ConstraintNode = ConstraintNode (CName: string) (CArgs: "ConstraintArgumentNode list")
and ConstraintArgumentNode = ConstraintArgumentNode (ArgValue: "ExpressionNode option")
    (ArgShape: "ShapeNode option") (ArgType: "TypeNode option")
and ShapeNode = ShapeNode (Fields: "(string \<times> ShapeFieldNode) list") (FieldOrder: "string list")
    (SBaseType: "TypeIdent option")
and ShapeFieldNode = ShapeFieldNode (FNode: "ExpressionNode option") (FAssertion: "AssertionNode option")
    (FShape: "ShapeNode option") (FType: "TypeNode option") (IsMethod: bool)
    (MethodParams: "ParamNode list") (MethodReturnTypes: "TypeNode list")
    (Embedded: bool) (Tag: string) (GoExport: bool)
and ParamNode = SimpleParamNode Identifier TypeNode bool | DestructuredParamNode "string list" TypeNode
and ExpressionNode =
    IntLiteralNode int string TypeNode
  | FloatLiteralNode string TypeNode
  | StringLiteralNode string TypeNode
  | RuneLiteralNode int TypeNode
  | BoolLiteralNode bool TypeNode
  | ArrayLiteralNode "ExpressionNode list" TypeNode
  | MapLiteralNode "(ExpressionNode \<times> ExpressionNode) list" TypeNode TypeNode
  | NilLiteralNode
  | IotaLiteralNode
  | VariableNode Identifier TypeNode
  | ReferenceNode ExpressionNode
  | DereferenceNode ExpressionNode
  | UnaryExpressionNode TokenIdent ExpressionNode
  | BinaryExpressionNode ExpressionNode TokenIdent ExpressionNode
  | FunctionCallNode Identifier "ExpressionNode option" "TypeNode list" "ExpressionNode list"
  | MethodCallNode ExpressionNode Identifier "ExpressionNode list"
  | IndexExpressionNode ExpressionNode ExpressionNode
  | SliceExpressionNode ExpressionNode "ExpressionNode option" "ExpressionNode option"
  | SpreadExpressionNode ExpressionNode
  | TypeExpressionNode TypeNode
  | FieldAccessNode ExpressionNode Identifier
  | FunctionLiteralNode "ParamNode list" "TypeNode list"
  | ShapeExpr ShapeNode
  | AssertionExpr AssertionNode
  | OkExprNode "ExpressionNode option"
  | ErrExprNode "ExpressionNode option"

end
