(* ===== verification/AstOps.thy ===== *)
theory AstOps
  imports Ast
begin

text \<open>
  The methods of \<open>internal/ast\<close> on the nodes of \<open>Ast\<close>: \<open>String\<close>, the type constructors and
  predicates, and the flattening and deduplication that normalise unions and intersections.
\<close>

section \<open>Texts of types\<close>

definition TypeIdent_String :: "TypeIdent \<Rightarrow> string" where
  "TypeIdent_String ti =
     (if ti = TypeInt then ''Int''
      else if ti = TypeFloat then ''Float''
      else if ti = TypeString then ''String''
      else if ti = TypeBool then ''Bool''
      else if ti = TypeVoid then ''Void''
      else if ti = TypeError then ''Error''
      else if ti = TypeBytes then ''Bytes''
      else if ti = TypeObject then ''Object(?)''
      else if ti = TypeArray then ''Array(?)''
      else if ti = TypeMap then ''Map(?, ?)''
      else if ti = TypeAssertion then ''Assertion(?)''
      else if ti = TypeImplicit then ''Any''
      else if ti = TypeShape then ''Shape(?)''
      else if ti = TypePointer then ''Pointer''
      else if ti = TypeResult then ''Result''
      else if ti = TypeTuple then ''Tuple''
      else if ti = TypeChannel then ''Chan''
      else if ti = TypeUnion then ''Union''
      else if ti = TypeIntersection then ''Intersection''
      else ti)"

text \<open>The body of \<open>TypeNode.String\<close>, given the texts of the node's parts: the assertion, the type
  parameters, the formatted function parameters and the return types. \<open>mustTypeNodeString\<close> calls it
  on a type node built from an assertion.\<close>

definition type_text :: "TypeIdent \<Rightarrow> string option \<Rightarrow> string list \<Rightarrow> int option \<Rightarrow> string \<Rightarrow> string list \<Rightarrow> string" where
  "type_text ident asrt params arrayLen funcParams funcReturns =
     (if ident = TypeInt \<or> ident = TypeFloat \<or> ident = TypeString \<or> ident = TypeBool \<or> ident = TypeVoid \<or>
         ident = TypeError \<or> ident = TypeBytes \<or> ident = TypeObject
      then TypeIdent_String ident
      else if ident = TypeArray
      then (case params of
              p # _ \<Rightarrow> (case arrayLen of Some n \<Rightarrow> ''['' @ dec_int n @ '']'' @ p
                                      | None \<Rightarrow> ''Array('' @ p @ '')'')
            | [] \<Rightarrow> ''Array(?)'')
      else if ident = TypeMap
      then (case params of k # v # _ \<Rightarrow> ''Map('' @ k @ '', '' @ v @ '')'' | _ \<Rightarrow> ''Map(?, ?)'')
      else if ident = TypeAssertion
      then (case asrt of Some a \<Rightarrow> ''Assertion('' @ a @ '')'' | None \<Rightarrow> ''Assertion(?)'')
      else if ident = TypeImplicit then ''Any''
      else if ident = TypeShape
      then (case params of p # _ \<Rightarrow> ''Shape('' @ p @ '')'' | [] \<Rightarrow> ''Shape'')
      else if ident = TypePointer
      then (case params of p # _ \<Rightarrow> ''Pointer('' @ p @ '')'' | [] \<Rightarrow> ''Pointer'')
      else if ident = TypeResult
      then (case params of s # f # _ \<Rightarrow> ''Result('' @ s @ '', '' @ f @ '')'' | _ \<Rightarrow> ''Result(?, ?)'')
      else if ident = TypeFunc
      then ''func('' @ funcParams @ ''): '' @ (case funcReturns of r # _ \<Rightarrow> r | [] \<Rightarrow> [])
      else if ident = TypeTuple
      then (if params \<noteq> [] then ''Tuple('' @ join_strings '', '' params @ '')'' else ''Tuple()'')
      else if ident = TypeChannel
      then (case params of p # _ \<Rightarrow> ''chan '' @ p | [] \<Rightarrow> ''chan'')
      else if ident = TypeUnion
      then (if params \<noteq> [] then join_strings '' | '' params else ''Union()'')
      else if ident = TypeIntersection
      then (if params \<noteq> [] then join_strings '' & '' params else ''Intersection()'')
      else (case asrt of
              Some a \<Rightarrow> TypeIdent_String ident @ ''('' @ a @ '')''
            | None \<Rightarrow> if params \<noteq> [] then TypeIdent_String ident @ ''('' @ join_strings '', '' params @ '')''
                      else ident))"

text \<open>The body of \<open>AssertionNode.ToString\<close>, given the texts of the constraints, of the type
  parameters and of the alternatives after \<open>or\<close>.\<close>

definition assertion_text :: "TypeIdent option \<Rightarrow> string list \<Rightarrow> string list \<Rightarrow> int option \<Rightarrow> string list \<Rightarrow> string" where
  "assertion_text baseType constraints typeParams arrayLen alts =
     (let constraintsString = join_strings ''.'' constraints;
          head = (case baseType of
                    None \<Rightarrow> constraintsString
                  | Some b \<Rightarrow>
                    if constraintsString = []
                    then (if typeParams \<noteq> [] \<or> arrayLen \<noteq> None
                          then type_text b None typeParams arrayLen [] [] else TypeIdent_String b)
                    else TypeIdent_String b @ ''.'' @ constraintsString)
      in head @ concat (map (\<lambda>alt. '' or '' @ alt) alts))"

definition int_literal_source :: "int \<Rightarrow> string \<Rightarrow> string" where
  "int_literal_source val raw =
     (if raw \<noteq> [] then (if val < 0 \<and> take 1 raw \<noteq> ''-'' then ''-'' @ raw else raw) else dec_int val)"

text \<open>\<open>ShapeFieldNamesInOrder\<close>: the declaration order, or the sorted names.\<close>

definition ShapeFieldNamesInOrder :: "(string \<times> 'f) list \<Rightarrow> string list \<Rightarrow> string list" where
  "ShapeFieldNamesInOrder fs fieldOrder =
     (if fieldOrder \<noteq> [] then fieldOrder else sort (map fst fs))"

definition shape_text :: "(string \<times> string) list \<Rightarrow> string list \<Rightarrow> string" where
  "shape_text fs fieldOrder =
     ''{'' @ join_strings '', ''
       (map (\<lambda>name. name @ '': '' @ (case map_of fs name of Some s \<Rightarrow> s | None \<Rightarrow> ''?''))
            (ShapeFieldNamesInOrder fs fieldOrder)) @ ''}''"

definition first_some :: "string option list \<Rightarrow> string" where
  "first_some xs = (case filter (\<lambda>x. x \<noteq> None) xs of Some s # _ \<Rightarrow> s | _ \<Rightarrow> ''?'')"

text \<open>\<open>%v\<close> of a slice of strings.\<close>

definition slice_text :: "string list \<Rightarrow> string" where
  "slice_text xs = ''['' @ join_strings '' '' xs @ '']''"

primrec Type_String :: "TypeNode \<Rightarrow> string"
  and Assertion_String :: "AssertionNode \<Rightarrow> string"
  and Constraint_String :: "ConstraintNode \<Rightarrow> string"
  and ConstraintArgument_String :: "ConstraintArgumentNode \<Rightarrow> string"
  and Shape_String :: "ShapeNode \<Rightarrow> string"
  and shape_field_text :: "ShapeFieldNode \<Rightarrow> string"
  and FuncTypeParam_String :: "ParamNode \<Rightarrow> string"
  and Expression_String :: "ExpressionNode \<Rightarrow> string" where
  "Type_String (TypeNode ident asrt params kind arrayLen funcParams funcReturns) =
     type_text ident (map_option Assertion_String asrt) (map Type_String params) arrayLen
       (join_strings '', '' (map FuncTypeParam_String funcParams)) (map Type_String funcReturns)"
| "Assertion_String (AssertionNode base cs alts params arrayLen) =
     assertion_text base (map Constraint_String cs) (map Type_String params) arrayLen (map Assertion_String alts)"
| "Constraint_String (ConstraintNode name args) =
     name @ ''('' @ join_strings '', '' (map ConstraintArgument_String args) @ '')''"
| "ConstraintArgument_String (ConstraintArgumentNode v s t) =
     first_some [map_option Expression_String v, map_option Shape_String s, map_option Type_String t]"
| "Shape_String (ShapeNode fs order base) =
     shape_text (map (map_prod (\<lambda>n. n) shape_field_text) fs) order"
| "shape_field_text (ShapeFieldNode node asrt shape ty isMethod mparams mreturns emb tag export) =
     first_some [map_option Shape_String shape, map_option Assertion_String asrt, map_option Type_String ty]"
| "FuncTypeParam_String (SimpleParamNode ident ty variadic) =
     (if ident \<noteq> [] then ident @ '' '' @ Type_String ty else Type_String ty)"
| "FuncTypeParam_String (DestructuredParamNode fs ty) =
     ''{'' @ slice_text fs @ ''} '' @ Type_String ty"
| "Expression_String (IntLiteralNode val raw ty) = int_literal_source val raw"
| "Expression_String (FloatLiteralNode txt ty) = txt"
| "Expression_String (StringLiteralNode s ty) = [CHR 0x22] @ s @ [CHR 0x22]"
| "Expression_String (RuneLiteralNode r ty) = [CHR 0x27] @ utf8_of_rune r @ [CHR 0x27]"
| "Expression_String (BoolLiteralNode b ty) = (if b then ''true'' else ''false'')"
| "Expression_String (ArrayLiteralNode items ty) =
     ''['' @ join_strings '', '' (map Expression_String items) @ '']''"
| "Expression_String (MapLiteralNode entries kt vt) =
     ''map['' @ Type_String kt @ '']'' @ Type_String vt @ ''{'' @
       join_strings '', '' (map (\<lambda>(k, v). k @ '': '' @ v)
         (map (map_prod Expression_String Expression_String) entries)) @ ''}''"
| "Expression_String NilLiteralNode = ''nil''"
| "Expression_String IotaLiteralNode = ''iota''"
| "Expression_String (VariableNode ident ty) =
     (if TIdent ty \<noteq> [] then ''Variable('' @ ident @ '': '' @ TypeIdent_String (TIdent ty) @ '')''
      else ''Variable('' @ ident @ '')'')"
| "Expression_String (ReferenceNode e) = ''Ref('' @ Expression_String e @ '')''"
| "Expression_String (DereferenceNode e) = ''Deref('' @ Expression_String e @ '')''"
| "Expression_String (UnaryExpressionNode op e) = TokenIdent_String op @ '' '' @ Expression_String e"
| "Expression_String (BinaryExpressionNode l op r) =
     Expression_String l @ '' '' @ TokenIdent_String op @ '' '' @ Expression_String r"
| "Expression_String (FunctionCallNode fn callee targs args) =
     (case map_option Expression_String callee of Some c \<Rightarrow> c | None \<Rightarrow> ''{'' @ fn @ ''}'') @
     (if targs = [] then [] else ''['' @ join_strings '', '' (map Type_String targs) @ '']'') @
     ''('' @ join_strings '', '' (map Expression_String args) @ '')''"
| "Expression_String (MethodCallNode recv m args) =
     Expression_String recv @ ''.'' @ m @ ''('' @ join_strings '', '' (map Expression_String args) @ '')''"
| "Expression_String (IndexExpressionNode target index) =
     Expression_String target @ ''['' @ Expression_String index @ '']''"
| "Expression_String (SliceExpressionNode target low high) =
     Expression_String target @ ''['' @ (case map_option Expression_String low of Some s \<Rightarrow> s | None \<Rightarrow> []) @ '':'' @
       (case map_option Expression_String high of Some s \<Rightarrow> s | None \<Rightarrow> []) @ '']''"
| "Expression_String (SpreadExpressionNode e) = Expression_String e @ ''...''"
| "Expression_String (TypeExpressionNode ty) = Type_String ty"
| "Expression_String (FieldAccessNode target field) = Expression_String target @ ''.'' @ field"
| "Expression_String (FunctionLiteralNode params returns) =
     ''func(...)'' @ (case map Type_String returns of r # _ \<Rightarrow> '': '' @ r | [] \<Rightarrow> []) @ '' { ... }''"
| "Expression_String (ShapeExpr s) = Shape_String s"
| "Expression_String (AssertionExpr a) = Assertion_String a"
| "Expression_String (OkExprNode v) = (case map_option Expression_String v of Some s \<Rightarrow> ''Ok('' @ s @ '')'' | None \<Rightarrow> ''Ok()'')"
| "Expression_String (ErrExprNode v) = (case map_option Expression_String v of Some s \<Rightarrow> ''Err('' @ s @ '')'' | None \<Rightarrow> ''Err()'')"

definition Param_String :: "ParamNode \<Rightarrow> string" where
  "Param_String p =
     (case p of
        SimpleParamNode ident ty variadic \<Rightarrow>
          if variadic then ident @ '' ...'' @ Type_String ty else ident @ '' '' @ Type_String ty
      | DestructuredParamNode fs ty \<Rightarrow> ''{'' @ slice_text fs @ ''} '' @ Type_String ty)"

definition Param_GetIdent :: "ParamNode \<Rightarrow> string" where
  "Param_GetIdent p = (case p of SimpleParamNode ident _ _ \<Rightarrow> ident | DestructuredParamNode fs _ \<Rightarrow> join_strings '', '' fs)"

definition Param_GetType :: "ParamNode \<Rightarrow> TypeNode" where
  "Param_GetType p = (case p of SimpleParamNode _ ty _ \<Rightarrow> ty | DestructuredParamNode _ ty \<Rightarrow> ty)"

definition methodSignatureString :: "ShapeFieldNode \<Rightarrow> string" where
  "methodSignatureString f =
     ''('' @ join_strings '', '' (map Param_String (MethodParams f)) @ '')'' @
     (if MethodReturnTypes f \<noteq> [] then '': '' @ join_strings '', '' (map Type_String (MethodReturnTypes f)) else [])"

definition ShapeField_String :: "ShapeFieldNode \<Rightarrow> string" where
  "ShapeField_String f = (if IsMethod f then methodSignatureString f else shape_field_text f)"

definition FormatShapeMemberName :: "string \<Rightarrow> ShapeFieldNode \<Rightarrow> string" where
  "FormatShapeMemberName name f =
     (if IsMethod f then name @ methodSignatureString f else name @ '': '' @ ShapeField_String f)"

definition IsMethodOnlyContract :: "ShapeNode \<Rightarrow> bool" where
  "IsMethodOnlyContract n \<longleftrightarrow> Fields n \<noteq> [] \<and> list_all (\<lambda>(name, f). IsMethod f) (Fields n)"

definition ValueExpression :: "ShapeFieldNode \<Rightarrow> ExpressionNode option" where
  "ValueExpression f = (case FShape f of Some s \<Rightarrow> Some (ShapeExpr s) | None \<Rightarrow> FNode f)"

text \<open>\<open>payload\<close> is the map of payload fields, iterated in the order of the list; the names left over are
  sorted, so that order does not show.\<close>

definition ShapeFieldNamesForCompositeEmit :: "(string \<times> ShapeFieldNode) list \<Rightarrow> ShapeNode option \<Rightarrow> string list" where
  "ShapeFieldNamesForCompositeEmit payload shape =
     (case shape of
        Some s \<Rightarrow>
          if FieldOrder s \<noteq> []
          then let out = filter (\<lambda>name. map_of payload name \<noteq> None) (FieldOrder s)
               in out @ sort (filter (\<lambda>name. name \<notin> set out) (map fst payload))
          else ShapeFieldNamesInOrder payload []
      | None \<Rightarrow> ShapeFieldNamesInOrder payload [])"

section \<open>Assertions\<close>

definition ToTypeNode :: "AssertionNode \<Rightarrow> TypeNode option" where
  "ToTypeNode a = map_option (\<lambda>b. TypeNode b None (ATypeParams a) [] (AArrayLen a) [] []) (BaseType a)"

definition MeetChains :: "AssertionNode \<Rightarrow> AssertionNode list" where
  "MeetChains a =
     (let first = AssertionNode (BaseType a) (Constraints a) [] (ATypeParams a) (AArrayLen a)
      in if OrChains a = [] then [first] else first # OrChains a)"

definition IsBareTypeShape :: "AssertionNode \<Rightarrow> bool" where
  "IsBareTypeShape a \<longleftrightarrow> BaseType a \<noteq> None \<and> Constraints a = [] \<and> OrChains a = []"

definition ConstraintOnlyAssertion :: "string \<Rightarrow> AssertionNode" where
  "ConstraintOnlyAssertion name = AssertionNode None [ConstraintNode name []] [] [] None"

section \<open>Constructors and predicates of types\<close>

definition mk_type :: "TypeIdent \<Rightarrow> TypeNode list \<Rightarrow> TypeKind \<Rightarrow> TypeNode" where
  "mk_type ident params kind = TypeNode ident None params kind None [] []"

definition NewBuiltinType :: "TypeIdent \<Rightarrow> TypeNode" where "NewBuiltinType ident = mk_type ident [] TypeKindBuiltin"
definition NewUserDefinedType :: "TypeIdent \<Rightarrow> TypeNode" where "NewUserDefinedType ident = mk_type ident [] TypeKindUserDefined"
definition NewTypeParamType :: "TypeIdent \<Rightarrow> TypeNode" where "NewTypeParamType ident = mk_type ident [] TypeKindTypeParam"
definition NewHashBasedType :: "TypeIdent \<Rightarrow> TypeNode" where "NewHashBasedType ident = mk_type ident [] TypeKindHashBased"
definition NewPointerType :: "TypeNode \<Rightarrow> TypeNode" where "NewPointerType base = mk_type TypePointer [base] TypeKindBuiltin"
definition NewArrayType :: "TypeNode \<Rightarrow> TypeNode" where "NewArrayType el = mk_type TypeArray [el] TypeKindBuiltin"
definition NewFixedArrayType :: "TypeNode \<Rightarrow> int \<Rightarrow> TypeNode" where
  "NewFixedArrayType el n = TypeNode TypeArray None [el] TypeKindBuiltin (Some n) [] []"
definition NewChannelType :: "TypeNode \<Rightarrow> TypeNode" where "NewChannelType el = mk_type TypeChannel [el] TypeKindBuiltin"
definition NewMapType :: "TypeNode \<Rightarrow> TypeNode \<Rightarrow> TypeNode" where "NewMapType k v = mk_type TypeMap [k, v] TypeKindBuiltin"
definition NewResultType :: "TypeNode \<Rightarrow> TypeNode \<Rightarrow> TypeNode" where "NewResultType s f = mk_type TypeResult [s, f] TypeKindBuiltin"
definition NewTupleType :: "TypeNode list \<Rightarrow> TypeNode" where "NewTupleType elems = mk_type TypeTuple elems TypeKindBuiltin"
definition NewAssertionType :: "AssertionNode option \<Rightarrow> TypeNode" where
  "NewAssertionType a = TypeNode TypeAssertion a [] TypeKindHashBased None [] []"
definition NewFunctionType :: "ParamNode list \<Rightarrow> TypeNode list \<Rightarrow> TypeNode" where
  "NewFunctionType params returns = TypeNode TypeFunc None [] TypeKindBuiltin None params returns"

definition IsExplicit :: "TypeNode \<Rightarrow> bool" where "IsExplicit t \<longleftrightarrow> TIdent t \<noteq> TypeImplicit"
definition IsFixedArray :: "TypeNode \<Rightarrow> bool" where "IsFixedArray t \<longleftrightarrow> TIdent t = TypeArray \<and> ArrayLen t \<noteq> None"
definition IsSlice :: "TypeNode \<Rightarrow> bool" where "IsSlice t \<longleftrightarrow> TIdent t = TypeArray \<and> ArrayLen t = None"
definition IsResultType :: "TypeNode \<Rightarrow> bool" where "IsResultType t \<longleftrightarrow> TIdent t = TypeResult \<and> length (TypeParams t) \<ge> 2"
definition IsTupleType :: "TypeNode \<Rightarrow> bool" where "IsTupleType t \<longleftrightarrow> TIdent t = TypeTuple \<and> length (TypeParams t) \<ge> 1"
definition IsUnionType :: "TypeNode \<Rightarrow> bool" where "IsUnionType t \<longleftrightarrow> TIdent t = TypeUnion \<and> length (TypeParams t) \<ge> 2"
definition IsIntersectionType :: "TypeNode \<Rightarrow> bool" where
  "IsIntersectionType t \<longleftrightarrow> TIdent t = TypeIntersection \<and> length (TypeParams t) \<ge> 2"

datatype TypeStorageClass = TypeStorageTypeParam | TypeStorageBuiltinOrStructural | TypeStorageNamedUserType

definition StorageClass :: "(TypeIdent \<Rightarrow> bool) \<Rightarrow> TypeNode \<Rightarrow> TypeStorageClass" where
  "StorageClass isBuiltinIdent t =
     (if TKind t = TypeKindTypeParam then TypeStorageTypeParam
      else if TKind t = TypeKindHashBased then TypeStorageBuiltinOrStructural
      else if TKind t = TypeKindBuiltin \<or> isBuiltinIdent (TIdent t) then TypeStorageBuiltinOrStructural
      else TypeStorageNamedUserType)"

section \<open>Shallow equality, deduplication, flattening\<close>

definition assertion_payload :: "TypeNode \<Rightarrow> string" where
  "assertion_payload t = (case TAssertion t of None \<Rightarrow> [] | Some a \<Rightarrow> Assertion_String a)"

primrec typeNodesShallowEqualAST :: "TypeNode \<Rightarrow> TypeNode \<Rightarrow> bool" where
  "typeNodesShallowEqualAST (TypeNode ident asrt params kind arrayLen fps frs) b =
     (if ident \<noteq> TIdent b then False
      else if length params \<noteq> length (TypeParams b) then False
      else if \<not> list_all (\<lambda>(f, u). f u) (zip (map typeNodesShallowEqualAST params) (TypeParams b)) then False
      else if ident = TypeAssertion
      then (case asrt of None \<Rightarrow> [] | Some a \<Rightarrow> Assertion_String a) = assertion_payload b
      else True)"

definition append_unless :: "('a \<Rightarrow> 'a \<Rightarrow> bool) \<Rightarrow> 'a \<Rightarrow> 'a list \<Rightarrow> 'a list" where
  "append_unless eq t out = (if list_ex (eq t) out then out else out @ [t])"

definition dedupeTypeNodesShallow :: "TypeNode list \<Rightarrow> TypeNode list" where
  "dedupeTypeNodesShallow types =
     (if length types \<le> 1 then types else fold (append_unless typeNodesShallowEqualAST) types [])"

primrec flattenUnionMember :: "TypeNode \<Rightarrow> TypeNode list" where
  "flattenUnionMember (TypeNode ident asrt params kind arrayLen fps frs) =
     (if ident = TypeUnion \<and> params \<noteq> []
      then dedupeTypeNodesShallow (concat (map flattenUnionMember params))
      else [TypeNode ident asrt params kind arrayLen fps frs])"

definition flattenUnionMembers :: "TypeNode list \<Rightarrow> TypeNode list" where
  "flattenUnionMembers ts = dedupeTypeNodesShallow (concat (map flattenUnionMember ts))"

primrec flattenIntersectionMember :: "TypeNode \<Rightarrow> TypeNode list" where
  "flattenIntersectionMember (TypeNode ident asrt params kind arrayLen fps frs) =
     (if ident = TypeIntersection \<and> params \<noteq> []
      then dedupeTypeNodesShallow (concat (map flattenIntersectionMember params))
      else [TypeNode ident asrt params kind arrayLen fps frs])"

definition flattenIntersectionMembers :: "TypeNode list \<Rightarrow> TypeNode list" where
  "flattenIntersectionMembers ts = dedupeTypeNodesShallow (concat (map flattenIntersectionMember ts))"

definition NewUnionType :: "TypeNode list \<Rightarrow> TypeNode" where
  "NewUnionType members =
     (case flattenUnionMembers members of [t] \<Rightarrow> t | flat \<Rightarrow> mk_type TypeUnion flat TypeKindBuiltin)"

definition NewIntersectionType :: "TypeNode list \<Rightarrow> TypeNode" where
  "NewIntersectionType members =
     (case flattenIntersectionMembers members of [t] \<Rightarrow> t | flat \<Rightarrow> mk_type TypeIntersection flat TypeKindBuiltin)"

end
