(* ===== verification/UnionTypes.thy ===== *)
theory UnionTypes
  imports AstOps "HOL-Library.Multiset"
begin

text \<open>
  Unions and intersections of types (\<open>internal/ast/type.go\<close>): shallow equality is equality of type
  skeletons, deduplication keeps the first of each skeleton, and the normalising constructors depend
  only on the leaves of their members.
\<close>

lemma TypeNode_params_induct [case_names TypeNode]:
  assumes "\<And>ident asrt params kind arrayLen fps frs. (\<And>p. p \<in> set params \<Longrightarrow> P p) \<Longrightarrow>
    P (TypeNode ident asrt params kind arrayLen fps frs)"
  shows "P t"
proof (induction "size t" arbitrary: t rule: less_induct)
  case less
  obtain ident asrt params kind arrayLen fps frs where t: "t = TypeNode ident asrt params kind arrayLen fps frs"
    by (cases t)
  have "P p" if "p \<in> set params" for p
    using less.hyps [of p] size_list_estimation' [OF that, of "size p" size] t by simp
  with t show ?case using assms by simp
qed

datatype skeleton = Skeleton TypeIdent string "skeleton list"

primrec skeleton_of :: "TypeNode \<Rightarrow> skeleton" where
  "skeleton_of (TypeNode ident asrt params kind arrayLen fps frs) =
     Skeleton ident
       (if ident = TypeAssertion then (case asrt of None \<Rightarrow> [] | Some a \<Rightarrow> Assertion_String a) else [])
       (map skeleton_of params)"

lemma zip_apply: "length xs = length ys \<Longrightarrow>
    list_all (\<lambda>(f, u). f u) (zip (map g xs) ys) = list_all2 g xs ys"
  by (induction xs ys rule: list_induct2) auto

lemma shallow_eq_skeleton: "typeNodesShallowEqualAST a b \<longleftrightarrow> skeleton_of a = skeleton_of b"
proof (induction a arbitrary: b rule: TypeNode_params_induct)
  case (TypeNode ident asrt params kind arrayLen fps frs)
  obtain ident' asrt' params' kind' arrayLen' fps' frs' where
    b: "b = TypeNode ident' asrt' params' kind' arrayLen' fps' frs'" by (cases b)
  have "list_all2 typeNodesShallowEqualAST params params' \<longleftrightarrow> map skeleton_of params = map skeleton_of params'"
    using TypeNode.IH
  proof (induction params arbitrary: params')
    case (Cons x xs)
    then show ?case by (cases params') auto
  qed simp
  moreover have "map skeleton_of params = map skeleton_of params' \<Longrightarrow> length params = length params'"
    by (rule map_eq_imp_length_eq)
  ultimately show ?case by (auto simp: b zip_apply assertion_payload_def simp del: list_all2_map2)
qed

lemma fold_append_unless:
  assumes "\<And>a b. eq a b \<longleftrightarrow> key a = key b"
  shows "fold (append_unless eq) xs out = out @ dedup_by key (key ` set out) xs"
proof (induction xs arbitrary: out)
  case (Cons x xs)
  have "list_ex (eq x) out \<longleftrightarrow> key x \<in> key ` set out" using assms by (auto simp: list_ex_iff)
  with Cons show ?case by (simp add: append_unless_def)
qed simp

lemma dedupe_dedup_by: "dedupeTypeNodesShallow ts = dedup_by skeleton_of {} ts"
proof (cases "length ts \<le> 1")
  case True
  then show ?thesis by (cases ts) (auto simp: dedupeTypeNodesShallow_def)
next
  case False
  then show ?thesis
    using fold_append_unless [of typeNodesShallowEqualAST skeleton_of ts "[]", OF shallow_eq_skeleton]
    by (simp add: dedupeTypeNodesShallow_def)
qed

text \<open>Deduplicating a part first does not change the result.\<close>

lemma dedup_by_append: "dedup_by key S (xs @ ys) = dedup_by key S xs @ dedup_by key (S \<union> key ` set xs) ys"
  by (induction xs arbitrary: S) (auto simp: insert_absorb Un_insert_left)

lemma dedup_by_idem: "T \<subseteq> S \<Longrightarrow> dedup_by key S (dedup_by key T xs) = dedup_by key S xs"
proof (induction xs arbitrary: S T)
  case (Cons x xs)
  show ?case
  proof (cases "key x \<in> S")
    case True
    with Cons.IH [of T S] Cons.IH [of "insert (key x) T" S] Cons.prems show ?thesis by simp
  next
    case False
    with Cons.IH [OF insert_mono [OF Cons.prems], of "key x"] Cons.prems show ?thesis by auto
  qed
qed simp

lemma dedup_by_concat:
  "dedup_by key S (concat (map (\<lambda>x. dedup_by key {} (f x)) xs)) = dedup_by key S (concat (map f xs))"
proof (induction xs arbitrary: S)
  case (Cons x xs)
  have "key ` set (dedup_by key {} (f x)) = key ` set (f x)" by (simp add: dedup_by_keys)
  with Cons show ?case by (simp add: dedup_by_append dedup_by_idem)
qed simp

lemma dedup_by_empty: "key ` set xs \<subseteq> S \<Longrightarrow> dedup_by key S xs = []"
  by (induction xs) auto

text \<open>The leaves of a type under a binary former (union or intersection), without deduplication.\<close>

primrec leaves :: "TypeIdent \<Rightarrow> TypeNode \<Rightarrow> TypeNode list" where
  "leaves former (TypeNode ident asrt params kind arrayLen fps frs) =
     (if ident = former \<and> params \<noteq> [] then concat (map (leaves former) params)
      else [TypeNode ident asrt params kind arrayLen fps frs])"

lemma flattenUnionMember_leaves: "flattenUnionMember t = dedup_by skeleton_of {} (leaves TypeUnion t)"
proof (induction t rule: TypeNode_params_induct)
  case (TypeNode ident asrt params kind arrayLen fps frs)
  have e: "map flattenUnionMember params = map (\<lambda>p. dedup_by skeleton_of {} (leaves TypeUnion p)) params"
    by (rule map_cong [OF refl]) (rule TypeNode.IH)
  show ?case by (simp add: dedupe_dedup_by e dedup_by_concat)
qed

lemma flattenUnionMembers_leaves:
  "flattenUnionMembers ts = dedup_by skeleton_of {} (concat (map (leaves TypeUnion) ts))"
  by (simp add: flattenUnionMembers_def dedupe_dedup_by flattenUnionMember_leaves [abs_def] dedup_by_concat)

lemma flattenIntersectionMember_leaves:
  "flattenIntersectionMember t = dedup_by skeleton_of {} (leaves TypeIntersection t)"
proof (induction t rule: TypeNode_params_induct)
  case (TypeNode ident asrt params kind arrayLen fps frs)
  have e: "map flattenIntersectionMember params =
      map (\<lambda>p. dedup_by skeleton_of {} (leaves TypeIntersection p)) params"
    by (rule map_cong [OF refl]) (rule TypeNode.IH)
  show ?case by (simp add: dedupe_dedup_by e dedup_by_concat)
qed

lemma flattenIntersectionMembers_leaves:
  "flattenIntersectionMembers ts = dedup_by skeleton_of {} (concat (map (leaves TypeIntersection) ts))"
  by (simp add: flattenIntersectionMembers_def dedupe_dedup_by flattenIntersectionMember_leaves [abs_def] dedup_by_concat)

lemma leaves_nonempty: "leaves former t \<noteq> []"
proof (induction t rule: TypeNode_params_induct)
  case (TypeNode ident asrt params kind arrayLen fps frs)
  then show ?case by (cases params) auto
qed

definition leaf :: "TypeIdent \<Rightarrow> TypeNode \<Rightarrow> bool" where
  "leaf former t \<longleftrightarrow> leaves former t = [t]"

lemma leaf_iff: "leaf former t \<longleftrightarrow> \<not> (TIdent t = former \<and> TypeParams t \<noteq> [])"
proof (cases t)
  case (TypeNode ident asrt params kind arrayLen fps frs)
  show ?thesis
  proof (cases "ident = former \<and> params \<noteq> []")
    case True
    have "x \<in> set (concat (map (leaves former) ps)) \<Longrightarrow> \<forall>p \<in> set ps. \<forall>y \<in> set (leaves former p). size y \<le> size p \<Longrightarrow>
        size x < size (TypeNode ident asrt ps kind arrayLen fps frs)" for x ps
      using size_list_estimation' [of _ ps] by fastforce
    moreover have "y \<in> set (leaves former p) \<Longrightarrow> size y \<le> size p" for y p
    proof (induction p arbitrary: y rule: TypeNode_params_induct)
      case (TypeNode i a ps k n f r)
      then show ?case using size_list_estimation' [of _ ps] by (fastforce split: if_splits)
    qed
    ultimately have "t \<notin> set (leaves former t)" using True TypeNode by fastforce
    then have "leaves former t \<noteq> [t]" by force
    with True TypeNode show ?thesis by (simp add: leaf_def)
  next
    case False
    with TypeNode show ?thesis by (auto simp: leaf_def)
  qed
qed

lemma leaves_leaf: "x \<in> set (leaves former t) \<Longrightarrow> leaf former x"
proof (induction t rule: TypeNode_params_induct)
  case (TypeNode ident asrt params kind arrayLen fps frs)
  then show ?case by (auto simp: leaf_iff split: if_splits)
qed

lemma concat_leaves: "(\<And>x. x \<in> set xs \<Longrightarrow> leaf former x) \<Longrightarrow> concat (map (leaves former) xs) = xs"
  by (induction xs) (auto simp: leaf_def)

lemma flattenUnionMembers_props:
  "m \<in> set (flattenUnionMembers ms) \<Longrightarrow> leaf TypeUnion m"
  "distinct (map skeleton_of (flattenUnionMembers ms))"
  "skeleton_of ` set (flattenUnionMembers ms) = skeleton_of ` set (concat (map (leaves TypeUnion) ms))"
  "ms \<noteq> [] \<Longrightarrow> flattenUnionMembers ms \<noteq> []"
proof -
  show "m \<in> set (flattenUnionMembers ms) \<Longrightarrow> leaf TypeUnion m"
    using dedup_by_subset [of skeleton_of "{}" "concat (map (leaves TypeUnion) ms)"]
    by (auto simp: flattenUnionMembers_leaves intro: leaves_leaf)
  show "distinct (map skeleton_of (flattenUnionMembers ms))"
    by (simp add: flattenUnionMembers_leaves dedup_by_distinct)
  show img: "skeleton_of ` set (flattenUnionMembers ms) = skeleton_of ` set (concat (map (leaves TypeUnion) ms))"
    by (simp add: flattenUnionMembers_leaves dedup_by_keys)
  assume "ms \<noteq> []"
  then have "concat (map (leaves TypeUnion) ms) \<noteq> []" using leaves_nonempty by (cases ms) auto
  with img show "flattenUnionMembers ms \<noteq> []" by auto
qed

lemma leaves_NewUnionType: "ms \<noteq> [] \<Longrightarrow> leaves TypeUnion (NewUnionType ms) = flattenUnionMembers ms"
proof -
  assume "ms \<noteq> []"
  then have ne: "flattenUnionMembers ms \<noteq> []" by (rule flattenUnionMembers_props(4))
  note L = flattenUnionMembers_props(1) [of _ ms]
  show ?thesis
  proof (cases "\<exists>t. flattenUnionMembers ms = [t]")
    case True
    then obtain t where t: "flattenUnionMembers ms = [t]" by blast
    with L have "leaf TypeUnion t" by simp
    with t show ?thesis by (simp add: NewUnionType_def leaf_def)
  next
    case False
    then have "NewUnionType ms = mk_type TypeUnion (flattenUnionMembers ms) TypeKindBuiltin"
      by (auto simp: NewUnionType_def split: list.splits)
    with ne L show ?thesis by (simp add: mk_type_def concat_leaves)
  qed
qed

lemma flattenUnionMembers_nested:
  assumes "ys \<noteq> []"
  shows "flattenUnionMembers (xs @ NewUnionType ys # zs) = flattenUnionMembers (xs @ ys @ zs)"
proof -
  let ?L = "\<lambda>ts. concat (map (leaves TypeUnion) ts)"
  have "dedup_by skeleton_of S (leaves TypeUnion (NewUnionType ys)) = dedup_by skeleton_of S (?L ys)" for S
    by (simp add: leaves_NewUnionType [OF assms] flattenUnionMembers_leaves dedup_by_idem)
  moreover have "skeleton_of ` set (leaves TypeUnion (NewUnionType ys)) = skeleton_of ` set (?L ys)"
    using leaves_NewUnionType [OF assms] flattenUnionMembers_props(3) [of ys] by simp
  ultimately show ?thesis
    by (simp add: flattenUnionMembers_leaves dedup_by_append del: set_concat)
qed

section \<open>Properties\<close>

text \<open>Shallow equality of types is equality of their skeletons (identifier, parameters and, for
  assertion types, the assertion's text), hence an equivalence relation.\<close>

theorem shallow_equality_skeleton:
  "typeNodesShallowEqualAST a b \<longleftrightarrow> skeleton_of a = skeleton_of b"
  by (rule shallow_eq_skeleton)

text \<open>A union is normal: none of its members is a union with members of its own, no two are
  shallowly equal, and up to shallow equality they are exactly the leaves of the types it was made
  from.\<close>

theorem NewUnionType_normal:
  assumes "ms \<noteq> []"
  shows "leaves TypeUnion (NewUnionType ms) = flattenUnionMembers ms \<and>
    (\<forall>m \<in> set (flattenUnionMembers ms). \<not> (TIdent m = TypeUnion \<and> TypeParams m \<noteq> [])) \<and>
    sorted_wrt (\<lambda>a b. \<not> typeNodesShallowEqualAST a b) (flattenUnionMembers ms) \<and>
    (\<forall>l \<in> set (concat (map (leaves TypeUnion) ms)). \<exists>m \<in> set (flattenUnionMembers ms). typeNodesShallowEqualAST l m) \<and>
    set (flattenUnionMembers ms) \<subseteq> set (concat (map (leaves TypeUnion) ms))"
proof (intro conjI)
  show "leaves TypeUnion (NewUnionType ms) = flattenUnionMembers ms" by (rule leaves_NewUnionType [OF assms])
  show "\<forall>m \<in> set (flattenUnionMembers ms). \<not> (TIdent m = TypeUnion \<and> TypeParams m \<noteq> [])"
    using flattenUnionMembers_props(1) [of _ ms] by (simp add: leaf_iff)
  have "distinct (map skeleton_of xs) \<Longrightarrow> sorted_wrt (\<lambda>a b. \<not> typeNodesShallowEqualAST a b) xs" for xs
    by (induction xs) (auto simp: shallow_eq_skeleton)
  then show "sorted_wrt (\<lambda>a b. \<not> typeNodesShallowEqualAST a b) (flattenUnionMembers ms)"
    using flattenUnionMembers_props(2) by blast
  show "\<forall>l \<in> set (concat (map (leaves TypeUnion) ms)). \<exists>m \<in> set (flattenUnionMembers ms). typeNodesShallowEqualAST l m"
  proof
    fix l
    assume "l \<in> set (concat (map (leaves TypeUnion) ms))"
    then have "skeleton_of l \<in> skeleton_of ` set (flattenUnionMembers ms)"
      unfolding flattenUnionMembers_props(3) by (rule imageI)
    then show "\<exists>m \<in> set (flattenUnionMembers ms). typeNodesShallowEqualAST l m"
      by (auto simp: shallow_eq_skeleton)
  qed
  show "set (flattenUnionMembers ms) \<subseteq> set (concat (map (leaves TypeUnion) ms))"
    unfolding flattenUnionMembers_leaves by (rule dedup_by_subset)
qed

theorem NewUnionType_normal_witness:
  "leaves TypeUnion (NewUnionType [NewBuiltinType TypeInt, NewUnionType [NewBuiltinType TypeBool, NewBuiltinType TypeInt]]) =
     [NewBuiltinType TypeInt, NewBuiltinType TypeBool]"
proof -
  let ?ms = "[NewBuiltinType TypeInt, NewUnionType [NewBuiltinType TypeBool, NewBuiltinType TypeInt]]"
  have "flattenUnionMembers ?ms = [NewBuiltinType TypeInt, NewBuiltinType TypeBool]" by code_simp
  with NewUnionType_normal [of ?ms] show ?thesis by simp
qed

text \<open>Nesting does not matter: a union used as a member of a union gives the same type as its
  members in its place. So union is associative and a union of one union is that union.\<close>

theorem NewUnionType_nested:
  assumes "ys \<noteq> []"
  shows "NewUnionType (xs @ NewUnionType ys # zs) = NewUnionType (xs @ ys @ zs)"
  using flattenUnionMembers_nested [OF assms] by (simp add: NewUnionType_def)

theorem NewUnionType_nested_witness:
  "NewUnionType [NewUnionType [NewBuiltinType TypeInt, NewBuiltinType TypeBool], NewBuiltinType TypeString] =
   NewUnionType [NewBuiltinType TypeInt, NewBuiltinType TypeBool, NewBuiltinType TypeString]"
  using NewUnionType_nested [of "[NewBuiltinType TypeInt, NewBuiltinType TypeBool]" "[]" "[NewBuiltinType TypeString]"]
  by simp

text \<open>Emission order of a composite literal's payload: every payload field once, those named in the
  shape's declaration order first and in that order, the rest sorted. (Field names are distinct, as the
  keys of a map and as declarations are.)\<close>

theorem composite_emit_order:
  assumes "distinct (map fst payload)" and "distinct (FieldOrder s)" and "FieldOrder s \<noteq> []"
  shows "mset (ShapeFieldNamesForCompositeEmit payload (Some s)) = mset (map fst payload) \<and>
    (\<exists>rest. ShapeFieldNamesForCompositeEmit payload (Some s) =
       filter (\<lambda>n. n \<in> set (map fst payload)) (FieldOrder s) @ rest \<and> sorted rest)"
proof -
  let ?in = "filter (\<lambda>n. n \<in> set (map fst payload)) (FieldOrder s)"
  have f: "(\<lambda>name. map_of payload name \<noteq> None) = (\<lambda>n. n \<in> set (map fst payload))"
    by (auto simp: map_of_eq_None_iff fun_eq_iff)
  have r: "ShapeFieldNamesForCompositeEmit payload (Some s) =
      ?in @ sort (filter (\<lambda>n. n \<notin> set ?in) (map fst payload))"
    unfolding ShapeFieldNamesForCompositeEmit_def f using assms(3) by (simp add: Let_def)
  have a: "mset ?in = mset (filter (\<lambda>n. n \<in> set ?in) (map fst payload))"
    using assms(1,2) by (intro set_eq_iff_mset_eq_distinct [THEN iffD1]) auto
  have b: "mset (filter P xs) + mset (filter (\<lambda>x. \<not> P x) xs) = mset xs" for P and xs :: "string list"
    by (induction xs) auto
  have "mset ?in + mset (filter (\<lambda>n. n \<notin> set ?in) (map fst payload)) = mset (map fst payload)"
    using b [of "\<lambda>n. n \<in> set ?in" "map fst payload"] by (simp only: a [symmetric])
  then show ?thesis unfolding r by (intro conjI exI [of _ "sort (filter (\<lambda>n. n \<notin> set ?in) (map fst payload))"])
      (simp_all only: mset_append mset_sort sorted_sort)
qed

theorem composite_emit_order_witness:
  "mset (ShapeFieldNamesForCompositeEmit
     [(''c'', ShapeFieldNode None None None None False [] [] False [] False),
      (''a'', ShapeFieldNode None None None None False [] [] False [] False),
      (''b'', ShapeFieldNode None None None None False [] [] False [] False)] (Some (ShapeNode [] [''z'', ''b''] None))) =
   mset [''c'', ''a'', ''b'']"
  using composite_emit_order [of "[(''c'', ShapeFieldNode None None None None False [] [] False [] False),
      (''a'', ShapeFieldNode None None None None False [] [] False [] False),
      (''b'', ShapeFieldNode None None None None False [] [] False [] False)]" "ShapeNode [] [''z'', ''b''] None"]
  by simp

end
