(* ===== verification/Statements.thy ===== *)
theory Statements
  imports AstOps
begin

text \<open>
  \<open>internal/ast\<close>: the statements and declarations of the syntax tree (\<open>ensure.go\<close>, \<open>control_flow.go\<close>,
  \<open>assignment.go\<close>, \<open>return.go\<close>, \<open>use.go\<close>, \<open>with.go\<close>, \<open>for_stmt.go\<close>, \<open>switch.go\<close>, \<open>goto.go\<close>, \<open>fn.go\<close>,
  \<open>typeguard.go\<close>, \<open>typedef.go\<close>, \<open>const.go\<close>, \<open>import.go\<close>, \<open>package.go\<close>). A pointer to a node is the node, a nil
  pointer or interface \<open>None\<close>; source spans are left out.
\<close>

section \<open>Statements\<close>

datatype EnsureImplicitKind = EnsureImplicitNone | EnsureImplicitBare | EnsureImplicitBang

datatype RefinementTarget = TypeTarget TypeIdent | AssertionTarget "AssertionNode list"

datatype EnsureErrorNode = EnsureErrorCall string "ExpressionNode list" | EnsureErrorVar string
  | EnsureErrorExpr "ExpressionNode option"

record AssignmentNode =
  LValues :: "ExpressionNode list"
  RValues :: "ExpressionNode option list"
  ExplicitTypes :: "TypeNode option list"
  IsShort :: bool
  CompoundOp :: "TokenIdent option"
  IsPackageLevel :: bool

datatype Node =
    CommentNode string
  | EnsureStmt EnsureNode
  | IfStmt IfNode
  | ExprStmt ExpressionNode
  | AssignStmt AssignmentNode
  | ReturnNode "ExpressionNode list" TypeNode
  | UseNode "Identifier option" TypeNode
  | WithNode ExpressionNode "Node list"
  | GotoNode Identifier
  | LabeledStmtNode Identifier Node
  | ForStmt ForNode
  | SwitchNode "Node option" "ExpressionNode option" "SwitchClauseNode list"
  | FallthroughNode
  | BreakNode "Identifier option"
  | ContinueNode "Identifier option"
  | DeferNode ExpressionNode
  | GoStmtNode ExpressionNode
and EnsureNode = EnsureNode (EVariable: Identifier) (ESubject: "ExpressionNode option")
    (ETarget: "RefinementTarget option") (EAssertion: AssertionNode) (EImplicit: EnsureImplicitKind)
    (EError: "EnsureErrorNode option") (EBlock: "Node list option")
and IfNode = IfNode (ICondition: Node) (IBody: "Node list") (IElseIfs: "(Node \<times> Node list) list")
    (IElse: "Node list option") (IInit: "Node option")
and ForNode = ForNode (ForLabel: "Identifier option") (ForInit: "Node option") (ForCond: "ExpressionNode option")
    (ForPost: "Node option") (IsRange: bool) (RangeX: "ExpressionNode option") (RangeKey: "Identifier option")
    (RangeValue: "Identifier option") (RangeShort: bool) (ForBody: "Node list")
and SwitchClauseNode = SwitchClauseNode (IsDefault: bool) (SwitchValues: "ExpressionNode list") (SwitchBody: "Node list")

section \<open>Declarations\<close>

datatype TypeDefExpr =
    TypeDefAssertionExpr "AssertionNode option"
  | TypeDefShapeExpr ShapeNode
  | TypeDefErrorExpr ShapeNode
  | TypeDefBinaryExpr TypeDefExpr TokenIdent TypeDefExpr

record TypeGuardNode =
  GuardIdent :: Identifier
  GuardSubject :: ParamNode
  GuardParams :: "ParamNode list"
  GuardBody :: "Node list"

record TypeParamDecl =
  TypeParamName :: Identifier
  TypeParamConstraint :: "TypeNode option"

record FunctionNode =
  Receiver :: "ParamNode option"
  FunctionIdent :: Identifier
  FunctionTypeParams :: "TypeParamDecl list"
  FunctionParams :: "ParamNode list"
  FunctionReturnTypes :: "TypeNode list"
  FunctionBody :: "Node list"

record ImportNode =
  ImportPath :: string
  ImportAlias :: "Identifier option"
  SideEffectOnly :: bool
  BridgeOptIn :: bool
  BridgeOptInSource :: string

record ConstSpec =
  ConstName :: Identifier
  ConstType :: "TypeNode option"
  ConstValue :: "ExpressionNode option"

text \<open>The nodes a file consists of.\<close>

datatype Decl =
    CommentDecl string
  | PackageNode Identifier
  | ImportDecl ImportNode
  | ImportGroupNode "ImportNode list"
  | TypeDefNode TypeIdent TypeDefExpr
  | FunctionDecl FunctionNode
  | VarDecl AssignmentNode
  | ConstGroupNode "ConstSpec list"
  | TypeGuardDecl TypeGuardNode

section \<open>Sizes\<close>

lemma member_size: "x \<in> set xs \<Longrightarrow> size x < size_list size xs"
  by (induction xs) auto

lemma else_if_size: "(a, b) \<in> set xs \<Longrightarrow> size_list size b < size_list (size_prod size (size_list size)) (xs :: (Node \<times> Node list) list)"
  by (induction xs) auto

end
