(* ===== verification/TypeOps.thy ===== *)
theory TypeOps
  imports UnionTypes Statements
begin

text \<open>
  \<open>internal/typechecker/typeops.go\<close>, \<open>flow_fact.go\<close> and the lattice part of \<open>typedef_binary.go\<close>: joins
  and meets of types, the join at the end of an if chain, and type definitions with \<open>|\<close> and \<open>&\<close>.
  The assignability test \<open>IsTypeCompatible\<close> and the structural hash are fields of the checker record,
  so every theorem holds whatever they answer. An error is \<open>Inl\<close> of its message.
\<close>

section \<open>Joins and meets\<close>

primrec typeNodesShallowEqual :: "TypeNode \<Rightarrow> TypeNode \<Rightarrow> bool" where
  "typeNodesShallowEqual (TypeNode ident asrt params kind arrayLen fps frs) b =
     (if ident \<noteq> TIdent b then False
      else if length params \<noteq> length (TypeParams b) then False
      else if \<not> list_all (\<lambda>(f, u). f u) (zip (map typeNodesShallowEqual params) (TypeParams b)) then False
      else if ident = TypeAssertion
      then (case asrt of None \<Rightarrow> [] | Some a \<Rightarrow> Assertion_String a) = assertion_payload b
      else True)"

definition DedupeTypesPreservingOrder :: "TypeNode list \<Rightarrow> TypeNode list" where
  "DedupeTypesPreservingOrder types =
     (if length types \<le> 1 then types else fold (append_unless typeNodesShallowEqual) types [])"

primrec flattenOneForJoin :: "TypeNode \<Rightarrow> TypeNode list" where
  "flattenOneForJoin (TypeNode ident asrt params kind arrayLen fps frs) =
     (if ident = TypeUnion \<and> params \<noteq> [] then concat (map flattenOneForJoin params)
      else [TypeNode ident asrt params kind arrayLen fps frs])"

definition flattenUnionOperandsForJoin :: "TypeNode list \<Rightarrow> TypeNode list" where
  "flattenUnionOperandsForJoin types = concat (map flattenOneForJoin types)"

datatype JoinTypesOutcome = JoinTypesEmpty | JoinTypesSingleton | JoinTypesAllEquivalent | JoinTypesHeterogeneous

definition zero_type :: TypeNode where
  "zero_type = TypeNode [] None [] [] None [] []"

definition JoinTypesDetailed :: "TypeNode list \<Rightarrow> TypeNode \<times> JoinTypesOutcome" where
  "JoinTypesDetailed types =
     (if types = [] then (zero_type, JoinTypesEmpty)
      else let flat = flattenUnionOperandsForJoin types in
        if flat = [] then (zero_type, JoinTypesEmpty)
        else if length flat = 1 then (hd flat, JoinTypesSingleton)
        else if list_all (\<lambda>t. typeNodesShallowEqual (hd flat) t) (tl flat) then (hd flat, JoinTypesAllEquivalent)
        else let deduped = DedupeTypesPreservingOrder flat in
          if length deduped = 1 then (hd deduped, JoinTypesSingleton)
          else (NewUnionType deduped, JoinTypesHeterogeneous))"

definition JoinTypes :: "TypeNode list \<Rightarrow> TypeNode option" where
  "JoinTypes types =
     (case JoinTypesDetailed types of (t, outcome) \<Rightarrow> if outcome = JoinTypesEmpty then None else Some t)"

definition MeetTypes :: "TypeNode \<Rightarrow> TypeNode \<Rightarrow> TypeNode option" where
  "MeetTypes a b = (if typeNodesShallowEqual a b then Some a else None)"

section \<open>The checker and type definitions\<close>

definition PayloadShape :: "TypeDefExpr \<Rightarrow> ShapeNode option" where
  "PayloadShape e = (case e of TypeDefShapeExpr s \<Rightarrow> Some s | TypeDefErrorExpr s \<Rightarrow> Some s | _ \<Rightarrow> None)"

text \<open>\<open>Defs\<close> gives the type definitions only; a name bound to anything else is \<open>None\<close>, as the type
  assertion \<open>tc.Defs[ident].(ast.TypeDefNode)\<close> fails on it.\<close>

record TypeChecker =
  Defs :: "TypeIdent \<Rightarrow> TypeDefExpr option"
  IsTypeCompatible :: "TypeNode \<Rightarrow> TypeNode \<Rightarrow> bool"
  HashShape :: "ShapeNode \<Rightarrow> string + TypeIdent"

text \<open>\<open>None\<close> for the checker is Go's nil.\<close>

definition JoinAfterIfMerge :: "TypeChecker option \<Rightarrow> TypeNode \<Rightarrow> TypeNode list \<Rightarrow> TypeNode" where
  "JoinAfterIfMerge tc outer branchRefinements =
     (if branchRefinements = [] then outer
      else case tc of
        None \<Rightarrow> outer
      | Some tc \<Rightarrow>
        let flat = flattenUnionOperandsForJoin (outer # branchRefinements);
            deduped = DedupeTypesPreservingOrder flat
        in case JoinTypes deduped of
             None \<Rightarrow> outer
           | Some j \<Rightarrow>
             if TIdent j = TypeUnion
             then (if list_all (\<lambda>m. IsTypeCompatible tc m outer) (TypeParams j) then outer else j)
             else if IsTypeCompatible tc j outer then outer else j)"

definition MeetTypesSubtyping :: "TypeChecker \<Rightarrow> TypeNode \<Rightarrow> TypeNode \<Rightarrow> TypeNode option" where
  "MeetTypesSubtyping tc a b =
     (if typeNodesShallowEqual a b then Some a
      else let aSubB = IsTypeCompatible tc a b; bSubA = IsTypeCompatible tc b a
        in if aSubB \<and> \<not> bSubA then Some a
           else if bSubA \<and> \<not> aSubB then Some b
           else if aSubB \<and> bSubA then Some a
           else None)"

definition meetTypeDefPair :: "TypeChecker \<Rightarrow> TypeNode \<Rightarrow> TypeNode \<Rightarrow> string + TypeNode" where
  "meetTypeDefPair tc a b =
     (case MeetTypes a b of
        Some m \<Rightarrow> Inr m
      | None \<Rightarrow>
        (case MeetTypesSubtyping tc a b of
           Some m \<Rightarrow> Inr m
         | None \<Rightarrow> Inl (''intersection '' @ Type_String a @ '' & '' @ Type_String b @ '' is empty (unrelated types)'')))"

primrec flattenUnionForCombine :: "TypeNode \<Rightarrow> TypeNode list" where
  "flattenUnionForCombine (TypeNode ident asrt params kind arrayLen fps frs) =
     (if ident = TypeUnion \<and> params \<noteq> [] then concat (map flattenUnionForCombine params)
      else [TypeNode ident asrt params kind arrayLen fps frs])"

definition typeDefAssertionExprToTypeNode :: "AssertionNode option \<Rightarrow> string + TypeNode" where
  "typeDefAssertionExprToTypeNode asrt =
     (case asrt of
        None \<Rightarrow> Inl ''missing assertion in type definition''
      | Some a \<Rightarrow>
        (case BaseType a of
           Some b \<Rightarrow> if Constraints a = [] then Inr (NewUserDefinedType b) else Inr (NewAssertionType (Some a))
         | None \<Rightarrow> Inr (NewAssertionType (Some a))))"

fun TypeDefExprToTypeNode :: "TypeChecker \<Rightarrow> TypeDefExpr \<Rightarrow> string + TypeNode" where
  "TypeDefExprToTypeNode tc (TypeDefAssertionExpr a) = typeDefAssertionExprToTypeNode a"
| "TypeDefExprToTypeNode tc (TypeDefShapeExpr s) =
     (case HashShape tc s of
        Inl err \<Rightarrow> Inl (''hash shape: '' @ err)
      | Inr ident \<Rightarrow> Inr (NewHashBasedType ident))"
| "TypeDefExprToTypeNode tc (TypeDefErrorExpr s) =
     Inl ''anonymous error payload in type expression is not valid; use a named error type''"
| "TypeDefExprToTypeNode tc (TypeDefBinaryExpr l op r) =
     (case TypeDefExprToTypeNode tc l of
        Inl err \<Rightarrow> Inl err
      | Inr left \<Rightarrow>
        (case TypeDefExprToTypeNode tc r of
           Inl err \<Rightarrow> Inl err
         | Inr right \<Rightarrow>
           if op = TokenBitwiseOr
           then Inr (NewUnionType (flattenUnionForCombine left @ flattenUnionForCombine right))
           else meetTypeDefPair tc left right))"

primrec containsTypeIdentParam :: "TypeIdent \<Rightarrow> TypeNode \<Rightarrow> bool" where
  "containsTypeIdentParam ident (TypeNode i asrt params kind arrayLen fps frs) =
     (i = ident \<or> list_ex (\<lambda>b. b) (map (containsTypeIdentParam ident) params))"

section \<open>Facts at the end of an if chain\<close>

record FlowTypeFact =
  FactIdent :: Identifier
  RefinedType :: TypeNode
  NarrowingTypeGuards :: "string list"

definition MergeFlowFactsAtIfJoin ::
  "TypeChecker option \<Rightarrow> (Identifier \<Rightarrow> TypeNode option) \<Rightarrow> FlowTypeFact list \<Rightarrow> (Identifier \<Rightarrow> TypeNode option)" where
  "MergeFlowFactsAtIfJoin tc outerByIdent branchFacts =
     (\<lambda>i. case outerByIdent i of
        None \<Rightarrow> None
      | Some outer \<Rightarrow>
        let refinements = map RefinedType (filter (\<lambda>f. FactIdent f = i) branchFacts)
        in if refinements = [] then None else Some (JoinAfterIfMerge tc outer refinements))"

section \<open>Lemmas\<close>

lemma typeNodesShallowEqual_ast: "typeNodesShallowEqual a b = typeNodesShallowEqualAST a b"
proof (induction a arbitrary: b rule: TypeNode_params_induct)
  case (TypeNode ident asrt params kind arrayLen fps frs)
  have e: "map typeNodesShallowEqual params = map typeNodesShallowEqualAST params"
    by (rule map_cong [OF refl]) (rule ext, rule TypeNode.IH)
  show ?case by (simp add: e)
qed

lemma flattenOneForJoin_leaves: "flattenOneForJoin t = leaves TypeUnion t"
proof (induction t rule: TypeNode_params_induct)
  case (TypeNode ident asrt params kind arrayLen fps frs)
  have e: "map flattenOneForJoin params = map (leaves TypeUnion) params"
    by (rule map_cong [OF refl]) (rule TypeNode.IH)
  show ?case by (simp add: e)
qed

lemma flattenUnionForCombine_leaves: "flattenUnionForCombine t = leaves TypeUnion t"
proof (induction t rule: TypeNode_params_induct)
  case (TypeNode ident asrt params kind arrayLen fps frs)
  have e: "map flattenUnionForCombine params = map (leaves TypeUnion) params"
    by (rule map_cong [OF refl]) (rule TypeNode.IH)
  show ?case by (simp add: e)
qed

lemma Dedupe_dedup_by: "DedupeTypesPreservingOrder ts = dedup_by skeleton_of {} ts"
proof -
  have "typeNodesShallowEqual = typeNodesShallowEqualAST" by (intro ext) (rule typeNodesShallowEqual_ast)
  then have "DedupeTypesPreservingOrder ts = dedupeTypeNodesShallow ts"
    by (simp add: DedupeTypesPreservingOrder_def dedupeTypeNodesShallow_def)
  then show ?thesis by (simp add: dedupe_dedup_by)
qed

lemma JoinTypes_NewUnionType: "JoinTypes ts = (if ts = [] then None else Some (NewUnionType ts))"
proof (cases "ts = []")
  case True
  then show ?thesis by (simp add: JoinTypes_def JoinTypesDetailed_def)
next
  case False
  define flat where "flat = concat (map (leaves TypeUnion) ts)"
  have fl: "flattenUnionOperandsForJoin ts = flat"
    by (simp add: flat_def flattenUnionOperandsForJoin_def flattenOneForJoin_leaves [abs_def])
  have ne: "flat \<noteq> []" using False leaves_nonempty by (cases ts) (auto simp: flat_def)
  define d where "d = dedup_by skeleton_of {} flat"
  have d: "flattenUnionMembers ts = d" "DedupeTypesPreservingOrder flat = d"
    by (simp_all add: d_def flat_def flattenUnionMembers_leaves Dedupe_dedup_by)
  have u: "NewUnionType d = NewUnionType ts"
  proof -
    have "concat (map (leaves TypeUnion) d) = d"
      using flattenUnionMembers_props(1) [of _ ts] by (intro concat_leaves) (simp add: d(1))
    then have "flattenUnionMembers d = d"
      by (simp add: flattenUnionMembers_leaves) (simp add: d_def dedup_by_idem)
    then show ?thesis by (simp add: NewUnionType_def d(1))
  qed
  have one: "NewUnionType ts = x" if "d = [x]" for x using that d(1) by (simp add: NewUnionType_def)
  have alleq: "d = [hd flat]" if "list_all (typeNodesShallowEqual (hd flat)) (tl flat)"
  proof -
    have "dedup_by skeleton_of {skeleton_of (hd flat)} (tl flat) = []"
      using that by (intro dedup_by_empty) (auto simp: list_all_iff typeNodesShallowEqual_ast shallow_eq_skeleton)
    with ne show ?thesis by (cases flat) (simp_all add: d_def)
  qed
  have single: "length flat = 1 \<Longrightarrow> d = [hd flat]" by (cases flat) (auto simp: d_def)
  have "length d = 1 \<Longrightarrow> d = [hd d]" by (cases d) auto
  with False ne single alleq one u show ?thesis
    by (auto simp: JoinTypes_def JoinTypesDetailed_def fl d(2) Let_def)
qed

lemma JoinTypes_dedup:
  assumes "ts \<noteq> []"
  shows "JoinTypes (DedupeTypesPreservingOrder (flattenUnionOperandsForJoin ts)) = Some (NewUnionType ts)"
proof -
  let ?d = "flattenUnionMembers ts"
  have d: "DedupeTypesPreservingOrder (flattenUnionOperandsForJoin ts) = ?d"
    by (simp add: Dedupe_dedup_by flattenUnionOperandsForJoin_def flattenOneForJoin_leaves [abs_def]
        flattenUnionMembers_leaves)
  have "concat (map (leaves TypeUnion) ?d) = ?d"
    using flattenUnionMembers_props(1) [of _ ts] by (intro concat_leaves)
  then have "flattenUnionMembers ?d = ?d"
    by (subst flattenUnionMembers_leaves) (simp add: flattenUnionMembers_leaves dedup_by_idem)
  then have "NewUnionType ?d = NewUnionType ts" by (simp add: NewUnionType_def)
  with flattenUnionMembers_props(4) [OF assms] d show ?thesis by (simp add: JoinTypes_NewUnionType)
qed

section \<open>Properties\<close>

text \<open>The n-ary join of types is the normalised union of all of them, and fails only for no types:
  the checker's join agrees with the syntax tree's union constructor although it flattens,
  compares and deduplicates with its own copies of those routines.\<close>

theorem JoinTypes_is_union:
  "JoinTypes ts = (if ts = [] then None else Some (NewUnionType ts))"
  by (rule JoinTypes_NewUnionType)

text \<open>The join at the end of an if chain is an upper bound of the enclosing type and the branches:
  it is the enclosing type when that accepts every distinct leaf of all of them, and otherwise their
  union, in which every leaf occurs up to shallow equality. (No leaf is an empty union: the
  constructors never build one.)\<close>

theorem JoinAfterIfMerge_upper_bound:
  assumes "refs \<noteq> []"
    and "\<forall>l \<in> set (concat (map (leaves TypeUnion) (outer # refs))). TIdent l \<noteq> TypeUnion"
  shows "JoinAfterIfMerge (Some tc) outer refs =
      (if \<forall>m \<in> set (flattenUnionMembers (outer # refs)). IsTypeCompatible tc m outer
       then outer else NewUnionType (outer # refs)) \<and>
    (\<forall>l \<in> set (concat (map (leaves TypeUnion) (outer # refs))).
       \<exists>m \<in> set (flattenUnionMembers (outer # refs)). typeNodesShallowEqual l m \<and>
         (IsTypeCompatible tc m (JoinAfterIfMerge (Some tc) outer refs) \<or>
          m \<in> set (leaves TypeUnion (JoinAfterIfMerge (Some tc) outer refs))))"
proof -
  let ?ts = "outer # refs" and ?j = "NewUnionType (outer # refs)" and ?f = "flattenUnionMembers (outer # refs)"
  have lv: "\<forall>m \<in> set ?f. TIdent m \<noteq> TypeUnion"
    using assms(2) dedup_by_subset [of skeleton_of "{}" "concat (map (leaves TypeUnion) ?ts)"]
    unfolding flattenUnionMembers_leaves by blast
  have J: "JoinAfterIfMerge (Some tc) outer refs =
     (if TIdent ?j = TypeUnion
      then (if list_all (\<lambda>m. IsTypeCompatible tc m outer) (TypeParams ?j) then outer else ?j)
      else if IsTypeCompatible tc ?j outer then outer else ?j)"
    using assms(1) JoinTypes_dedup [of ?ts] by (simp add: JoinAfterIfMerge_def)
  have first: "JoinAfterIfMerge (Some tc) outer refs =
      (if \<forall>m \<in> set ?f. IsTypeCompatible tc m outer then outer else ?j)"
  proof (cases "\<exists>t. ?f = [t]")
    case True
    then obtain t where t: "?f = [t]" by blast
    then have "?j = t" by (simp add: NewUnionType_def)
    with J t lv show ?thesis by simp
  next
    case False
    then have "?j = mk_type TypeUnion ?f TypeKindBuiltin" by (auto simp: NewUnionType_def split: list.splits)
    then have "TIdent ?j = TypeUnion" "TypeParams ?j = ?f" by (simp_all add: mk_type_def)
    with J show ?thesis by (simp add: list_all_iff)
  qed
  have "\<exists>m \<in> set ?f. typeNodesShallowEqual l m \<and>
         (IsTypeCompatible tc m (JoinAfterIfMerge (Some tc) outer refs) \<or>
          m \<in> set (leaves TypeUnion (JoinAfterIfMerge (Some tc) outer refs)))"
    if "l \<in> set (concat (map (leaves TypeUnion) ?ts))" for l
  proof -
    have "skeleton_of l \<in> skeleton_of ` set ?f"
      unfolding flattenUnionMembers_props(3) using that by (rule imageI)
    then obtain m where m: "m \<in> set ?f" "typeNodesShallowEqual l m"
      by (auto simp: typeNodesShallowEqual_ast shallow_eq_skeleton)
    with first show ?thesis by (auto simp: leaves_NewUnionType)
  qed
  with first show ?thesis by blast
qed

theorem JoinAfterIfMerge_upper_bound_witness:
  "JoinAfterIfMerge (Some \<lparr>Defs = (\<lambda>_. None), IsTypeCompatible = (\<lambda>a b. TIdent a = TIdent b), HashShape = (\<lambda>_. Inl [])\<rparr>)
     (NewBuiltinType TypeInt) [NewBuiltinType TypeString, NewBuiltinType TypeInt] =
   NewUnionType [NewBuiltinType TypeInt, NewBuiltinType TypeString, NewBuiltinType TypeInt]"
proof -
  let ?tc = "\<lparr>Defs = (\<lambda>_. None), IsTypeCompatible = (\<lambda>a b. TIdent a = TIdent b), HashShape = (\<lambda>_. Inl [])\<rparr> :: TypeChecker"
  let ?r = "[NewBuiltinType TypeString, NewBuiltinType TypeInt]"
  have f: "flattenUnionMembers (NewBuiltinType TypeInt # ?r) = [NewBuiltinType TypeInt, NewBuiltinType TypeString]"
    by code_simp
  have l: "\<forall>l \<in> set (concat (map (leaves TypeUnion) (NewBuiltinType TypeInt # ?r))). TIdent l \<noteq> TypeUnion"
    by code_simp
  from JoinAfterIfMerge_upper_bound [OF _ l, of ?tc] show ?thesis
    by (simp add: f) (simp add: NewBuiltinType_def mk_type_def)
qed

text \<open>The meet of two types for \<open>A & B\<close> is one of the two: the one assignable to the other (the first
  when they are shallowly equal or mutually assignable); it is missing exactly when they are neither
  equal nor assignable either way.\<close>

theorem MeetTypesSubtyping_bound:
  "(case MeetTypesSubtyping tc a b of
      Some m \<Rightarrow> (m = a \<and> (typeNodesShallowEqual a b \<or> IsTypeCompatible tc a b)) \<or>
                (m = b \<and> IsTypeCompatible tc b a \<and> \<not> IsTypeCompatible tc a b \<and> \<not> typeNodesShallowEqual a b)
    | None \<Rightarrow> \<not> typeNodesShallowEqual a b \<and> \<not> IsTypeCompatible tc a b \<and> \<not> IsTypeCompatible tc b a)"
  by (auto simp: MeetTypesSubtyping_def Let_def split: option.splits)

end
