(* ===== verification/LiteralUnion.thy ===== *)
theory LiteralUnion
  imports TypeOps
begin

text \<open>
  \<open>internal/typechecker/literal_union.go\<close> and the expansion of type definitions in
  \<open>typedef_binary.go\<close>: unions of string, integer and boolean literals, their members, membership of a
  literal, and error-kinded types. A pointer to a literal node and the node itself are the same value.
\<close>

section \<open>Literals\<close>

datatype literalKind = literalKindNone | literalKindString | literalKindInt | literalKindBool | literalKindOther

definition expressionLiteralValue :: "ExpressionNode \<Rightarrow> ExpressionNode option" where
  "expressionLiteralValue e =
     (case e of
        StringLiteralNode s ty \<Rightarrow> Some e
      | IntLiteralNode v raw ty \<Rightarrow> Some e
      | BoolLiteralNode b ty \<Rightarrow> Some e
      | _ \<Rightarrow> None)"

definition literalValueFromAssertion :: "AssertionNode option \<Rightarrow> ExpressionNode option" where
  "literalValueFromAssertion asrt =
     (case asrt of
        None \<Rightarrow> None
      | Some a \<Rightarrow>
        if BaseType a \<noteq> None \<or> OrChains a \<noteq> [] then None
        else case Constraints a of
          [c] \<Rightarrow>
            if CName c \<noteq> ValueConstraint then None
            else (case CArgs c of
                    [arg] \<Rightarrow> (case ArgValue arg of None \<Rightarrow> None | Some v \<Rightarrow> expressionLiteralValue v)
                  | _ \<Rightarrow> None)
        | _ \<Rightarrow> None)"

definition literalKindOfValue :: "ExpressionNode \<Rightarrow> literalKind" where
  "literalKindOfValue v =
     (case v of
        StringLiteralNode s ty \<Rightarrow> literalKindString
      | IntLiteralNode n raw ty \<Rightarrow> literalKindInt
      | BoolLiteralNode b ty \<Rightarrow> literalKindBool
      | _ \<Rightarrow> literalKindNone)"

definition literalValuesEqual :: "ExpressionNode \<Rightarrow> ExpressionNode \<Rightarrow> bool" where
  "literalValuesEqual a b =
     (case a of
        StringLiteralNode s ty \<Rightarrow> (case b of StringLiteralNode s' ty' \<Rightarrow> s = s' | _ \<Rightarrow> False)
      | IntLiteralNode n raw ty \<Rightarrow> (case b of IntLiteralNode n' raw' ty' \<Rightarrow> n = n' | _ \<Rightarrow> False)
      | BoolLiteralNode v ty \<Rightarrow> (case b of BoolLiteralNode v' ty' \<Rightarrow> v = v' | _ \<Rightarrow> False)
      | _ \<Rightarrow> False)"

text \<open>The loop over the members of a union: the kind seen so far.\<close>

fun union_literal_kind :: "literalKind \<Rightarrow> literalKind list \<Rightarrow> literalKind" where
  "union_literal_kind seen [] = (if seen = literalKindNone then literalKindOther else seen)"
| "union_literal_kind seen (k # ks) =
     (if k = literalKindNone then literalKindOther
      else if seen = literalKindNone then union_literal_kind k ks
      else if seen \<noteq> k then literalKindOther
      else union_literal_kind seen ks)"

primrec literalKindOfTypeNode :: "TypeNode \<Rightarrow> literalKind" where
  "literalKindOfTypeNode (TypeNode ident asrt params kind arrayLen fps frs) =
     (case (if ident = TypeAssertion then literalValueFromAssertion asrt else None) of
        Some v \<Rightarrow> literalKindOfValue v
      | None \<Rightarrow>
        if ident = TypeUnion then union_literal_kind literalKindNone (map literalKindOfTypeNode params)
        else literalKindOther)"

definition assertionTypesCompatible :: "AssertionNode option \<Rightarrow> AssertionNode option \<Rightarrow> bool" where
  "assertionTypesCompatible a b =
     (case (a, b) of
        (Some x, Some y) \<Rightarrow>
          (case literalValueFromAssertion a of
             Some av \<Rightarrow> (case literalValueFromAssertion b of Some bv \<Rightarrow> literalValuesEqual av bv | None \<Rightarrow> False)
           | None \<Rightarrow> Assertion_String x = Assertion_String y)
      | (None, None) \<Rightarrow> True
      | _ \<Rightarrow> False)"

section \<open>Expansion of type definitions\<close>

definition expandTypeDefBinaryIfNeeded :: "TypeChecker \<Rightarrow> TypeNode \<Rightarrow> TypeNode option" where
  "expandTypeDefBinaryIfNeeded tc t =
     (if TIdent t = [] then None
      else case Defs tc (TIdent t) of
        Some (TypeDefBinaryExpr l op r) \<Rightarrow>
          (case TypeDefExprToTypeNode tc (TypeDefBinaryExpr l op r) of
             Inl err \<Rightarrow> None
           | Inr canon \<Rightarrow> if containsTypeIdentParam (TIdent t) canon then None else Some canon)
      | Some (TypeDefAssertionExpr (Some a)) \<Rightarrow>
          (case literalValueFromAssertion (Some a) of
             Some v \<Rightarrow> Some (NewAssertionType (Some a))
           | None \<Rightarrow> None)
      | _ \<Rightarrow> None)"

text \<open>The loop of \<open>literalUnionMembers\<close> over the members of a union.\<close>

fun union_literals :: "literalKind \<Rightarrow> TypeNode list \<Rightarrow> ExpressionNode list \<Rightarrow> ExpressionNode list option" where
  "union_literals kind [] out = (if out \<noteq> [] then Some out else None)"
| "union_literals kind (m # ms) out =
     (case literalValueFromAssertion (TAssertion m) of
        None \<Rightarrow> None
      | Some v \<Rightarrow>
        if TIdent m \<noteq> TypeAssertion then None
        else let k = literalKindOfValue v
          in if kind = literalKindNone then union_literals k ms (out @ [v])
             else if kind \<noteq> k then None
             else union_literals kind ms (out @ [v]))"

definition literalUnionMembers :: "TypeChecker \<Rightarrow> TypeNode \<Rightarrow> ExpressionNode list option" where
  "literalUnionMembers tc t0 =
     (let viaDef = (case expandTypeDefBinaryIfNeeded tc t0 of
                      Some c \<Rightarrow> None
                    | None \<Rightarrow> (case Defs tc (TIdent t0) of
                                Some (TypeDefAssertionExpr (Some a)) \<Rightarrow> literalValueFromAssertion (Some a)
                              | _ \<Rightarrow> None));
          t = (case expandTypeDefBinaryIfNeeded tc t0 of Some c \<Rightarrow> c | None \<Rightarrow> t0)
      in case viaDef of
           Some v \<Rightarrow> Some [v]
         | None \<Rightarrow>
           if TIdent t = TypeUnion then union_literals literalKindNone (TypeParams t) []
           else if TIdent t = TypeAssertion
           then (case literalValueFromAssertion (TAssertion t) of Some v \<Rightarrow> Some [v] | None \<Rightarrow> None)
           else None)"

definition isLiteralUnionType :: "TypeChecker \<Rightarrow> TypeNode \<Rightarrow> bool" where
  "isLiteralUnionType tc t \<longleftrightarrow> literalUnionMembers tc t \<noteq> None"

definition literalAssignableToType :: "TypeChecker \<Rightarrow> ExpressionNode \<Rightarrow> TypeNode \<Rightarrow> bool" where
  "literalAssignableToType tc lit expected =
     (case literalUnionMembers tc expected of
        None \<Rightarrow> False
      | Some members \<Rightarrow> list_ex (literalValuesEqual lit) members)"

section \<open>Validation\<close>

definition literalKindOfTypeDefExpr :: "TypeDefExpr \<Rightarrow> literalKind" where
  "literalKindOfTypeDefExpr e =
     (case e of
        TypeDefAssertionExpr (Some a) \<Rightarrow>
          (case literalValueFromAssertion (Some a) of
             Some v \<Rightarrow> literalKindOfValue v
           | None \<Rightarrow> literalKindOther)
      | _ \<Rightarrow> literalKindOther)"

definition is_literal_kind :: "literalKind \<Rightarrow> bool" where
  "is_literal_kind k \<longleftrightarrow> k = literalKindString \<or> k = literalKindInt \<or> k = literalKindBool"

fun containsLiteralTypeDefMember :: "TypeDefExpr \<Rightarrow> bool" where
  "containsLiteralTypeDefMember (TypeDefBinaryExpr l op r) =
     (containsLiteralTypeDefMember l \<or> containsLiteralTypeDefMember r)"
| "containsLiteralTypeDefMember e = is_literal_kind (literalKindOfTypeDefExpr e)"

fun flattenTypeDefDisjuncts :: "TypeDefExpr \<Rightarrow> TypeDefExpr list" where
  "flattenTypeDefDisjuncts (TypeDefBinaryExpr l op r) =
     (if op = TokenBitwiseOr then flattenTypeDefDisjuncts l @ flattenTypeDefDisjuncts r
      else [TypeDefBinaryExpr l op r])"
| "flattenTypeDefDisjuncts e = [e]"

text \<open>The loop of \<open>validateLiteralUnionExpr\<close>: the literal kind seen, whether a literal and whether
  something else was met; \<open>None\<close> is the error on mixed literal kinds.\<close>

fun scan_disjunct_kinds :: "literalKind \<Rightarrow> bool \<Rightarrow> bool \<Rightarrow> literalKind list \<Rightarrow> (bool \<times> bool) option" where
  "scan_disjunct_kinds litKind hasLit hasNonLit [] = Some (hasLit, hasNonLit)"
| "scan_disjunct_kinds litKind hasLit hasNonLit (k # ks) =
     (if is_literal_kind k
      then (if litKind = literalKindNone then scan_disjunct_kinds k True hasNonLit ks
            else if litKind \<noteq> k then None
            else scan_disjunct_kinds litKind True hasNonLit ks)
      else scan_disjunct_kinds litKind hasLit True ks)"

definition validateLiteralUnionExpr :: "TypeIdent \<Rightarrow> TypeDefExpr \<Rightarrow> string option" where
  "validateLiteralUnionExpr ident e =
     (case e of
        TypeDefBinaryExpr l op r \<Rightarrow>
          if op \<noteq> TokenBitwiseOr
          then (if containsLiteralTypeDefMember e
                then Some (''type '' @ TypeIdent_String ident @ '': refinement-unsupported-union: literal intersections are not supported'')
                else None)
          else (case scan_disjunct_kinds literalKindNone False False (map literalKindOfTypeDefExpr (flattenTypeDefDisjuncts e)) of
                  None \<Rightarrow> Some (''type '' @ TypeIdent_String ident @ '': refinement-unsupported-union: mixed literal kinds in union'')
                | Some (hasLit, hasNonLit) \<Rightarrow>
                  if hasLit \<and> hasNonLit
                  then Some (''type '' @ TypeIdent_String ident @ '': refinement-unsupported-union: cannot mix literals with other type forms'')
                  else None)
      | _ \<Rightarrow> None)"

definition validateTypeDefBinary :: "TypeChecker \<Rightarrow> TypeIdent \<Rightarrow> TypeDefExpr \<Rightarrow> string option" where
  "validateTypeDefBinary tc ident e =
     (case validateLiteralUnionExpr ident e of
        Some err \<Rightarrow> Some err
      | None \<Rightarrow>
        (case TypeDefExprToTypeNode tc e of
           Inl err \<Rightarrow> Some (''type '' @ TypeIdent_String ident @ '': '' @ err)
         | Inr t \<Rightarrow> None))"

section \<open>Error-kinded types\<close>

text \<open>The loop over members stops at the first that is not error-kinded; \<open>None\<close> is a call that did not
  return within the fuel.\<close>

fun all_kinded :: "('a \<Rightarrow> bool option) \<Rightarrow> 'a list \<Rightarrow> bool option" where
  "all_kinded f [] = Some True"
| "all_kinded f (m # ms) =
     (case f m of None \<Rightarrow> None | Some b \<Rightarrow> if b then all_kinded f ms else Some False)"

primrec IsErrorKindedType :: "nat \<Rightarrow> TypeChecker \<Rightarrow> TypeNode \<Rightarrow> bool option" where
  "IsErrorKindedType 0 tc t = None"
| "IsErrorKindedType (Suc n) tc t =
     (let t = (case expandTypeDefBinaryIfNeeded tc t of Some c \<Rightarrow> c | None \<Rightarrow> t)
      in if TIdent t = TypeError then Some True
         else if TIdent t = TypeUnion \<or> TIdent t = TypeIntersection
         then map_option (\<lambda>b. b \<and> TypeParams t \<noteq> []) (all_kinded (IsErrorKindedType n tc) (TypeParams t))
         else Some (case Defs tc (TIdent t) of Some (TypeDefErrorExpr s) \<Rightarrow> True | _ \<Rightarrow> False))"

section \<open>Lowering a disjunction\<close>

text \<open>All disjuncts in order, or the first error.\<close>

fun lower_all :: "TypeChecker \<Rightarrow> TypeDefExpr list \<Rightarrow> string + TypeNode list" where
  "lower_all tc [] = Inr []"
| "lower_all tc (d # ds) =
     (case TypeDefExprToTypeNode tc d of
        Inl err \<Rightarrow> Inl err
      | Inr t \<Rightarrow> (case lower_all tc ds of Inl err \<Rightarrow> Inl err | Inr ts \<Rightarrow> Inr (t # ts)))"

lemma lower_all_append:
  "lower_all tc (xs @ ys) =
     (case lower_all tc xs of
        Inl err \<Rightarrow> Inl err
      | Inr ts \<Rightarrow> (case lower_all tc ys of Inl err \<Rightarrow> Inl err | Inr us \<Rightarrow> Inr (ts @ us)))"
  by (induction xs) (auto split: sum.splits)

lemma lower_all_length: "lower_all tc ds = Inr ts \<Longrightarrow> length ts = length ds"
  by (induction ds arbitrary: ts) (auto split: sum.splits)

lemma flattenTypeDefDisjuncts_nonempty: "flattenTypeDefDisjuncts e \<noteq> []"
  by (induction e rule: flattenTypeDefDisjuncts.induct) auto

lemma flattenUnionMembers_leaves_pair:
  "flattenUnionMembers (leaves TypeUnion a @ leaves TypeUnion b) = flattenUnionMembers [a, b]"
proof -
  have "concat (map (leaves TypeUnion) (leaves TypeUnion a @ leaves TypeUnion b)) = leaves TypeUnion a @ leaves TypeUnion b"
    by (intro concat_leaves) (auto dest: leaves_leaf)
  then show ?thesis by (simp add: flattenUnionMembers_leaves)
qed

lemma flattenUnionMembers_pair:
  "flattenUnionMembers [a] = flattenUnionMembers xs \<Longrightarrow> flattenUnionMembers [b] = flattenUnionMembers ys \<Longrightarrow>
     flattenUnionMembers [a, b] = flattenUnionMembers (xs @ ys)"
proof -
  let ?L = "\<lambda>ts. concat (map (leaves TypeUnion) ts)"
  assume e: "flattenUnionMembers [a] = flattenUnionMembers xs" "flattenUnionMembers [b] = flattenUnionMembers ys"
  have split: "flattenUnionMembers (us @ vs) =
      flattenUnionMembers us @ dedup_by skeleton_of (skeleton_of ` set (flattenUnionMembers us)) (flattenUnionMembers vs)"
    for us vs
  proof -
    have "skeleton_of ` set (flattenUnionMembers us) = skeleton_of ` set (?L us)" by (rule flattenUnionMembers_props(3))
    then show ?thesis by (simp add: flattenUnionMembers_leaves dedup_by_append dedup_by_idem del: set_concat)
  qed
  from split [of "[a]" "[b]"] split [of xs ys] e show ?thesis by simp
qed

lemma disjunction_lowers:
  "case TypeDefExprToTypeNode tc e of
     Inl err \<Rightarrow> lower_all tc (flattenTypeDefDisjuncts e) = Inl err
   | Inr t \<Rightarrow> (\<exists>ts. lower_all tc (flattenTypeDefDisjuncts e) = Inr ts \<and>
        flattenUnionMembers [t] = flattenUnionMembers ts \<and>
        ((\<exists>l r. e = TypeDefBinaryExpr l TokenBitwiseOr r) \<longrightarrow> t = NewUnionType ts))"
proof (induction e)
  case (TypeDefBinaryExpr l op r)
  show ?case
  proof (cases "op = TokenBitwiseOr")
    case False
    then show ?thesis by (auto split: sum.splits)
  next
    case True
    show ?thesis
    proof (cases "TypeDefExprToTypeNode tc l")
      case (Inl err)
      with TypeDefBinaryExpr.IH(1) True show ?thesis by (simp add: lower_all_append)
    next
      case (Inr a)
      note l = Inr
      with TypeDefBinaryExpr.IH(1) obtain xs where
        xs: "lower_all tc (flattenTypeDefDisjuncts l) = Inr xs" "flattenUnionMembers [a] = flattenUnionMembers xs" by auto
      show ?thesis
      proof (cases "TypeDefExprToTypeNode tc r")
        case (Inl err)
        with TypeDefBinaryExpr.IH(2) True xs l show ?thesis by (simp add: lower_all_append)
      next
        case (Inr b)
        with TypeDefBinaryExpr.IH(2) obtain ys where
          ys: "lower_all tc (flattenTypeDefDisjuncts r) = Inr ys" "flattenUnionMembers [b] = flattenUnionMembers ys" by auto
        let ?t = "NewUnionType (leaves TypeUnion a @ leaves TypeUnion b)"
        have f: "flattenUnionMembers (leaves TypeUnion a @ leaves TypeUnion b) = flattenUnionMembers (xs @ ys)"
          using flattenUnionMembers_pair [OF xs(2) ys(2)] by (simp add: flattenUnionMembers_leaves_pair)
        then have "?t = NewUnionType (xs @ ys)" by (simp add: NewUnionType_def)
        moreover have "flattenUnionMembers [?t] = flattenUnionMembers (xs @ ys)"
          using flattenUnionMembers_nested [of "leaves TypeUnion a @ leaves TypeUnion b" "[]" "[]"] f leaves_nonempty
          by simp
        ultimately show ?thesis using True l Inr xs(1) ys(1)
          by (simp add: lower_all_append flattenUnionForCombine_leaves)
      qed
    qed
  qed
qed (auto split: sum.splits)

text \<open>A type definition \<open>A | B | ...\<close> denotes the normalised union of its disjuncts in declaration
  order, however the \<open>|\<close>s nest, and fails with the first disjunct's error when one fails.\<close>

theorem typedef_disjunction_is_union:
  "TypeDefExprToTypeNode tc (TypeDefBinaryExpr l TokenBitwiseOr r) =
     (case lower_all tc (flattenTypeDefDisjuncts (TypeDefBinaryExpr l TokenBitwiseOr r)) of
        Inl err \<Rightarrow> Inl err
      | Inr ts \<Rightarrow> Inr (NewUnionType ts))"
  using disjunction_lowers [of tc "TypeDefBinaryExpr l TokenBitwiseOr r"]
  by (cases "TypeDefExprToTypeNode tc (TypeDefBinaryExpr l TokenBitwiseOr r)")
     (simp_all del: TypeDefExprToTypeNode.simps flattenTypeDefDisjuncts.simps, auto)

section \<open>Literal unions\<close>

lemma literalValuesEqual_cases:
  assumes "literalValuesEqual a b"
  obtains (str) s ty ty' where "a = StringLiteralNode s ty" "b = StringLiteralNode s ty'"
  | (int) n raw ty raw' ty' where "a = IntLiteralNode n raw ty" "b = IntLiteralNode n raw' ty'"
  | (bool) v ty ty' where "a = BoolLiteralNode v ty" "b = BoolLiteralNode v ty'"
proof (cases a)
  case (StringLiteralNode s ty)
  with assms str show ?thesis by (cases b) (auto simp: literalValuesEqual_def)
next
  case (IntLiteralNode n raw ty)
  with assms int show ?thesis by (cases b) (auto simp: literalValuesEqual_def)
next
  case (BoolLiteralNode v ty)
  with assms bool show ?thesis by (cases b) (auto simp: literalValuesEqual_def)
qed (use assms in \<open>simp_all add: literalValuesEqual_def\<close>)

lemma literalValuesEqual_trans:
  assumes "literalValuesEqual x y" "literalValuesEqual y z"
  shows "literalValuesEqual x z"
  using assms(1) assms by (cases rule: literalValuesEqual_cases) (simp_all add: literalValuesEqual_def)

text \<open>The literal a disjunct stands for.\<close>

definition disjunct_literal :: "TypeDefExpr \<Rightarrow> ExpressionNode option" where
  "disjunct_literal d =
     (case d of TypeDefAssertionExpr a \<Rightarrow> literalValueFromAssertion a | _ \<Rightarrow> None)"

lemma literalValue_kind:
  "literalValueFromAssertion asrt = Some v \<Longrightarrow> is_literal_kind (literalKindOfValue v)"
  by (auto simp: literalValueFromAssertion_def expressionLiteralValue_def is_literal_kind_def literalKindOfValue_def
      split: option.splits if_splits list.splits ExpressionNode.splits)

lemma literal_kind_literal:
  "is_literal_kind (literalKindOfTypeDefExpr d) \<longleftrightarrow> disjunct_literal d \<noteq> None"
  "disjunct_literal d = Some v \<Longrightarrow> literalKindOfTypeDefExpr d = literalKindOfValue v"
  by (cases d; auto simp: literalKindOfTypeDefExpr_def disjunct_literal_def is_literal_kind_def
      literalValueFromAssertion_def [of None] dest: literalValue_kind [unfolded is_literal_kind_def]
      split: option.splits)+

lemma literalValueFromAssertion_shape:
  assumes "literalValueFromAssertion (Some a) = Some v"
  shows "BaseType a = None \<and> Assertion_String a = ''Value('' @ Expression_String v @ '')''"
proof -
  from assms obtain c arg where c: "BaseType a = None" "OrChains a = []" "Constraints a = [c]"
    "CName c = ValueConstraint" "CArgs c = [arg]" "ArgValue arg = Some v"
    by (auto simp: literalValueFromAssertion_def expressionLiteralValue_def
        split: option.splits if_splits list.splits ExpressionNode.splits)
  then obtain tp al s ty where
    "a = AssertionNode None [ConstraintNode ''Value'' [ConstraintArgumentNode (Some v) s ty]] [] tp al"
    by (cases a; cases c; cases arg) auto
  then show ?thesis by (simp add: assertion_text_def first_some_def)
qed

lemma scan_kinds_ok:
  "scan_disjunct_kinds k0 lit non ks = Some (l, n) \<Longrightarrow> k0 = literalKindNone \<or> is_literal_kind k0 \<Longrightarrow>
     (\<exists>k. is_literal_kind k \<and> (k0 = literalKindNone \<or> k0 = k) \<and> (\<forall>x \<in> set ks. is_literal_kind x \<longrightarrow> x = k)) \<and>
     (l \<longleftrightarrow> lit \<or> (\<exists>x \<in> set ks. is_literal_kind x)) \<and> (n \<longleftrightarrow> non \<or> (\<exists>x \<in> set ks. \<not> is_literal_kind x))"
proof (induction k0 lit non ks rule: scan_disjunct_kinds.induct)
  case (1 litKind hasLit hasNonLit)
  then show ?case by (auto simp: is_literal_kind_def)
next
  case (2 litKind hasLit hasNonLit k ks)
  show ?case
  proof (cases "is_literal_kind k")
    case False
    then have "scan_disjunct_kinds litKind hasLit True ks = Some (l, n)" using "2.prems"(1) by simp
    from "2.IH"(3) [OF False this "2.prems"(2)] False show ?thesis by auto
  next
    case True
    show ?thesis
    proof (cases "litKind = literalKindNone")
      case None: True
      then have "scan_disjunct_kinds k True hasNonLit ks = Some (l, n)" using "2.prems"(1) True by simp
      from "2.IH"(1) [OF True None this] True None show ?thesis
        by (auto simp: is_literal_kind_def)
    next
      case False
      with "2.prems"(1) True have eq: "litKind = k" "scan_disjunct_kinds litKind True hasNonLit ks = Some (l, n)"
        by (auto split: if_splits)
      from "2.IH"(2) [OF True False _ eq(2) "2.prems"(2)] True False eq(1) show ?thesis by auto
    qed
  qed
qed

lemma validated_literals:
  assumes "validateLiteralUnionExpr T e = None" "e = TypeDefBinaryExpr l TokenBitwiseOr r"
    "d0 \<in> set (flattenTypeDefDisjuncts e)" "disjunct_literal d0 \<noteq> None"
  shows "\<exists>k. is_literal_kind k \<and>
    (\<forall>d \<in> set (flattenTypeDefDisjuncts e). \<exists>v. disjunct_literal d = Some v \<and> literalKindOfValue v = k)"
proof -
  let ?ks = "map literalKindOfTypeDefExpr (flattenTypeDefDisjuncts e)"
  from assms(1,2) obtain hl hn where s: "scan_disjunct_kinds literalKindNone False False ?ks = Some (hl, hn)" "\<not> (hl \<and> hn)"
  proof (cases "scan_disjunct_kinds literalKindNone False False ?ks")
    case None
    with assms(1,2) show ?thesis by (simp add: validateLiteralUnionExpr_def del: flattenTypeDefDisjuncts.simps)
  next
    case (Some p)
    obtain hl hn where p: "p = (hl, hn)" by (cases p)
    with Some assms(1,2) have "\<not> (hl \<and> hn)"
      by (auto simp: validateLiteralUnionExpr_def simp del: flattenTypeDefDisjuncts.simps)
    with Some p that show ?thesis by simp
  qed
  from scan_kinds_ok [OF s(1)] obtain k where k: "is_literal_kind k" "\<forall>x \<in> set ?ks. is_literal_kind x \<longrightarrow> x = k"
    and h: "hl = (\<exists>x \<in> set ?ks. is_literal_kind x)" "hn = (\<exists>x \<in> set ?ks. \<not> is_literal_kind x)" by auto
  have "hl" using assms(3,4) h(1) by (auto simp: literal_kind_literal(1))
  with s(2) h(2) have all: "\<forall>d \<in> set (flattenTypeDefDisjuncts e). is_literal_kind (literalKindOfTypeDefExpr d)" by auto
  have "\<exists>v. disjunct_literal d = Some v \<and> literalKindOfValue v = k" if "d \<in> set (flattenTypeDefDisjuncts e)" for d
    using that all k(2) literal_kind_literal [of d] by auto
  with k(1) show ?thesis by blast
qed

lemma lower_literals:
  assumes "\<forall>d \<in> set ds. disjunct_literal d \<noteq> None"
  shows "\<exists>as. lower_all tc ds = Inr (map (\<lambda>a. NewAssertionType (Some a)) as) \<and> ds = map (\<lambda>a. TypeDefAssertionExpr (Some a)) as"
  using assms
proof (induction ds)
  case (Cons d ds)
  then obtain as where as: "lower_all tc ds = Inr (map (\<lambda>a. NewAssertionType (Some a)) as)"
    "ds = map (\<lambda>a. TypeDefAssertionExpr (Some a)) as" by auto
  from Cons.prems obtain v where v: "disjunct_literal d = Some v" by auto
  then obtain x where x: "d = TypeDefAssertionExpr x" "literalValueFromAssertion x = Some v"
    by (cases d) (auto simp: disjunct_literal_def)
  then obtain a where a: "d = TypeDefAssertionExpr (Some a)" "literalValueFromAssertion (Some a) = Some v"
    by (cases x) (auto simp: literalValueFromAssertion_def [of None])
  with literalValueFromAssertion_shape [OF a(2)] have "TypeDefExprToTypeNode tc d = Inr (NewAssertionType (Some a))"
    by (simp add: typeDefAssertionExprToTypeNode_def)
  with as a show ?case by (intro exI [of _ "a # as"]) simp
qed simp

lemma union_literals_map:
  assumes "\<forall>a \<in> set as. \<exists>v. literalValueFromAssertion (Some a) = Some v \<and> literalKindOfValue v = k"
    "kind = literalKindNone \<or> kind = k" "is_literal_kind k" "out \<noteq> [] \<or> as \<noteq> []"
  shows "union_literals kind (map (\<lambda>a. NewAssertionType (Some a)) as) out =
    Some (out @ map (\<lambda>a. the (literalValueFromAssertion (Some a))) as)"
  using assms
proof (induction as arbitrary: kind out)
  case Nil
  then show ?case by simp
next
  case (Cons a as)
  from Cons.prems(1) obtain v where v: "literalValueFromAssertion (Some a) = Some v" "literalKindOfValue v = k" by auto
  have k: "k \<noteq> literalKindNone" using Cons.prems(3) by (auto simp: is_literal_kind_def)
  from Cons.IH [of k "out @ [v]"] Cons.prems v k show ?case
    by (auto simp: NewAssertionType_def Let_def)
qed

text \<open>The assertions that remain after the union of literal types dropped the repeated ones.\<close>

lemma NewUnionType_assertions:
  assumes "as \<noteq> []"
  obtains bs where "flattenUnionMembers (map (\<lambda>a. NewAssertionType (Some a)) as) = map (\<lambda>a. NewAssertionType (Some a)) bs"
    "set bs \<subseteq> set as" "bs \<noteq> []" "\<forall>a \<in> set as. \<exists>b \<in> set bs. Assertion_String b = Assertion_String a"
proof -
  let ?ts = "map (\<lambda>a. NewAssertionType (Some a)) as"
  have "concat (map (leaves TypeUnion) ?ts) = ?ts"
    by (intro concat_leaves) (auto simp: leaf_iff NewAssertionType_def)
  then have f: "flattenUnionMembers ?ts = dedup_by skeleton_of {} ?ts" by (simp add: flattenUnionMembers_leaves)
  have "dedup_by skeleton_of S (map (\<lambda>a. NewAssertionType (Some a)) xs) =
      map (\<lambda>a. NewAssertionType (Some a)) (dedup_by (\<lambda>a. skeleton_of (NewAssertionType (Some a))) S xs)" for S xs
    by (induction xs arbitrary: S) auto
  with f have e: "flattenUnionMembers ?ts =
      map (\<lambda>a. NewAssertionType (Some a)) (dedup_by (\<lambda>a. skeleton_of (NewAssertionType (Some a))) {} as)" by simp
  let ?bs = "dedup_by (\<lambda>a. skeleton_of (NewAssertionType (Some a))) {} as"
  have cov: "\<forall>a \<in> set as. \<exists>b \<in> set ?bs. Assertion_String b = Assertion_String a"
    using dedup_by_covers [of _ as "\<lambda>a. skeleton_of (NewAssertionType (Some a))" "{}"]
    by (auto simp: NewAssertionType_def)
  have "?bs \<noteq> []" using assms by (cases as) auto
  then show ?thesis using cov by (rule that [OF e dedup_by_subset])
qed

lemma literalUnionMembers_typedef:
  assumes def: "Defs tc T = Some (TypeDefBinaryExpr l TokenBitwiseOr r)"
    and T: "T \<noteq> []" "T \<noteq> TypeUnion" "T \<noteq> TypeAssertion"
    and ds: "flattenTypeDefDisjuncts (TypeDefBinaryExpr l TokenBitwiseOr r) = map (\<lambda>a. TypeDefAssertionExpr (Some a)) as"
    and lits: "\<forall>a \<in> set as. \<exists>v. literalValueFromAssertion (Some a) = Some v \<and> literalKindOfValue v = k" "is_literal_kind k"
  obtains bs where "literalUnionMembers tc (NewUserDefinedType T) =
      Some (map (\<lambda>a. the (literalValueFromAssertion (Some a))) bs)"
    "set bs \<subseteq> set as" "\<forall>a \<in> set as. \<exists>b \<in> set bs. Assertion_String b = Assertion_String a"
proof -
  let ?e = "TypeDefBinaryExpr l TokenBitwiseOr r" and ?NA = "\<lambda>a. NewAssertionType (Some a)"
  have ne: "as \<noteq> []" using ds flattenTypeDefDisjuncts_nonempty [of ?e] by auto
  have "\<forall>d \<in> set (flattenTypeDefDisjuncts ?e). disjunct_literal d \<noteq> None"
    unfolding ds using lits(1) by (auto simp: disjunct_literal_def)
  from lower_literals [OF this] obtain as' where as': "lower_all tc (flattenTypeDefDisjuncts ?e) = Inr (map ?NA as')"
    "flattenTypeDefDisjuncts ?e = map (\<lambda>a. TypeDefAssertionExpr (Some a)) as'" by blast
  have "inj (\<lambda>a. TypeDefAssertionExpr (Some a))" by (auto intro: injI)
  with as'(2) ds have "as' = as" by (metis inj_map_eq_map)
  with as'(1) have low: "TypeDefExprToTypeNode tc ?e = Inr (NewUnionType (map ?NA as))"
    using disjunction_lowers [of tc ?e]
    by (cases "TypeDefExprToTypeNode tc ?e") (simp_all del: TypeDefExprToTypeNode.simps flattenTypeDefDisjuncts.simps)
  obtain bs where bs: "flattenUnionMembers (map ?NA as) = map ?NA bs" "set bs \<subseteq> set as" "bs \<noteq> []"
    "\<forall>a \<in> set as. \<exists>b \<in> set bs. Assertion_String b = Assertion_String a"
    using NewUnionType_assertions [OF ne] by blast
  let ?u = "NewUnionType (map ?NA as)"
  have u: "?u = (case bs of [b] \<Rightarrow> ?NA b | _ \<Rightarrow> mk_type TypeUnion (map ?NA bs) TypeKindBuiltin)"
    unfolding NewUnionType_def bs(1) by (cases bs rule: remdups_adj.cases) simp_all
  have "\<not> containsTypeIdentParam T ?u"
    unfolding u using T by (cases bs rule: remdups_adj.cases) (simp_all add: mk_type_def NewAssertionType_def list_ex_iff)
  with low def T have ex: "expandTypeDefBinaryIfNeeded tc (NewUserDefinedType T) = Some ?u"
    by (simp add: expandTypeDefBinaryIfNeeded_def NewUserDefinedType_def mk_type_def)
  have lb: "\<forall>a \<in> set bs. \<exists>v. literalValueFromAssertion (Some a) = Some v \<and> literalKindOfValue v = k"
    using lits(1) bs(2) by blast
  have "literalUnionMembers tc (NewUserDefinedType T) = Some (map (\<lambda>a. the (literalValueFromAssertion (Some a))) bs)"
  proof (cases "\<exists>b. bs = [b]")
    case True
    then obtain b where b: "bs = [b]" by blast
    then obtain v where "literalValueFromAssertion (Some b) = Some v" using lb by auto
    moreover from b u have "?u = ?NA b" by simp
    ultimately show ?thesis using b by (simp add: literalUnionMembers_def ex NewAssertionType_def)
  next
    case False
    then have "?u = mk_type TypeUnion (map ?NA bs) TypeKindBuiltin" unfolding u by (cases bs rule: remdups_adj.cases) simp_all
    with union_literals_map [OF lb _ lits(2), of literalKindNone "[]"] bs(3) show ?thesis
      by (simp add: literalUnionMembers_def ex mk_type_def)
  qed
  with bs that show ?thesis by blast
qed

text \<open>C33. A validated union of literals means what it lists: a literal is assignable to the named type
  exactly when it equals one of the declared literals. (Two declared literals with the same text
  are equal, which the parser's literals satisfy; only the first of them is kept as a member.)\<close>

theorem literal_union_membership:
  assumes "Defs tc T = Some (TypeDefBinaryExpr l TokenBitwiseOr r)"
    and "T \<noteq> []" and "T \<noteq> TypeUnion" and "T \<noteq> TypeAssertion"
    and "validateLiteralUnionExpr T (TypeDefBinaryExpr l TokenBitwiseOr r) = None"
    and "\<exists>d \<in> set (flattenTypeDefDisjuncts (TypeDefBinaryExpr l TokenBitwiseOr r)). disjunct_literal d \<noteq> None"
    and "\<forall>d \<in> set (flattenTypeDefDisjuncts (TypeDefBinaryExpr l TokenBitwiseOr r)).
         \<forall>d' \<in> set (flattenTypeDefDisjuncts (TypeDefBinaryExpr l TokenBitwiseOr r)).
         \<forall>v w. disjunct_literal d = Some v \<and> disjunct_literal d' = Some w \<and>
           Expression_String v = Expression_String w \<longrightarrow> literalValuesEqual v w"
  shows "literalAssignableToType tc lit (NewUserDefinedType T) \<longleftrightarrow>
    (\<exists>d \<in> set (flattenTypeDefDisjuncts (TypeDefBinaryExpr l TokenBitwiseOr r)).
       \<exists>v. disjunct_literal d = Some v \<and> literalValuesEqual lit v)"
proof -
  let ?ds = "flattenTypeDefDisjuncts (TypeDefBinaryExpr l TokenBitwiseOr r)"
  have trans: "literalValuesEqual x y \<Longrightarrow> literalValuesEqual y z \<Longrightarrow> literalValuesEqual x z" for x y z
    by (rule literalValuesEqual_trans)
  from assms(6) obtain d0 where "d0 \<in> set ?ds" "disjunct_literal d0 \<noteq> None" by blast
  from validated_literals [OF assms(5) refl this] obtain k where
    k: "is_literal_kind k" "\<forall>d \<in> set ?ds. \<exists>v. disjunct_literal d = Some v \<and> literalKindOfValue v = k" by blast
  then have "\<forall>d \<in> set ?ds. disjunct_literal d \<noteq> None" by auto
  from lower_literals [OF this] obtain as where as: "?ds = map (\<lambda>a. TypeDefAssertionExpr (Some a)) as" by blast
  have lits: "\<forall>a \<in> set as. \<exists>v. literalValueFromAssertion (Some a) = Some v \<and> literalKindOfValue v = k"
    using k(2) unfolding as by (simp add: disjunct_literal_def)
  obtain bs where bs: "literalUnionMembers tc (NewUserDefinedType T) =
      Some (map (\<lambda>a. the (literalValueFromAssertion (Some a))) bs)"
    "set bs \<subseteq> set as" "\<forall>a \<in> set as. \<exists>b \<in> set bs. Assertion_String b = Assertion_String a"
    using literalUnionMembers_typedef [OF assms(1-4) as lits k(1)] by blast
  have mem: "literalAssignableToType tc lit (NewUserDefinedType T) \<longleftrightarrow>
      (\<exists>b \<in> set bs. literalValuesEqual lit (the (literalValueFromAssertion (Some b))))"
    by (auto simp: literalAssignableToType_def bs(1) list_ex_iff)
  have dis: "(\<exists>d \<in> set ?ds. \<exists>v. disjunct_literal d = Some v \<and> literalValuesEqual lit v) \<longleftrightarrow>
      (\<exists>a \<in> set as. literalValuesEqual lit (the (literalValueFromAssertion (Some a))))"
    unfolding as using lits by (simp add: disjunct_literal_def) (metis option.sel)
  have "\<exists>b \<in> set bs. literalValuesEqual lit (the (literalValueFromAssertion (Some b)))"
    if a: "a \<in> set as" "literalValuesEqual lit (the (literalValueFromAssertion (Some a)))" for a
  proof -
    from bs(3) a(1) obtain b where b: "b \<in> set bs" "Assertion_String b = Assertion_String a" by blast
    from lits a(1) b(1) bs(2) obtain v w where
      v: "literalValueFromAssertion (Some a) = Some v" "literalValueFromAssertion (Some b) = Some w" by blast
    with literalValueFromAssertion_shape b(2) have "Expression_String v = Expression_String w" by force
    moreover have "TypeDefAssertionExpr (Some a) \<in> set ?ds" "TypeDefAssertionExpr (Some b) \<in> set ?ds"
      unfolding as using a(1) b(1) bs(2) by auto
    ultimately have "literalValuesEqual v w" using assms(7) v by (fastforce simp: disjunct_literal_def)
    with a(2) v(1) trans have "literalValuesEqual lit w" by auto
    with v(2) b(1) show ?thesis by (intro bexI [of _ b]) simp_all
  qed
  with mem dis bs(2) show ?thesis by blast
qed

definition demo_literal :: "string \<Rightarrow> TypeDefExpr" where
  "demo_literal s = TypeDefAssertionExpr (Some (AssertionNode None
     [ConstraintNode ValueConstraint [ConstraintArgumentNode (Some (StringLiteralNode s (NewBuiltinType TypeString))) None None]] [] [] None))"

definition demo_checker :: TypeChecker where
  "demo_checker = \<lparr>Defs = (\<lambda>i. if i = ''Status'' then Some (TypeDefBinaryExpr (demo_literal ''todo'') TokenBitwiseOr (demo_literal ''done'')) else None),
     IsTypeCompatible = (\<lambda>a b. False), HashShape = (\<lambda>_. Inl [])\<rparr>"

theorem literal_union_membership_witness:
  "literalAssignableToType demo_checker (StringLiteralNode ''done'' (NewBuiltinType TypeString)) (NewUserDefinedType ''Status'') \<and>
   \<not> literalAssignableToType demo_checker (StringLiteralNode ''other'' (NewBuiltinType TypeString)) (NewUserDefinedType ''Status'')"
proof -
  let ?l = "demo_literal ''todo''" and ?r = "demo_literal ''done''"
  have ds: "flattenTypeDefDisjuncts (TypeDefBinaryExpr ?l TokenBitwiseOr ?r) = [?l, ?r]" by (simp add: demo_literal_def)
  have lit: "disjunct_literal (demo_literal s) = Some (StringLiteralNode s (NewBuiltinType TypeString))" for s
    by (simp add: disjunct_literal_def demo_literal_def literalValueFromAssertion_def expressionLiteralValue_def)
  have val: "validateLiteralUnionExpr ''Status'' (TypeDefBinaryExpr ?l TokenBitwiseOr ?r) = None" by code_simp
  have def: "Defs demo_checker ''Status'' = Some (TypeDefBinaryExpr ?l TokenBitwiseOr ?r)" by (simp add: demo_checker_def)
  have "literalAssignableToType demo_checker x (NewUserDefinedType ''Status'') \<longleftrightarrow>
    (\<exists>d \<in> set [?l, ?r]. \<exists>v. disjunct_literal d = Some v \<and> literalValuesEqual x v)" for x
    using literal_union_membership [OF def _ _ _ val, unfolded ds, of x]
    by (simp add: lit) (simp add: literalValuesEqual_def)
  then show ?thesis by (simp add: lit) (simp add: literalValuesEqual_def)
qed

section \<open>Termination of the error-kind test\<close>

lemma all_kinded_mono:
  "all_kinded f ms = Some b \<Longrightarrow> (\<And>m c. m \<in> set ms \<Longrightarrow> f m = Some c \<Longrightarrow> g m = Some c) \<Longrightarrow> all_kinded g ms = Some b"
proof (induction ms)
  case (Cons m ms)
  then obtain c where c: "f m = Some c" by (auto split: option.splits)
  with Cons show ?case by (auto split: if_splits)
qed simp

lemma IsErrorKindedType_mono: "IsErrorKindedType n tc t = Some b \<Longrightarrow> n \<le> n' \<Longrightarrow> IsErrorKindedType n' tc t = Some b"
proof (induction n arbitrary: n' t b)
  case (Suc n)
  then obtain k where k: "n' = Suc k" "n \<le> k" by (cases n') auto
  have "all_kinded (IsErrorKindedType k tc) ms = Some c" if "all_kinded (IsErrorKindedType n tc) ms = Some c" for ms c
    using that Suc.IH k(2) by (intro all_kinded_mono [OF that]) blast
  with Suc.prems(1) show ?case by (auto simp: k(1) Let_def split: if_splits)
qed simp

lemma all_kinded_enough:
  "(\<And>m. m \<in> set ms \<Longrightarrow> \<exists>n b. IsErrorKindedType n tc m = Some b) \<Longrightarrow>
     \<exists>n b. all_kinded (IsErrorKindedType n tc) ms = Some b"
proof (induction ms)
  case (Cons m ms)
  from Cons.prems [of m] obtain n b where n: "IsErrorKindedType n tc m = Some b" by auto
  from Cons obtain n' b' where n': "all_kinded (IsErrorKindedType n' tc) ms = Some b'" by auto
  have "all_kinded (IsErrorKindedType (max n n') tc) ms = Some b'"
    by (rule all_kinded_mono [OF n']) (auto intro: IsErrorKindedType_mono)
  moreover have "IsErrorKindedType (max n n') tc m = Some b" by (rule IsErrorKindedType_mono [OF n]) simp
  ultimately show ?case by (intro exI [of _ "max n n'"]) auto
qed auto

primrec mentions :: "TypeNode \<Rightarrow> TypeIdent set" where
  "mentions (TypeNode i asrt params kind arrayLen fps frs) = insert i (\<Union> (set (map mentions params)))"

lemma mentions_param: "p \<in> set (TypeParams t) \<Longrightarrow> mentions p \<subseteq> mentions t"
  by (cases t) auto

lemma size_param: "p \<in> set (TypeParams t) \<Longrightarrow> size p < size t"
  by (cases t) (auto dest: size_list_estimation' [of _ _ "size p" size])

text \<open>The error-kind test returns on every type, provided type definitions are not cyclic: there is a
  ranking of names in which the expansion of a definition mentions only lower names.\<close>

theorem IsErrorKindedType_returns:
  fixes rank :: "TypeIdent \<Rightarrow> nat"
  assumes "\<And>t c i. expandTypeDefBinaryIfNeeded tc t = Some c \<Longrightarrow> i \<in> mentions c \<Longrightarrow> rank i < rank (TIdent t)"
    and "\<And>i. rank i \<le> bound"
  shows "\<exists>n b. IsErrorKindedType n tc t = Some b"
proof -
  have "\<forall>t. (\<forall>i \<in> mentions t. rank i < r) \<longrightarrow> (\<exists>n b. IsErrorKindedType n tc t = Some b)" for r
  proof (induction r)
    case 0
    have "TIdent t \<in> mentions t" for t by (cases t) simp
    then show ?case by auto
  next
    case (Suc r)
    have "(\<forall>i \<in> mentions t. rank i < Suc r) \<Longrightarrow> \<exists>n b. IsErrorKindedType n tc t = Some b" for t
    proof (induction "size t" arbitrary: t rule: less_induct)
      case less
      define u where "u = (case expandTypeDefBinaryIfNeeded tc t of Some c \<Rightarrow> c | None \<Rightarrow> t)"
      have TI: "TIdent t \<in> mentions t" by (cases t) simp
      have "\<exists>n b. IsErrorKindedType n tc p = Some b" if p: "p \<in> set (TypeParams u)" for p
      proof (cases "expandTypeDefBinaryIfNeeded tc t")
        case None
        with p have pt: "p \<in> set (TypeParams t)" by (simp add: u_def)
        from size_param [OF pt] mentions_param [OF pt] less show ?thesis by blast
      next
        case (Some c)
        with p have pc: "p \<in> set (TypeParams c)" by (simp add: u_def)
        have "\<forall>i \<in> mentions p. rank i < r"
          using assms(1) [OF Some] mentions_param [OF pc] less.prems TI by fastforce
        with Suc.IH show ?thesis by blast
      qed
      then obtain n b where "all_kinded (IsErrorKindedType n tc) (TypeParams u) = Some b"
        using all_kinded_enough [of "TypeParams u" tc] by blast
      then show ?case by (intro exI [of _ "Suc n"]) (auto simp: u_def [symmetric] Let_def)
    qed
    then show ?case by blast
  qed
  then have "(\<forall>i \<in> mentions t. rank i < Suc bound) \<longrightarrow> (\<exists>n b. IsErrorKindedType n tc t = Some b)" by blast
  with assms(2) show ?thesis by (simp add: less_Suc_eq_le)
qed

lemma demo_expand:
  "expandTypeDefBinaryIfNeeded demo_checker t = Some c \<Longrightarrow> TIdent t = ''Status'' \<and> ''Status'' \<notin> mentions c"
proof -
  assume e: "expandTypeDefBinaryIfNeeded demo_checker t = Some c"
  have "containsTypeIdentParam i u \<longleftrightarrow> i \<in> mentions u" for i u
  proof (induction u rule: TypeNode_params_induct)
    case (TypeNode ident asrt params kind arrayLen fps frs)
    then show ?case by (auto simp: list_ex_iff)
  qed
  with e show ?thesis
    by (auto simp: expandTypeDefBinaryIfNeeded_def demo_checker_def split: if_splits sum.splits)
qed

theorem IsErrorKindedType_returns_witness:
  "\<exists>n b. IsErrorKindedType n demo_checker (NewUserDefinedType ''Status'') = Some b"
proof (rule IsErrorKindedType_returns [of demo_checker "\<lambda>i. if i = ''Status'' then 1 else 0" 1])
  fix t c i
  assume "expandTypeDefBinaryIfNeeded demo_checker t = Some c" "i \<in> mentions c"
  with demo_expand [of t c] show "(if i = ''Status'' then 1 else 0) < (if TIdent t = ''Status'' then 1 else (0::nat))"
    by (cases "i = ''Status''") auto
qed simp

definition bare_name :: "TypeIdent \<Rightarrow> TypeDefExpr" where
  "bare_name i = TypeDefAssertionExpr (Some (AssertionNode (Some i) [] [] [] None))"

definition cyclic_checker :: TypeChecker where
  "cyclic_checker = \<lparr>Defs = (\<lambda>i.
       if i = ''A'' then Some (TypeDefBinaryExpr (bare_name ''B'') TokenBitwiseOr (bare_name ''X''))
       else if i = ''B'' then Some (TypeDefBinaryExpr (bare_name ''A'') TokenBitwiseOr (bare_name ''Y''))
       else None),
     IsTypeCompatible = (\<lambda>a b. False), HashShape = (\<lambda>_. Inl [])\<rparr>"

lemma cyclic_expand:
  "expandTypeDefBinaryIfNeeded cyclic_checker (NewUserDefinedType ''A'') =
     Some (mk_type TypeUnion [NewUserDefinedType ''B'', NewUserDefinedType ''X''] TypeKindBuiltin)"
  "expandTypeDefBinaryIfNeeded cyclic_checker (NewUserDefinedType ''B'') =
     Some (mk_type TypeUnion [NewUserDefinedType ''A'', NewUserDefinedType ''Y''] TypeKindBuiltin)"
  by code_simp+

text \<open>Only direct self-reference is guarded against: with \<open>type A = B | X\<close> and \<open>type B = A | Y\<close>,
  both definitions pass validation and the error-kind test never returns, however much fuel.\<close>

theorem IsErrorKindedType_cyclic_diverges:
  "validateTypeDefBinary cyclic_checker ''A'' (TypeDefBinaryExpr (bare_name ''B'') TokenBitwiseOr (bare_name ''X'')) = None \<and>
   validateTypeDefBinary cyclic_checker ''B'' (TypeDefBinaryExpr (bare_name ''A'') TokenBitwiseOr (bare_name ''Y'')) = None \<and>
   IsErrorKindedType n cyclic_checker (NewUserDefinedType ''A'') = None"
proof (intro conjI)
  show "validateTypeDefBinary cyclic_checker ''A'' (TypeDefBinaryExpr (bare_name ''B'') TokenBitwiseOr (bare_name ''X'')) = None"
    "validateTypeDefBinary cyclic_checker ''B'' (TypeDefBinaryExpr (bare_name ''A'') TokenBitwiseOr (bare_name ''Y'')) = None"
    by code_simp+
  have "IsErrorKindedType n cyclic_checker (NewUserDefinedType ''A'') = None \<and>
      IsErrorKindedType n cyclic_checker (NewUserDefinedType ''B'') = None"
    by (induction n) (simp_all add: cyclic_expand mk_type_def)
  then show "IsErrorKindedType n cyclic_checker (NewUserDefinedType ''A'') = None" ..
qed

end
