(* ===== verification/ProvidersGraph.thy ===== *)
theory ProvidersGraph
  imports Ast
begin

text \<open>
  \<open>internal/providersgraph\<close>: provider slots, with-block scopes, call edges, the two fixed points that
  propagate slots from callees to callers, and the call graph with its invalidation. A Go map from
  functions to slots is a function to lists (a missing key reads as nil, the empty list); a scope
  snapshot is a partial map (nil is the empty one). Maps that are iterated are lists of entries
  in an arbitrary order.
\<close>

section \<open>Slots (slot.go)\<close>

record Slot =
  RootIdent :: Identifier
  ContractType :: TypeNode
  Key :: string
  SourcePkg :: string

type_synonym ProviderScopeSnapshot = "string \<Rightarrow> TypeNode option"
type_synonym 'n slots = "'n \<Rightarrow> Slot list"

definition OrderSlots :: "Slot list \<Rightarrow> Slot list" where
  "OrderSlots slots =
     (if length slots \<le> 1 then slots
      else let seen = map_of (rev (map (\<lambda>s. (Key s, s)) slots))
        in map (\<lambda>k. the (seen k)) (sort (remdups (map Key slots))))"

definition AddSlotToFunction :: "'n slots \<Rightarrow> 'n \<Rightarrow> Slot \<Rightarrow> 'n slots \<times> bool" where
  "AddSlotToFunction m fn slot =
     (if Key slot = [] then (m, False)
      else if list_ex (\<lambda>s. Key s = Key slot) (m fn) then (m, False)
      else (m(fn := m fn @ [slot]), True))"

definition SlotsFromDirectMap :: "(string \<times> Slot) list \<Rightarrow> Slot list" where
  "SlotsFromDirectMap m = (if m = [] then [] else OrderSlots (map snd m))"

definition RootIdentsFromSlots :: "Slot list \<Rightarrow> string list" where
  "RootIdentsFromSlots slots = map RootIdent slots"

definition ProviderScopeKeyPresent :: "Slot \<Rightarrow> ProviderScopeSnapshot \<Rightarrow> bool" where
  "ProviderScopeKeyPresent slot scope \<longleftrightarrow> scope (RootIdent slot) \<noteq> None"

section \<open>Scopes (scope.go)\<close>

record ProviderScope =
  Keys :: "string \<Rightarrow> TypeNode option"
  Shadowed :: "string \<Rightarrow> bool"

definition NewProviderScope :: ProviderScope where
  "NewProviderScope = \<lparr>Keys = (\<lambda>_. None), Shadowed = (\<lambda>_. False)\<rparr>"

definition Snapshot :: "ProviderScope \<Rightarrow> ProviderScopeSnapshot" where
  "Snapshot s = Keys s"

definition MergeProviderScope :: "ProviderScope \<Rightarrow> ProviderScope \<Rightarrow> ProviderScope" where
  "MergeProviderScope outer inner =
     NewProviderScope
       \<lparr>Keys := (\<lambda>k. if Shadowed inner k then None else Keys outer k) ++ Keys inner,
        Shadowed := Shadowed inner\<rparr>"

definition MergeScopeStack :: "ProviderScope list \<Rightarrow> ProviderScopeSnapshot" where
  "MergeScopeStack stack =
     (case stack of
        [] \<Rightarrow> (\<lambda>_. None)
      | s # rest \<Rightarrow> Snapshot (fold (\<lambda>inner merged. MergeProviderScope merged inner) rest s))"

section \<open>Call edges (edge.go)\<close>

record IntraPackageEdge =
  Caller :: Identifier
  Callee :: Identifier
  IntraScope :: ProviderScopeSnapshot

record ModuleCallEdge =
  ModCallerPkg :: string
  ModCallerFn :: Identifier
  TargetPkg :: string
  TargetFn :: Identifier
  ModScope :: ProviderScopeSnapshot

record CallEdge =
  CallerPkg :: string
  CallerFn :: Identifier
  CalleePkg :: string
  CalleeFn :: Identifier
  ImportLocal :: string
  CallScope :: ProviderScopeSnapshot

definition IsCrossPackage :: "CallEdge \<Rightarrow> bool" where
  "IsCrossPackage e \<longleftrightarrow> CalleePkg e \<noteq> []"

definition ToModuleCallEdge :: "CallEdge \<Rightarrow> ModuleCallEdge" where
  "ToModuleCallEdge e = \<lparr>ModCallerPkg = CallerPkg e, ModCallerFn = CallerFn e, TargetPkg = CalleePkg e,
     TargetFn = CalleeFn e, ModScope = CallScope e\<rparr>"

definition IntraEdgesFromCallEdges :: "CallEdge list \<Rightarrow> IntraPackageEdge list" where
  "IntraEdgesFromCallEdges edges =
     map (\<lambda>e. \<lparr>Caller = CallerFn e, Callee = CalleeFn e, IntraScope = CallScope e\<rparr>)
       (filter (\<lambda>e. \<not> IsCrossPackage e) edges)"

definition ModuleEdgesFromCallEdges :: "CallEdge list \<Rightarrow> ModuleCallEdge list" where
  "ModuleEdgesFromCallEdges edges = map ToModuleCallEdge (filter IsCrossPackage edges)"

section \<open>Fixed points (propagate.go)\<close>

type_synonym satisfies = "Slot \<Rightarrow> ProviderScopeSnapshot \<Rightarrow> bool"

text \<open>\<open>changed := true; for changed { changed = false; pass }\<close>, where a pass returns the state and
  whether it changed anything. \<open>None\<close> is a loop that does not end.\<close>

partial_function (option) until_stable :: "('m \<Rightarrow> 'm \<times> bool) \<Rightarrow> 'm \<Rightarrow> 'm option" where
  "until_stable pass m = (case pass m of (m', changed) \<Rightarrow> if changed then until_stable pass m' else Some m')"

declare until_stable.simps [code]

text \<open>The inner loop over the callee's slots, for one edge: \<open>offer\<close> is what the caller is given for a
  slot, \<open>None\<close> when the scope at the call site satisfies it.\<close>

definition add_offered :: "(Slot \<Rightarrow> Slot option) \<Rightarrow> 'n \<Rightarrow> Slot \<Rightarrow> 'n slots \<times> bool \<Rightarrow> 'n slots \<times> bool" where
  "add_offered offer fn slot st =
     (case offer slot of
        None \<Rightarrow> st
      | Some s \<Rightarrow> (case AddSlotToFunction (fst st) fn s of (m, added) \<Rightarrow> (m, snd st \<or> added)))"

definition intra_offer :: "satisfies option \<Rightarrow> IntraPackageEdge \<Rightarrow> Slot \<Rightarrow> Slot option" where
  "intra_offer satisfies edge slot =
     (case satisfies of
        Some sat \<Rightarrow> if sat slot (IntraScope edge) then None else Some slot
      | None \<Rightarrow> Some slot)"

definition intra_edge :: "satisfies option \<Rightarrow> IntraPackageEdge \<Rightarrow> Identifier slots \<times> bool \<Rightarrow> Identifier slots \<times> bool" where
  "intra_edge satisfies edge st =
     fold (add_offered (intra_offer satisfies edge) (Caller edge)) (fst st (Callee edge)) st"

definition intra_pass :: "satisfies option \<Rightarrow> IntraPackageEdge list \<Rightarrow> Identifier slots \<Rightarrow> Identifier slots \<times> bool" where
  "intra_pass satisfies edges m = fold (intra_edge satisfies) edges (m, False)"

definition PropagateIntraPackageFixedPoint ::
  "Identifier slots \<Rightarrow> (Identifier \<Rightarrow> (string \<times> Slot) list option) \<Rightarrow> IntraPackageEdge list \<Rightarrow> satisfies option \<Rightarrow>
   Identifier slots option" where
  "PropagateIntraPackageFixedPoint slots direct edges satisfies =
     (let slots0 = (\<lambda>fn. case direct fn of Some m \<Rightarrow> SlotsFromDirectMap m | None \<Rightarrow> slots fn)
      in map_option (\<lambda>m fn. OrderSlots (m fn)) (until_stable (intra_pass satisfies edges) slots0))"

definition module_offer :: "satisfies \<Rightarrow> ModuleCallEdge \<Rightarrow> Slot \<Rightarrow> Slot option" where
  "module_offer satisfies call slot =
     (if satisfies slot (ModScope call) then None else Some (slot\<lparr>SourcePkg := TargetPkg call\<rparr>))"

text \<open>Functions of all packages are the pairs of package and name.\<close>

type_synonym mod_fn = "string \<times> Identifier"

definition module_edge :: "satisfies \<Rightarrow> ModuleCallEdge \<Rightarrow> mod_fn slots \<times> bool \<Rightarrow> mod_fn slots \<times> bool" where
  "module_edge satisfies call st =
     (let calleeSlots = fst st (TargetPkg call, TargetFn call)
      in if calleeSlots = [] then st
         else fold (add_offered (module_offer satisfies call) (ModCallerPkg call, ModCallerFn call)) calleeSlots st)"

definition module_pass :: "satisfies \<Rightarrow> ModuleCallEdge list \<Rightarrow> mod_fn slots \<Rightarrow> mod_fn slots \<times> bool" where
  "module_pass satisfies edges m = fold (module_edge satisfies) edges (m, False)"

definition PropagateModuleFixedPoint :: "mod_fn slots \<Rightarrow> ModuleCallEdge list \<Rightarrow> satisfies option \<Rightarrow> mod_fn slots option" where
  "PropagateModuleFixedPoint perPkg edges satisfies =
     (if edges = [] then Some perPkg
      else let sat = (case satisfies of Some s \<Rightarrow> s | None \<Rightarrow> ProviderScopeKeyPresent)
        in map_option (\<lambda>m fn. OrderSlots (m fn)) (until_stable (module_pass sat edges) perPkg))"

section \<open>The graph (graph.go)\<close>

record Graph =
  gslots :: "Identifier slots"
  direct :: "Identifier \<Rightarrow> (string \<times> Slot) list option"
  intraEdges :: "IntraPackageEdge list"
  moduleEdges :: "ModuleCallEdge list"
  callersOf :: "Identifier \<Rightarrow> Identifier list"

definition New_Graph :: Graph where
  "New_Graph = \<lparr>gslots = (\<lambda>_. []), direct = (\<lambda>_. None), intraEdges = [], moduleEdges = [], callersOf = (\<lambda>_. [])\<rparr>"

definition SetDirect :: "Identifier \<Rightarrow> (string \<times> Slot) list \<Rightarrow> Graph \<Rightarrow> Graph" where
  "SetDirect fn slots g = (if slots = [] then g else g\<lparr>direct := (direct g)(fn := Some slots)\<rparr>)"

definition AddIntraCall :: "Identifier \<Rightarrow> Identifier \<Rightarrow> ProviderScopeSnapshot \<Rightarrow> Graph \<Rightarrow> Graph" where
  "AddIntraCall caller callee scope g =
     g\<lparr>intraEdges := intraEdges g @ [\<lparr>Caller = caller, Callee = callee, IntraScope = scope\<rparr>],
       callersOf := (callersOf g)(callee := callersOf g callee @ [caller])\<rparr>"

definition AddModuleCall :: "ModuleCallEdge \<Rightarrow> Graph \<Rightarrow> Graph" where
  "AddModuleCall edge g = g\<lparr>moduleEdges := moduleEdges g @ [edge]\<rparr>"

definition ComputeIntraFixedPoint :: "satisfies option \<Rightarrow> Graph \<Rightarrow> Graph option" where
  "ComputeIntraFixedPoint satisfies g =
     map_option (\<lambda>m. g\<lparr>gslots := m\<rparr>)
       (PropagateIntraPackageFixedPoint (gslots g) (direct g) (intraEdges g) satisfies)"

definition Slots :: "Identifier \<Rightarrow> Graph \<Rightarrow> Slot list" where
  "Slots fn g = gslots g fn"

text \<open>The breadth-first search of \<open>Invalidate\<close>: \<open>seen\<close> in the order it was filled. The result is the
  set of seen functions; Go returns it in an arbitrary order.\<close>

definition visit_callers :: "Identifier list \<Rightarrow> Identifier list \<times> Identifier list \<Rightarrow> Identifier list \<times> Identifier list" where
  "visit_callers callers st =
     fold (\<lambda>c (seen, queue). if c \<in> set seen then (seen, queue) else (seen @ [c], queue @ [c])) callers st"

partial_function (option) invalidate_loop ::
  "(Identifier \<Rightarrow> Identifier list) \<Rightarrow> Identifier list \<Rightarrow> Identifier list \<Rightarrow> Identifier list option" where
  "invalidate_loop callers seen queue =
     (case queue of
        [] \<Rightarrow> Some seen
      | cur # rest \<Rightarrow> (case visit_callers (callers cur) (seen, rest) of (seen', queue') \<Rightarrow>
          invalidate_loop callers seen' queue'))"

declare invalidate_loop.simps [code]

definition Invalidate :: "Identifier \<Rightarrow> Graph \<Rightarrow> Identifier list option" where
  "Invalidate fn g = invalidate_loop (callersOf g) [fn] [fn]"

record ModuleGraph =
  perPkg :: "mod_fn slots"
  medges :: "ModuleCallEdge list"

definition NewModuleGraph :: "mod_fn slots \<Rightarrow> ModuleGraph" where
  "NewModuleGraph m = \<lparr>perPkg = m, medges = []\<rparr>"

definition ModuleGraph_AddModuleCall :: "ModuleCallEdge \<Rightarrow> ModuleGraph \<Rightarrow> ModuleGraph" where
  "ModuleGraph_AddModuleCall edge m = m\<lparr>medges := medges m @ [edge]\<rparr>"

definition ComputeFixedPoint :: "satisfies option \<Rightarrow> ModuleGraph \<Rightarrow> ModuleGraph option" where
  "ComputeFixedPoint satisfies m =
     map_option (\<lambda>p. m\<lparr>perPkg := p\<rparr>) (PropagateModuleFixedPoint (perPkg m) (medges m) satisfies)"

definition PerPackage :: "string \<Rightarrow> ModuleGraph \<Rightarrow> Identifier slots" where
  "PerPackage pkg m = (\<lambda>fn. perPkg m (pkg, fn))"

end
