(* ===== verification/ProvidersProps.thy ===== *)
theory ProvidersProps
  imports ProvidersGraph
begin

text \<open>
  What the provider graph guarantees: ordered slots are sorted by key without repeats; scopes shadow
  from the inside; both propagation loops end in the least set of requirements closed under the call
  edges; invalidation finds exactly the transitive callers, and functions outside it keep their slots.
\<close>

section \<open>Ordered slots and scopes\<close>

lemma map_of_rev_Key:
  "k \<in> Key ` set slots \<Longrightarrow> \<exists>s. map_of (rev (map (\<lambda>s. (Key s, s)) slots)) k = Some s \<and> s \<in> set slots \<and> Key s = k"
proof -
  assume k: "k \<in> Key ` set slots"
  let ?m = "rev (map (\<lambda>s. (Key s, s)) slots)"
  have "k \<in> fst ` set ?m" using k by force
  then have "map_of ?m k \<noteq> None" by (simp add: map_of_eq_None_iff)
  then obtain s where s: "map_of ?m k = Some s" by blast
  from map_of_SomeD [OF this] have "s \<in> set slots \<and> Key s = k" by auto
  with s show ?thesis by blast
qed

lemma OrderSlots_keys [slot_simps]: "Key ` set (OrderSlots slots) = Key ` set slots"
  and OrderSlots_subset: "set (OrderSlots slots) \<subseteq> set slots"
  and OrderSlots_map_keys: "1 < length slots \<Longrightarrow> map Key (OrderSlots slots) = sort (remdups (map Key slots))"
proof -
  let ?seen = "map_of (rev (map (\<lambda>s. (Key s, s)) slots))"
  have K: "Key (the (?seen k)) = k" "the (?seen k) \<in> set slots" if "k \<in> Key ` set slots" for k
    using map_of_rev_Key [OF that] by auto
  have ks: "set (sort (remdups (map Key slots))) = Key ` set slots" by simp
  show mk: "map Key (OrderSlots slots) = sort (remdups (map Key slots))" if "1 < length slots"
  proof -
    have "map (\<lambda>k. Key (the (?seen k))) xs = xs" if "set xs \<subseteq> Key ` set slots" for xs
      using that K(1) by (induction xs) auto
    with that ks show ?thesis by (simp add: OrderSlots_def Let_def comp_def del: set_sort)
  qed
  show "Key ` set (OrderSlots slots) = Key ` set slots"
  proof (cases "length slots \<le> 1")
    case False
    then have "set (map Key (OrderSlots slots)) = Key ` set slots" by (simp add: mk)
    then show ?thesis by simp
  qed (simp add: OrderSlots_def)
  show "set (OrderSlots slots) \<subseteq> set slots"
    using K(2) by (auto simp: OrderSlots_def Let_def)
qed

lemma OrderSlots_strict: "sorted_wrt (<) (map Key (OrderSlots slots))"
proof (cases "1 < length slots")
  case True
  then show ?thesis using strict_sorted_iff [of "sort (remdups (map Key slots))"] by (simp add: OrderSlots_map_keys)
next
  case False
  then show ?thesis by (cases slots) (auto simp: OrderSlots_def)
qed

text \<open>Ordering slots sorts them by key, keeps exactly one slot per key, and invents none.\<close>

theorem OrderSlots_sorted:
  "sorted_wrt (<) (map Key (OrderSlots slots)) \<and> set (OrderSlots slots) \<subseteq> set slots \<and>
   Key ` set (OrderSlots slots) = Key ` set slots"
  by (simp add: OrderSlots_strict OrderSlots_subset OrderSlots_keys)

text \<open>The scope that binds a key, looked up from the innermost scope outwards.\<close>

fun scope_lookup :: "string \<Rightarrow> ProviderScope list \<Rightarrow> TypeNode option" where
  "scope_lookup k [] = None"
| "scope_lookup k (s # outer) =
     (case Keys s k of
        Some t \<Rightarrow> Some t
      | None \<Rightarrow> if Shadowed s k then None else scope_lookup k outer)"

lemma merge_fold: "Keys (fold (\<lambda>inner merged. MergeProviderScope merged inner) rest s) k =
    scope_lookup k (rev (s # rest))"
proof (induction rest rule: rev_induct)
  case Nil
  then show ?case by (simp split: option.splits)
next
  case (snoc x xs)
  then show ?case
    by (auto simp: MergeProviderScope_def NewProviderScope_def map_add_def split: option.splits)
qed

text \<open>In a stack of with-blocks the innermost block that wires a key decides it, and a block that
  shadows a key without wiring it hides the blocks around it.\<close>

theorem MergeScopeStack_innermost: "MergeScopeStack stack k = scope_lookup k (rev stack)"
proof (cases stack)
  case (Cons s rest)
  then show ?thesis using merge_fold [of rest s k] by (simp add: MergeScopeStack_def Snapshot_def)
qed (simp add: MergeScopeStack_def)

section \<open>Adding slots\<close>

definition covers :: "Slot list \<Rightarrow> Slot \<Rightarrow> bool" where
  "covers slots s \<longleftrightarrow> Key s = [] \<or> (\<exists>x \<in> set slots. Key x = Key s)"

definition grows :: "'n slots \<Rightarrow> 'n slots \<Rightarrow> bool" where
  "grows m m' \<longleftrightarrow> (\<forall>fn. \<exists>xs. m' fn = m fn @ xs)"

lemma grows_refl [simp]: "grows m m" by (simp add: grows_def)

lemma grows_trans: "grows a b \<Longrightarrow> grows b c \<Longrightarrow> grows a c"
  unfolding grows_def by (metis append.assoc)

lemma grows_set: "grows m m' \<Longrightarrow> set (m fn) \<subseteq> set (m' fn)"
  unfolding grows_def by (metis set_append Un_upper1)

lemma covers_mono: "covers xs s \<Longrightarrow> set xs \<subseteq> set ys \<Longrightarrow> covers ys s"
  by (auto simp: covers_def)

lemma AddSlot_facts:
  assumes "AddSlotToFunction m fn s = (m', added)"
  shows "grows m m'" "x \<noteq> fn \<Longrightarrow> m' x = m x" "covers (m' fn) s" "\<not> added \<Longrightarrow> m' = m"
    "added \<Longrightarrow> Key s \<notin> Key ` set (m fn)" "added \<Longrightarrow> m' fn = m fn @ [s]" "added \<Longrightarrow> Key s \<noteq> []"
    "distinct (map Key (m fn)) \<Longrightarrow> distinct (map Key (m' fn))"
  using assms by (auto simp: AddSlotToFunction_def grows_def covers_def list_ex_iff split: if_splits) metis


text \<open>What a run of additions does: \<open>caller\<close> is the only node that changes, the flag tells whether it did,
  and everything new was offered.\<close>

lemma add_offered_fold:
  assumes "fold (add_offered offer fn) ss (m, b) = (m', b')"
  shows "grows m m' \<and> (\<forall>x. x \<noteq> fn \<longrightarrow> m' x = m x) \<and> (b \<longrightarrow> b') \<and> (\<not> b' \<longrightarrow> m' = m) \<and>
    (b' \<longrightarrow> b \<or> (\<exists>x \<in> set (m' fn). Key x \<notin> Key ` set (m fn))) \<and>
    (\<forall>s \<in> set ss. \<forall>s'. offer s = Some s' \<longrightarrow> covers (m' fn) s') \<and>
    (\<forall>x \<in> set (m' fn). x \<in> set (m fn) \<or> (Key x \<noteq> [] \<and> (\<exists>s \<in> set ss. offer s = Some x))) \<and>
    (distinct (map Key (m fn)) \<longrightarrow> distinct (map Key (m' fn)))"
  using assms
proof (induction ss arbitrary: m b)
  case Nil
  then show ?case by simp
next
  case (Cons s ss)
  show ?case
  proof (cases "offer s")
    case None
    with Cons.prems have "fold (add_offered offer fn) ss (m, b) = (m', b')" by (simp add: add_offered_def [of _ _ s])
    from Cons.IH [OF this] None show ?thesis by auto
  next
    case (Some s')
    obtain m1 added where a: "AddSlotToFunction m fn s' = (m1, added)" by (cases "AddSlotToFunction m fn s'")
    with Cons.prems Some have f: "fold (add_offered offer fn) ss (m1, b \<or> added) = (m', b')"
      by (simp add: add_offered_def [of _ _ s])
    note A = AddSlot_facts [OF a]
    note I = Cons.IH [OF f]
    have g: "grows m m'" using A(1) I by (blast intro: grows_trans)
    have "set (m1 fn) \<subseteq> set (m' fn)" using I by (blast dest: grows_set)
    then have cov: "covers (m' fn) s'" using A(3) by (rule covers_mono [rotated])
    have new: "x \<in> set (m1 fn) \<Longrightarrow> x \<in> set (m fn) \<or> (Key x \<noteq> [] \<and> x = s')" for x
      using A(4,6,7) by (cases added) auto
    have chg: "b' \<longrightarrow> b \<or> (\<exists>x \<in> set (m' fn). Key x \<notin> Key ` set (m fn))"
    proof (cases added)
      case True
      then have "s' \<in> set (m' fn)" "Key s' \<notin> Key ` set (m fn)"
        using A(5,6) \<open>set (m1 fn) \<subseteq> set (m' fn)\<close> by auto
      then show ?thesis by blast
    next
      case False
      with A(4) I show ?thesis by auto
    qed
    have same: "\<not> b' \<longrightarrow> m' = m" using I A(4) by auto
    have other: "\<forall>x. x \<noteq> fn \<longrightarrow> m' x = m x" using I A(2) by auto
    have covs: "\<forall>t \<in> set (s # ss). \<forall>s'. offer t = Some s' \<longrightarrow> covers (m' fn) s'" using I cov Some by auto
    have "\<forall>x \<in> set (m' fn). x \<in> set (m1 fn) \<or> (Key x \<noteq> [] \<and> (\<exists>s \<in> set ss. offer s = Some x))" using I by blast
    then have news: "\<forall>x \<in> set (m' fn). x \<in> set (m fn) \<or> (Key x \<noteq> [] \<and> (\<exists>t \<in> set (s # ss). offer t = Some x))"
      using new Some by fastforce
    have dist: "distinct (map Key (m fn)) \<longrightarrow> distinct (map Key (m' fn))" using I A(8) by blast
    have flag: "b \<longrightarrow> b'" using I by blast
    show ?thesis using g other flag same chg covs news dist by blast
  qed
qed

section \<open>The loop\<close>

lemma until_stable_returns:
  fixes \<mu> :: "'m \<Rightarrow> nat"
  assumes "\<And>m m'. I m \<Longrightarrow> pass m = (m', True) \<Longrightarrow> I m' \<and> \<mu> m' < \<mu> m"
    and "\<And>m m'. I m \<Longrightarrow> pass m = (m', False) \<Longrightarrow> Q m'" and "I m"
  shows "\<exists>m'. until_stable pass m = Some m' \<and> Q m'"
  using assms(3)
proof (induction "\<mu> m" arbitrary: m rule: less_induct)
  case less
  obtain m' ch where p: "pass m = (m', ch)" by (cases "pass m")
  show ?case
  proof (cases ch)
    case True
    with assms(1) [OF less.prems] p have "I m'" "\<mu> m' < \<mu> m" by auto
    with less.hyps p True show ?thesis by (subst until_stable.simps) simp
  next
    case False
    with assms(2) [OF less.prems] p show ?thesis by (subst until_stable.simps) simp
  qed
qed

lemma until_stable_iterates:
  assumes "until_stable pass m = Some m'" and "\<And>m m'. pass m = (m', False) \<Longrightarrow> m' = m"
  shows "\<exists>n. m' = ((\<lambda>m. fst (pass m)) ^^ n) m \<and> fst (pass m') = m'"
proof -
  have "(\<forall>m m'. pass m = (m', False) \<longrightarrow> m' = m) \<longrightarrow> (\<exists>n. m' = ((\<lambda>m. fst (pass m)) ^^ n) m \<and> fst (pass m') = m')"
  proof (rule until_stable.raw_induct [OF _ assms(1)], intro impI)
    fix loop :: "('m \<Rightarrow> 'm \<times> bool) \<Rightarrow> 'm \<Rightarrow> 'm option" and pass m r
    assume IH: "\<And>pass m r. loop pass m = Some r \<Longrightarrow> (\<forall>m m'. pass m = (m', False) \<longrightarrow> m' = m) \<longrightarrow>
        (\<exists>n. r = ((\<lambda>m. fst (pass m)) ^^ n) m \<and> fst (pass r) = r)"
      and run: "(case pass m of (m', changed) \<Rightarrow> if changed then loop pass m' else Some m') = Some r"
      and law: "\<forall>m m'. pass m = (m', False) \<longrightarrow> m' = m"
    obtain m1 ch where p: "pass m = (m1, ch)" by (cases "pass m")
    show "\<exists>n. r = ((\<lambda>m. fst (pass m)) ^^ n) m \<and> fst (pass r) = r"
    proof (cases ch)
      case True
      with run p have "loop pass m1 = Some r" by simp
      with IH law obtain n where "r = ((\<lambda>m. fst (pass m)) ^^ n) m1" "fst (pass r) = r" by blast
      then have "r = ((\<lambda>m. fst (pass m)) ^^ Suc n) m \<and> fst (pass r) = r" using p
        by (simp add: funpow_Suc_right del: funpow.simps)
      then show ?thesis by blast
    next
      case False
      with run p have "m1 = r" by simp
      moreover have "m1 = m" using law p False by auto
      ultimately have "r = m" "fst (pass r) = r" using p by auto
      then show ?thesis by (intro exI [of _ 0]) simp
    qed
  qed
  with assms(2) show ?thesis by blast
qed

definition grow_slots :: "(Slot \<Rightarrow> Slot option) \<Rightarrow> Slot \<Rightarrow> Slot list \<Rightarrow> Slot list" where
  "grow_slots offer s xs =
     (case offer s of
        None \<Rightarrow> xs
      | Some s' \<Rightarrow> if Key s' = [] \<or> list_ex (\<lambda>x. Key x = Key s') xs then xs else xs @ [s'])"

lemma fst_fold_add_offered:
  "fst (fold (add_offered offer fn) ss (m, b)) = m(fn := fold (grow_slots offer) ss (m fn))"
proof (induction ss arbitrary: m b)
  case (Cons s ss)
  have "\<exists>b'. add_offered offer fn s (m, b) = (m(fn := grow_slots offer s (m fn)), b')"
    by (auto simp: add_offered_def grow_slots_def AddSlotToFunction_def split: option.splits)
  then obtain b' where b': "add_offered offer fn s (m, b) = (m(fn := grow_slots offer s (m fn)), b')" by blast
  have "fst (fold (add_offered offer fn) (s # ss) (m, b)) =
      fst (fold (add_offered offer fn) ss (m(fn := grow_slots offer s (m fn)), b'))"
    by (simp only: fold_simps b')
  also have "\<dots> = (m(fn := grow_slots offer s (m fn)))(fn := fold (grow_slots offer) ss ((m(fn := grow_slots offer s (m fn))) fn))"
    by (rule Cons.IH)
  finally show ?case by simp
qed simp

text \<open>The requirements of a function: its own slots, and what its callees need and the scope at the call
  does not supply.\<close>

inductive needs :: "('e \<Rightarrow> 'n) \<Rightarrow> ('e \<Rightarrow> 'n) \<Rightarrow> ('e \<Rightarrow> Slot \<Rightarrow> Slot option) \<Rightarrow> 'e list \<Rightarrow> 'n slots \<Rightarrow> 'n \<Rightarrow> Slot \<Rightarrow> bool"
  for caller :: "'e \<Rightarrow> 'n" and callee :: "'e \<Rightarrow> 'n" and offer :: "'e \<Rightarrow> Slot \<Rightarrow> Slot option" and edges m where
  own: "s \<in> set (m fn) \<Longrightarrow> needs caller callee offer edges m fn s"
| call: "e \<in> set edges \<Longrightarrow> needs caller callee offer edges m (callee e) s \<Longrightarrow> offer e s = Some s' \<Longrightarrow> Key s' \<noteq> [] \<Longrightarrow>
     needs caller callee offer edges m (caller e) s'"

definition closed_under :: "('e \<Rightarrow> 'n) \<Rightarrow> ('e \<Rightarrow> 'n) \<Rightarrow> ('e \<Rightarrow> Slot \<Rightarrow> Slot option) \<Rightarrow> 'e list \<Rightarrow> 'n slots \<Rightarrow> bool" where
  "closed_under caller callee offer edges m \<longleftrightarrow>
     (\<forall>e \<in> set edges. \<forall>s \<in> set (m (callee e)). \<forall>s'. offer e s = Some s' \<longrightarrow> covers (m (caller e)) s')"

text \<open>The contract of a propagation: nodes of the graph, edges between them, and an offer that keeps the
  slot's key.\<close>

locale slot_propagation =
  fixes caller :: "'e \<Rightarrow> 'n" and callee :: "'e \<Rightarrow> 'n" and offer :: "'e \<Rightarrow> Slot \<Rightarrow> Slot option"
  assumes offer_key: "offer e s = Some s' \<Longrightarrow> Key s' = Key s"
begin

definition edge_step :: "'e \<Rightarrow> 'n slots \<times> bool \<Rightarrow> 'n slots \<times> bool" where
  "edge_step e st = fold (add_offered (offer e) (caller e)) (fst st (callee e)) st"

definition pass :: "'e list \<Rightarrow> 'n slots \<Rightarrow> 'n slots \<times> bool" where
  "pass edges m = fold edge_step edges (m, False)"

lemma edge_step_facts:
  assumes "edge_step e (m, b) = (m', b')"
  shows "grows m m'" "y \<noteq> caller e \<Longrightarrow> m' y = m y" "b \<Longrightarrow> b'" "\<not> b' \<Longrightarrow> m' = m"
    "b' \<Longrightarrow> \<not> b \<Longrightarrow> \<exists>x \<in> set (m' (caller e)). Key x \<notin> Key ` set (m (caller e))"
    "s \<in> set (m (callee e)) \<Longrightarrow> offer e s = Some s' \<Longrightarrow> covers (m' (caller e)) s'"
    "x \<in> set (m' n) \<Longrightarrow> x \<in> set (m n) \<or> (n = caller e \<and> Key x \<noteq> [] \<and> (\<exists>s \<in> set (m (callee e)). offer e s = Some x))"
    "(\<forall>n. distinct (map Key (m n))) \<Longrightarrow> distinct (map Key (m' n))"
proof -
  have F: "fold (add_offered (offer e) (caller e)) (m (callee e)) (m, b) = (m', b')"
    using assms by (simp add: edge_step_def)
  note A = add_offered_fold [OF F]
  show "grows m m'" "y \<noteq> caller e \<Longrightarrow> m' y = m y" "b \<Longrightarrow> b'" "\<not> b' \<Longrightarrow> m' = m"
    "b' \<Longrightarrow> \<not> b \<Longrightarrow> \<exists>x \<in> set (m' (caller e)). Key x \<notin> Key ` set (m (caller e))"
    "s \<in> set (m (callee e)) \<Longrightarrow> offer e s = Some s' \<Longrightarrow> covers (m' (caller e)) s'"
    using A by blast+
  show "x \<in> set (m' n) \<Longrightarrow> x \<in> set (m n) \<or> (n = caller e \<and> Key x \<noteq> [] \<and> (\<exists>s \<in> set (m (callee e)). offer e s = Some x))"
    using A by (cases "n = caller e") auto
  show "(\<forall>n. distinct (map Key (m n))) \<Longrightarrow> distinct (map Key (m' n))"
    using A by (cases "n = caller e") auto
qed

lemma pass_facts:
  assumes "fold edge_step es (m, b) = (m', b')" "set es \<subseteq> set edges"
    "\<forall>n. \<forall>x \<in> set (m n). needs caller callee offer edges m0 n x"
  shows "grows m m' \<and> (b \<longrightarrow> b') \<and> (\<not> b' \<longrightarrow> m' = m \<and> closed_under caller callee offer es m) \<and>
    (b' \<longrightarrow> \<not> b \<longrightarrow> (\<exists>n \<in> caller ` set es. \<exists>x \<in> set (m' n). Key x \<notin> Key ` set (m n))) \<and>
    (\<forall>n. n \<notin> caller ` set es \<longrightarrow> m' n = m n) \<and>
    (\<forall>n. \<forall>x \<in> set (m' n). needs caller callee offer edges m0 n x) \<and>
    ((\<forall>n. distinct (map Key (m n))) \<longrightarrow> (\<forall>n. distinct (map Key (m' n))))"
  using assms
proof (induction es arbitrary: m b)
  case Nil
  then show ?case by (simp add: closed_under_def)
next
  case (Cons e es)
  obtain m1 b1 where s: "edge_step e (m, b) = (m1, b1)" by (cases "edge_step e (m, b)")
  with Cons.prems(1) have f: "fold edge_step es (m1, b1) = (m', b')" by simp
  note E = edge_step_facts [OF s]
  have nd: "\<forall>n. \<forall>x \<in> set (m1 n). needs caller callee offer edges m0 n x"
  proof (intro allI ballI)
    fix n x
    assume "x \<in> set (m1 n)"
    from E(7) [OF this] show "needs caller callee offer edges m0 n x"
      using Cons.prems(2,3) by (auto intro: needs.call)
  qed
  note I = Cons.IH [OF f _ nd]
  have es: "set es \<subseteq> set edges" using Cons.prems(2) by simp
  note I = I [OF es]
  have "closed_under caller callee offer (e # es) m" if "\<not> b'"
  proof -
    from that I have "\<not> b1" "m' = m1" "closed_under caller callee offer es m1" by auto
    with E(4) have "m1 = m" by blast
    with E(6) \<open>closed_under caller callee offer es m1\<close> show ?thesis by (auto simp: closed_under_def)
  qed
  moreover have "\<exists>n \<in> caller ` set (e # es). \<exists>x \<in> set (m' n). Key x \<notin> Key ` set (m n)" if "b'" "\<not> b"
  proof (cases b1)
    case True
    from E(5) [OF True that(2)] obtain x where "x \<in> set (m1 (caller e))" "Key x \<notin> Key ` set (m (caller e))" by blast
    with I grows_set [of m1 m' "caller e"] show ?thesis by auto
  next
    case False
    with E(4) have "m1 = m" by blast
    with I False that show ?thesis by auto
  qed
  moreover have "grows m m'" using I E(1) by (blast intro: grows_trans)
  moreover have "b \<longrightarrow> b'" using I E(3) by blast
  moreover have "\<not> b' \<longrightarrow> m' = m" using I E(4) by blast
  moreover have "\<forall>n. n \<notin> caller ` set (e # es) \<longrightarrow> m' n = m n" using I E(2) by auto
  ultimately show ?case using I E(8) by blast
qed

lemma needs_key:
  "needs caller callee offer edges m n x \<Longrightarrow> n \<in> caller ` set edges \<union> callee ` set edges \<Longrightarrow>
     Key x \<in> Key ` (\<Union>k \<in> caller ` set edges \<union> callee ` set edges. set (m k))"
proof (induction rule: needs.induct)
  case (own s fn)
  then show ?case by blast
next
  case (call e s s')
  from call(1) have "callee e \<in> caller ` set edges \<union> callee ` set edges" by blast
  from call(5) [OF this] offer_key [OF call(3)] show ?case by simp
qed

lemma fixed_point:
  "\<exists>m'. until_stable (pass edges) m = Some m' \<and> grows m m' \<and>
     (\<forall>n. \<forall>x \<in> set (m' n). needs caller callee offer edges m n x) \<and>
     closed_under caller callee offer edges m' \<and>
     ((\<forall>n. distinct (map Key (m n))) \<longrightarrow> (\<forall>n. distinct (map Key (m' n))))"
proof -
  let ?N = "caller ` set edges \<union> callee ` set edges"
  let ?U = "caller ` set edges \<times> Key ` (\<Union>k \<in> ?N. set (m k))"
  let ?P = "\<lambda>m'. {(n, k). k \<in> Key ` set (m' n)}"
  let ?I = "\<lambda>m'. grows m m' \<and> (\<forall>n. \<forall>x \<in> set (m' n). needs caller callee offer edges m n x) \<and>
     ((\<forall>n. distinct (map Key (m n))) \<longrightarrow> (\<forall>n. distinct (map Key (m' n))))"
  have fin: "finite ?U" by simp
  have "\<exists>m'. until_stable (pass edges) m = Some m' \<and> (?I m' \<and> closed_under caller callee offer edges m')"
  proof (rule until_stable_returns [where I = ?I and \<mu> = "\<lambda>m'. card (?U - ?P m')"])
    fix a b
    assume I: "?I a" and p: "pass edges a = (b, True)"
    note F = pass_facts [OF p [unfolded pass_def] subset_refl, of m]
    from I F have Ib: "?I b" and g: "grows a b" by (blast intro: grows_trans)+
    from I F obtain n x where nx: "n \<in> caller ` set edges" "x \<in> set (b n)" "Key x \<notin> Key ` set (a n)" by blast
    have "Key x \<in> Key ` (\<Union>k \<in> ?N. set (m k))"
      using Ib nx(1,2) by (intro needs_key [of edges m n x]) auto
    with nx have new: "(n, Key x) \<in> ?U - ?P a" "(n, Key x) \<notin> ?U - ?P b" by auto
    have "?P a \<subseteq> ?P b" using grows_set [OF g] by blast
    with new have "?U - ?P b \<subset> ?U - ?P a" by blast
    then have "card (?U - ?P b) < card (?U - ?P a)" using fin by (intro psubset_card_mono) auto
    with Ib show "?I b \<and> card (?U - ?P b) < card (?U - ?P a)" by blast
  next
    fix a b
    assume I: "?I a" and p: "pass edges a = (b, False)"
    note F = pass_facts [OF p [unfolded pass_def] subset_refl, of m]
    from I F show "?I b \<and> closed_under caller callee offer edges b" by blast
  next
    show "?I m" by (auto intro: needs.own)
  qed
  then show ?thesis by blast
qed

lemma fixed_point_least:
  assumes "\<And>e s t. Key s = Key t \<Longrightarrow> (offer e s = None) = (offer e t = None)"
    and "grows m m'" "\<forall>n. \<forall>x \<in> set (m' n). needs caller callee offer edges m n x"
    and "closed_under caller callee offer edges m'"
  shows "Key ` set (m' n) = Key ` {s. needs caller callee offer edges m n s}"
proof
  show "Key ` set (m' n) \<subseteq> Key ` {s. needs caller callee offer edges m n s}" using assms(3) by blast
  have "needs caller callee offer edges m n s \<Longrightarrow> \<exists>x \<in> set (m' n). Key x = Key s" for n s
  proof (induction rule: needs.induct)
    case (own s fn)
    then show ?case using grows_set [OF assms(2)] by blast
  next
    case (call e s s')
    then obtain x where x: "x \<in> set (m' (callee e))" "Key x = Key s" by blast
    with assms(1) [OF x(2), of e] call(3) obtain x' where x': "offer e x = Some x'" by auto
    with x call(3,4) offer_key [of e] have "Key x' = Key s'" "Key x' \<noteq> []" by metis+
    moreover have "covers (m' (caller e)) x'" using assms(4) call(1) x(1) x' unfolding closed_under_def by blast
    ultimately show ?case unfolding covers_def by metis
  qed
  then show "Key ` {s. needs caller callee offer edges m n s} \<subseteq> Key ` set (m' n)"
    by (auto simp: image_iff) metis
qed

text \<open>A pass only looks from a caller to its callees: two states that agree on a set of nodes closed under
  calls still agree on it after a pass.\<close>

lemma pass_local:
  assumes "\<forall>e \<in> set edges. caller e \<in> A \<longrightarrow> callee e \<in> A" "\<forall>n \<in> A. a n = b n" "n \<in> A"
  shows "fst (pass edges a) n = fst (pass edges b) n"
proof -
  have "\<forall>n \<in> A. fst (fold edge_step es (a, f)) n = fst (fold edge_step es (b, f')) n"
    if "set es \<subseteq> set edges" "\<forall>n \<in> A. a n = b n" for es a b f f'
    using that
  proof (induction es arbitrary: a b f f')
    case (Cons e es)
    obtain a1 f1 where a1: "edge_step e (a, f) = (a1, f1)" by (cases "edge_step e (a, f)")
    obtain b1 f1' where b1: "edge_step e (b, f') = (b1, f1')" by (cases "edge_step e (b, f')")
    have "a1 = a(caller e := fold (grow_slots (offer e)) (a (callee e)) (a (caller e)))"
      "b1 = b(caller e := fold (grow_slots (offer e)) (b (callee e)) (b (caller e)))"
      using a1 b1 fst_fold_add_offered [of "offer e" "caller e"] by (simp_all add: edge_step_def) (metis fst_conv)+
    then have "\<forall>n \<in> A. a1 n = b1 n" using Cons.prems assms(1) by auto
    with Cons.IH [of a1 b1 f1 f1'] Cons.prems(1) a1 b1 show ?case by simp
  qed simp
  from this [OF subset_refl assms(2)] assms(3) show ?thesis by (simp add: pass_def)
qed

lemma fixed_point_local:
  assumes "\<forall>e \<in> set edges. caller e \<in> A \<longrightarrow> callee e \<in> A" "\<forall>n \<in> A. a n = b n"
    "until_stable (pass edges) a = Some a'" "until_stable (pass edges) b = Some b'" "n \<in> A"
  shows "a' n = b' n"
proof -
  let ?P = "\<lambda>m. fst (pass edges m)"
  have stable: "m' = m" if "pass edges m = (m', False)" for m m'
    using pass_facts [OF that [unfolded pass_def] subset_refl, of m] by (simp add: needs.own)
  obtain i where i: "a' = (?P ^^ i) a" "?P a' = a'" using until_stable_iterates [OF assms(3) stable] by blast
  obtain j where j: "b' = (?P ^^ j) b" "?P b' = b'" using until_stable_iterates [OF assms(4) stable] by blast
  have stay: "(?P ^^ k) x = x" if "?P x = x" for k x using that by (induction k) auto
  have "(?P ^^ (j + i)) a = a'" using i stay [of a' j] by (simp only: funpow_add o_apply)
  moreover have "(?P ^^ (i + j)) b = b'" using j stay [of b' i] by (simp only: funpow_add o_apply)
  moreover have "\<forall>n \<in> A. (?P ^^ k) a n = (?P ^^ k) b n" for k
    by (induction k) (use assms(2) pass_local [OF assms(1)] in auto)
  ultimately show ?thesis using assms(5) by (metis add.commute)
qed

end

section \<open>The two fixed points\<close>

interpretation intra: slot_propagation Caller Callee "intra_offer sat" for sat
  by unfold_locales (auto simp: intra_offer_def split: option.splits if_splits)

interpretation modul: slot_propagation "\<lambda>e. (ModCallerPkg e, ModCallerFn e)" "\<lambda>e. (TargetPkg e, TargetFn e)" "module_offer sat" for sat
  by unfold_locales (auto simp: module_offer_def split: if_splits)

lemma intra_pass_eq: "intra_pass sat edges = intra.pass sat edges"
proof -
  have "intra_edge sat e = intra.edge_step sat e" for e
    by (intro ext) (simp add: intra_edge_def intra.edge_step_def)
  then have "intra_edge sat = intra.edge_step sat" by (intro ext) simp
  then show ?thesis by (intro ext) (simp add: intra_pass_def intra.pass_def)
qed

lemma module_pass_eq: "module_pass sat edges = modul.pass sat edges"
proof -
  have "module_edge sat e = modul.edge_step sat e" for e
    by (intro ext) (simp add: module_edge_def modul.edge_step_def Let_def)
  then have "module_edge sat = modul.edge_step sat" by (intro ext) simp
  then show ?thesis by (intro ext) (simp add: module_pass_def modul.pass_def)
qed

lemma closed_under_OrderSlots:
  "closed_under caller callee offer edges m \<Longrightarrow> closed_under caller callee offer edges (\<lambda>fn. OrderSlots (m fn))"
proof -
  have "covers (OrderSlots xs) s \<longleftrightarrow> covers xs s" for xs s
  proof -
    have "(\<exists>x \<in> set ys. Key x = Key s) \<longleftrightarrow> Key s \<in> Key ` set ys" for ys by force
    from this [of xs] this [of "OrderSlots xs"] show ?thesis unfolding covers_def OrderSlots_keys by simp
  qed
  then show "closed_under caller callee offer edges m \<Longrightarrow> ?thesis"
    using OrderSlots_subset unfolding closed_under_def by blast
qed

definition initial_slots :: "Identifier slots \<Rightarrow> (Identifier \<Rightarrow> (string \<times> Slot) list option) \<Rightarrow> Identifier slots" where
  "initial_slots slots dir = (\<lambda>fn. case dir fn of Some m \<Rightarrow> SlotsFromDirectMap m | None \<Rightarrow> slots fn)"

lemma Propagate_returns: "\<exists>out. PropagateIntraPackageFixedPoint slots dir edges sat = Some out"
proof -
  from intra.fixed_point [of sat edges "initial_slots slots dir"] obtain m' where
    "until_stable (intra_pass sat edges) (initial_slots slots dir) = Some m'" unfolding intra_pass_eq by blast
  then show ?thesis by (simp add: PropagateIntraPackageFixedPoint_def initial_slots_def)
qed

text \<open>C6. Propagation inside a package always ends; the slots of every function are sorted by key without
  repeats, each is needed by the function itself or through calls whose scope does not supply it, and
  the result is closed: whatever a callee needs and a call's scope does not supply, the caller
  has under the same key.\<close>

theorem intra_fixed_point:
  "\<exists>out. PropagateIntraPackageFixedPoint slots dir edges sat = Some out \<and>
     (\<forall>fn. sorted_wrt (<) (map Key (out fn))) \<and>
     (\<forall>fn. set (out fn) \<subseteq> {s. needs Caller Callee (intra_offer sat) edges (initial_slots slots dir) fn s}) \<and>
     closed_under Caller Callee (intra_offer sat) edges out"
proof -
  let ?m = "initial_slots slots dir"
  from intra.fixed_point [of sat edges ?m] obtain m' where
    m': "until_stable (intra_pass sat edges) ?m = Some m'"
    "\<forall>n. \<forall>x \<in> set (m' n). needs Caller Callee (intra_offer sat) edges ?m n x"
    "closed_under Caller Callee (intra_offer sat) edges m'" by (auto simp: intra_pass_eq)
  have "PropagateIntraPackageFixedPoint slots dir edges sat = Some (\<lambda>fn. OrderSlots (m' fn))"
    using m'(1) by (simp add: PropagateIntraPackageFixedPoint_def initial_slots_def)
  moreover have "\<forall>fn. set (OrderSlots (m' fn)) \<subseteq> {s. needs Caller Callee (intra_offer sat) edges ?m fn s}"
    using m'(2) OrderSlots_subset by blast
  ultimately show ?thesis using closed_under_OrderSlots [OF m'(3)] OrderSlots_strict by blast
qed

text \<open>When the scope test depends on a slot only through its key, the keys propagated to a function are
  exactly the least solution: those some derivation of a need reaches.\<close>

theorem intra_fixed_point_least:
  assumes "\<And>s t scope. Key s = Key t \<Longrightarrow> sat s scope = sat t scope"
    and "PropagateIntraPackageFixedPoint slots dir edges (Some sat) = Some out"
  shows "Key ` set (out fn) = Key ` {s. needs Caller Callee (intra_offer (Some sat)) edges (initial_slots slots dir) fn s}"
proof -
  let ?m = "initial_slots slots dir" and ?o = "intra_offer (Some sat)"
  from intra.fixed_point [of "Some sat" edges ?m] obtain m' where
    m': "until_stable (intra_pass (Some sat) edges) ?m = Some m'" "grows ?m m'"
    "\<forall>n. \<forall>x \<in> set (m' n). needs Caller Callee ?o edges ?m n x" "closed_under Caller Callee ?o edges m'"
    by (auto simp: intra_pass_eq)
  have "out = (\<lambda>fn. OrderSlots (m' fn))"
    using m'(1) assms(2) by (simp add: PropagateIntraPackageFixedPoint_def initial_slots_def)
  moreover have "(?o e s = None) = (?o e t = None)" if "Key s = Key t" for e s t
    using assms(1) [OF that, of "IntraScope e"] by (simp add: intra_offer_def)
  from intra.fixed_point_least [OF this m'(2-4)] have
    "Key ` set (m' fn) = Key ` {s. needs Caller Callee ?o edges ?m fn s}" .
  ultimately show ?thesis by (simp add: OrderSlots_keys)
qed

definition demo_slot :: Slot where
  "demo_slot = \<lparr>RootIdent = ''Logger'', ContractType = TypeNode ''Logger'' None [] [] None [] [], Key = ''Logger'', SourcePkg = []\<rparr>"

definition demo_edges :: "IntraPackageEdge list" where
  "demo_edges = [\<lparr>Caller = ''main'', Callee = ''run'', IntraScope = Map.empty\<rparr>]"

theorem intra_fixed_point_least_witness:
  "\<exists>out. PropagateIntraPackageFixedPoint (\<lambda>_. []) (\<lambda>f. if f = ''run'' then Some [(''Logger'', demo_slot)] else None)
       demo_edges (Some (\<lambda>s scope. scope (Key s) \<noteq> None)) = Some out \<and> ''Logger'' \<in> Key ` set (out ''main'')"
proof -
  let ?d = "\<lambda>f. if f = ''run'' then Some [(''Logger'', demo_slot)] else None" and ?sat = "\<lambda>s scope. scope (Key s) \<noteq> (None :: TypeNode option)"
  let ?e = "\<lparr>Caller = ''main'', Callee = ''run'', IntraScope = Map.empty\<rparr>"
  obtain out where out: "PropagateIntraPackageFixedPoint (\<lambda>_. []) ?d demo_edges (Some ?sat) = Some out"
    using Propagate_returns by blast
  have K: "Key ` set (out ''main'') =
      Key ` {s. needs Caller Callee (intra_offer (Some ?sat)) demo_edges (initial_slots (\<lambda>_. []) ?d) ''main'' s}"
    by (rule intra_fixed_point_least [OF _ out]) simp
  have "needs Caller Callee (intra_offer (Some ?sat)) demo_edges (initial_slots (\<lambda>_. []) ?d) (Callee ?e) demo_slot"
    by (rule needs.own) (simp add: initial_slots_def SlotsFromDirectMap_def OrderSlots_def)
  then have "needs Caller Callee (intra_offer (Some ?sat)) demo_edges (initial_slots (\<lambda>_. []) ?d) (Caller ?e) demo_slot"
    by (rule needs.call [rotated]) (simp_all add: demo_edges_def intra_offer_def demo_slot_def)
  then have "Key demo_slot \<in> Key ` set (out ''main'')" unfolding K by simp
  then have "''Logger'' \<in> Key ` set (out ''main'')" by (simp add: demo_slot_def)
  with out show ?thesis by blast
qed

text \<open>The same across packages: propagation ends, and the result is closed under the module's call
  edges with sorted, repeat-free slots each of which some chain of calls needs.\<close>

theorem module_fixed_point:
  "\<exists>out. PropagateModuleFixedPoint pm edges (Some sat) = Some out \<and>
     closed_under (\<lambda>e. (ModCallerPkg e, ModCallerFn e)) (\<lambda>e. (TargetPkg e, TargetFn e)) (module_offer sat) edges out \<and>
     (\<forall>fn. set (out fn) \<subseteq> {s. needs (\<lambda>e. (ModCallerPkg e, ModCallerFn e)) (\<lambda>e. (TargetPkg e, TargetFn e))
        (module_offer sat) edges pm fn s}) \<and>
     (edges = [] \<or> (\<forall>fn. sorted_wrt (<) (map Key (out fn))))"
proof (cases "edges = []")
  case True
  then show ?thesis by (auto simp: PropagateModuleFixedPoint_def closed_under_def intro: needs.own)
next
  case False
  from modul.fixed_point [of sat edges pm] obtain m' where
    m': "until_stable (module_pass sat edges) pm = Some m'"
    "\<forall>n. \<forall>x \<in> set (m' n). needs (\<lambda>e. (ModCallerPkg e, ModCallerFn e)) (\<lambda>e. (TargetPkg e, TargetFn e)) (module_offer sat) edges pm n x"
    "closed_under (\<lambda>e. (ModCallerPkg e, ModCallerFn e)) (\<lambda>e. (TargetPkg e, TargetFn e)) (module_offer sat) edges m'"
    by (auto simp: module_pass_eq)
  have "PropagateModuleFixedPoint pm edges (Some sat) = Some (\<lambda>fn. OrderSlots (m' fn))"
    using m'(1) False by (simp add: PropagateModuleFixedPoint_def)
  moreover have "\<forall>fn. \<forall>s \<in> set (OrderSlots (m' fn)). needs (\<lambda>e. (ModCallerPkg e, ModCallerFn e)) (\<lambda>e. (TargetPkg e, TargetFn e)) (module_offer sat) edges pm fn s"
    using m'(2) OrderSlots_subset by blast
  ultimately show ?thesis using closed_under_OrderSlots [OF m'(3)] OrderSlots_strict by blast
qed

section \<open>Invalidation\<close>

definition graph_ok :: "Graph \<Rightarrow> bool" where
  "graph_ok g \<longleftrightarrow> (\<forall>f. callersOf g f = map Caller (filter (\<lambda>e. Callee e = f) (intraEdges g)))"

lemma graph_ok_ops:
  "graph_ok New_Graph" "graph_ok g \<Longrightarrow> graph_ok (SetDirect fn ss g)"
  "graph_ok g \<Longrightarrow> graph_ok (AddIntraCall a b scope g)" "graph_ok g \<Longrightarrow> graph_ok (AddModuleCall e g)"
  "graph_ok g \<Longrightarrow> ComputeIntraFixedPoint sat g = Some g' \<Longrightarrow> graph_ok g'"
  by (auto simp: graph_ok_def New_Graph_def SetDirect_def AddIntraCall_def AddModuleCall_def ComputeIntraFixedPoint_def)

definition calls :: "(Identifier \<Rightarrow> Identifier list) \<Rightarrow> (Identifier \<times> Identifier) set" where
  "calls callers = {(f, c). c \<in> set (callers f)}"

lemma visit_callers_new:
  "\<exists>new. visit_callers cs (seen, queue) = (seen @ new, queue @ new) \<and> set new = set cs - set seen \<and> distinct new"
proof (induction cs arbitrary: seen queue)
  case Nil
  then show ?case by (simp add: visit_callers_def)
next
  case (Cons c cs)
  show ?case
  proof (cases "c \<in> set seen")
    case True
    with Cons.IH [of seen queue] show ?thesis by (auto simp: visit_callers_def)
  next
    case False
    from Cons.IH [of "seen @ [c]" "queue @ [c]"] obtain new where
      "visit_callers cs (seen @ [c], queue @ [c]) = ((seen @ [c]) @ new, (queue @ [c]) @ new)"
      "set new = set cs - set (seen @ [c])" "distinct new" by blast
    with False show ?thesis by (intro exI [of _ "c # new"]) (auto simp: visit_callers_def)
  qed
qed

lemma invalidate_loop_reaches:
  assumes "finite U" "\<And>f. set (callers f) \<subseteq> U" "set seen \<subseteq> U" "distinct seen" "set queue \<subseteq> set seen"
    "\<And>f c. f \<in> set seen - set queue \<Longrightarrow> c \<in> set (callers f) \<Longrightarrow> c \<in> set seen"
  shows "\<exists>out. invalidate_loop callers seen queue = Some out \<and> distinct out \<and>
    set out = (calls callers)\<^sup>* `` set seen"
  using assms(3-6)
proof (induction "2 * card (U - set seen) + length queue" arbitrary: seen queue rule: less_induct)
  case less
  show ?case
  proof (cases queue)
    case Nil
    with less.prems(4) have "(calls callers) `` set seen \<subseteq> set seen" by (auto simp: calls_def)
    then have "(calls callers)\<^sup>* `` set seen = set seen" by (intro Image_closed_trancl)
    with Nil less.prems(2) show ?thesis by (subst invalidate_loop.simps) simp
  next
    case (Cons cur rest)
    obtain new where new: "visit_callers (callers cur) (seen, rest) = (seen @ new, rest @ new)"
      "set new = set (callers cur) - set seen" "distinct new" using visit_callers_new by blast
    have step: "invalidate_loop callers seen queue = invalidate_loop callers (seen @ new) (rest @ new)"
      using Cons new(1) by (subst invalidate_loop.simps) simp
    have nU: "set (seen @ new) \<subseteq> U" using less.prems(1) new(2) assms(2) by auto
    have c: "card (U - set (seen @ new)) + length new = card (U - set seen)"
    proof -
      have "U - set (seen @ new) = (U - set seen) - set new" by auto
      moreover have "set new \<subseteq> U - set seen" using new(2) assms(2) by auto
      ultimately show ?thesis using assms(1) new(3) card_mono [of "U - set seen" "set new"]
        by (simp add: card_Diff_subset distinct_card)
    qed
    have "\<exists>out. invalidate_loop callers (seen @ new) (rest @ new) = Some out \<and> distinct out \<and>
        set out = (calls callers)\<^sup>* `` set (seen @ new)"
    proof (rule less.hyps [OF _ nU])
      show "2 * card (U - set (seen @ new)) + length (rest @ new) < 2 * card (U - set seen) + length queue"
        using c Cons by simp
      show "distinct (seen @ new)" using less.prems(2) new(2,3) by auto
      show "set (rest @ new) \<subseteq> set (seen @ new)" using less.prems(3) Cons by auto
      show "c \<in> set (seen @ new)" if "f \<in> set (seen @ new) - set (rest @ new)" "c \<in> set (callers f)" for f c
        using that less.prems(4) [of f c] new(2) Cons by (cases "f = cur") auto
    qed
    moreover have "(calls callers)\<^sup>* `` set (seen @ new) = (calls callers)\<^sup>* `` set seen"
    proof -
      have "cur \<in> set seen" using less.prems(3) Cons by auto
      then have "set new \<subseteq> (calls callers)\<^sup>* `` set seen" using new(2) by (auto simp: calls_def)
      then show ?thesis by (auto simp: Image_Un intro: rtrancl_trans)
    qed
    ultimately show ?thesis using step by simp
  qed
qed

lemma Invalidate_reaches:
  assumes "graph_ok g"
  shows "\<exists>out. Invalidate fn g = Some out \<and> distinct out \<and> set out = {f. (fn, f) \<in> {(Callee e, Caller e) | e. e \<in> set (intraEdges g)}\<^sup>*}"
proof -
  have "calls (callersOf g) = {(Callee e, Caller e) | e. e \<in> set (intraEdges g)}"
    using assms by (auto simp: calls_def graph_ok_def)
  moreover have "set (callersOf g f) \<subseteq> insert fn (Caller ` set (intraEdges g))" for f
    using assms by (auto simp: graph_ok_def)
  ultimately show ?thesis
    using invalidate_loop_reaches [of "insert fn (Caller ` set (intraEdges g))" "callersOf g" "[fn]" "[fn]"]
    by (auto simp: Invalidate_def)
qed

text \<open>Invalidation ends and returns, without repeats, exactly the function itself and its transitive
  callers.\<close>

theorem Invalidate_transitive_callers:
  assumes "graph_ok g"
  shows "\<exists>out. Invalidate fn g = Some out \<and> distinct out \<and>
    set out = {f. (fn, f) \<in> {(Callee e, Caller e) | e. e \<in> set (intraEdges g)}\<^sup>*}"
  by (rule Invalidate_reaches [OF assms])

definition demo_graph :: Graph where
  "demo_graph = AddIntraCall ''main'' ''run'' Map.empty (AddIntraCall ''run'' ''log'' Map.empty (AddIntraCall ''other'' ''main'' Map.empty New_Graph))"

lemma demo_graph_ok: "graph_ok demo_graph"
  by (simp add: demo_graph_def graph_ok_ops)

theorem Invalidate_transitive_callers_witness:
  "\<exists>out. Invalidate ''log'' demo_graph = Some out \<and> ''other'' \<in> set out"
proof -
  obtain out where out: "Invalidate ''log'' demo_graph = Some out"
    "set out = {f. (''log'', f) \<in> {(Callee e, Caller e) | e. e \<in> set (intraEdges demo_graph)}\<^sup>*}"
    using Invalidate_transitive_callers [OF demo_graph_ok] by blast
  let ?R = "{(Callee e, Caller e) | e. e \<in> set (intraEdges demo_graph)}"
  have E: "set (intraEdges demo_graph) = {\<lparr>Caller = ''other'', Callee = ''main'', IntraScope = Map.empty\<rparr>,
      \<lparr>Caller = ''run'', Callee = ''log'', IntraScope = Map.empty\<rparr>, \<lparr>Caller = ''main'', Callee = ''run'', IntraScope = Map.empty\<rparr>}"
    by (simp add: demo_graph_def AddIntraCall_def New_Graph_def)
  have "(''log'', ''run'') \<in> ?R" "(''run'', ''main'') \<in> ?R" "(''main'', ''other'') \<in> ?R" unfolding E by force+
  then have "(''log'', ''other'') \<in> ?R\<^sup>*" by (meson converse_rtrancl_into_rtrancl rtrancl.rtrancl_refl)
  with out show ?thesis by blast
qed

text \<open>C7. Invalidation is sound: when the direct slots of a function change, every function outside its
  invalidated set gets the same slots from the recomputed fixed point as before.\<close>

theorem Invalidate_sound:
  assumes "graph_ok g" and "Invalidate fn g = Some out" and "x \<notin> set out"
    and "ComputeIntraFixedPoint sat g = Some h" and "ComputeIntraFixedPoint sat (SetDirect fn ss g) = Some h'"
  shows "Slots x h = Slots x h'"
proof -
  let ?E = "intraEdges g" and ?g' = "SetDirect fn ss g"
  let ?A = "- set out"
  have out: "set out = {f. (fn, f) \<in> {(Callee e, Caller e) | e. e \<in> set ?E}\<^sup>*}"
    using Invalidate_reaches [OF assms(1), of fn] assms(2) by auto
  have closed: "\<forall>e \<in> set ?E. Caller e \<in> ?A \<longrightarrow> Callee e \<in> ?A"
    unfolding out by (auto intro: rtrancl_into_rtrancl)
  have fn: "fn \<notin> ?A" unfolding out by simp
  have E': "intraEdges ?g' = ?E" "gslots ?g' = gslots g" "f \<noteq> fn \<Longrightarrow> direct ?g' f = direct g f" for f
    by (simp_all add: SetDirect_def)
  have init: "\<forall>n \<in> ?A. initial_slots (gslots g) (direct g) n = initial_slots (gslots ?g') (direct ?g') n"
  proof
    fix n
    assume "n \<in> ?A"
    with fn have "n \<noteq> fn" by blast
    then show "initial_slots (gslots g) (direct g) n = initial_slots (gslots ?g') (direct ?g') n"
      by (simp add: initial_slots_def E')
  qed
  obtain a' where a': "until_stable (intra_pass sat ?E) (initial_slots (gslots g) (direct g)) = Some a'"
    "h = g\<lparr>gslots := \<lambda>f. OrderSlots (a' f)\<rparr>"
    using assms(4) by (auto simp: ComputeIntraFixedPoint_def PropagateIntraPackageFixedPoint_def initial_slots_def)
  obtain b' where b': "until_stable (intra_pass sat ?E) (initial_slots (gslots ?g') (direct ?g')) = Some b'"
    "h' = ?g'\<lparr>gslots := \<lambda>f. OrderSlots (b' f)\<rparr>"
    using assms(5) E'(1) by (auto simp: ComputeIntraFixedPoint_def PropagateIntraPackageFixedPoint_def initial_slots_def)
  have "a' x = b' x"
    by (rule intra.fixed_point_local [OF closed init a'(1) [unfolded intra_pass_eq] b'(1) [unfolded intra_pass_eq]])
       (use assms(3) in simp)
  with a'(2) b'(2) show ?thesis by (simp add: Slots_def)
qed

theorem Invalidate_sound_witness:
  "\<exists>h h'. ComputeIntraFixedPoint None demo_graph = Some h \<and>
     ComputeIntraFixedPoint None (SetDirect ''main'' [(''Logger'', demo_slot)] demo_graph) = Some h' \<and>
     Slots ''log'' h = Slots ''log'' h'"
proof -
  have ex: "\<exists>h. ComputeIntraFixedPoint None g = Some h" for g
    using Propagate_returns [of "gslots g" "direct g" "intraEdges g" None] by (auto simp: ComputeIntraFixedPoint_def)
  obtain h h' where h: "ComputeIntraFixedPoint None demo_graph = Some h"
    "ComputeIntraFixedPoint None (SetDirect ''main'' [(''Logger'', demo_slot)] demo_graph) = Some h'" using ex by metis
  obtain out where out: "Invalidate ''main'' demo_graph = Some out"
    "set out = {f. (''main'', f) \<in> {(Callee e, Caller e) | e. e \<in> set (intraEdges demo_graph)}\<^sup>*}"
    using Invalidate_reaches [OF demo_graph_ok] by blast
  have "f \<noteq> ''log''" if "(''main'', f) \<in> {(Callee e, Caller e) | e. e \<in> set (intraEdges demo_graph)}\<^sup>*" for f
    using that by (induction rule: rtrancl_induct) (auto simp: demo_graph_def AddIntraCall_def New_Graph_def)
  then have "''log'' \<notin> set out" unfolding out(2) by blast
  with Invalidate_sound [OF demo_graph_ok out(1) _ h] h show ?thesis by blast
qed

end
