(* ===== verification/AssertionIR.thy ===== *)
theory AssertionIR
  imports Statements
begin

text \<open>
  \<open>internal/ast/ensure.go\<close> and \<open>internal/typechecker/assertion_ir.go\<close>, \<open>must_facts.go\<close>: the text of
  ensure statements, the lowering of ensure and if statements to the assertion intermediate
  representation, and the atoms that hold on every successful path. A nil assertion is \<open>None\<close>; a
  pointer to a node is the node.
\<close>

section \<open>Ensure statements (ensure.go)\<close>

definition IsCallSubject :: "EnsureNode \<Rightarrow> bool" where
  "IsCallSubject e \<longleftrightarrow> ESubject e \<noteq> None"

definition EnsureSubject :: "EnsureNode \<Rightarrow> ExpressionNode" where
  "EnsureSubject e =
     (case ESubject e of Some s \<Rightarrow> s | None \<Rightarrow> VariableNode (EVariable e) (TypeNode [] None [] [] None [] []))"

definition EnsurePlaceSubject :: "EnsureNode \<Rightarrow> Identifier option" where
  "EnsurePlaceSubject e = (case ESubject e of Some s \<Rightarrow> None | None \<Rightarrow> Some (EVariable e))"

definition RefinementTarget_String :: "RefinementTarget \<Rightarrow> string" where
  "RefinementTarget_String t =
     (case t of TypeTarget name \<Rightarrow> name | AssertionTarget chs \<Rightarrow> join_strings '' or '' (map Assertion_String chs))"

definition EnsureError_String :: "EnsureErrorNode \<Rightarrow> string" where
  "EnsureError_String e =
     (case e of
        EnsureErrorCall ty args \<Rightarrow> ty @ ''('' @ slice_text (map Expression_String args) @ '')''
      | EnsureErrorVar s \<Rightarrow> s
      | EnsureErrorExpr x \<Rightarrow> (case x of None \<Rightarrow> ''EnsureErrorExpr'' | Some e \<Rightarrow> Expression_String e))"

definition Ensure_String :: "EnsureNode \<Rightarrow> string" where
  "Ensure_String e =
     (let subj = Expression_String (EnsureSubject e);
          err = (case EError e of None \<Rightarrow> [] | Some x \<Rightarrow> '', '' @ EnsureError_String x);
          target = (case ETarget e of None \<Rightarrow> Assertion_String (EAssertion e) | Some t \<Rightarrow> RefinementTarget_String t)
      in if EImplicit e = EnsureImplicitBang then ''Ensure(!'' @ subj @ err @ '')''
         else if EImplicit e = EnsureImplicitBare then ''Ensure('' @ subj @ err @ '')''
         else ''Ensure('' @ subj @ '', '' @ target @ err @ '')'')"

section \<open>Assertions (assertion_ir.go)\<close>

datatype Assertion =
    Atom (AtomName: string) (AtomBase: "TypeIdent option") (AtomArgs: "ConstraintArgumentNode list") (RuntimeOnly: bool)
  | AnyOf "Assertion list"
  | AllOf "Assertion list"

definition atom_text :: "string \<Rightarrow> TypeIdent option \<Rightarrow> ConstraintArgumentNode list \<Rightarrow> bool \<Rightarrow> string" where
  "atom_text name base args runtime =
     (case base of Some b \<Rightarrow> b @ (if name \<noteq> [] then ''.'' else []) | None \<Rightarrow> []) @ name @ ''('' @
     join_strings '', '' (map ConstraintArgument_String args) @ '')'' @ (if runtime then ''@runtime'' else [])"

primrec IR_String :: "Assertion \<Rightarrow> string" where
  "IR_String (Atom name base args runtime) = atom_text name base args runtime"
| "IR_String (AnyOf cs) = ''Any('' @ join_strings '', '' (map IR_String cs) @ '')''"
| "IR_String (AllOf cs) = ''All('' @ join_strings '', '' (map IR_String cs) @ '')''"

definition isBuiltinTypeIdent :: "TypeIdent \<Rightarrow> bool" where
  "isBuiltinTypeIdent i \<longleftrightarrow>
     i \<in> {TypeInt, TypeFloat, TypeString, TypeBool, TypeVoid, TypeError, TypeBytes, TypeObject, TypeArray, TypeMap,
          TypeShape, TypePointer, TypeResult, TypeTuple, TypeChannel, TypeUnion, TypeIntersection, TypeAssertion,
          TypeImplicit, TypeComplex64, TypeComplex128}"

definition valueIsStaticLiteral :: "ExpressionNode \<Rightarrow> bool" where
  "valueIsStaticLiteral v =
     (case v of
        IntLiteralNode n raw ty \<Rightarrow> True
      | FloatLiteralNode t ty \<Rightarrow> True
      | StringLiteralNode s ty \<Rightarrow> True
      | BoolLiteralNode b ty \<Rightarrow> True
      | NilLiteralNode \<Rightarrow> True
      | _ \<Rightarrow> False)"

definition constraintArgsRuntimeOnly :: "ConstraintArgumentNode list \<Rightarrow> bool" where
  "constraintArgsRuntimeOnly args \<longleftrightarrow>
     list_ex (\<lambda>arg. (case ArgValue arg of Some v \<Rightarrow> \<not> valueIsStaticLiteral v | None \<Rightarrow> False) \<or>
                    (case ArgType arg of Some t \<Rightarrow> \<not> isBuiltinTypeIdent (TIdent t) | None \<Rightarrow> False)) args"

definition constraint_atom :: "TypeIdent option \<Rightarrow> ConstraintNode \<Rightarrow> Assertion" where
  "constraint_atom base c = Atom (CName c) base (CArgs c) (constraintArgsRuntimeOnly (CArgs c))"

definition lowerMeetChain :: "AssertionNode \<Rightarrow> Assertion" where
  "lowerMeetChain chain =
     (case Constraints chain of
        [] \<Rightarrow> (case BaseType chain of Some b \<Rightarrow> Atom b None [] False | None \<Rightarrow> AllOf [])
      | c # cs \<Rightarrow>
        (let atoms = constraint_atom (BaseType chain) c # map (constraint_atom None) cs
         in if length atoms = 1 then hd atoms else AllOf atoms))"

definition LowerAssertionNode :: "AssertionNode \<Rightarrow> Assertion" where
  "LowerAssertionNode a =
     (let alts = map lowerMeetChain (MeetChains a) in if length alts = 1 then hd alts else AnyOf alts)"

definition assertionFromTarget :: "AssertionNode list \<Rightarrow> AssertionNode \<Rightarrow> AssertionNode" where
  "assertionFromTarget chs fallback =
     (case chs of
        [] \<Rightarrow> fallback
      | [first] \<Rightarrow> first
      | first # rest \<Rightarrow> AssertionNode (BaseType first) (Constraints first) rest (ATypeParams first) (AArrayLen first))"

text \<open>The two results: the lowered assertion, or the type target.\<close>

definition LowerRefinementTarget :: "RefinementTarget option \<Rightarrow> AssertionNode \<Rightarrow> Assertion option \<times> TypeIdent option" where
  "LowerRefinementTarget target a =
     (case target of
        Some (TypeTarget name) \<Rightarrow> (None, Some name)
      | Some (AssertionTarget chs) \<Rightarrow> (Some (LowerAssertionNode (assertionFromTarget chs a)), None)
      | None \<Rightarrow>
        if IsBareTypeShape a then (None, BaseType a) else (Some (LowerAssertionNode a), None))"

definition lowerIsRHS :: "ExpressionNode \<Rightarrow> Assertion option" where
  "lowerIsRHS right = (case right of AssertionExpr a \<Rightarrow> Some (LowerAssertionNode a) | _ \<Rightarrow> None)"

definition lowerIfIsCondition :: "Node \<Rightarrow> Assertion option" where
  "lowerIfIsCondition cond =
     (case cond of
        ExprStmt (BinaryExpressionNode l op r) \<Rightarrow> if op = TokenIs then lowerIsRHS r else None
      | _ \<Rightarrow> None)"

text \<open>\<open>switch len(parts) \<open>{\<close> case 0: nil; case 1: parts[0]; default: ... \<open>}\<close>\<close>, for both connectives.\<close>

definition collect :: "(Assertion list \<Rightarrow> Assertion) \<Rightarrow> Assertion option list \<Rightarrow> Assertion option" where
  "collect conn parts =
     (case List.map_filter (\<lambda>x. x) parts of [] \<Rightarrow> None | [p] \<Rightarrow> Some p | ps \<Rightarrow> Some (conn ps))"

definition guard_branch :: "Assertion option \<Rightarrow> Assertion option \<Rightarrow> Assertion option" where
  "guard_branch cond body =
     (case (cond, body) of
        (Some c, Some b) \<Rightarrow> Some (AllOf [c, b])
      | (Some c, None) \<Rightarrow> Some c
      | (None, b) \<Rightarrow> b)"

primrec lower_guard_stmt :: "Node \<Rightarrow> Assertion option"
  and lower_guard_ensure :: "EnsureNode \<Rightarrow> Assertion option"
  and lowerGuardIf :: "IfNode \<Rightarrow> Assertion option" where
  "lower_guard_stmt (CommentNode s) = None"
| "lower_guard_stmt (EnsureStmt e) = lower_guard_ensure e"
| "lower_guard_stmt (IfStmt i) = lowerGuardIf i"
| "lower_guard_stmt (ExprStmt e) = None"
| "lower_guard_stmt (AssignStmt a) = None"
| "lower_guard_stmt (ReturnNode vs ty) = None"
| "lower_guard_stmt (UseNode x ty) = None"
| "lower_guard_stmt (WithNode w b) = None"
| "lower_guard_stmt (GotoNode l) = None"
| "lower_guard_stmt (LabeledStmtNode l s) = None"
| "lower_guard_stmt (ForStmt f) = None"
| "lower_guard_stmt (SwitchNode i tg cls) = None"
| "lower_guard_stmt (FallthroughNode) = None"
| "lower_guard_stmt (BreakNode l) = None"
| "lower_guard_stmt (ContinueNode l) = None"
| "lower_guard_stmt (DeferNode e) = None"
| "lower_guard_stmt (GoStmtNode e) = None"
| "lower_guard_ensure (EnsureNode v subj target asrt imp err block) =
     (case LowerRefinementTarget target asrt of (a, tt) \<Rightarrow> if tt \<noteq> None then None else a)"
| "lowerGuardIf (IfNode cond body elseIfs els init) =
     collect AnyOf
       (guard_branch (lowerIfIsCondition cond) (collect AllOf (map lower_guard_stmt body)) #
        map (\<lambda>(c, b). guard_branch (lowerIfIsCondition c) (collect AllOf b))
            (map (map_prod (\<lambda>c. c) (map lower_guard_stmt)) elseIfs) @
        (case map_option (map lower_guard_stmt) els of None \<Rightarrow> [] | Some b \<Rightarrow> [collect AllOf b]))"

definition LowerTypeGuardBody :: "Node list \<Rightarrow> Assertion option" where
  "LowerTypeGuardBody body = collect AllOf (map lower_guard_stmt body)"

primrec AssertionShape :: "Assertion \<Rightarrow> string" where
  "AssertionShape (Atom name base args runtime) = ''Atom('' @ name @ '')''"
| "AssertionShape (AnyOf cs) = ''Any('' @ join_strings '','' (map AssertionShape cs) @ '')''"
| "AssertionShape (AllOf cs) = ''All('' @ join_strings '','' (map AssertionShape cs) @ '')''"

primrec HasRuntimeOnlyAtom :: "Assertion \<Rightarrow> bool" where
  "HasRuntimeOnlyAtom (Atom name base args runtime) = runtime"
| "HasRuntimeOnlyAtom (AnyOf cs) = list_ex (\<lambda>b. b) (map HasRuntimeOnlyAtom cs)"
| "HasRuntimeOnlyAtom (AllOf cs) = list_ex (\<lambda>b. b) (map HasRuntimeOnlyAtom cs)"

section \<open>Must-facts (must\_facts.go)\<close>

definition atomKey :: "Assertion \<Rightarrow> string" where
  "atomKey a = IR_String a"

definition intersectAtoms :: "Assertion list \<Rightarrow> Assertion list \<Rightarrow> Assertion list" where
  "intersectAtoms a b =
     (if a = [] \<or> b = [] then []
      else dedup_by atomKey {} (filter (\<lambda>x. atomKey x \<in> set (map atomKey b)) a))"

primrec MustAtoms :: "Assertion \<Rightarrow> Assertion list" where
  "MustAtoms (Atom name base args runtime) = [Atom name base args runtime]"
| "MustAtoms (AllOf cs) = concat (map MustAtoms cs)"
| "MustAtoms (AnyOf cs) =
     (case map MustAtoms cs of [] \<Rightarrow> [] | m # ms \<Rightarrow> fold (\<lambda>b inter. intersectAtoms inter b) ms m)"

definition rebaseGuardEnsurePath :: "string \<Rightarrow> string \<Rightarrow> string \<Rightarrow> string" where
  "rebaseGuardEnsurePath guardSubject callRoot ensurePath =
     (if ensurePath = [] \<or> guardSubject = [] then []
      else if ensurePath = guardSubject then callRoot
      else let pre = guardSubject @ ''.'' in
        if take (length pre) ensurePath \<noteq> pre then []
        else let suffix = drop (length pre) ensurePath
          in if callRoot = [] then suffix else callRoot @ ''.'' @ suffix)"

section \<open>Meaning\<close>

text \<open>The truth of an assertion, given the truth of its atoms by their text.\<close>

primrec holds :: "(string \<Rightarrow> bool) \<Rightarrow> Assertion \<Rightarrow> bool" where
  "holds v (Atom name base args runtime) = v (atom_text name base args runtime)"
| "holds v (AnyOf cs) = list_ex (\<lambda>b. b) (map (holds v) cs)"
| "holds v (AllOf cs) = list_all (\<lambda>b. b) (map (holds v) cs)"

text \<open>The truth of a source assertion: dots are conjunctions, \<open>or\<close> is a disjunction of dotted chains.\<close>

definition constraint_holds :: "(string \<Rightarrow> bool) \<Rightarrow> TypeIdent option \<Rightarrow> ConstraintNode \<Rightarrow> bool" where
  "constraint_holds v base c = v (atom_text (CName c) base (CArgs c) (constraintArgsRuntimeOnly (CArgs c)))"

definition chain_holds :: "(string \<Rightarrow> bool) \<Rightarrow> AssertionNode \<Rightarrow> bool" where
  "chain_holds v a =
     (case Constraints a of
        [] \<Rightarrow> (case BaseType a of Some b \<Rightarrow> v (b @ ''()'') | None \<Rightarrow> True)
      | c # cs \<Rightarrow> constraint_holds v (BaseType a) c \<and> (\<forall>c' \<in> set cs. constraint_holds v None c'))"

definition assertion_holds :: "(string \<Rightarrow> bool) \<Rightarrow> AssertionNode \<Rightarrow> bool" where
  "assertion_holds v a \<longleftrightarrow> chain_holds v a \<or> (\<exists>alt \<in> set (OrChains a). chain_holds v alt)"

lemma holds_constraint_atom: "holds v (constraint_atom base c) = constraint_holds v base c"
  by (simp add: constraint_atom_def constraint_holds_def)

lemma holds_lowerMeetChain: "holds v (lowerMeetChain a) = chain_holds v a"
proof (cases "Constraints a")
  case Nil
  then show ?thesis by (simp add: lowerMeetChain_def chain_holds_def atom_text_def split: option.splits)
next
  case (Cons c cs)
  then show ?thesis
    by (cases cs) (auto simp: lowerMeetChain_def chain_holds_def Let_def holds_constraint_atom list_all_iff)
qed

lemma holds_LowerAssertionNode: "holds v (LowerAssertionNode a) = assertion_holds v a"
proof -
  let ?first = "AssertionNode (BaseType a) (Constraints a) [] (ATypeParams a) (AArrayLen a)"
  have "chain_holds v ?first = chain_holds v a" by (simp only: chain_holds_def AssertionNode.sel)
  then show ?thesis
    by (cases "OrChains a") (auto simp: LowerAssertionNode_def MeetChains_def assertion_holds_def Let_def holds_lowerMeetChain list_ex_iff)
qed

text \<open>C31. Lowering keeps the meaning of what follows \<open>is\<close>: a type target stays a type target, and the
  lowered assertion is true exactly when one of the dotted chains joined by \<open>or\<close> is.\<close>

theorem LowerRefinementTarget_meaning:
  "case LowerRefinementTarget target a of
     (Some ir, tt) \<Rightarrow> tt = None \<and>
       (holds v ir \<longleftrightarrow>
         (case target of
            Some (AssertionTarget (c # cs)) \<Rightarrow>
              if cs = [] then assertion_holds v c else (\<exists>chain \<in> set (c # cs). chain_holds v chain)
          | _ \<Rightarrow> assertion_holds v a))
   | (None, tt) \<Rightarrow>
       (target = None \<and> IsBareTypeShape a \<and> tt = BaseType a) \<or> (\<exists>name. target = Some (TypeTarget name) \<and> tt = Some name)"
proof (cases target)
  case None
  then show ?thesis by (auto simp: LowerRefinementTarget_def holds_LowerAssertionNode)
next
  case (Some t)
  show ?thesis
  proof (cases t)
    case (TypeTarget name)
    with Some show ?thesis by (simp add: LowerRefinementTarget_def)
  next
    case (AssertionTarget chs)
    show ?thesis
    proof (cases chs)
      case Nil
      with Some AssertionTarget show ?thesis
        by (simp add: LowerRefinementTarget_def assertionFromTarget_def holds_LowerAssertionNode)
    next
      case (Cons c cs)
      have "chain_holds v (AssertionNode (BaseType c) (Constraints c) cs (ATypeParams c) (AArrayLen c)) = chain_holds v c"
        by (simp only: chain_holds_def AssertionNode.sel)
      with Some AssertionTarget Cons show ?thesis
        by (cases cs) (auto simp: LowerRefinementTarget_def assertionFromTarget_def holds_LowerAssertionNode assertion_holds_def)
    qed
  qed
qed

lemma intersectAtoms_member:
  "x \<in> set (intersectAtoms a b) \<Longrightarrow> x \<in> set a \<and> (\<exists>y \<in> set b. atomKey y = atomKey x)"
proof -
  assume "x \<in> set (intersectAtoms a b)"
  then have "x \<in> set (dedup_by atomKey {} (filter (\<lambda>x. atomKey x \<in> set (map atomKey b)) a))"
    by (auto simp: intersectAtoms_def split: if_splits)
  then have "x \<in> set (filter (\<lambda>x. atomKey x \<in> set (map atomKey b)) a)"
    by (rule subsetD [OF dedup_by_subset])
  then show ?thesis by (auto simp: image_iff)
qed

definition is_atom :: "Assertion \<Rightarrow> bool" where
  "is_atom a = (case a of Atom n b as r \<Rightarrow> True | _ \<Rightarrow> False)"

lemma holds_atomKey: "is_atom x \<Longrightarrow> is_atom y \<Longrightarrow> atomKey x = atomKey y \<Longrightarrow> holds v x = holds v y"
  by (cases x; cases y) (auto simp: is_atom_def atomKey_def)

lemma fold_intersect_member:
  "x \<in> set (fold (\<lambda>b inter. intersectAtoms inter b) ms m) \<Longrightarrow>
     x \<in> set m \<and> (\<forall>b \<in> set ms. \<exists>y \<in> set b. atomKey y = atomKey x)"
proof (induction ms arbitrary: m)
  case (Cons b ms)
  then have "x \<in> set (intersectAtoms m b) \<and> (\<forall>b \<in> set ms. \<exists>y \<in> set b. atomKey y = atomKey x)" by simp
  with intersectAtoms_member [of x m b] show ?case by simp
qed simp

lemma MustAtoms_atoms: "x \<in> set (MustAtoms a) \<Longrightarrow> is_atom x"
proof (induction a arbitrary: x)
  case (AnyOf cs)
  then show ?case by (cases cs) (auto dest!: fold_intersect_member)
qed (auto simp: is_atom_def)

lemma MustAtoms_hold: "holds v a \<Longrightarrow> x \<in> set (MustAtoms a) \<Longrightarrow> holds v x"
proof (induction a arbitrary: x)
  case (AnyOf cs)
  then obtain c where c: "c \<in> set cs" "holds v c" by (auto simp: list_ex_iff)
  obtain d ds where ds: "cs = d # ds" using c(1) by (cases cs) auto
  with AnyOf.prems(2) have x: "x \<in> set (MustAtoms d)" "\<forall>b \<in> set (map MustAtoms ds). \<exists>y \<in> set b. atomKey y = atomKey x"
    by (auto dest!: fold_intersect_member)
  show ?case
  proof (cases "c = d")
    case True
    with AnyOf.IH c x(1) show ?thesis by blast
  next
    case False
    with c(1) ds x(2) obtain y where y: "y \<in> set (MustAtoms c)" "atomKey y = atomKey x" by auto
    with AnyOf.IH c have "holds v y" by blast
    with holds_atomKey MustAtoms_atoms y x(1) show ?thesis by blast
  qed
qed (auto simp: list_all_iff)

text \<open>C32. The must-atoms of an assertion hold on every successful path: whenever the assertion is true,
  so is each of them, for every truth value of the atoms.\<close>

theorem MustAtoms_sound:
  assumes "holds v a" and "x \<in> set (MustAtoms a)"
  shows "is_atom x \<and> holds v x"
  using MustAtoms_atoms MustAtoms_hold assms by blast

theorem MustAtoms_sound_witness:
  "is_atom (Atom ''A'' None [] False) \<and> holds (\<lambda>s. s \<noteq> ''C()'') (Atom ''A'' None [] False)"
proof (rule MustAtoms_sound [of _ "AnyOf [AllOf [Atom ''A'' None [] False, Atom ''B'' None [] False],
      AllOf [Atom ''C'' None [] False, Atom ''A'' None [] False]]"])
  show "holds (\<lambda>s. s \<noteq> ''C()'') (AnyOf [AllOf [Atom ''A'' None [] False, Atom ''B'' None [] False],
      AllOf [Atom ''C'' None [] False, Atom ''A'' None [] False]])" by code_simp
  show "Atom ''A'' None [] False \<in> set (MustAtoms (AnyOf [AllOf [Atom ''A'' None [] False, Atom ''B'' None [] False],
      AllOf [Atom ''C'' None [] False, Atom ''A'' None [] False]]))" by code_simp
qed

text \<open>Rebasing a guard's path onto the call site keeps its suffix: a path below the guard's subject
  becomes the same path below the call's subject, the subject becomes the call's subject, and
  nothing else is rebased.\<close>

theorem rebaseGuardEnsurePath_suffix:
  assumes "guardSubject \<noteq> []" and "callRoot \<noteq> []"
  shows "rebaseGuardEnsurePath guardSubject callRoot (guardSubject @ ''.'' @ suffix) = callRoot @ ''.'' @ suffix \<and>
    rebaseGuardEnsurePath guardSubject callRoot guardSubject = callRoot \<and>
    (rebaseGuardEnsurePath guardSubject callRoot p \<noteq> [] \<longrightarrow> p = guardSubject \<or> (\<exists>s. p = guardSubject @ ''.'' @ s))"
proof (intro conjI)
  show "rebaseGuardEnsurePath guardSubject callRoot (guardSubject @ ''.'' @ suffix) = callRoot @ ''.'' @ suffix"
    "rebaseGuardEnsurePath guardSubject callRoot guardSubject = callRoot"
    using assms by (simp_all add: rebaseGuardEnsurePath_def)
  show "rebaseGuardEnsurePath guardSubject callRoot p \<noteq> [] \<longrightarrow> p = guardSubject \<or> (\<exists>s. p = guardSubject @ ''.'' @ s)"
  proof
    assume "rebaseGuardEnsurePath guardSubject callRoot p \<noteq> []"
    then have "p = guardSubject \<or> take (length (guardSubject @ ''.'')) p = guardSubject @ ''.''"
      by (auto simp: rebaseGuardEnsurePath_def Let_def split: if_splits)
    then show "p = guardSubject \<or> (\<exists>s. p = guardSubject @ ''.'' @ s)"
      by (metis append.assoc append_take_drop_id)
  qed
qed

theorem rebaseGuardEnsurePath_suffix_witness:
  "rebaseGuardEnsurePath ''ctx'' ''op.ctx'' ''ctx.session'' = ''op.ctx.session''"
  using rebaseGuardEnsurePath_suffix [of "''ctx''" "''op.ctx''" "''session''"] by simp

end
