(* ===== verification/AccessPath.thy ===== *)
theory AccessPath
  imports Prelude "HOL-Library.Word" "HOL-Library.Multiset"
begin

text \<open>
  \<open>internal/typechecker/access_path.go\<close> and \<open>symbol.go\<close>: access paths (a binding and the
  selections made from it), their interning keys and the interner, symbol references and the dense
  renumbering done when metadata is loaded. The interner hands out pointers; a pointer is the
  index of a cell, so that two results are the same pointer exactly when their indices agree.
\<close>

section \<open>Paths\<close>

datatype AccessStepKind = AccessField | AccessIndexAny | AccessDeref

record AccessStep =
  Kind :: AccessStepKind
  FieldName :: go_string

type_synonym SymbolID = "32 word"

record AccessPath =
  Root :: SymbolID
  Steps :: "AccessStep list"

definition step_key :: "AccessStep \<Rightarrow> go_string" where
  "step_key s =
     (case Kind s of
        AccessField \<Rightarrow> ''.f:'' @ FieldName s
      | AccessIndexAny \<Rightarrow> ''[*]''
      | AccessDeref \<Rightarrow> ''.*'')"

definition PathKey :: "AccessPath \<Rightarrow> go_string" where
  "PathKey p = dec_nat (unat (Root p)) @ concat (map step_key (Steps p))"

text \<open>\<open>Equal\<close> compares the lengths and then index by index, as the source does.\<close>

definition Equal :: "AccessPath \<Rightarrow> AccessPath \<Rightarrow> bool" where
  "Equal p q \<longleftrightarrow>
     Root p = Root q \<and> length (Steps p) = length (Steps q) \<and>
     list_all (\<lambda>i. Kind (Steps p ! i) = Kind (Steps q ! i) \<and> FieldName (Steps p ! i) = FieldName (Steps q ! i))
       [0..<length (Steps p)]"

text \<open>A copy of the steps is the same list of values.\<close>

definition CloneSteps :: "AccessPath \<Rightarrow> AccessStep list" where
  "CloneSteps p = (if Steps p = [] then [] else map (\<lambda>s. s) (Steps p))"

section \<open>The interner\<close>

record PathInterner =
  byKey :: "go_string \<rightharpoonup> nat"
  cells :: "AccessPath list"

definition NewPathInterner :: PathInterner where
  "NewPathInterner = \<lparr>byKey = Map.empty, cells = []\<rparr>"

definition Intern :: "PathInterner \<Rightarrow> AccessPath \<Rightarrow> nat \<times> PathInterner" where
  "Intern pi p =
     (case byKey pi (PathKey p) of
        Some existing \<Rightarrow> (existing, pi)
      | None \<Rightarrow>
        (let cp = length (cells pi)
         in (cp, pi\<lparr>byKey := (byKey pi)(PathKey p \<mapsto> cp),
                    cells := cells pi @ [\<lparr>Root = Root p, Steps = CloneSteps p\<rparr>]\<rparr>)))"

definition PathInterner_Len :: "PathInterner \<Rightarrow> nat" where
  "PathInterner_Len pi = card (dom (byKey pi))"

section \<open>Symbol references (symbol.go)\<close>

record SymbolRef =
  Package :: go_string
  Name :: go_string

definition SymbolRef_Key :: "SymbolRef \<Rightarrow> go_string" where
  "SymbolRef_Key r = Package r @ [CHR 0x00] @ Name r"

text \<open>
  The insertion sort: \<open>sift_down\<close> is the inner loop from position \<open>j\<close>, \<open>sortStrings\<close> the outer one.
\<close>

fun sift_down :: "go_string list \<Rightarrow> nat \<Rightarrow> go_string list" where
  "sift_down ss 0 = ss"
| "sift_down ss (Suc j) =
     (if ss ! j > ss ! Suc j then sift_down (ss[j := ss ! Suc j, Suc j := ss ! j]) j else ss)"

definition sortStrings :: "go_string list \<Rightarrow> go_string list" where
  "sortStrings ss = fold (\<lambda>i ss. sift_down ss i) [1..<length ss] ss"

text \<open>The two maps under construction and \<open>next\<close>, one round of the numbering loop per key.\<close>

definition remap_step ::
  "(go_string \<rightharpoonup> SymbolRef) \<Rightarrow> go_string
     \<Rightarrow> (SymbolRef \<rightharpoonup> SymbolID) \<times> (SymbolID \<rightharpoonup> SymbolRef) \<times> SymbolID
     \<Rightarrow> (SymbolRef \<rightharpoonup> SymbolID) \<times> (SymbolID \<rightharpoonup> SymbolRef) \<times> SymbolID" where
  "remap_step seen k st =
     (case st of (byRef, byID, nxt) \<Rightarrow>
        let r = the (seen k) in (byRef(r \<mapsto> nxt), byID(nxt \<mapsto> r), nxt + 1))"

fun seen_refs :: "(go_string \<rightharpoonup> SymbolRef) \<Rightarrow> go_string list \<Rightarrow> SymbolRef list \<Rightarrow> (go_string \<rightharpoonup> SymbolRef) \<times> go_string list" where
  "seen_refs seen keys [] = (seen, keys)"
| "seen_refs seen keys (r # rs) =
     (let k = SymbolRef_Key r
      in if seen k \<noteq> None then seen_refs seen keys rs
         else seen_refs (seen(k \<mapsto> r)) (keys @ [k]) rs)"

definition RemapSymbolRefs :: "SymbolRef list \<Rightarrow> (SymbolRef \<rightharpoonup> SymbolID) \<times> (SymbolID \<rightharpoonup> SymbolRef)" where
  "RemapSymbolRefs refs =
     (case seen_refs Map.empty [] refs of (seen, keys) \<Rightarrow>
        (case fold (remap_step seen) (sortStrings keys) (Map.empty, Map.empty, 1) of
           (byRef, byID, nxt) \<Rightarrow> (byRef, byID)))"

section \<open>Keys identify paths\<close>

text \<open>
  The invariant the constructors of paths keep: a field name is an identifier, so it holds neither
  a dot nor a bracket, and steps that are no field selection leave the name empty.
\<close>

definition wf_step :: "AccessStep \<Rightarrow> bool" where
  "wf_step s \<longleftrightarrow>
     (if Kind s = AccessField then CHR ''.'' \<notin> set (FieldName s) \<and> CHR ''['' \<notin> set (FieldName s)
      else FieldName s = [])"

definition wf_path :: "AccessPath \<Rightarrow> bool" where
  "wf_path p \<longleftrightarrow> list_all wf_step (Steps p)"

definition key_break :: "char \<Rightarrow> bool" where
  "key_break c \<longleftrightarrow> c = CHR ''.'' \<or> c = CHR ''[''"

definition at_break :: "go_string \<Rightarrow> bool" where
  "at_break s \<longleftrightarrow> s = [] \<or> key_break (hd s)"

lemma at_break_steps: "at_break (concat (map step_key ss))"
  by (cases ss) (auto simp: at_break_def key_break_def step_key_def split: AccessStepKind.splits)

lemma break_unique:
  assumes "\<forall>c \<in> set n. \<not> key_break c" "\<forall>c \<in> set m. \<not> key_break c" "at_break r" "at_break t"
    and "n @ r = m @ t"
  shows "n = m \<and> r = t"
proof -
  have tw: "takeWhile (\<lambda>c. \<not> key_break c) (x @ y) = x" if "\<forall>c \<in> set x. \<not> key_break c" "at_break y" for x y
    using that by (cases y) (auto simp: at_break_def takeWhile_append)
  from tw [of n r] tw [of m t] assms show ?thesis by auto
qed

lemma wf_field_no_break: "wf_step s \<Longrightarrow> Kind s = AccessField \<Longrightarrow> \<forall>c \<in> set (FieldName s). \<not> key_break c"
  by (auto simp: wf_step_def key_break_def)

lemma step_key_cons:
  assumes "wf_step s" "wf_step t" "at_break x" "at_break y" "step_key s @ x = step_key t @ y"
  shows "s = t \<and> x = y"
proof (cases "Kind s = AccessField \<and> Kind t = AccessField")
  case True
  with assms have "FieldName s @ x = FieldName t @ y" by (simp add: step_key_def)
  with True assms break_unique [of "FieldName s" "FieldName t" x y] show ?thesis
    by (auto simp: wf_field_no_break)
next
  case False
  with assms show ?thesis
    by (cases s; cases t) (auto simp: step_key_def wf_step_def split: AccessStepKind.splits)
qed

lemma steps_key_inject:
  "list_all wf_step ss \<Longrightarrow> list_all wf_step ts \<Longrightarrow>
     concat (map step_key ss) = concat (map step_key ts) \<Longrightarrow> ss = ts"
proof (induction ss arbitrary: ts)
  case Nil
  then show ?case by (cases ts) (auto simp: step_key_def split: AccessStepKind.splits)
next
  case (Cons s ss)
  show ?case
  proof (cases ts)
    case Nil
    with Cons show ?thesis by (auto simp: step_key_def split: AccessStepKind.splits)
  next
    case (Cons t us)
    with Cons.prems have "step_key s @ concat (map step_key ss) = step_key t @ concat (map step_key us)" by simp
    with Cons.prems Cons have "s = t \<and> concat (map step_key ss) = concat (map step_key us)"
      by (intro step_key_cons) (auto simp: at_break_steps)
    with Cons Cons.IH [of us] Cons.prems show ?thesis by simp
  qed
qed

lemma Equal_iff [path_simps]: "Equal p q \<longleftrightarrow> p = q"
proof
  assume e: "Equal p q"
  then have "Steps p = Steps q"
    by (intro nth_equalityI) (auto simp: Equal_def list_all_iff intro!: AccessStep.equality)
  moreover from e have "Root p = Root q" by (simp add: Equal_def)
  ultimately show "p = q" by simp
qed (simp add: Equal_def list_all_iff)

lemma CloneSteps_eq [simp]: "CloneSteps p = Steps p"
  by (simp add: CloneSteps_def)

lemma PathKey_inject:
  assumes "wf_path p" "wf_path q" "PathKey p = PathKey q"
  shows "p = q"
proof -
  have d: "\<forall>c \<in> set (dec_nat n). \<not> key_break c" for n
    using dec_nat_digits [of n] by (auto simp: key_break_def digit_char_def)
  have "dec_nat (unat (Root p)) = dec_nat (unat (Root q)) \<and>
        concat (map step_key (Steps p)) = concat (map step_key (Steps q))"
    using assms(3) by (intro break_unique d at_break_steps) (simp add: PathKey_def)
  then have "unat (Root p) = unat (Root q)" and "Steps p = Steps q"
    using assms(1,2) by (auto simp: wf_path_def intro: dec_nat_inject steps_key_inject)
  then show ?thesis by (simp add: word_unat_eq_iff)
qed

section \<open>What an interner promises\<close>

text \<open>A sequence of interning calls, with the results in call order.\<close>

fun intern_all :: "('s \<Rightarrow> 'a \<Rightarrow> 'r \<times> 's) \<Rightarrow> 's \<Rightarrow> 'a list \<Rightarrow> 'r list \<times> 's" where
  "intern_all intern s [] = ([], s)"
| "intern_all intern s (x # xs) =
     (case intern s x of (r, s') \<Rightarrow> (case intern_all intern s' xs of (rs, s'') \<Rightarrow> (r # rs, s'')))"

locale key_interner =
  fixes intern :: "'s \<Rightarrow> 'a \<Rightarrow> 'r \<times> 's"
    and key :: "'a \<Rightarrow> go_string"
    and look :: "'s \<Rightarrow> go_string \<rightharpoonup> 'r"
    and good :: "'s \<Rightarrow> bool"
  assumes good_intern: "good s \<Longrightarrow> good (snd (intern s x))"
    and hit: "look s (key x) = Some r \<Longrightarrow> intern s x = (r, s)"
    and miss: "good s \<Longrightarrow> look s (key x) = None \<Longrightarrow>
                 look (snd (intern s x)) = (look s)(key x \<mapsto> fst (intern s x))"
    and look_inject: "good s \<Longrightarrow> look s k = Some r \<Longrightarrow> look s k' = Some r \<Longrightarrow> k = k'"
begin

lemma intern_look: "good s \<Longrightarrow> look (snd (intern s x)) (key x) = Some (fst (intern s x))"
  by (cases "look s (key x)") (simp_all add: hit miss)

lemma intern_keeps: "good s \<Longrightarrow> look s k = Some r \<Longrightarrow> look (snd (intern s x)) k = Some r"
  by (cases "look s (key x)") (auto simp: hit miss)

lemma intern_dom: "good s \<Longrightarrow> dom (look (snd (intern s x))) = insert (key x) (dom (look s))"
  by (cases "look s (key x)") (auto simp: hit miss)

lemma good_all: "good s \<Longrightarrow> good (snd (intern_all intern s xs))"
  by (induction xs arbitrary: s) (auto simp: split_def good_intern)

lemma all_keeps: "good s \<Longrightarrow> look s k = Some r \<Longrightarrow> look (snd (intern_all intern s xs)) k = Some r"
  by (induction xs arbitrary: s) (auto simp: split_def good_intern intern_keeps)

lemma length_all: "length (fst (intern_all intern s xs)) = length xs"
  by (induction xs arbitrary: s) (auto simp: split_def)

lemma all_look:
  "good s \<Longrightarrow> i < length xs \<Longrightarrow>
     look (snd (intern_all intern s xs)) (key (xs ! i)) = Some (fst (intern_all intern s xs) ! i)"
proof (induction xs arbitrary: s i)
  case (Cons x xs)
  show ?case
  proof (cases i)
    case 0
    with Cons.prems show ?thesis by (simp add: split_def all_keeps good_intern intern_look)
  next
    case (Suc j)
    with Cons.prems Cons.IH [of "snd (intern s x)" j] show ?thesis by (simp add: split_def good_intern)
  qed
qed simp

lemma all_dom: "good s \<Longrightarrow> dom (look (snd (intern_all intern s xs))) = dom (look s) \<union> key ` set xs"
  by (induction xs arbitrary: s) (auto simp: split_def good_intern intern_dom)

text \<open>Two calls return the same object exactly when their arguments have the same key.\<close>

lemma shared_iff:
  assumes "good s" "i < length xs" "j < length xs"
  shows "fst (intern_all intern s xs) ! i = fst (intern_all intern s xs) ! j \<longleftrightarrow> key (xs ! i) = key (xs ! j)"
  using all_look [OF assms(1,2)] all_look [OF assms(1,3)] look_inject [OF good_all [OF assms(1), of xs]]
  by (metis option.inject)

end

definition interner_ok :: "PathInterner \<Rightarrow> bool" where
  "interner_ok pi \<longleftrightarrow>
     (\<forall>k a. byKey pi k = Some a \<longrightarrow> a < length (cells pi) \<and> PathKey (cells pi ! a) = k)"

lemma interner_ok_new: "interner_ok NewPathInterner"
  by (simp add: interner_ok_def NewPathInterner_def)

lemma interner_ok_Intern: "interner_ok pi \<Longrightarrow> interner_ok (snd (Intern pi p))"
  by (auto simp: interner_ok_def Intern_def Let_def nth_append PathKey_def intro: less_SucI split: option.splits)

interpretation paths: key_interner Intern PathKey byKey interner_ok
proof unfold_locales
  show "interner_ok s \<Longrightarrow> interner_ok (snd (Intern s x))" for s x by (rule interner_ok_Intern)
  show "byKey s (PathKey x) = Some r \<Longrightarrow> Intern s x = (r, s)" for s x r by (simp add: Intern_def)
  show "byKey s (PathKey x) = None \<Longrightarrow> byKey (snd (Intern s x)) = (byKey s)(PathKey x \<mapsto> fst (Intern s x))" for s x
    by (simp add: Intern_def Let_def)
  show "interner_ok s \<Longrightarrow> byKey s k = Some r \<Longrightarrow> byKey s k' = Some r \<Longrightarrow> k = k'" for s k k' r
    by (auto simp: interner_ok_def)
qed

lemma interned_cell:
  assumes "list_all wf_path ps" "i < length ps"
  shows "PathKey (cells (snd (intern_all Intern NewPathInterner ps)) ! (fst (intern_all Intern NewPathInterner ps) ! i))
           = PathKey (ps ! i)"
  using paths.all_look [OF interner_ok_new assms(2)] paths.good_all [OF interner_ok_new, of ps]
  by (auto simp: interner_ok_def)

text \<open>
  C29. Interning any sequence of well-formed paths: two calls return the same pointer exactly when
  the paths are equal, the interner ends with as many entries as there are distinct paths, and
  every returned pointer is the one stored under the key of the path that was interned.
\<close>

theorem Intern_canonical:
  assumes "list_all wf_path ps" and "i < length ps" and "j < length ps"
    and "intern_all Intern NewPathInterner ps = (rs, pi)"
  shows "(rs ! i = rs ! j \<longleftrightarrow> Equal (ps ! i) (ps ! j)) \<and>
         byKey pi (PathKey (ps ! i)) = Some (rs ! i) \<and>
         PathInterner_Len pi = card (set ps)"
proof -
  have wf: "wf_path p" if "p \<in> set ps" for p using assms(1) that by (simp add: list_all_iff)
  have inj: "inj_on PathKey (set ps)" by (rule inj_onI) (auto intro: PathKey_inject wf)
  have "rs ! i = rs ! j \<longleftrightarrow> PathKey (ps ! i) = PathKey (ps ! j)"
    using paths.shared_iff [OF interner_ok_new assms(2,3)] assms(4) by simp
  moreover have "\<dots> \<longleftrightarrow> Equal (ps ! i) (ps ! j)"
    using inj assms(2,3) by (auto simp: Equal_iff inj_on_def)
  moreover have "byKey pi (PathKey (ps ! i)) = Some (rs ! i)"
    using paths.all_look [OF interner_ok_new assms(2)] assms(4) by simp
  moreover have "PathInterner_Len pi = card (set ps)"
    using paths.all_dom [OF interner_ok_new, of ps] assms(4) card_image [OF inj]
    by (simp add: PathInterner_Len_def NewPathInterner_def)
  ultimately show ?thesis by blast
qed

definition sample_paths :: "AccessPath list" where
  "sample_paths =
     [\<lparr>Root = 1, Steps = [\<lparr>Kind = AccessField, FieldName = ''a''\<rparr>, \<lparr>Kind = AccessDeref, FieldName = []\<rparr>]\<rparr>,
      \<lparr>Root = 1, Steps = []\<rparr>,
      \<lparr>Root = 1, Steps = [\<lparr>Kind = AccessField, FieldName = ''a''\<rparr>, \<lparr>Kind = AccessDeref, FieldName = []\<rparr>]\<rparr>]"

theorem Intern_canonical_witness:
  "fst (intern_all Intern NewPathInterner sample_paths) ! 0 = fst (intern_all Intern NewPathInterner sample_paths) ! 2 \<and>
   fst (intern_all Intern NewPathInterner sample_paths) ! 0 \<noteq> fst (intern_all Intern NewPathInterner sample_paths) ! 1 \<and>
   PathInterner_Len (snd (intern_all Intern NewPathInterner sample_paths)) = 2"
proof -
  have wf: "list_all wf_path sample_paths" by (simp add: sample_paths_def wf_path_def wf_step_def)
  have run: "intern_all Intern NewPathInterner sample_paths =
      (fst (intern_all Intern NewPathInterner sample_paths), snd (intern_all Intern NewPathInterner sample_paths))"
    by simp
  have len: "length sample_paths = 3" by (simp add: sample_paths_def)
  have c: "card (set sample_paths) = 2" by (simp add: sample_paths_def card_insert_if)
  show ?thesis
    using Intern_canonical [OF wf _ _ run, of 0 2] Intern_canonical [OF wf _ _ run, of 0 1] len c
    by (simp add: sample_paths_def Equal_iff)
qed

text \<open>
  The interning key decides equality: well-formed access paths have the same key exactly when
  they are the same path.
\<close>

theorem PathKey_identifies:
  "wf_path p \<Longrightarrow> wf_path q \<Longrightarrow> PathKey p = PathKey q \<longleftrightarrow> Equal p q"
  using PathKey_inject [of p q] by (auto simp: Equal_iff)

theorem PathKey_identifies_witness:
  "PathKey (sample_paths ! 0) = PathKey (sample_paths ! 2) \<and> PathKey (sample_paths ! 0) \<noteq> PathKey (sample_paths ! 1)"
  using PathKey_identifies [of "sample_paths ! 0" "sample_paths ! 2"] PathKey_identifies [of "sample_paths ! 0" "sample_paths ! 1"]
  by (simp add: sample_paths_def wf_path_def wf_step_def Equal_iff)

section \<open>Sorting and renumbering\<close>

lemma sift_down_insert:
  "sorted pre \<Longrightarrow> sift_down (pre @ x # post) (length pre) = filter (\<lambda>y. y \<le> x) pre @ x # filter (\<lambda>y. x < y) pre @ post"
proof (induction pre arbitrary: post rule: rev_induct)
  case Nil
  then show ?case by simp
next
  case (snoc a pre)
  have nth: "((pre @ [a]) @ x # post) ! length pre = a" "((pre @ [a]) @ x # post) ! Suc (length pre) = x"
    by (simp_all add: nth_append)
  have upd: "((pre @ [a]) @ x # post)[length pre := x, Suc (length pre) := a] = pre @ x # a # post"
    by (simp add: list_update_append)
  show ?case
  proof (cases "x < a")
    case True
    have "sift_down ((pre @ [a]) @ x # post) (length (pre @ [a])) = sift_down (pre @ x # a # post) (length pre)"
      using True upd nth by simp
    with snoc True show ?thesis by (simp add: sorted_append)
  next
    case False
    have all: "\<forall>y \<in> set pre. y \<le> x" using snoc.prems False by (auto simp: sorted_append)
    then have "filter (\<lambda>y. y \<le> x) pre = pre" "filter (\<lambda>y. x < y) pre = []"
      by (auto simp: filter_id_conv filter_empty_conv)
    with False nth show ?thesis by simp
  qed
qed

lemma sorted_insert_filter:
  "sorted pre \<Longrightarrow> sorted (filter (\<lambda>y. y \<le> x) pre @ x # filter (\<lambda>y. x < y) pre)"
  by (auto simp: sorted_append sorted_filter [where f = "\<lambda>x. x", simplified])

lemma filter_split_mset: "mset (filter (\<lambda>y. y \<le> x) pre) + mset (filter (\<lambda>y. x < y) pre) = mset (pre :: 'a::linorder list)"
  by (induction pre) auto

lemma sort_prefix:
  "n \<le> length ss \<Longrightarrow>
     \<exists>pre. fold (\<lambda>i ss. sift_down ss i) [1..<n] ss = pre @ drop (max 1 n) ss \<and> sorted pre \<and> mset pre = mset (take (max 1 n) ss)"
proof (induction n)
  case 0
  then show ?case by (cases ss) (auto intro: exI [of _ "take 1 ss"])
next
  case (Suc n)
  show ?case
  proof (cases "n = 0")
    case True
    with Suc show ?thesis by (cases ss) (auto intro: exI [of _ "take 1 ss"])
  next
    case False
    with Suc obtain pre where pre: "fold (\<lambda>i ss. sift_down ss i) [1..<n] ss = pre @ drop n ss" "sorted pre"
      "mset pre = mset (take n ss)" by (auto simp: max_def)
    have len: "length pre = n" using arg_cong [OF pre(3), of size] Suc.prems by simp
    have d: "drop n ss = ss ! n # drop (Suc n) ss" using Suc.prems by (simp add: Cons_nth_drop_Suc)
    let ?new = "filter (\<lambda>y. y \<le> ss ! n) pre @ ss ! n # filter (\<lambda>y. ss ! n < y) pre"
    have "fold (\<lambda>i ss. sift_down ss i) [1..<Suc n] ss = ?new @ drop (Suc n) ss"
      using sift_down_insert [OF pre(2), of "ss ! n" "drop (Suc n) ss"] False pre(1) by (simp add: d len)
    moreover have "mset ?new = mset (take (Suc n) ss)"
      using filter_split_mset [of "ss ! n" pre] pre(3) Suc.prems by (simp add: take_Suc_conv_app_nth)
    ultimately show ?thesis using sorted_insert_filter [OF pre(2), of "ss ! n"] by (intro exI [of _ ?new]) (simp add: max_def)
  qed
qed

lemma sortStrings_sort: "sortStrings ss = sort ss"
proof -
  obtain pre where "sortStrings ss = pre @ drop (max 1 (length ss)) ss" "sorted pre" "mset pre = mset (take (max 1 (length ss)) ss)"
    using sort_prefix [of "length ss" ss] by (auto simp: sortStrings_def)
  then have "sorted (sortStrings ss)" "mset (sortStrings ss) = mset ss" by auto
  then show ?thesis by (metis properties_for_sort)
qed

lemma seen_refs_collects:
  assumes "seen_refs seen keys rs = (seen', keys')" and "dom seen = set keys" and "distinct keys"
    and "\<forall>k r. seen k = Some r \<longrightarrow> SymbolRef_Key r = k \<and> r \<in> R" and "set rs \<subseteq> R"
  shows "dom seen' = set keys' \<and> distinct keys' \<and> set keys' = set keys \<union> SymbolRef_Key ` set rs \<and>
         (\<forall>k r. seen' k = Some r \<longrightarrow> SymbolRef_Key r = k \<and> r \<in> R)"
  using assms
proof (induction seen keys rs arbitrary: seen' keys' rule: seen_refs.induct)
  case (1 seen keys)
  then show ?case by simp
next
  case (2 seen keys r rs)
  show ?case
  proof (cases "seen (SymbolRef_Key r) = None")
    case True
    then have fresh: "SymbolRef_Key r \<notin> set keys" using "2.prems"(2) by blast
    have run: "seen_refs (seen(SymbolRef_Key r \<mapsto> r)) (keys @ [SymbolRef_Key r]) rs = (seen', keys')"
      using "2.prems"(1) True by (simp add: Let_def)
    have inv: "dom (seen(SymbolRef_Key r \<mapsto> r)) = set (keys @ [SymbolRef_Key r])" "distinct (keys @ [SymbolRef_Key r])"
      using "2.prems"(2,3) fresh by simp_all
    have vals: "\<forall>k q. (seen(SymbolRef_Key r \<mapsto> r)) k = Some q \<longrightarrow> SymbolRef_Key q = k \<and> q \<in> R"
      using "2.prems"(4,5) by simp
    have "set rs \<subseteq> R" using "2.prems"(5) by simp
    from "2.IH"(2) [OF refl _ run inv vals this] True show ?thesis by simp
  next
    case False
    then have old: "SymbolRef_Key r \<in> set keys" using "2.prems"(2) by blast
    have run: "seen_refs seen keys rs = (seen', keys')" using "2.prems"(1) False by (simp add: Let_def)
    have "set rs \<subseteq> R" using "2.prems"(5) by simp
    from "2.IH"(1) [OF refl False run "2.prems"(2,3,4) this] old show ?thesis by auto
  qed
qed

lemma remap_step_simp [simp]:
  "remap_step seen k (R, D, m) = (R(the (seen k) \<mapsto> m), D(m \<mapsto> the (seen k)), m + 1)"
  by (simp add: remap_step_def Let_def)

lemma ex_nth_snoc:
  "(\<exists>n < length (ks @ [k]). P ((ks @ [k]) ! n) n) \<longleftrightarrow> (\<exists>n < length ks. P (ks ! n) n) \<or> P k (length ks)"
  by (simp add: less_Suc_eq ex_disj_distrib conj_disj_distribR nth_append cong: conj_cong)

lemma remap_fold:
  assumes "fold (remap_step seen) ks (Map.empty, Map.empty, 1) = (byRef, byID, nxt)"
    and "distinct (map (\<lambda>k. the (seen k)) ks)" and "length ks < 2 ^ 32"
  shows "nxt = of_nat (Suc (length ks)) \<and>
    (\<forall>r i. byRef r = Some i \<longleftrightarrow> (\<exists>n < length ks. the (seen (ks ! n)) = r \<and> i = of_nat (Suc n))) \<and>
    (\<forall>r i. byID i = Some r \<longleftrightarrow> (\<exists>n < length ks. the (seen (ks ! n)) = r \<and> i = of_nat (Suc n)))"
  using assms
proof (induction ks arbitrary: byRef byID nxt rule: rev_induct)
  case Nil
  then show ?case by auto
next
  case (snoc k ks)
  obtain R D m where st: "fold (remap_step seen) ks (Map.empty, Map.empty, 1) = (R, D, m)" by (cases "fold (remap_step seen) ks (Map.empty, Map.empty, 1)")
  from snoc.IH [OF st] snoc.prems(2,3) have m: "m = of_nat (Suc (length ks))"
    and R: "\<And>r i. R r = Some i \<longleftrightarrow> (\<exists>n < length ks. the (seen (ks ! n)) = r \<and> i = of_nat (Suc n))"
    and D: "\<And>r i. D i = Some r \<longleftrightarrow> (\<exists>n < length ks. the (seen (ks ! n)) = r \<and> i = of_nat (Suc n))" by auto
  have new: "byRef = R(the (seen k) \<mapsto> m)" "byID = D(m \<mapsto> the (seen k))" "nxt = m + 1"
    using snoc.prems(1) by (auto simp: st)
  have fresh_ref: "the (seen (ks ! n)) \<noteq> the (seen k)" if "n < length ks" for n
    using snoc.prems(2) that by (auto simp: image_iff) (metis nth_mem)
  have fresh_id: "of_nat (Suc n) \<noteq> (of_nat (Suc (length ks)) :: 32 word)" if "n < length ks" for n
  proof
    assume "of_nat (Suc n) = (of_nat (Suc (length ks)) :: 32 word)"
    then have "unat (of_nat (Suc n) :: 32 word) = unat (of_nat (Suc (length ks)) :: 32 word)" by simp
    with that snoc.prems(3) show False by (simp add: unat_of_nat take_bit_nat_eq_self del: of_nat_Suc)
  qed
  have "byRef r = Some i \<longleftrightarrow> (\<exists>n < length (ks @ [k]). the (seen ((ks @ [k]) ! n)) = r \<and> i = of_nat (Suc n))" for r i
    using fresh_ref unfolding ex_nth_snoc [where P = "\<lambda>x n. the (seen x) = r \<and> i = of_nat (Suc n)"] by (auto simp: new R m)
  moreover have "byID i = Some r \<longleftrightarrow> (\<exists>n < length (ks @ [k]). the (seen ((ks @ [k]) ! n)) = r \<and> i = of_nat (Suc n))" for r i
    using fresh_id unfolding ex_nth_snoc [where P = "\<lambda>x n. the (seen x) = r \<and> i = of_nat (Suc n)"] new(2) m by (auto simp: D simp del: of_nat_Suc) blast
  moreover have "nxt = of_nat (Suc (length (ks @ [k])))" by (simp add: new m)
  ultimately show ?case by blast
qed

definition plain_ref :: "SymbolRef \<Rightarrow> bool" where
  "plain_ref r \<longleftrightarrow> CHR 0x00 \<notin> set (Package r)"

lemma SymbolRef_Key_inject:
  assumes "plain_ref r" "plain_ref s" "SymbolRef_Key r = SymbolRef_Key s" shows "r = s"
proof -
  have "takeWhile (\<lambda>c. c \<noteq> CHR 0x00) (SymbolRef_Key q) = Package q" if "plain_ref q" for q
    using that by (auto simp: SymbolRef_Key_def plain_ref_def takeWhile_append)
  from this [OF assms(1)] this [OF assms(2)] assms(3) have "Package r = Package s" by simp
  with assms(3) show ?thesis by (simp add: SymbolRef_Key_def)
qed

lemma strict_sorted_nth:
  "sorted xs \<Longrightarrow> distinct xs \<Longrightarrow> n < length xs \<Longrightarrow> k < length xs \<Longrightarrow> xs ! n < xs ! k \<longleftrightarrow> n < (k :: nat)"
  for xs :: "'a :: linorder list"
  by (metis linorder_neqE_nat not_less_iff_gr_or_eq sorted_wrt_nth_less strict_sorted_iff)

text \<open>
  Loading symbol references: on references whose package names hold no NUL byte, and fewer
  than \<open>2^32\<close> distinct ones, the two tables are inverse to each other, every reference gets an
  identifier, the identifiers are exactly \<open>1 .. n\<close>, and they follow the order of the keys, so that
  the numbering does not depend on the order in which the references were loaded.
\<close>

theorem RemapSymbolRefs_dense:
  assumes "list_all plain_ref refs" and "card (set refs) < 2 ^ 32"
    and "RemapSymbolRefs refs = (byRef, byID)"
  shows "dom byRef = set refs \<and>
    (\<forall>r i. byRef r = Some i \<longleftrightarrow> byID i = Some r) \<and>
    dom byID = {i. 1 \<le> unat i \<and> unat i \<le> card (set refs)} \<and>
    (\<forall>r s i j. byRef r = Some i \<and> byRef s = Some j \<longrightarrow> (SymbolRef_Key r < SymbolRef_Key s \<longleftrightarrow> i < j))"
proof -
  let ?K = "sort (snd (seen_refs Map.empty [] refs))" and ?seen = "fst (seen_refs Map.empty [] refs)"
  have inj: "inj_on SymbolRef_Key (set refs)"
    using assms(1) by (auto simp: list_all_iff intro!: inj_onI SymbolRef_Key_inject)
  have col: "dom ?seen = set ?K" "distinct ?K" "set ?K = SymbolRef_Key ` set refs"
    and vals: "\<And>k r. ?seen k = Some r \<Longrightarrow> SymbolRef_Key r = k \<and> r \<in> set refs"
    using seen_refs_collects [of Map.empty "[]" refs ?seen "snd (seen_refs Map.empty [] refs)" "set refs"] by auto
  have len: "length ?K = card (set refs)"
    using distinct_card [OF col(2)] card_image [OF inj] col(3) by simp
  let ?at = "\<lambda>n. the (?seen (?K ! n))"
  have at: "?at n \<in> set refs \<and> SymbolRef_Key (?at n) = ?K ! n" if "n < length ?K" for n
  proof -
    have "?K ! n \<in> dom ?seen" using that col(1) nth_mem by blast
    then show ?thesis using vals by auto
  qed
  have dist: "distinct (map (\<lambda>k. the (?seen k)) ?K)"
    using at col(2) by (auto simp: distinct_conv_nth) metis
  obtain m where "fold (remap_step ?seen) ?K (Map.empty, Map.empty, 1) = (byRef, byID, m)"
    using assms(3) by (auto simp: RemapSymbolRefs_def sortStrings_sort split_def prod_eq_iff)
  from remap_fold [OF this dist] len assms(2)
  have R: "\<And>r i. byRef r = Some i \<longleftrightarrow> (\<exists>n < length ?K. ?at n = r \<and> i = of_nat (Suc n))"
    and D: "\<And>r i. byID i = Some r \<longleftrightarrow> (\<exists>n < length ?K. ?at n = r \<and> i = of_nat (Suc n))" by simp_all
  have idn: "unat (of_nat (Suc n) :: SymbolID) = Suc n" if "n < length ?K" for n
    using that len assms(2) by (simp add: unat_of_nat take_bit_nat_eq_self del: of_nat_Suc)
  have "r \<in> dom byRef" if "r \<in> set refs" for r
  proof -
    have "SymbolRef_Key r \<in> set ?K" using that col(3) by simp
    then obtain n where n: "n < length ?K" "?K ! n = SymbolRef_Key r" by (metis in_set_conv_nth)
    with at [OF n(1)] inj that have "?at n = r" by (simp add: inj_on_def)
    with n(1) R show ?thesis by blast
  qed
  moreover have "dom byRef \<subseteq> set refs" using R at by auto
  ultimately have 1: "dom byRef = set refs" by blast
  have 2: "\<forall>r i. byRef r = Some i \<longleftrightarrow> byID i = Some r" using R D by simp
  have "i \<in> dom byID" if "1 \<le> unat i" "unat i \<le> card (set refs)" for i
  proof -
    have "unat i - 1 < length ?K" "i = of_nat (Suc (unat i - 1))" using that len by (simp_all del: of_nat_Suc)
    then show ?thesis using D by blast
  qed
  moreover have "1 \<le> unat i \<and> unat i \<le> card (set refs)" if "i \<in> dom byID" for i
    using that D idn len by (auto simp del: of_nat_Suc)
  ultimately have 3: "dom byID = {i. 1 \<le> unat i \<and> unat i \<le> card (set refs)}" by blast
  have "SymbolRef_Key r < SymbolRef_Key s \<longleftrightarrow> i < j" if br: "byRef r = Some i" and bs: "byRef s = Some j" for r s i j
  proof -
    obtain n where n: "n < length ?K" "?at n = r" "i = of_nat (Suc n)" using R [THEN iffD1, OF br] by blast
    obtain k where k: "k < length ?K" "?at k = s" "j = of_nat (Suc k)" using R [THEN iffD1, OF bs] by blast
    have "?K ! n < ?K ! k \<longleftrightarrow> n < k" using n(1) k(1) col(2) by (intro strict_sorted_nth) simp_all
    then show ?thesis using at [OF n(1)] at [OF k(1)] n k idn by (simp add: word_less_nat_alt del: of_nat_Suc)
  qed
  with 1 2 3 show ?thesis by blast
qed

definition sample_refs :: "SymbolRef list" where
  "sample_refs = [\<lparr>Package = ''b'', Name = ''x''\<rparr>, \<lparr>Package = ''a'', Name = ''y''\<rparr>, \<lparr>Package = ''b'', Name = ''x''\<rparr>]"

theorem RemapSymbolRefs_dense_witness:
  "dom (fst (RemapSymbolRefs sample_refs)) = set sample_refs \<and>
   dom (snd (RemapSymbolRefs sample_refs)) = {i. 1 \<le> unat i \<and> unat i \<le> 2}"
proof -
  have p: "list_all plain_ref sample_refs" by (simp add: sample_refs_def plain_ref_def)
  have c: "card (set sample_refs) = 2" by (simp add: sample_refs_def card_insert_if)
  show ?thesis using RemapSymbolRefs_dense [OF p _ surjective_pairing] c by simp
qed

end
