(* ===== verification/Predicates.thy ===== *)
theory Predicates
  imports AssertionIR AccessPath
begin

text \<open>
  \<open>internal/typechecker/predicate.go\<close>: canonical predicates. A predicate is flattened, its children
  are sorted by key and deduplicated, and the result is shared through a table indexed by the key.
  The interner is not nil (the type checker always has one), so its state is the table itself.
\<close>

section \<open>Data\<close>

datatype PredicateConnective = PredAtom | PredAll | PredAny

record Operand =
  OpName :: go_string
  ArgsKey :: go_string
  OpRuntimeOnly :: bool

definition Operand_Key :: "Operand \<Rightarrow> go_string" where
  "Operand_Key op = OpName op @ ''('' @ ArgsKey op @ '')'' @ (if OpRuntimeOnly op then ''@runtime'' else [])"

datatype Predicate = Predicate (Conn: PredicateConnective) (POperand: "Operand option")
  (Children: "Predicate list") (pkey: go_string)

type_synonym PredicateInterner = "go_string \<rightharpoonup> Predicate"

definition Predicate_Key :: "Predicate option \<Rightarrow> go_string" where
  "Predicate_Key p = (case p of None \<Rightarrow> [] | Some q \<Rightarrow> pkey q)"

definition NewPredicateInterner :: PredicateInterner where
  "NewPredicateInterner = Map.empty"

section \<open>Keys and interning\<close>

definition joinPredKeys :: "Predicate list \<Rightarrow> go_string" where
  "joinPredKeys children = join_strings ''|'' (map pkey children)"

definition computePredicateKey :: "Predicate \<Rightarrow> go_string" where
  "computePredicateKey p =
     (case Conn p of
        PredAtom \<Rightarrow> ''atom:'' @ (case POperand p of None \<Rightarrow> [] | Some op \<Rightarrow> Operand_Key op)
      | PredAll \<Rightarrow> ''all:'' @ joinPredKeys (Children p)
      | PredAny \<Rightarrow> ''any:'' @ joinPredKeys (Children p))"

text \<open>\<open>p.key = computePredicateKey(p)\<close>, then the lookup.\<close>

definition set_key :: "Predicate \<Rightarrow> Predicate" where
  "set_key p = Predicate (Conn p) (POperand p) (Children p) (computePredicateKey p)"

definition intern :: "PredicateInterner \<Rightarrow> Predicate \<Rightarrow> Predicate \<times> PredicateInterner" where
  "intern pi p =
     (let p' = set_key p
      in case pi (pkey p') of
           Some existing \<Rightarrow> (existing, pi)
         | None \<Rightarrow> (p', pi(pkey p' \<mapsto> p')))"

primrec flatten_pred :: "PredicateConnective \<Rightarrow> Predicate \<Rightarrow> Predicate list" where
  "flatten_pred conn (Predicate c op ch k) =
     (if c = conn then concat (map (flatten_pred conn) ch) else [Predicate c op ch k])"

text \<open>Nil children are skipped.\<close>

definition flattenPredChildren :: "PredicateConnective \<Rightarrow> Predicate option list \<Rightarrow> Predicate list" where
  "flattenPredChildren conn children =
     concat (map (\<lambda>c. case c of None \<Rightarrow> [] | Some p \<Rightarrow> flatten_pred conn p) children)"

definition dedupePredChildren :: "Predicate list \<Rightarrow> Predicate list" where
  "dedupePredChildren children = (if children = [] then [] else dedup_by pkey {} children)"

definition internConnective ::
  "PredicateInterner \<Rightarrow> PredicateConnective \<Rightarrow> Predicate option list \<Rightarrow> Predicate \<times> PredicateInterner" where
  "internConnective pi conn children =
     (let flat = dedupePredChildren (sort_key pkey (flattenPredChildren conn children))
      in case flat of
           [] \<Rightarrow> intern pi (Predicate conn None [] [])
         | [p] \<Rightarrow> (p, pi)
         | _ \<Rightarrow> intern pi (Predicate conn None flat []))"

definition InternAtom :: "PredicateInterner \<Rightarrow> Operand \<Rightarrow> Predicate \<times> PredicateInterner" where
  "InternAtom pi op = intern pi (Predicate PredAtom (Some op) [] [])"

definition InternAll :: "PredicateInterner \<Rightarrow> Predicate option list \<Rightarrow> Predicate \<times> PredicateInterner" where
  "InternAll pi children = internConnective pi PredAll children"

definition InternAny :: "PredicateInterner \<Rightarrow> Predicate option list \<Rightarrow> Predicate \<times> PredicateInterner" where
  "InternAny pi children = internConnective pi PredAny children"

definition atomArgsKey :: "TypeIdent option \<Rightarrow> ConstraintArgumentNode list \<Rightarrow> go_string" where
  "atomArgsKey base args =
     join_strings '','' ((case base of Some b \<Rightarrow> [''base:'' @ b] | None \<Rightarrow> []) @ map ConstraintArgument_String args)"

definition atom_operand :: "go_string \<Rightarrow> TypeIdent option \<Rightarrow> ConstraintArgumentNode list \<Rightarrow> bool \<Rightarrow> Operand" where
  "atom_operand name base args runtime = \<lparr>OpName = name, ArgsKey = atomArgsKey base args, OpRuntimeOnly = runtime\<rparr>"

text \<open>\<open>FromAssertion\<close> threads the table through the children from left to right.\<close>

fun FromAssertion :: "PredicateInterner \<Rightarrow> Assertion \<Rightarrow> Predicate \<times> PredicateInterner"
  and from_children :: "PredicateInterner \<Rightarrow> Assertion list \<Rightarrow> Predicate list \<times> PredicateInterner" where
  "FromAssertion pi (Atom name base args runtime) = InternAtom pi (atom_operand name base args runtime)"
| "FromAssertion pi (AllOf cs) = (case from_children pi cs of (kids, pi') \<Rightarrow> InternAll pi' (map Some kids))"
| "FromAssertion pi (AnyOf cs) = (case from_children pi cs of (kids, pi') \<Rightarrow> InternAny pi' (map Some kids))"
| "from_children pi [] = ([], pi)"
| "from_children pi (c # cs) =
     (case FromAssertion pi c of (p, pi') \<Rightarrow>
        (case from_children pi' cs of (ps, pi'') \<Rightarrow> (p # ps, pi'')))"

primrec Predicate_Shape :: "Predicate \<Rightarrow> go_string" where
  "Predicate_Shape (Predicate c op ch k) =
     (case c of
        PredAtom \<Rightarrow> ''Atom('' @ (case op of None \<Rightarrow> [] | Some x \<Rightarrow> OpName x) @ '')''
      | PredAll \<Rightarrow> ''All('' @ join_strings '','' (map Predicate_Shape ch) @ '')''
      | PredAny \<Rightarrow> ''Any('' @ join_strings '','' (map Predicate_Shape ch) @ '')'')"

section \<open>Meaning\<close>

text \<open>Truth of a predicate and of an assertion, given the truth of the operands.\<close>

primrec pred_holds :: "(Operand \<Rightarrow> bool) \<Rightarrow> Predicate \<Rightarrow> bool" where
  "pred_holds v (Predicate c op ch k) =
     (case c of
        PredAtom \<Rightarrow> (case op of None \<Rightarrow> False | Some x \<Rightarrow> v x)
      | PredAll \<Rightarrow> list_all (\<lambda>b. b) (map (pred_holds v) ch)
      | PredAny \<Rightarrow> list_ex (\<lambda>b. b) (map (pred_holds v) ch))"

primrec ir_holds :: "(Operand \<Rightarrow> bool) \<Rightarrow> Assertion \<Rightarrow> bool" where
  "ir_holds v (Atom name base args runtime) = v (atom_operand name base args runtime)"
| "ir_holds v (AllOf cs) = list_all (\<lambda>b. b) (map (ir_holds v) cs)"
| "ir_holds v (AnyOf cs) = list_ex (\<lambda>b. b) (map (ir_holds v) cs)"

section \<open>The table as an interner\<close>

definition table_ok :: "PredicateInterner \<Rightarrow> bool" where
  "table_ok pi \<longleftrightarrow> (\<forall>k p. pi k = Some p \<longrightarrow> pkey p = k)"

interpretation preds: key_interner intern computePredicateKey "\<lambda>pi. pi" table_ok
proof unfold_locales
  show "table_ok s \<Longrightarrow> table_ok (snd (intern s x))" for s x
    by (auto simp: table_ok_def intern_def Let_def set_key_def split: option.splits)
  show "s (computePredicateKey x) = Some r \<Longrightarrow> intern s x = (r, s)" for s x r
    by (simp add: intern_def set_key_def)
  show "s (computePredicateKey x) = None \<Longrightarrow> snd (intern s x) = s(computePredicateKey x \<mapsto> fst (intern s x))" for s x
    by (simp add: intern_def Let_def set_key_def)
  show "table_ok s \<Longrightarrow> s k = Some r \<Longrightarrow> s k' = Some r \<Longrightarrow> k = k'" for s k k' r
    by (auto simp: table_ok_def)
qed

section \<open>Canonical predicates over plain operands\<close>

text \<open>An operand whose name has no opening parenthesis and whose key has no vertical bar.\<close>

definition plain_operand :: "Operand \<Rightarrow> bool" where
  "plain_operand op \<longleftrightarrow> CHR ''('' \<notin> set (OpName op) \<and> CHR ''|'' \<notin> set (Operand_Key op)"

lemma Operand_Key_inject:
  assumes "plain_operand a" "plain_operand b" "Operand_Key a = Operand_Key b" shows "a = b"
proof -
  have n: "takeWhile (\<lambda>c. c \<noteq> CHR ''('') (Operand_Key x) = OpName x" if "plain_operand x" for x
    using that by (auto simp: Operand_Key_def plain_operand_def takeWhile_append)
  have r: "last (Operand_Key x) = CHR ''e'' \<longleftrightarrow> OpRuntimeOnly x" for x
    by (simp add: Operand_Key_def)
  have "OpName a = OpName b" using n [OF assms(1)] n [OF assms(2)] assms(3) by simp
  moreover have "OpRuntimeOnly a = OpRuntimeOnly b" using r [of a] r [of b] assms(3) by simp
  ultimately show ?thesis using assms(3) by (auto simp: Operand_Key_def split: if_splits)
qed

definition atom_pred :: "Operand \<Rightarrow> Predicate" where
  "atom_pred op = Predicate PredAtom (Some op) [] (''atom:'' @ Operand_Key op)"

definition conn_pred :: "PredicateConnective \<Rightarrow> Operand list \<Rightarrow> Predicate" where
  "conn_pred conn ops = set_key (Predicate conn None (map atom_pred ops) [])"

definition flat_canonical :: "Predicate \<Rightarrow> bool" where
  "flat_canonical p \<longleftrightarrow>
     (\<exists>op. plain_operand op \<and> p = atom_pred op) \<or>
     (\<exists>conn ops. conn \<noteq> PredAtom \<and> list_all plain_operand ops \<and> p = conn_pred conn ops)"

lemma join_head:
  assumes "c \<notin> set x"
  shows "takeWhile (\<lambda>d. d \<noteq> c) (join_strings [c] (x # xs)) = x"
    and "dropWhile (\<lambda>d. d \<noteq> c) (join_strings [c] (x # xs)) = (if xs = [] then [] else c # join_strings [c] xs)"
  using assms by (cases xs; auto simp: takeWhile_append dropWhile_append)+

lemma join_nonempty: "x \<noteq> [] \<Longrightarrow> join_strings sep (x # xs) \<noteq> []"
  by (cases xs) auto

lemma join_inject:
  assumes "list_all (\<lambda>s. s \<noteq> [] \<and> c \<notin> set s) xs" "list_all (\<lambda>s. s \<noteq> [] \<and> c \<notin> set s) ys"
    and "join_strings [c] xs = join_strings [c] ys"
  shows "xs = ys"
  using assms
proof (induction xs arbitrary: ys)
  case Nil
  then show ?case by (cases ys) (auto dest: join_nonempty [of _ "[c]"] simp: eq_commute [of "[]"])
next
  case (Cons x xs)
  obtain y zs where ys: "ys = y # zs" using Cons.prems join_nonempty [of x "[c]" xs] by (cases ys) auto
  have x: "c \<notin> set x" and y: "c \<notin> set y" using Cons.prems ys by auto
  have "x = y" using join_head(1) [OF x, of xs] join_head(1) [OF y, of zs] Cons.prems(3) ys by simp
  moreover have "xs = [] \<longleftrightarrow> zs = []" "join_strings [c] xs = join_strings [c] zs"
    using join_head(2) [OF x, of xs] join_head(2) [OF y, of zs] Cons.prems(3) ys by (auto split: if_splits)
  ultimately show ?case using Cons.IH [of zs] Cons.prems ys by simp
qed

lemma pkey_atom_pred: "plain_operand op \<Longrightarrow> pkey (atom_pred op) \<noteq> [] \<and> CHR ''|'' \<notin> set (pkey (atom_pred op))"
  by (simp add: atom_pred_def plain_operand_def)

lemma atom_pred_inject:
  "plain_operand a \<Longrightarrow> plain_operand b \<Longrightarrow> pkey (atom_pred a) = pkey (atom_pred b) \<Longrightarrow> a = b"
  by (rule Operand_Key_inject) (simp_all add: atom_pred_def)

lemma pkey_conn_pred:
  "conn \<noteq> PredAtom \<Longrightarrow>
     pkey (conn_pred conn ops) =
       (if conn = PredAll then ''all:'' else ''any:'') @ join_strings ''|'' (map pkey (map atom_pred ops))"
  by (cases conn) (simp_all add: conn_pred_def set_key_def computePredicateKey_def joinPredKeys_def)

lemma conn_pred_inject:
  assumes "conn \<noteq> PredAtom" "conn' \<noteq> PredAtom" "list_all plain_operand ops" "list_all plain_operand ops'"
    and "pkey (conn_pred conn ops) = pkey (conn_pred conn' ops')"
  shows "conn = conn' \<and> ops = ops'"
proof -
  have c: "conn = conn'" using assms(1,2,5) by (cases conn; cases conn') (simp_all add: pkey_conn_pred)
  with assms(1,5) have "join_strings ''|'' (map pkey (map atom_pred ops)) = join_strings ''|'' (map pkey (map atom_pred ops'))"
    by (simp add: pkey_conn_pred)
  then have "map pkey (map atom_pred ops) = map pkey (map atom_pred ops')"
    using assms(3,4) by (intro join_inject) (auto simp: list_all_iff dest: pkey_atom_pred)
  then have "ops = ops'" using assms(3,4)
  proof (induction ops arbitrary: ops')
    case (Cons a ops)
    then show ?case by (cases ops') (auto intro: atom_pred_inject)
  qed simp
  with c show ?thesis by simp
qed

lemma flat_canonical_inject:
  assumes "flat_canonical p" "flat_canonical q" "pkey p = pkey q" shows "p = q"
proof -
  have d: "pkey (atom_pred op) \<noteq> pkey (conn_pred conn ops)" if "conn \<noteq> PredAtom" for op conn ops
    using that by (simp add: pkey_conn_pred atom_pred_def)
  show ?thesis using assms(1,2) unfolding flat_canonical_def
  proof (elim disjE exE conjE)
    fix a b assume "plain_operand a" "plain_operand b" "p = atom_pred a" "q = atom_pred b"
    with assms(3) show ?thesis using atom_pred_inject [of a b] by simp
  next
    fix a conn ops assume "p = atom_pred a" "q = conn_pred conn ops" "conn \<noteq> PredAtom"
    with assms(3) d show ?thesis by metis
  next
    fix a conn ops assume "q = atom_pred a" "p = conn_pred conn ops" "conn \<noteq> PredAtom"
    with assms(3) d show ?thesis by metis
  next
    fix conn ops conn' ops' assume "conn \<noteq> PredAtom" "list_all plain_operand ops" "p = conn_pred conn ops"
      "conn' \<noteq> PredAtom" "list_all plain_operand ops'" "q = conn_pred conn' ops'"
    with assms(3) show ?thesis using conn_pred_inject [of conn conn' ops ops'] by simp
  qed
qed

definition flat_table :: "PredicateInterner \<Rightarrow> bool" where
  "flat_table pi \<longleftrightarrow> table_ok pi \<and> (\<forall>k p. pi k = Some p \<longrightarrow> flat_canonical p)"

text \<open>On a table of such predicates the lookup never returns another predicate.\<close>

lemma intern_flat:
  assumes "flat_table pi" "flat_canonical (set_key p)"
  shows "fst (intern pi p) = set_key p \<and> flat_table (snd (intern pi p))"
proof (cases "pi (pkey (set_key p))")
  case None
  with assms show ?thesis by (auto simp: intern_def Let_def flat_table_def table_ok_def)
next
  case (Some e)
  with assms(1) have "flat_canonical e" "pkey e = pkey (set_key p)" by (auto simp: flat_table_def table_ok_def)
  with assms(2) have "e = set_key p" by (intro flat_canonical_inject)
  with Some assms(1) show ?thesis by (simp add: intern_def)
qed

lemma InternAtom_flat:
  assumes "flat_table pi" "plain_operand op"
  shows "fst (InternAtom pi op) = atom_pred op \<and> flat_table (snd (InternAtom pi op))"
proof -
  have "set_key (Predicate PredAtom (Some op) [] []) = atom_pred op"
    by (simp add: set_key_def computePredicateKey_def atom_pred_def)
  with assms intern_flat [of pi "Predicate PredAtom (Some op) [] []"] show ?thesis
    by (auto simp: InternAtom_def flat_canonical_def)
qed

section \<open>Connectives over atoms\<close>

definition canonical_children :: "Operand list \<Rightarrow> Predicate list" where
  "canonical_children ops = dedupePredChildren (sort_key pkey (map atom_pred ops))"

lemma flatten_atoms: "conn \<noteq> PredAtom \<Longrightarrow> flattenPredChildren conn (map Some (map atom_pred ops)) = map atom_pred ops"
  by (induction ops) (auto simp: flattenPredChildren_def atom_pred_def)

lemma set_canonical_children:
  assumes "list_all plain_operand ops"
  shows "set (canonical_children ops) = atom_pred ` set ops"
proof -
  have "set (canonical_children ops) = set (dedup_by pkey {} (sort_key pkey (map atom_pred ops)))"
    by (simp add: canonical_children_def dedupePredChildren_def)
  moreover have "set (dedup_by pkey {} (sort_key pkey (map atom_pred ops))) \<subseteq> atom_pred ` set ops"
    using dedup_by_subset [of pkey "{}" "sort_key pkey (map atom_pred ops)"] by simp
  moreover have "x \<in> set (dedup_by pkey {} (sort_key pkey (map atom_pred ops)))" if x: "x \<in> atom_pred ` set ops" for x
  proof -
    obtain y where y: "y \<in> set (dedup_by pkey {} (sort_key pkey (map atom_pred ops)))" "pkey y = pkey x"
      using dedup_by_covers [of x "sort_key pkey (map atom_pred ops)" pkey "{}"] x by auto
    then have "y \<in> atom_pred ` set ops" using dedup_by_subset [of pkey "{}" "sort_key pkey (map atom_pred ops)"] by auto
    with x y assms have "y = x" by (auto simp: list_all_iff dest: atom_pred_inject)
    with y show ?thesis by simp
  qed
  ultimately show ?thesis by auto
qed

lemma canonical_children_keys: "sorted (map pkey (canonical_children ops)) \<and> distinct (map pkey (canonical_children ops))"
  by (simp add: canonical_children_def dedupePredChildren_def sorted_map_dedup_by dedup_by_distinct)

lemma canonical_children_unique:
  assumes "set ops = set ops'" "list_all plain_operand ops"
  shows "canonical_children ops = canonical_children ops'"
proof -
  have p: "list_all plain_operand ops'" using assms by (simp add: list_all_iff)
  have s: "set (canonical_children ops) = set (canonical_children ops')"
    using set_canonical_children [OF assms(2)] set_canonical_children [OF p] assms(1) by simp
  then have "map pkey (canonical_children ops) = map pkey (canonical_children ops')"
    using canonical_children_keys by (intro sorted_distinct_set_unique) (auto simp: image_set [symmetric])
  moreover have "inj_on pkey (set (canonical_children ops) \<union> set (canonical_children ops'))"
    unfolding s [symmetric] set_canonical_children [OF assms(2)] Un_absorb
    using assms(2) by (auto simp: inj_on_def list_all_iff dest: atom_pred_inject)
  ultimately show ?thesis by (rule map_inj_on)
qed

lemma atoms_as_operands:
  assumes "list_all plain_operand ops"
  shows "\<exists>ops'. canonical_children ops = map atom_pred ops' \<and> list_all plain_operand ops' \<and> set ops' = set ops"
proof (intro exI conjI)
  let ?ops' = "map (\<lambda>p. the (POperand p)) (canonical_children ops)"
  have "atom_pred (the (POperand p)) = p" if "p \<in> set (canonical_children ops)" for p
    using that by (auto simp: set_canonical_children [OF assms] atom_pred_def)
  then show "canonical_children ops = map atom_pred ?ops'" by (simp add: map_idI)
  have "set ?ops' = (\<lambda>op. op) ` set ops"
    by (simp only: set_map set_canonical_children [OF assms] image_image) (simp add: atom_pred_def)
  then show "set ?ops' = set ops" by simp
  with assms show "list_all plain_operand ?ops'" unfolding list_all_iff by metis
qed

text \<open>The result over atoms does not depend on the table: it is a function of the set of operands.\<close>

definition connective_of :: "PredicateConnective \<Rightarrow> Operand list \<Rightarrow> Predicate" where
  "connective_of conn ops =
     (case canonical_children ops of [p] \<Rightarrow> p | ch \<Rightarrow> set_key (Predicate conn None ch []))"

lemma internConnective_flat:
  assumes "flat_table pi" "list_all plain_operand ops" "conn \<noteq> PredAtom"
  shows "fst (internConnective pi conn (map Some (map atom_pred ops))) = connective_of conn ops \<and>
         flat_table (snd (internConnective pi conn (map Some (map atom_pred ops))))"
proof -
  obtain ops' where ch: "canonical_children ops = map atom_pred ops'" and p: "list_all plain_operand ops'"
    using atoms_as_operands [OF assms(2)] by blast
  have eq: "internConnective pi conn (map Some (map atom_pred ops)) =
      (case canonical_children ops of [] \<Rightarrow> intern pi (Predicate conn None [] []) | [p] \<Rightarrow> (p, pi)
         | ps \<Rightarrow> intern pi (Predicate conn None (canonical_children ops) []))"
    unfolding internConnective_def flatten_atoms [OF assms(3)] canonical_children_def Let_def ..
  have "flat_canonical (set_key (Predicate conn None (canonical_children ops) []))"
    using assms(3) p ch by (auto simp: flat_canonical_def conn_pred_def)
  from intern_flat [OF assms(1) this] assms(1) show ?thesis
    unfolding eq connective_of_def by (auto split: list.splits)
qed

lemma pred_holds_atom [simp]: "pred_holds v (atom_pred op) = v op"
  by (simp add: atom_pred_def)

lemma connective_of_holds:
  assumes "list_all plain_operand ops" "conn \<noteq> PredAtom"
  shows "pred_holds v (connective_of conn ops) =
     (if conn = PredAll then \<forall>op \<in> set ops. v op else \<exists>op \<in> set ops. v op)"
proof -
  obtain ops' where ch: "canonical_children ops = map atom_pred ops'" and s: "set ops' = set ops"
    using atoms_as_operands [OF assms(1)] by blast
  have "pred_holds v (connective_of conn ops) =
     (if conn = PredAll then \<forall>op \<in> set ops'. v op else \<exists>op \<in> set ops'. v op)"
    using assms(2)
    by (cases conn; cases ops' rule: remdups_adj.cases)
       (auto simp: connective_of_def ch set_key_def list_all_iff list_ex_iff)
  with s show ?thesis by simp
qed

section \<open>From assertions to predicates\<close>

text \<open>What one dotted chain, and a disjunction of single constraints, lower to.\<close>

definition atom_op :: "Assertion \<Rightarrow> Operand option" where
  "atom_op a = (case a of Atom name base args runtime \<Rightarrow> Some (atom_operand name base args runtime) | _ \<Rightarrow> None)"

definition plain_atom :: "Assertion \<Rightarrow> bool" where
  "plain_atom a = (case atom_op a of Some op \<Rightarrow> plain_operand op | None \<Rightarrow> False)"

definition flat_assertion :: "Assertion \<Rightarrow> bool" where
  "flat_assertion a = (case a of Atom _ _ _ _ \<Rightarrow> plain_atom a | AllOf cs \<Rightarrow> list_all plain_atom cs | AnyOf cs \<Rightarrow> list_all plain_atom cs)"

definition atom_ops :: "Assertion list \<Rightarrow> Operand list" where
  "atom_ops cs = map (\<lambda>c. the (atom_op c)) cs"

lemma plain_atom_from:
  assumes "flat_table pi" "plain_atom a"
  shows "fst (FromAssertion pi a) = atom_pred (the (atom_op a)) \<and> flat_table (snd (FromAssertion pi a)) \<and>
         plain_operand (the (atom_op a)) \<and> ir_holds v a = v (the (atom_op a))"
  using assms InternAtom_flat [OF assms(1)]
  by (cases a) (auto simp: plain_atom_def atom_op_def)

lemma plain_atoms_from:
  "flat_table pi \<Longrightarrow> list_all plain_atom cs \<Longrightarrow>
     fst (from_children pi cs) = map atom_pred (atom_ops cs) \<and> flat_table (snd (from_children pi cs))"
proof (induction cs arbitrary: pi)
  case (Cons c cs)
  from plain_atom_from [of pi c "\<lambda>_. True"] Cons show ?case by (simp add: split_def atom_ops_def)
qed (simp add: atom_ops_def)

lemma plain_atom_ops:
  assumes "list_all plain_atom cs"
  shows "list_all plain_operand (atom_ops cs) \<and>
         list_all (\<lambda>b. b) (map (ir_holds v) cs) = (\<forall>op \<in> set (atom_ops cs). v op) \<and>
         list_ex (\<lambda>b. b) (map (ir_holds v) cs) = (\<exists>op \<in> set (atom_ops cs). v op)"
proof -
  have "plain_operand (the (atom_op c)) \<and> ir_holds v c = v (the (atom_op c))" if "c \<in> set cs" for c
  proof -
    have "plain_atom c" using that assms by (simp add: list_all_iff)
    then show ?thesis by (cases c) (auto simp: plain_atom_def atom_op_def)
  qed
  then show ?thesis by (auto simp: atom_ops_def list_all_iff list_ex_iff)
qed

lemma FromAssertion_connective:
  assumes "flat_table pi" "list_all plain_atom cs"
  shows "fst (FromAssertion pi (AllOf cs)) = connective_of PredAll (atom_ops cs) \<and> flat_table (snd (FromAssertion pi (AllOf cs)))"
    and "fst (FromAssertion pi (AnyOf cs)) = connective_of PredAny (atom_ops cs) \<and> flat_table (snd (FromAssertion pi (AnyOf cs)))"
  using plain_atoms_from [OF assms] internConnective_flat [of "snd (from_children pi cs)" "atom_ops cs"] plain_atom_ops [OF assms(2)]
  by (simp_all add: split_def InternAll_def InternAny_def del: map_map)

lemma FromAssertion_flat:
  assumes "flat_table pi" "flat_assertion a"
  shows "pred_holds v (fst (FromAssertion pi a)) = ir_holds v a \<and> flat_table (snd (FromAssertion pi a))"
proof (cases a)
  case (Atom name base args runtime)
  with assms plain_atom_from [of pi a v] show ?thesis by (simp add: flat_assertion_def)
next
  case (AllOf cs)
  with assms have p: "list_all plain_atom cs" by (simp add: flat_assertion_def)
  have "list_all plain_operand (atom_ops cs)" using plain_atom_ops [OF p] by blast
  from connective_of_holds [OF this, of PredAll v] AllOf FromAssertion_connective(1) [OF assms(1) p] plain_atom_ops [OF p, of v]
  show ?thesis by simp
next
  case (AnyOf cs)
  with assms have p: "list_all plain_atom cs" by (simp add: flat_assertion_def)
  have "list_all plain_operand (atom_ops cs)" using plain_atom_ops [OF p] by blast
  from connective_of_holds [OF this, of PredAny v] AnyOf FromAssertion_connective(2) [OF assms(1) p] plain_atom_ops [OF p, of v]
  show ?thesis by simp
qed

lemma from_children_flat:
  "flat_table pi \<Longrightarrow> list_all flat_assertion as \<Longrightarrow> i < length as \<Longrightarrow>
     pred_holds v (fst (from_children pi as) ! i) = ir_holds v (as ! i)"
proof (induction as arbitrary: pi i)
  case (Cons a as)
  from FromAssertion_flat [of pi a v] Cons show ?case by (cases i) (simp_all add: split_def)
qed simp

lemma flat_table_new: "flat_table NewPredicateInterner"
  by (simp add: flat_table_def table_ok_def NewPredicateInterner_def)


definition sample_atom :: "go_string \<Rightarrow> Assertion" where
  "sample_atom name = Atom name None [] False"

lemma plain_sample: "CHR ''('' \<notin> set name \<Longrightarrow> CHR ''|'' \<notin> set name \<Longrightarrow> plain_atom (sample_atom name)"
  by (simp add: plain_atom_def sample_atom_def atom_op_def atom_operand_def plain_operand_def Operand_Key_def atomArgsKey_def)


text \<open>
  Order and repetition do not matter: conjunctions (and disjunctions) of the same plain atoms
  are given the same predicate by any interner that holds only such predicates.
\<close>

theorem FromAssertion_canonical:
  assumes "flat_table pi" and "flat_table pi'" and "list_all plain_atom cs" and "list_all plain_atom ds"
    and "set (atom_ops cs) = set (atom_ops ds)"
  shows "fst (FromAssertion pi (AllOf cs)) = fst (FromAssertion pi' (AllOf ds)) \<and>
         fst (FromAssertion pi (AnyOf cs)) = fst (FromAssertion pi' (AnyOf ds))"
proof -
  have "connective_of conn (atom_ops cs) = connective_of conn (atom_ops ds)" for conn
    unfolding connective_of_def
    using canonical_children_unique [OF assms(5) plain_atom_ops [OF assms(3), THEN conjunct1]] by simp
  then show ?thesis
    using FromAssertion_connective [OF assms(1,3)] FromAssertion_connective [OF assms(2,4)] by simp
qed

theorem FromAssertion_canonical_witness:
  "fst (FromAssertion NewPredicateInterner (AllOf [sample_atom ''A'', sample_atom ''B''])) =
   fst (FromAssertion NewPredicateInterner (AllOf [sample_atom ''B'', sample_atom ''A'', sample_atom ''B'']))"
  using FromAssertion_canonical [OF flat_table_new flat_table_new, of "[sample_atom ''A'', sample_atom ''B'']"
      "[sample_atom ''B'', sample_atom ''A'', sample_atom ''B'']"]
  by (simp add: plain_sample atom_ops_def insert_commute)


end
