(* ===== verification/RefinementContext.thy ===== *)
theory RefinementContext
  imports Predicates
begin

text \<open>
  \<open>internal/typechecker/refinement_context.go\<close>: the facts proved at a program point, and what
  happens to them on the edges of the control flow. A pointer that may be nil is an option; a map
  is a partial function, so that \<open>Facts\<close>, whose order is that of a Go map iteration, is a set.
\<close>

record Fact =
  Subject :: "AccessPath option"
  FactPredicate :: Predicate

type_synonym RefinementContext = "go_string \<rightharpoonup> Fact"

definition NewRefinementContext :: RefinementContext where
  "NewRefinementContext = Map.empty"

definition factKey :: "AccessPath option \<Rightarrow> Predicate option \<Rightarrow> go_string" where
  "factKey subject pred =
     (case subject of None \<Rightarrow> [] | Some p \<Rightarrow> PathKey p) @ [CHR 0x00] @ Predicate_Key pred"

definition Clone :: "RefinementContext option \<Rightarrow> RefinementContext" where
  "Clone c = (case c of None \<Rightarrow> NewRefinementContext | Some facts \<Rightarrow> facts)"

definition Prove :: "RefinementContext option \<Rightarrow> AccessPath option \<Rightarrow> Predicate option \<Rightarrow> RefinementContext option" where
  "Prove c subject pred =
     (case (c, pred) of
        (Some facts, Some p) \<Rightarrow> Some (facts(factKey subject pred \<mapsto> \<lparr>Subject = subject, FactPredicate = p\<rparr>))
      | _ \<Rightarrow> c)"

definition Has :: "RefinementContext option \<Rightarrow> AccessPath option \<Rightarrow> Predicate option \<Rightarrow> bool" where
  "Has c subject pred =
     (case (c, pred) of (Some facts, Some p) \<Rightarrow> facts (factKey subject pred) \<noteq> None | _ \<Rightarrow> False)"

definition Facts :: "RefinementContext option \<Rightarrow> Fact set" where
  "Facts c = (case c of None \<Rightarrow> {} | Some facts \<Rightarrow> ran facts)"

definition JoinRefinementContexts :: "RefinementContext option \<Rightarrow> RefinementContext option \<Rightarrow> RefinementContext" where
  "JoinRefinementContexts a b =
     (case a of
        None \<Rightarrow> Clone b
      | Some fa \<Rightarrow>
        (case b of
           None \<Rightarrow> Clone a
         | Some fb \<Rightarrow> (\<lambda>k. if fb k \<noteq> None then fa k else None)))"

definition TrueEdge :: "RefinementContext option \<Rightarrow> AccessPath option \<Rightarrow> Predicate option \<Rightarrow> RefinementContext option" where
  "TrueEdge c subject pred = Prove (Some (Clone c)) subject pred"

definition FalseEdge :: "RefinementContext option \<Rightarrow> RefinementContext" where
  "FalseEdge c = Clone c"

definition LoopFixedPoint :: "RefinementContext option \<Rightarrow> RefinementContext option \<Rightarrow> RefinementContext" where
  "LoopFixedPoint entry backedge = JoinRefinementContexts entry backedge"

section \<open>Keys identify facts\<close>

definition wf_subject :: "AccessPath option \<Rightarrow> bool" where
  "wf_subject s = (case s of None \<Rightarrow> True | Some p \<Rightarrow> wf_path p \<and> CHR 0x00 \<notin> set (PathKey p))"

definition wf_fact :: "Fact \<Rightarrow> bool" where
  "wf_fact f \<longleftrightarrow> wf_subject (Subject f) \<and> flat_canonical (FactPredicate f)"

definition well_keyed :: "RefinementContext \<Rightarrow> bool" where
  "well_keyed c \<longleftrightarrow> (\<forall>k f. c k = Some f \<longrightarrow> wf_fact f \<and> factKey (Subject f) (Some (FactPredicate f)) = k)"

lemma factKey_inject:
  assumes "wf_subject s" "wf_subject t" "flat_canonical p" "flat_canonical q"
    and "factKey s (Some p) = factKey t (Some q)"
  shows "s = t \<and> p = q"
proof -
  let ?sk = "\<lambda>x. case x of None \<Rightarrow> [] | Some p \<Rightarrow> PathKey p"
  have tw: "takeWhile (\<lambda>c. c \<noteq> CHR 0x00) (factKey x (Some r)) = ?sk x" if "wf_subject x" for x r
    using that by (auto simp: factKey_def wf_subject_def takeWhile_append split: option.splits)
  have sk: "?sk s = ?sk t" using tw [OF assms(1), of p] tw [OF assms(2), of q] assms(5) by simp
  have ne: "PathKey x \<noteq> []" for x by (simp add: PathKey_def dec_nat_nonempty)
  have "s = t"
    using sk ne assms(1,2) by (auto simp: wf_subject_def split: option.splits intro: PathKey_inject) (metis ne)+
  moreover have "pkey p = pkey q" using assms(5) sk by (simp add: factKey_def Predicate_Key_def)
  ultimately show ?thesis using assms(3,4) flat_canonical_inject by blast
qed

lemma well_keyed_new: "well_keyed NewRefinementContext"
  by (simp add: well_keyed_def NewRefinementContext_def)

lemma well_keyed_Prove:
  "well_keyed c \<Longrightarrow> wf_subject s \<Longrightarrow> flat_canonical p \<Longrightarrow> \<exists>c'. Prove (Some c) s (Some p) = Some c' \<and> well_keyed c'"
  by (auto simp: well_keyed_def Prove_def wf_fact_def)

text \<open>
  The context is a set of facts: after \<open>Prove\<close> exactly the facts known before and the new one
  are known, the true edge adds one fact to a copy, the false edge is a copy, and the join knows
  what both sides know. Keys of different facts never meet, on well-formed paths and canonical
  predicates over plain operands.
\<close>

theorem refinement_context_facts:
  assumes "well_keyed c" and "wf_subject s" and "flat_canonical p" and "wf_subject t" and "flat_canonical q"
  shows "(Has (Prove (Some c) s (Some p)) t (Some q) \<longleftrightarrow> Has (Some c) t (Some q) \<or> (t = s \<and> q = p)) \<and>
         (Has (TrueEdge (Some c) s (Some p)) t (Some q) \<longleftrightarrow> Has (Some c) t (Some q) \<or> (t = s \<and> q = p)) \<and>
         (Has (Some (FalseEdge (Some c))) t (Some q) \<longleftrightarrow> Has (Some c) t (Some q)) \<and>
         (Has (Some c) t (Some q) \<longleftrightarrow> \<lparr>Subject = t, FactPredicate = q\<rparr> \<in> Facts (Some c))"
proof -
  have k: "factKey t (Some q) = factKey s (Some p) \<longleftrightarrow> t = s \<and> q = p"
    using factKey_inject [OF assms(4,2,5,3)] by auto
  have prove: "Has (Prove (Some c) s (Some p)) t (Some q) \<longleftrightarrow> Has (Some c) t (Some q) \<or> (t = s \<and> q = p)"
    using k by (auto simp: Has_def Prove_def)
  have "c (factKey t (Some q)) = Some \<lparr>Subject = t, FactPredicate = q\<rparr>" if "c (factKey t (Some q)) = Some f" for f
  proof -
    have "wf_fact f" "factKey (Subject f) (Some (FactPredicate f)) = factKey t (Some q)"
      using assms(1) that by (auto simp: well_keyed_def)
    then have "Subject f = t \<and> FactPredicate f = q" using assms(4,5) by (auto simp: wf_fact_def dest: factKey_inject)
    with that show ?thesis by simp
  qed
  moreover have "c (factKey t (Some q)) \<noteq> None" if "\<lparr>Subject = t, FactPredicate = q\<rparr> \<in> ran c"
    using that assms(1) by (fastforce simp: well_keyed_def ran_def)
  ultimately have "Has (Some c) t (Some q) \<longleftrightarrow> \<lparr>Subject = t, FactPredicate = q\<rparr> \<in> Facts (Some c)"
    by (auto simp: Has_def Facts_def ran_def)
  with prove show ?thesis by (simp add: TrueEdge_def FalseEdge_def Clone_def)
qed

definition sample_pred :: "go_string \<Rightarrow> Predicate" where
  "sample_pred name = atom_pred \<lparr>OpName = name, ArgsKey = [], OpRuntimeOnly = False\<rparr>"

definition sample_subject :: "AccessPath option" where
  "sample_subject = Some \<lparr>Root = 1, Steps = []\<rparr>"

lemma flat_canonical_atom: "plain_operand op \<Longrightarrow> flat_canonical (atom_pred op)"
  by (auto simp: flat_canonical_def)

lemma sample_fact_wf: "flat_canonical (sample_pred ''A'')" "flat_canonical (sample_pred ''B'')" "wf_subject sample_subject" "wf_subject None"
proof -
  show "flat_canonical (sample_pred ''A'')" "flat_canonical (sample_pred ''B'')"
    unfolding sample_pred_def by (rule flat_canonical_atom; simp add: plain_operand_def Operand_Key_def)+
  have "CHR 0x00 \<notin> set (dec_nat n)" for n using dec_nat_digits [of n] by (auto simp: digit_char_def)
  then show "wf_subject sample_subject"
    by (simp add: wf_subject_def sample_subject_def wf_path_def PathKey_def)
qed (simp add: wf_subject_def)

theorem refinement_context_facts_witness:
  "Has (Prove (Some NewRefinementContext) sample_subject (Some (sample_pred ''A''))) sample_subject (Some (sample_pred ''A'')) \<and>
   \<not> Has (Prove (Some NewRefinementContext) sample_subject (Some (sample_pred ''A''))) None (Some (sample_pred ''A''))"
  using refinement_context_facts [OF well_keyed_new sample_fact_wf(3,1,3,1)]
    refinement_context_facts [OF well_keyed_new sample_fact_wf(3,1,4,1)]
  by (simp add: Has_def NewRefinementContext_def sample_subject_def)

section \<open>Control flow\<close>

text \<open>A context is true of a state when all its facts are; \<open>I\<close> says which facts a state has.\<close>

definition true_in :: "(Fact \<Rightarrow> bool) \<Rightarrow> RefinementContext \<Rightarrow> bool" where
  "true_in I c \<longleftrightarrow> (\<forall>f \<in> Facts (Some c). I f)"

lemma Join_well_keyed: "well_keyed a \<Longrightarrow> well_keyed (JoinRefinementContexts (Some a) (Some b))"
  by (auto simp: well_keyed_def JoinRefinementContexts_def split: if_splits)

lemma Join_facts:
  assumes "well_keyed a" "well_keyed b"
  shows "Facts (Some (JoinRefinementContexts (Some a) (Some b))) = Facts (Some a) \<inter> Facts (Some b)"
proof -
  have same: "f = g" if "a k = Some f" "b k = Some g" for k f g
    using assms that factKey_inject [of "Subject f" "Subject g" "FactPredicate f" "FactPredicate g"]
    by (auto simp: well_keyed_def wf_fact_def)
  have keys: "k = l" if "a k = Some f" "b l = Some f" for k l f
    using assms that by (auto simp: well_keyed_def)
  let ?j = "JoinRefinementContexts (Some a) (Some b)"
  have j: "?j k = (if b k \<noteq> None then a k else None)" for k by (simp add: JoinRefinementContexts_def)
  have "f \<in> ran ?j \<longleftrightarrow> f \<in> ran a \<and> f \<in> ran b" for f
  proof
    assume "f \<in> ran ?j"
    then obtain k where "?j k = Some f" by (auto simp: ran_def)
    then have "a k = Some f" "b k \<noteq> None" using j [of k] by (auto split: if_splits)
    moreover from this obtain g where "b k = Some g" by blast
    ultimately have "a k = Some f" "b k = Some f" using same [of k f g] by simp_all
    then show "f \<in> ran a \<and> f \<in> ran b" by (auto intro: ranI)
  next
    assume "f \<in> ran a \<and> f \<in> ran b"
    then obtain k l where kl: "a k = Some f" "b l = Some f" by (auto simp: ran_def)
    then have "?j k = Some f" using keys [OF kl] j [of k] by simp
    then show "f \<in> ran ?j" by (rule ranI)
  qed
  then show ?thesis by (auto simp: Facts_def)
qed



end
