(* ===== verification/Scopes.thy ===== *)
theory Scopes
  imports Ast AccessPath
begin

text \<open>
  \<open>internal/typechecker/scope.go\<close> and \<open>scope_stack.go\<close>: lexical scopes, their symbols and the stack that
  the two passes of the checker push, pop and restore. Scopes are cells of a store, a pointer is an
  index, and a panic is \<open>Inl\<close>. A syntax node is seen through what the stack asks about it: its
  kind and the answers of the structural hasher (\<open>None\<close> is an error, or no identity).
\<close>

section \<open>Data\<close>

datatype SymbolKind = SymbolVariable | SymbolFunction | SymbolType | SymbolParameter | SymbolStruct
  | SymbolEnum | SymbolTypeGuard

datatype node_kind = FunctionScope | TypeGuardScope | OtherScope

type_synonym NodeHash = nat

record scope_node =
  nodeKind :: node_kind
  NodeIdentityKey :: "nat option"
  HashScopeKey :: "NodeHash option"
  HashScopeKeyDisambiguated :: "NodeHash \<Rightarrow> NodeHash option"

record Symbol =
  SymIdentifier :: Identifier
  SymTypes :: "TypeNode list"
  SymKind :: SymbolKind
  SymScope :: nat
  SymID :: SymbolID
  SymTypeGuards :: "go_string list"
  SymPredicateDisplay :: go_string

record Scope =
  Parent :: "nat option"
  ScopeNode :: "scope_node option"
  scopeHash :: NodeHash
  Symbols :: "Identifier \<rightharpoonup> Symbol"
  ChildScopes :: "nat list"

record ScopeStack =
  store :: "Scope list"
  scopes :: "NodeHash \<rightharpoonup> nat"
  nodeScopeHash :: "nat \<rightharpoonup> NodeHash"
  current :: nat
  nextSymbolID :: SymbolID

definition NewScope :: "nat option \<Rightarrow> scope_node option \<Rightarrow> NodeHash \<Rightarrow> Scope" where
  "NewScope parent node hash =
     \<lparr>Parent = parent, ScopeNode = node, scopeHash = hash, Symbols = Map.empty, ChildScopes = []\<rparr>"

text \<open>\<open>hash0\<close> is the hash of the nil node.\<close>

definition NewScopeStack :: "NodeHash \<Rightarrow> ScopeStack" where
  "NewScopeStack hash0 =
     \<lparr>store = [NewScope None None hash0], scopes = [hash0 \<mapsto> 0], nodeScopeHash = Map.empty,
      current = 0, nextSymbolID = 1\<rparr>"

definition ScopeStack_allocSymbolID :: "ScopeStack \<Rightarrow> SymbolID \<times> ScopeStack" where
  "ScopeStack_allocSymbolID ss = (nextSymbolID ss, ss\<lparr>nextSymbolID := nextSymbolID ss + 1\<rparr>)"

section \<open>Finding scopes (scope\_stack.go)\<close>

definition scopeNodesMatch :: "Scope \<Rightarrow> scope_node \<Rightarrow> bool" where
  "scopeNodesMatch scope node =
     (case ScopeNode scope of
        None \<Rightarrow> False
      | Some sn \<Rightarrow>
        (case (NodeIdentityKey node, NodeIdentityKey sn) of
           (Some a, Some b) \<Rightarrow> a = b
         | _ \<Rightarrow> False))"

definition cacheNodeScopeHash :: "scope_node \<Rightarrow> NodeHash \<Rightarrow> ScopeStack \<Rightarrow> ScopeStack" where
  "cacheNodeScopeHash node hash ss =
     (case NodeIdentityKey node of
        None \<Rightarrow> ss
      | Some key \<Rightarrow> ss\<lparr>nodeScopeHash := (nodeScopeHash ss)(key \<mapsto> hash)\<rparr>)"

definition resolveScopeHash :: "ScopeStack \<Rightarrow> scope_node \<Rightarrow> NodeHash option" where
  "resolveScopeHash ss node =
     (case HashScopeKey node of
        None \<Rightarrow> None
      | Some baseHash \<Rightarrow>
        (case scopes ss baseHash of
           Some existing \<Rightarrow>
             if \<not> scopeNodesMatch (store ss ! existing) node
             then HashScopeKeyDisambiguated node baseHash else Some baseHash
         | None \<Rightarrow> Some baseHash))"

text \<open>The disambiguated lookup both branches of \<open>findScope\<close> end with.\<close>

definition find_disambiguated :: "ScopeStack \<Rightarrow> scope_node \<Rightarrow> NodeHash \<Rightarrow> nat option \<times> ScopeStack" where
  "find_disambiguated ss node baseHash =
     (case HashScopeKeyDisambiguated node baseHash of
        None \<Rightarrow> (None, ss)
      | Some disHash \<Rightarrow>
        (case scopes ss disHash of
           Some scope \<Rightarrow> (Some scope, cacheNodeScopeHash node disHash ss)
         | None \<Rightarrow> (None, ss)))"

definition cached_scope :: "ScopeStack \<Rightarrow> scope_node \<Rightarrow> nat option" where
  "cached_scope ss node =
     (case NodeIdentityKey node of
        None \<Rightarrow> None
      | Some key \<Rightarrow> (case nodeScopeHash ss key of None \<Rightarrow> None | Some hash \<Rightarrow> scopes ss hash))"

definition findScope :: "ScopeStack \<Rightarrow> scope_node \<Rightarrow> nat option \<times> ScopeStack" where
  "findScope ss node =
     (case cached_scope ss node of
        Some scope \<Rightarrow> (Some scope, ss)
      | None \<Rightarrow>
        (case HashScopeKey node of
           None \<Rightarrow> (None, ss)
         | Some baseHash \<Rightarrow>
           (case scopes ss baseHash of
              Some scope \<Rightarrow>
                if scopeNodesMatch (store ss ! scope) node
                then (Some scope, cacheNodeScopeHash node baseHash ss)
                else find_disambiguated ss node baseHash
            | None \<Rightarrow> find_disambiguated ss node baseHash)))"

text \<open>The result is \<open>nil\<close> when the node cannot be hashed.\<close>

definition pushScope :: "ScopeStack \<Rightarrow> scope_node \<Rightarrow> nat option \<times> ScopeStack" where
  "pushScope ss node =
     (case resolveScopeHash ss node of
        None \<Rightarrow> (None, ss)
      | Some hash \<Rightarrow>
        (let fresh = length (store ss);
             new = (Some fresh,
               cacheNodeScopeHash node hash
                 (ss\<lparr>store := (store ss)[current ss := (store ss ! current ss)
                        \<lparr>ChildScopes := ChildScopes (store ss ! current ss) @ [fresh]\<rparr>]
                        @ [NewScope (Some (current ss)) (Some node) hash],
                     current := fresh,
                     scopes := (scopes ss)(hash \<mapsto> fresh)\<rparr>))
         in case scopes ss hash of
              Some existing \<Rightarrow>
                if scopeNodesMatch (store ss ! existing) node \<and> Parent (store ss ! existing) = Some (current ss)
                then (Some existing, cacheNodeScopeHash node hash (ss\<lparr>current := existing\<rparr>))
                else new
            | None \<Rightarrow> new))"

definition popScope :: "ScopeStack \<Rightarrow> ScopeStack" where
  "popScope ss =
     (case Parent (store ss ! current ss) of
        Some parent \<Rightarrow> ss\<lparr>current := parent\<rparr>
      | None \<Rightarrow> ss)"

text \<open>
  The scopes met by following parent pointers. A scope is created after its parent, so the indices
  go down; the guard that makes the recursion well-founded never bites on a stack built by the
  operations below (\<open>stack_ok\<close>).
\<close>

function scope_chain :: "Scope list \<Rightarrow> nat \<Rightarrow> nat list" where
  "scope_chain st s =
     s # (case Parent (st ! s) of
            Some q \<Rightarrow> if q < s then scope_chain st q else []
          | None \<Rightarrow> [])"
  by pat_completeness auto
termination
  by (relation "measure snd") auto

declare scope_chain.simps [simp del]

definition globalScope :: "ScopeStack \<Rightarrow> nat" where
  "globalScope ss = last (scope_chain (store ss) (current ss))"

text \<open>\<open>False\<close>: the error that the scope was not found.\<close>

definition restoreScope :: "ScopeStack \<Rightarrow> scope_node option \<Rightarrow> bool \<times> ScopeStack" where
  "restoreScope ss node =
     (case node of
        None \<Rightarrow> (True, ss\<lparr>current := globalScope ss\<rparr>)
      | Some n \<Rightarrow>
        (case findScope ss n of
           (Some scope, ss') \<Rightarrow> (True, ss'\<lparr>current := scope\<rparr>)
         | (None, ss') \<Rightarrow> (False, ss')))"

section \<open>Symbols (scope.go)\<close>

text \<open>\<open>strings.TrimSpace\<close>: the UTF-8 encodings of the white space characters, cut from both ends.\<close>

definition white_space :: "go_string list" where
  "white_space =
     map (\<lambda>n. [char_of n]) [9, 10, 11, 12, 13, 32 :: nat] @
     map (map char_of) [[194, 133], [194, 160], [225, 154, 128], [226, 128, 168], [226, 128, 169],
       [226, 128, 175], [226, 129, 159], [227, 128, 128 :: nat]] @
     map (\<lambda>n. map char_of [226, 128, 128 + n]) [0..<11]"

definition starts_with :: "go_string \<Rightarrow> go_string \<Rightarrow> bool" where
  "starts_with s w \<longleftrightarrow> w \<noteq> [] \<and> take (length w) s = w"

lemma starts_with_shorter: "starts_with s w \<Longrightarrow> length (drop (length w) s) < length s"
  by (cases s) (auto simp: starts_with_def)

function trim_left :: "go_string list \<Rightarrow> go_string \<Rightarrow> go_string" where
  "trim_left ws s =
     (case find (starts_with s) ws of
        Some w \<Rightarrow> trim_left ws (drop (length w) s)
      | None \<Rightarrow> s)"
  by pat_completeness auto
termination
  by (relation "measure (\<lambda>(ws, s). length s)") (auto simp: find_Some_iff simp del: length_drop intro: starts_with_shorter)

declare trim_left.simps [simp del]

definition TrimSpace :: "go_string \<Rightarrow> go_string" where
  "TrimSpace s = rev (trim_left (map rev white_space) (rev (trim_left white_space s)))"

definition mergeNarrowingGuardNamesDedupe :: "go_string list \<Rightarrow> go_string list \<Rightarrow> go_string list" where
  "mergeNarrowingGuardNamesDedupe prev nxt = dedup_by (\<lambda>g. g) {[]} (prev @ nxt)"

definition mergeNarrowingPredicateDisplaySegments :: "go_string \<Rightarrow> go_string \<Rightarrow> go_string" where
  "mergeNarrowingPredicateDisplaySegments prev nxt =
     (let prev = TrimSpace prev; nxt = TrimSpace nxt
      in if prev = [] then nxt else if nxt = [] then prev else prev @ ''.'' @ nxt)"

definition mergeVariableNarrowingInPlace :: "Symbol \<Rightarrow> TypeNode list \<Rightarrow> go_string list \<Rightarrow> go_string \<Rightarrow> Symbol" where
  "mergeVariableNarrowingInPlace prev types nextGuards nextDisplay =
     prev\<lparr>SymTypes := types,
          SymKind := (if SymKind prev = SymbolParameter then SymbolParameter else SymbolVariable),
          SymTypeGuards := mergeNarrowingGuardNamesDedupe (SymTypeGuards prev) nextGuards,
          SymPredicateDisplay :=
            mergeNarrowingPredicateDisplaySegments (SymPredicateDisplay prev) nextDisplay\<rparr>"

definition set_symbol :: "nat \<Rightarrow> Identifier \<Rightarrow> Symbol \<Rightarrow> ScopeStack \<Rightarrow> ScopeStack" where
  "set_symbol s name symb ss =
     ss\<lparr>store := (store ss)[s := (store ss ! s)\<lparr>Symbols := (Symbols (store ss ! s))(name \<mapsto> symb)\<rparr>]\<rparr>"

definition RegisterSymbolWithNarrowing ::
  "nat \<Rightarrow> Identifier \<Rightarrow> TypeNode list \<Rightarrow> SymbolKind \<Rightarrow> go_string list \<Rightarrow> go_string \<Rightarrow> ScopeStack \<Rightarrow> ScopeStack" where
  "RegisterSymbolWithNarrowing s name types kind guards disp ss =
     (let fresh = (case ScopeStack_allocSymbolID ss of (newID, ss') \<Rightarrow>
            set_symbol s name
              \<lparr>SymIdentifier = name, SymTypes = types, SymKind = kind, SymScope = s, SymID = newID,
               SymTypeGuards = guards, SymPredicateDisplay = disp\<rparr> ss')
      in case Symbols (store ss ! s) name of
           Some prev \<Rightarrow>
             if kind = SymbolVariable \<and> (SymKind prev = SymbolVariable \<or> SymKind prev = SymbolParameter)
             then set_symbol s name (mergeVariableNarrowingInPlace prev types guards disp) ss
             else fresh
         | None \<Rightarrow> fresh)"

definition RegisterSymbol :: "nat \<Rightarrow> Identifier \<Rightarrow> TypeNode list \<Rightarrow> SymbolKind \<Rightarrow> ScopeStack \<Rightarrow> ScopeStack" where
  "RegisterSymbol s name types kind ss = RegisterSymbolWithNarrowing s name types kind [] [] ss"

definition DefineType :: "nat \<Rightarrow> Identifier \<Rightarrow> TypeNode \<Rightarrow> ScopeStack \<Rightarrow> ScopeStack" where
  "DefineType s name typ ss =
     (case ScopeStack_allocSymbolID ss of (newID, ss') \<Rightarrow>
        set_symbol s name
          \<lparr>SymIdentifier = name, SymTypes = [typ], SymKind = SymbolType, SymScope = s, SymID = newID,
           SymTypeGuards = [], SymPredicateDisplay = []\<rparr> ss')"

definition IsFunction :: "Scope \<Rightarrow> go_string + bool" where
  "IsFunction s =
     (case ScopeNode s of
        None \<Rightarrow> Inl ''Cannot call IsFunction on global scope''
      | Some n \<Rightarrow> Inr (nodeKind n = FunctionScope))"

definition IsTypeGuard :: "Scope \<Rightarrow> go_string + bool" where
  "IsTypeGuard s =
     (case ScopeNode s of
        None \<Rightarrow> Inl ''Cannot call IsTypeGuard on global scope''
      | Some n \<Rightarrow> Inr (nodeKind n = TypeGuardScope))"

text \<open>\<open>s.IsFunction() || s.IsTypeGuard()\<close>.\<close>

definition owns_parameters :: "Scope \<Rightarrow> go_string + bool" where
  "owns_parameters s =
     (case IsFunction s of
        Inl e \<Rightarrow> Inl e
      | Inr True \<Rightarrow> Inr True
      | Inr False \<Rightarrow> IsTypeGuard s)"

fun lookup_variable :: "Scope list \<Rightarrow> nat list \<Rightarrow> Identifier \<Rightarrow> go_string + Symbol option" where
  "lookup_variable st [] name = Inr None"
| "lookup_variable st (s # rest) name =
     (case Symbols (st ! s) name of
        Some symb \<Rightarrow>
          if SymKind symb = SymbolVariable then Inr (Some symb)
          else if SymKind symb = SymbolParameter
          then (case owns_parameters (st ! s) of
                  Inl e \<Rightarrow> Inl e
                | Inr True \<Rightarrow> Inr (Some symb)
                | Inr False \<Rightarrow> lookup_variable st rest name)
          else lookup_variable st rest name
      | None \<Rightarrow> lookup_variable st rest name)"

definition LookupVariable :: "ScopeStack \<Rightarrow> nat \<Rightarrow> Identifier \<Rightarrow> go_string + Symbol option" where
  "LookupVariable ss s name = lookup_variable (store ss) (scope_chain (store ss) s) name"

definition LookupSymbolID :: "ScopeStack \<Rightarrow> nat \<Rightarrow> Identifier \<Rightarrow> go_string + (SymbolID \<times> bool)" where
  "LookupSymbolID ss s name =
     (case LookupVariable ss s name of
        Inl e \<Rightarrow> Inl e
      | Inr (Some symb) \<Rightarrow> Inr (SymID symb, SymID symb \<noteq> 0)
      | Inr None \<Rightarrow> Inr (0, False))"

fun lookup_type :: "Scope list \<Rightarrow> nat list \<Rightarrow> Identifier \<Rightarrow> Symbol option" where
  "lookup_type st [] name = None"
| "lookup_type st (s # rest) name =
     (case Symbols (st ! s) name of
        Some symb \<Rightarrow> if SymKind symb = SymbolType then Some symb else lookup_type st rest name
      | None \<Rightarrow> lookup_type st rest name)"

definition LookupType :: "ScopeStack \<Rightarrow> nat \<Rightarrow> Identifier \<Rightarrow> Symbol option" where
  "LookupType ss s name = lookup_type (store ss) (scope_chain (store ss) s) name"

definition Scope_LookupVariableType :: "Scope \<Rightarrow> Identifier \<Rightarrow> TypeNode list option" where
  "Scope_LookupVariableType s name = map_option SymTypes (Symbols s name)"

definition ScopeStack_LookupVariableType :: "ScopeStack \<Rightarrow> Identifier \<Rightarrow> TypeNode list option" where
  "ScopeStack_LookupVariableType ss name =
     (case List.map_filter (\<lambda>s. Scope_LookupVariableType (store ss ! s) name) (scope_chain (store ss) (current ss)) of
        [] \<Rightarrow> None
      | ty # _ \<Rightarrow> Some ty)"

section \<open>The stack is well formed\<close>

definition parents_ok :: "Scope list \<Rightarrow> bool" where
  "parents_ok st \<longleftrightarrow> (\<forall>s < length st. case Parent (st ! s) of None \<Rightarrow> s = 0 | Some q \<Rightarrow> q < s)"

definition stack_ok :: "ScopeStack \<Rightarrow> bool" where
  "stack_ok ss \<longleftrightarrow>
     current ss < length (store ss) \<and> parents_ok (store ss) \<and>
     (\<forall>h s. scopes ss h = Some s \<longrightarrow> s < length (store ss))"

lemma stack_okD:
  "stack_ok ss \<Longrightarrow> current ss < length (store ss)"
  "stack_ok ss \<Longrightarrow> parents_ok (store ss)"
  "stack_ok ss \<Longrightarrow> scopes ss h = Some s \<Longrightarrow> s < length (store ss)"
  by (auto simp: stack_ok_def)

lemma cacheNodeScopeHash_fields [simp]:
  "store (cacheNodeScopeHash node h ss) = store ss"
  "scopes (cacheNodeScopeHash node h ss) = scopes ss"
  "current (cacheNodeScopeHash node h ss) = current ss"
  "nextSymbolID (cacheNodeScopeHash node h ss) = nextSymbolID ss"
  by (auto simp: cacheNodeScopeHash_def split: option.splits)

lemma set_symbol_fields [simp]:
  "scopes (set_symbol s n x ss) = scopes ss" "current (set_symbol s n x ss) = current ss"
  "nextSymbolID (set_symbol s n x ss) = nextSymbolID ss" "length (store (set_symbol s n x ss)) = length (store ss)"
  by (auto simp: set_symbol_def)

lemma set_symbol_parent [simp]: "i < length (store ss) \<Longrightarrow> Parent (store (set_symbol s n x ss) ! i) = Parent (store ss ! i)"
  by (cases "i = s") (simp_all add: set_symbol_def)

lemma set_symbol_symbols:
  "i < length (store ss) \<Longrightarrow>
     Symbols (store (set_symbol s n x ss) ! i) = (if i = s then (Symbols (store ss ! i))(n \<mapsto> x) else Symbols (store ss ! i))"
  by (simp add: set_symbol_def nth_list_update)

lemma stack_ok_set_symbol [simp]: "stack_ok (set_symbol s n x ss) = stack_ok ss"
  by (auto simp: stack_ok_def parents_ok_def)

lemma stack_ok_cache [simp]: "stack_ok (cacheNodeScopeHash node h ss) = stack_ok ss"
  by (simp add: stack_ok_def)

lemma stack_ok_next [simp]: "stack_ok (ss\<lparr>nextSymbolID := i\<rparr>) = stack_ok ss"
  by (simp add: stack_ok_def)

lemma stack_ok_current: "stack_ok ss \<Longrightarrow> s < length (store ss) \<Longrightarrow> stack_ok (ss\<lparr>current := s\<rparr>)"
  by (simp add: stack_ok_def)

lemma stack_ok_New: "stack_ok (NewScopeStack h)"
  by (simp add: stack_ok_def NewScopeStack_def NewScope_def parents_ok_def)

text \<open>Following parents stays in the store and ends at the root, which is the first cell.\<close>

lemma scope_chain_bounds:
  "parents_ok st \<Longrightarrow> s < length st \<Longrightarrow> (\<forall>x \<in> set (scope_chain st s). x \<le> s) \<and> last (scope_chain st s) = 0"
proof (induction st s rule: scope_chain.induct)
  case (1 st s)
  show ?case
  proof (cases "Parent (st ! s)")
    case None
    with 1(2,3) have "s = 0" by (auto simp: parents_ok_def)
    moreover have "scope_chain st s = [s]" using None by (simp add: scope_chain.simps [of st s])
    ultimately show ?thesis by simp
  next
    case (Some q)
    with 1(2,3) have q: "q < s" by (auto simp: parents_ok_def)
    with Some 1 have "(\<forall>x \<in> set (scope_chain st q). x \<le> q) \<and> last (scope_chain st q) = 0" by simp
    moreover have "scope_chain st q \<noteq> []" by (simp add: scope_chain.simps [of st q])
    moreover have "scope_chain st s = s # scope_chain st q" using Some q by (simp add: scope_chain.simps [of st s])
    ultimately show ?thesis using q by auto
  qed
qed

lemma globalScope_root: "stack_ok ss \<Longrightarrow> globalScope ss = 0"
  using scope_chain_bounds [of "store ss" "current ss"] by (simp add: globalScope_def stack_okD)

lemma findScope_fields:
  assumes "findScope ss n = (r, ss')"
  shows "store ss' = store ss \<and> scopes ss' = scopes ss \<and> current ss' = current ss \<and> nextSymbolID ss' = nextSymbolID ss \<and>
         (\<forall>s. r = Some s \<longrightarrow> (\<exists>h. scopes ss h = Some s))"
  using assms
  by (auto simp: findScope_def find_disambiguated_def cached_scope_def split: option.splits if_splits)

lemma parents_ok_push:
  assumes "parents_ok st" "c < length st"
  shows "parents_ok (st[c := (st ! c)\<lparr>ChildScopes := x\<rparr>] @ [NewScope (Some c) n h])"
  using assms by (auto simp: parents_ok_def nth_append nth_list_update NewScope_def)

lemma stack_ok_pushScope: "stack_ok ss \<Longrightarrow> stack_ok (snd (pushScope ss n))"
proof -
  assume ok: "stack_ok ss"
  have new: "stack_ok (ss\<lparr>store := (store ss)[current ss := (store ss ! current ss)\<lparr>ChildScopes := x\<rparr>]
      @ [NewScope (Some (current ss)) (Some n) h], current := length (store ss), scopes := (scopes ss)(h \<mapsto> length (store ss))\<rparr>)" for x h
    using ok parents_ok_push [OF stack_okD(2) [OF ok] stack_okD(1) [OF ok]]
    by (auto simp: stack_ok_def intro: less_SucI)
  have old: "stack_ok (ss\<lparr>current := e\<rparr>)" if "scopes ss h = Some e" for h e
    using stack_ok_current [OF ok stack_okD(3) [OF ok that]] .
  show ?thesis using ok new old by (simp add: pushScope_def Let_def split: option.splits)
qed

lemma stack_ok_popScope: "stack_ok ss \<Longrightarrow> stack_ok (popScope ss)"
  by (auto simp: popScope_def stack_ok_def parents_ok_def split: option.splits)

lemma stack_ok_restoreScope: "stack_ok ss \<Longrightarrow> stack_ok (snd (restoreScope ss n))"
proof (cases n)
  case None
  assume "stack_ok ss"
  with None stack_ok_current [of ss 0] show ?thesis
    using stack_okD(1) by (fastforce simp: restoreScope_def globalScope_root)
next
  case (Some m)
  assume ok: "stack_ok ss"
  obtain r ss' where f: "findScope ss m = (r, ss')" by (cases "findScope ss m")
  from findScope_fields [OF f] ok have "stack_ok ss'" by (auto simp: stack_ok_def)
  with f Some findScope_fields [OF f] stack_okD(3) [OF ok] show ?thesis
    by (auto simp: restoreScope_def intro!: stack_ok_current split: option.splits)
qed

lemma stack_ok_Register: "stack_ok ss \<Longrightarrow> stack_ok (RegisterSymbolWithNarrowing s n ty k g d ss)"
  by (auto simp: RegisterSymbolWithNarrowing_def ScopeStack_allocSymbolID_def Let_def split: option.splits)

lemma stack_ok_DefineType: "stack_ok ss \<Longrightarrow> stack_ok (DefineType s n ty ss)"
  by (auto simp: DefineType_def ScopeStack_allocSymbolID_def)

section \<open>Symbol identifiers\<close>

definition symbols_of :: "ScopeStack \<Rightarrow> (nat \<times> Identifier \<times> Symbol) set" where
  "symbols_of ss = {(s, n, x). s < length (store ss) \<and> Symbols (store ss ! s) n = Some x}"

text \<open>After \<open>k\<close> allocations the identifiers in use are among \<open>1 .. k\<close>, each used once.\<close>

definition ids_ok :: "nat \<Rightarrow> ScopeStack \<Rightarrow> bool" where
  "ids_ok k ss \<longleftrightarrow>
     nextSymbolID ss = of_nat (Suc k) \<and>
     (\<forall>s n x. (s, n, x) \<in> symbols_of ss \<longrightarrow> 1 \<le> unat (SymID x) \<and> unat (SymID x) \<le> k) \<and>
     (\<forall>s n x s' n' x'. (s, n, x) \<in> symbols_of ss \<and> (s', n', x') \<in> symbols_of ss \<and> SymID x = SymID x' \<longrightarrow> s = s' \<and> n = n')"

lemma symbols_of_set_symbol:
  "(s', n', x') \<in> symbols_of (set_symbol s n x ss) \<longleftrightarrow>
     (if s' = s \<and> n' = n then s < length (store ss) \<and> x' = x else (s', n', x') \<in> symbols_of ss)"
proof (cases "s' < length (store ss)")
  case True
  then show ?thesis by (cases "s' = s"; cases "n' = n") (auto simp: symbols_of_def set_symbol_symbols)
next
  case False
  then show ?thesis by (cases "s' = s") (simp_all add: symbols_of_def)
qed

lemma symbols_of_cong:
  "store ss' = store ss \<Longrightarrow> symbols_of ss' = symbols_of ss"
  by (simp add: symbols_of_def)

lemma ids_ok_cong:
  "store ss' = store ss \<Longrightarrow> nextSymbolID ss' = nextSymbolID ss \<Longrightarrow> ids_ok k ss' = ids_ok k ss"
  using symbols_of_cong [of ss' ss] by (simp add: ids_ok_def)

lemma ids_okD:
  "ids_ok k ss \<Longrightarrow> (s, n, x) \<in> symbols_of ss \<Longrightarrow> 1 \<le> unat (SymID x) \<and> unat (SymID x) \<le> k"
  "ids_ok k ss \<Longrightarrow> (s, n, x) \<in> symbols_of ss \<Longrightarrow> (s', n', x') \<in> symbols_of ss \<Longrightarrow> SymID x = SymID x' \<Longrightarrow> s = s' \<and> n = n'"
  unfolding ids_ok_def by blast+

lemma ids_ok_fresh:
  assumes "ids_ok k ss" "SymID x = nextSymbolID ss" "Suc k < 2 ^ 32"
  shows "ids_ok (Suc k) (set_symbol s n x (ss\<lparr>nextSymbolID := nextSymbolID ss + 1\<rparr>))"
proof -
  let ?ss = "ss\<lparr>nextSymbolID := nextSymbolID ss + 1\<rparr>"
  have sy: "symbols_of ?ss = symbols_of ss" by (rule symbols_of_cong) simp
  have x: "unat (SymID x) = Suc k"
    using assms by (simp add: ids_ok_def unat_of_nat take_bit_nat_eq_self del: of_nat_Suc)
  have old: "1 \<le> unat (SymID y) \<and> unat (SymID y) \<le> k" if "(s', n', y) \<in> symbols_of ss" for s' n' y
    using ids_okD(1) [OF assms(1) that] .
  have inj: "s1 = s2 \<and> n1 = n2" if "(s1, n1, y1) \<in> symbols_of ss" "(s2, n2, y2) \<in> symbols_of ss" "SymID y1 = SymID y2" for s1 n1 y1 s2 n2 y2
    using ids_okD(2) [OF assms(1) that] .
  have ne: "SymID y \<noteq> SymID x" if "(s', n', y) \<in> symbols_of ss" for s' n' y using old [OF that] x by auto
  show ?thesis unfolding ids_ok_def
  proof (intro conjI allI impI)
    show "nextSymbolID (set_symbol s n x ?ss) = of_nat (Suc (Suc k))" using assms(1) by (simp add: ids_ok_def)
  next
    fix s' n' y assume "(s', n', y) \<in> symbols_of (set_symbol s n x ?ss)"
    then show "1 \<le> unat (SymID y)" "unat (SymID y) \<le> Suc k"
      using old [of s' n' y] x by (auto simp: symbols_of_set_symbol sy split: if_splits)
  next
    fix s1 n1 y1 s2 n2 y2
    assume "(s1, n1, y1) \<in> symbols_of (set_symbol s n x ?ss) \<and> (s2, n2, y2) \<in> symbols_of (set_symbol s n x ?ss) \<and> SymID y1 = SymID y2"
    then show "s1 = s2" "n1 = n2"
      using inj [of s1 n1 y1 s2 n2 y2] ne [of s1 n1 y1] ne [of s2 n2 y2]
      by (auto simp: symbols_of_set_symbol sy split: if_splits)
  qed
qed

lemma ids_ok_same_id:
  assumes "ids_ok k ss" "Symbols (store ss ! s) n = Some old" "SymID x = SymID old"
  shows "ids_ok k (set_symbol s n x ss)"
proof (cases "s < length (store ss)")
  case True
  then have o: "(s, n, old) \<in> symbols_of ss" using assms(2) by (simp add: symbols_of_def)
  have repl: "\<exists>z. (s', n', z) \<in> symbols_of ss \<and> SymID z = SymID y" if "(s', n', y) \<in> symbols_of (set_symbol s n x ss)" for s' n' y
    using that o assms(3) by (auto simp: symbols_of_set_symbol split: if_splits)
  show ?thesis unfolding ids_ok_def
  proof (intro conjI allI impI)
    show "nextSymbolID (set_symbol s n x ss) = of_nat (Suc k)" using assms(1) by (simp add: ids_ok_def)
  next
    fix s' n' y assume "(s', n', y) \<in> symbols_of (set_symbol s n x ss)"
    from repl [OF this] show "1 \<le> unat (SymID y)" "unat (SymID y) \<le> k" using ids_okD(1) [OF assms(1)] by metis+
  next
    fix s1 n1 y1 s2 n2 y2
    assume a: "(s1, n1, y1) \<in> symbols_of (set_symbol s n x ss) \<and> (s2, n2, y2) \<in> symbols_of (set_symbol s n x ss) \<and> SymID y1 = SymID y2"
    then obtain z1 z2 where "(s1, n1, z1) \<in> symbols_of ss" "(s2, n2, z2) \<in> symbols_of ss" "SymID z1 = SymID z2"
      using repl by metis
    with ids_okD(2) [OF assms(1)] show "s1 = s2" "n1 = n2" by blast+
  qed
next
  case False
  then have "set_symbol s n x ss = ss" by (simp add: set_symbol_def list_update_beyond linorder_not_less)
  with assms(1) show ?thesis by simp
qed

section \<open>Sequences of operations\<close>

datatype scope_op =
    PushOp scope_node | PopOp | RestoreOp "scope_node option"
  | RegisterOp Identifier "TypeNode list" SymbolKind "go_string list" go_string
  | DefineTypeOp Identifier TypeNode

fun apply_op :: "scope_op \<Rightarrow> ScopeStack \<Rightarrow> ScopeStack" where
  "apply_op (PushOp n) ss = snd (pushScope ss n)"
| "apply_op PopOp ss = popScope ss"
| "apply_op (RestoreOp n) ss = snd (restoreScope ss n)"
| "apply_op (RegisterOp name ty k g d) ss = RegisterSymbolWithNarrowing (current ss) name ty k g d ss"
| "apply_op (DefineTypeOp name ty) ss = DefineType (current ss) name ty ss"

lemma stack_ok_apply: "stack_ok ss \<Longrightarrow> stack_ok (apply_op op ss)"
  by (cases op) (simp_all add: stack_ok_pushScope stack_ok_popScope stack_ok_restoreScope stack_ok_Register stack_ok_DefineType)

lemma symbols_of_push: "stack_ok ss \<Longrightarrow> symbols_of (snd (pushScope ss n)) = symbols_of ss"
proof -
  assume ok: "stack_ok ss"
  have "symbols_of (ss\<lparr>store := (store ss)[current ss := (store ss ! current ss)\<lparr>ChildScopes := x\<rparr>]
      @ [NewScope (Some (current ss)) (Some n) h], current := c, scopes := m\<rparr>) = symbols_of ss" for x h c m
    using stack_okD(1) [OF ok]
    by (auto simp: symbols_of_def nth_append nth_list_update NewScope_def less_Suc_eq split: if_splits)
  moreover have "symbols_of (cacheNodeScopeHash n h s) = symbols_of s" for h s by (rule symbols_of_cong) simp
  moreover have "symbols_of (ss\<lparr>current := e\<rparr>) = symbols_of ss" for e by (rule symbols_of_cong) simp
  ultimately show ?thesis by (simp add: pushScope_def Let_def split: option.splits)
qed

lemma pushScope_next: "nextSymbolID (snd (pushScope ss n)) = nextSymbolID ss"
  by (simp add: pushScope_def Let_def split: option.splits)

lemma restoreScope_keeps: "store (snd (restoreScope ss n)) = store ss \<and> nextSymbolID (snd (restoreScope ss n)) = nextSymbolID ss"
proof (cases n)
  case (Some m)
  obtain r ss' where f: "findScope ss m = (r, ss')" by (cases "findScope ss m")
  from findScope_fields [OF f] Some f show ?thesis by (auto simp: restoreScope_def split: option.splits)
qed (simp add: restoreScope_def)

lemma ids_ok_Register:
  assumes "ids_ok k ss" "Suc k < 2 ^ 32"
  shows "\<exists>k' \<le> Suc k. ids_ok k' (RegisterSymbolWithNarrowing s n ty kd g d ss)"
proof -
  let ?x = "\<lparr>SymIdentifier = n, SymTypes = ty, SymKind = kd, SymScope = s, SymID = nextSymbolID ss,
    SymTypeGuards = g, SymPredicateDisplay = d\<rparr>"
  have f: "ids_ok (Suc k) (set_symbol s n ?x (ss\<lparr>nextSymbolID := nextSymbolID ss + 1\<rparr>))"
    using ids_ok_fresh [OF assms(1), of ?x] assms(2) by simp
  have "ids_ok k (set_symbol s n (mergeVariableNarrowingInPlace prev ty g d) ss)" if "Symbols (store ss ! s) n = Some prev" for prev
    using ids_ok_same_id [OF assms(1) that] by (simp add: mergeVariableNarrowingInPlace_def)
  then have "ids_ok k (RegisterSymbolWithNarrowing s n ty kd g d ss) \<or> ids_ok (Suc k) (RegisterSymbolWithNarrowing s n ty kd g d ss)"
    using f by (simp add: RegisterSymbolWithNarrowing_def ScopeStack_allocSymbolID_def Let_def split: option.splits)
  then show ?thesis by (auto intro: le_SucI)
qed

lemma ids_ok_apply:
  assumes "ids_ok k ss" "stack_ok ss" "Suc k < 2 ^ 32"
  shows "\<exists>k' \<le> Suc k. ids_ok k' (apply_op op ss)"
proof (cases op)
  case (PushOp n)
  have "ids_ok k (snd (pushScope ss n))"
    using assms(1) symbols_of_push [OF assms(2)] pushScope_next by (simp add: ids_ok_def)
  with PushOp show ?thesis by (auto intro: le_SucI)
next
  case PopOp
  have "ids_ok k (popScope ss)"
    using assms(1) by (subst ids_ok_cong [of _ ss]) (auto simp: popScope_def split: option.splits)
  with PopOp show ?thesis by (auto intro: le_SucI)
next
  case (RestoreOp n)
  have "ids_ok k (snd (restoreScope ss n))"
    using assms(1) restoreScope_keeps [of ss n] by (subst ids_ok_cong [of _ ss]) auto
  with RestoreOp show ?thesis by (auto intro: le_SucI)
next
  case (RegisterOp n ty kd g d)
  with ids_ok_Register [OF assms(1,3)] show ?thesis by simp
next
  case (DefineTypeOp n ty)
  with ids_ok_fresh [OF assms(1), of "\<lparr>SymIdentifier = n, SymTypes = [ty], SymKind = SymbolType, SymScope = current ss,
      SymID = nextSymbolID ss, SymTypeGuards = [], SymPredicateDisplay = []\<rparr>"] assms(3)
  show ?thesis by (auto simp: DefineType_def ScopeStack_allocSymbolID_def)
qed

lemma run_ops_ok:
  "ids_ok k ss \<Longrightarrow> stack_ok ss \<Longrightarrow> k + length ops < 2 ^ 32 \<Longrightarrow>
     stack_ok (fold apply_op ops ss) \<and> (\<exists>k' \<le> k + length ops. ids_ok k' (fold apply_op ops ss))"
proof (induction ops arbitrary: k ss)
  case (Cons op ops)
  from Cons.prems obtain k' where k': "k' \<le> Suc k" "ids_ok k' (apply_op op ss)"
    using ids_ok_apply [of k ss op] by auto
  from Cons.IH [OF k'(2) stack_ok_apply [OF Cons.prems(2)]] Cons.prems(3) k'(1)
  obtain k'' where "stack_ok (fold apply_op ops (apply_op op ss))" "k'' \<le> k' + length ops" "ids_ok k'' (fold apply_op ops (apply_op op ss))"
    by auto
  with k'(1) show ?case by (auto intro!: exI [of _ k''])
qed auto

lemma ids_ok_New: "ids_ok 0 (NewScopeStack h)"
  by (auto simp: ids_ok_def symbols_of_def NewScopeStack_def NewScope_def)

text \<open>
  Symbol identifiers identify bindings: after any sequence of fewer than \<open>2^32\<close> scope operations
  no binding has the identifier 0, and two bindings of the whole store have the same identifier
  only if they are the same name in the same scope. In particular shadowing gives a new identifier.
\<close>

theorem symbol_ids_unique:
  assumes "length ops < 2 ^ 32" and "(s, n, x) \<in> symbols_of (fold apply_op ops (NewScopeStack h))"
    and "(s', n', x') \<in> symbols_of (fold apply_op ops (NewScopeStack h))"
  shows "SymID x \<noteq> 0 \<and> (SymID x = SymID x' \<longleftrightarrow> (s, n) = (s', n'))"
proof -
  obtain k where k: "ids_ok k (fold apply_op ops (NewScopeStack h))"
    using run_ops_ok [OF ids_ok_New stack_ok_New] assms(1) by auto
  have "SymID x \<noteq> 0" using ids_okD(1) [OF k assms(2)] by auto
  moreover have "x = x'" if "s = s'" "n = n'" using assms(2,3) that by (simp add: symbols_of_def)
  ultimately show ?thesis using ids_okD(2) [OF k assms(2,3)] by auto
qed

definition sample_node :: "nat \<Rightarrow> scope_node" where
  "sample_node i = \<lparr>nodeKind = FunctionScope, NodeIdentityKey = Some i, HashScopeKey = Some (i + 1), HashScopeKeyDisambiguated = (\<lambda>h. None)\<rparr>"

definition sample_ops :: "scope_op list" where
  "sample_ops = [RegisterOp ''x'' [] SymbolVariable [] [], PushOp (sample_node 1), RegisterOp ''x'' [] SymbolVariable [] []]"

theorem symbol_ids_unique_witness:
  "\<exists>x y. (0, ''x'', x) \<in> symbols_of (fold apply_op sample_ops (NewScopeStack 0)) \<and>
         (1, ''x'', y) \<in> symbols_of (fold apply_op sample_ops (NewScopeStack 0)) \<and> SymID x \<noteq> SymID y"
proof -
  let ?ss = "fold apply_op sample_ops (NewScopeStack 0)"
  obtain x where x: "(0, ''x'', x) \<in> symbols_of ?ss"
    by (simp add: symbols_of_def sample_ops_def sample_node_def NewScopeStack_def NewScope_def RegisterSymbolWithNarrowing_def
        ScopeStack_allocSymbolID_def set_symbol_def pushScope_def resolveScopeHash_def cacheNodeScopeHash_def Let_def)
  obtain y where y: "(1, ''x'', y) \<in> symbols_of ?ss"
    by (simp add: symbols_of_def sample_ops_def sample_node_def NewScopeStack_def NewScope_def RegisterSymbolWithNarrowing_def
        ScopeStack_allocSymbolID_def set_symbol_def pushScope_def resolveScopeHash_def cacheNodeScopeHash_def Let_def)
  have "length sample_ops < 2 ^ 32" by (simp add: sample_ops_def)
  from symbol_ids_unique [OF this x y] x y show ?thesis by auto
qed

section \<open>Lookup\<close>

lemma scope_chain_cong:
  assumes "\<And>i. i < length st \<Longrightarrow> Parent (st' ! i) = Parent (st ! i)"
  shows "s < length st \<Longrightarrow> scope_chain st' s = scope_chain st s"
  using assms
proof (induction st s rule: scope_chain.induct)
  case (1 st s)
  then show ?case by (simp add: scope_chain.simps [of st' s] scope_chain.simps [of st s] split: option.splits)
qed

lemma lookup_variable_cong:
  assumes "\<And>i. i \<in> set ch \<Longrightarrow> Symbols (st' ! i) name = Symbols (st ! i) name \<and> ScopeNode (st' ! i) = ScopeNode (st ! i)"
  shows "lookup_variable st' ch name = lookup_variable st ch name"
  using assms
proof (induction ch)
  case (Cons s ch)
  then have "ScopeNode (st' ! s) = ScopeNode (st ! s)" by simp
  then have "owns_parameters (st' ! s) = owns_parameters (st ! s)"
    by (simp only: owns_parameters_def IsFunction_def IsTypeGuard_def)
  with Cons show ?case by (simp split: option.splits sum.splits bool.splits)
qed simp

lemma set_symbol_node [simp]: "i < length (store ss) \<Longrightarrow> ScopeNode (store (set_symbol s n x ss) ! i) = ScopeNode (store ss ! i)"
  by (cases "i = s") (simp_all add: set_symbol_def)

lemma scope_chain_set_symbol:
  "s < length (store ss) \<Longrightarrow> scope_chain (store (set_symbol s' n x ss)) s = scope_chain (store ss) s"
  by (rule scope_chain_cong) simp_all

lemma set_symbol_lookup_other:
  assumes "stack_ok ss" "s < length (store ss)" "m \<noteq> n"
  shows "LookupVariable (set_symbol s' n x ss) s m = LookupVariable ss s m"
proof -
  have "\<forall>i \<in> set (scope_chain (store ss) s). i < length (store ss)"
    using scope_chain_bounds [OF stack_okD(2) [OF assms(1)] assms(2)] assms(2) by auto
  then show ?thesis unfolding LookupVariable_def scope_chain_set_symbol [OF assms(2)]
    using assms(3) by (intro lookup_variable_cong) (simp add: set_symbol_symbols)
qed

lemma set_symbol_lookup_same:
  assumes "s < length (store ss)" "SymKind x = SymbolVariable"
  shows "LookupVariable (set_symbol s n x ss) s n = Inr (Some x)"
  using assms by (simp add: LookupVariable_def scope_chain.simps [of _ s] set_symbol_symbols)

lemma lookup_next [simp]: "LookupVariable (ss\<lparr>nextSymbolID := i\<rparr>) s m = LookupVariable ss s m"
  by (simp add: LookupVariable_def)

lemma Register_variable:
  assumes "stack_ok ss" "s < length (store ss)"
    and "case Symbols (store ss ! s) name of None \<Rightarrow> True | Some p \<Rightarrow> SymKind p \<noteq> SymbolParameter"
  shows "\<exists>x. (RegisterSymbolWithNarrowing s name types SymbolVariable guards disp ss = set_symbol s name x ss \<or>
              RegisterSymbolWithNarrowing s name types SymbolVariable guards disp ss =
                set_symbol s name x (ss\<lparr>nextSymbolID := nextSymbolID ss + 1\<rparr>)) \<and>
         SymKind x = SymbolVariable \<and> SymTypes x = types \<and>
         (case Symbols (store ss ! s) name of
            Some p \<Rightarrow> if SymKind p = SymbolVariable
              then SymID x = SymID p \<and> set (SymTypeGuards x) = set (SymTypeGuards p) \<union> set guards - {[]}
              else SymID x = nextSymbolID ss
          | None \<Rightarrow> SymID x = nextSymbolID ss \<and> SymTypeGuards x = guards)"
proof (cases "case Symbols (store ss ! s) name of None \<Rightarrow> False | Some p \<Rightarrow> SymKind p = SymbolVariable")
  case True
  then obtain p where p: "Symbols (store ss ! s) name = Some p" "SymKind p = SymbolVariable" by (auto split: option.splits)
  let ?x = "mergeVariableNarrowingInPlace p types guards disp"
  have "set (SymTypeGuards ?x) = set (SymTypeGuards p) \<union> set guards - {[]}"
    using dedup_by_keys [of "\<lambda>g. g" "{[]}" "SymTypeGuards p @ guards"]
    by (simp add: mergeVariableNarrowingInPlace_def mergeNarrowingGuardNamesDedupe_def)
  with p show ?thesis
    by (intro exI [of _ ?x]) (simp add: RegisterSymbolWithNarrowing_def Let_def mergeVariableNarrowingInPlace_def)
next
  case False
  let ?x = "\<lparr>SymIdentifier = name, SymTypes = types, SymKind = SymbolVariable, SymScope = s, SymID = nextSymbolID ss,
     SymTypeGuards = guards, SymPredicateDisplay = disp\<rparr>"
  have "RegisterSymbolWithNarrowing s name types SymbolVariable guards disp ss =
      set_symbol s name ?x (ss\<lparr>nextSymbolID := nextSymbolID ss + 1\<rparr>)"
    using False assms(3) by (cases "Symbols (store ss ! s) name")
      (simp_all add: RegisterSymbolWithNarrowing_def ScopeStack_allocSymbolID_def)
  with False show ?thesis by (intro exI [of _ ?x]) (simp split: option.splits)
qed

text \<open>
  Registering a variable in the current scope: looking it up finds the new types; when the scope
  already binds the name as a variable (narrowing by \<open>if\<close> or \<open>ensure\<close>) the binding keeps its identifier
  and its guards are the old and the new ones without empty names, otherwise it gets the next
  identifier; every other name is found as before.
\<close>

theorem register_then_lookup:
  assumes "stack_ok ss"
    and "case Symbols (store ss ! current ss) name of None \<Rightarrow> True | Some p \<Rightarrow> SymKind p \<noteq> SymbolParameter"
    and "ss' = RegisterSymbolWithNarrowing (current ss) name types SymbolVariable guards disp ss"
  shows "\<exists>x. LookupVariable ss' (current ss) name = Inr (Some x) \<and> SymTypes x = types \<and>
         (case Symbols (store ss ! current ss) name of
            Some p \<Rightarrow> if SymKind p = SymbolVariable
              then SymID x = SymID p \<and> set (SymTypeGuards x) = set (SymTypeGuards p) \<union> set guards - {[]}
              else SymID x = nextSymbolID ss
          | None \<Rightarrow> SymID x = nextSymbolID ss \<and> SymTypeGuards x = guards) \<and>
         (\<forall>m. m = name \<or> LookupVariable ss' (current ss) m = LookupVariable ss (current ss) m)"
proof -
  note c = stack_okD(1) [OF assms(1)]
  from Register_variable [OF assms(1) c assms(2), of types guards disp] obtain x where
    x: "ss' = set_symbol (current ss) name x ss \<or> ss' = set_symbol (current ss) name x (ss\<lparr>nextSymbolID := nextSymbolID ss + 1\<rparr>)"
    "SymKind x = SymbolVariable" and r: "SymTypes x = types" "case Symbols (store ss ! current ss) name of
            Some p \<Rightarrow> if SymKind p = SymbolVariable
              then SymID x = SymID p \<and> set (SymTypeGuards x) = set (SymTypeGuards p) \<union> set guards - {[]}
              else SymID x = nextSymbolID ss
          | None \<Rightarrow> SymID x = nextSymbolID ss \<and> SymTypeGuards x = guards" unfolding assms(3) by blast
  have "LookupVariable ss' (current ss) name = Inr (Some x)" using x c by (auto intro: set_symbol_lookup_same)
  moreover have "LookupVariable ss' (current ss) m = LookupVariable ss (current ss) m" if "m \<noteq> name" for m
    using x(1)
  proof
    assume "ss' = set_symbol (current ss) name x ss"
    with set_symbol_lookup_other [OF assms(1) c that] show ?thesis by simp
  next
    assume "ss' = set_symbol (current ss) name x (ss\<lparr>nextSymbolID := nextSymbolID ss + 1\<rparr>)"
    with set_symbol_lookup_other [of "ss\<lparr>nextSymbolID := nextSymbolID ss + 1\<rparr>" "current ss" m name] assms(1) c that
    show ?thesis by simp
  qed
  ultimately show ?thesis using r by blast
qed

theorem register_then_lookup_witness:
  "\<exists>x. LookupVariable (RegisterSymbolWithNarrowing 0 ''x'' [] SymbolVariable [''Min''] [] (NewScopeStack 0)) 0 ''x'' = Inr (Some x) \<and>
       SymID x = 1 \<and> SymTypeGuards x = [''Min'']"
  using register_then_lookup [OF stack_ok_New, of 0 "''x''" _ "[]" "[''Min'']" "[]"]
  by (simp add: NewScopeStack_def NewScope_def) blast

end
