(* ===== verification/FactDeps.thy ===== *)
theory FactDeps
  imports RefinementContext Scopes TypeOps
begin

text \<open>
  \<open>internal/ast/source_span.go\<close> and \<open>internal/typechecker/fact_deps.go\<close>: source spans, the overlap of a
  written path with a path a fact reads, and the extraction of the paths an \<open>ensure\<close> depends on.
  The paths that the type checker compares are interned, so a pointer is modelled by the path it
  points to (\<open>Intern_canonical\<close> says that this loses nothing). What extraction asks of the rest
  of the checker is the record \<open>fact_env\<close>: the definitions, the resolution of a name to its symbol
  identifier and the list of symbols visible from the current scope.
\<close>

section \<open>Source spans (source\_span.go)\<close>

record SourceSpan =
  StartLine :: int
  StartCol :: int
  EndLine :: int
  EndCol :: int

definition IsSet :: "SourceSpan \<Rightarrow> bool" where
  "IsSet s \<longleftrightarrow> StartLine s \<ge> 1 \<and> StartCol s \<ge> 1"

definition ContainsPosition :: "SourceSpan \<Rightarrow> int \<Rightarrow> int \<Rightarrow> bool" where
  "ContainsPosition s line col =
     (if \<not> IsSet s then False
      else if line < StartLine s \<or> line > EndLine s then False
      else if StartLine s = EndLine s then col \<ge> StartCol s \<and> col < EndCol s
      else if line = StartLine s then col \<ge> StartCol s
      else if line = EndLine s then col < EndCol s
      else True)"

text \<open>\<open>utf8.RuneCountInString\<close>: the length, and on valid UTF-8 the bytes that start a rune.\<close>

definition RuneCountInString :: "go_string \<Rightarrow> nat" where
  "RuneCountInString s = length (filter (\<lambda>c. \<not> (128 \<le> (of_char c :: nat) \<and> of_char c < (192 :: nat))) s)"

definition SpanBetweenTokens :: "Token \<Rightarrow> Token \<Rightarrow> SourceSpan" where
  "SpanBetweenTokens start end =
     \<lparr>StartLine = int (Line start), StartCol = int (Column start), EndLine = int (Line end),
      EndCol = int (Column end + max (RuneCountInString (Value end)) 1)\<rparr>"

definition SpanFromToken :: "Token \<Rightarrow> SourceSpan" where
  "SpanFromToken t =
     \<lparr>StartLine = int (Line t), StartCol = int (Column t), EndLine = int (Line t),
      EndCol = int (Column t + max (RuneCountInString (Value t)) 1)\<rparr>"

definition SpanFromTo :: "SourceSpan \<Rightarrow> SourceSpan \<Rightarrow> SourceSpan" where
  "SpanFromTo start end =
     (if IsSet start \<and> IsSet end
      then \<lparr>StartLine = StartLine start, StartCol = StartCol start, EndLine = EndLine end, EndCol = EndCol end\<rparr>
      else if IsSet start then start else end)"

section \<open>Overlap of paths\<close>

definition stepsEqual :: "AccessStep \<Rightarrow> AccessStep \<Rightarrow> bool" where
  "stepsEqual a b =
     (if Kind a \<noteq> Kind b then False
      else if Kind a = AccessField then FieldName a = FieldName b
      else True)"

text \<open>A nil path overlaps nothing.\<close>

definition PathsOverlap :: "AccessPath option \<Rightarrow> AccessPath option \<Rightarrow> bool" where
  "PathsOverlap write dep =
     (case (write, dep) of
        (Some w, Some d) \<Rightarrow>
          if Root w \<noteq> Root d then False
          else if length (Steps w) > length (Steps d) then False
          else list_all (\<lambda>i. stepsEqual (Steps w ! i) (Steps d ! i)) [0..<length (Steps w)]
      | _ \<Rightarrow> False)"

text \<open>The loop over the common prefix: \<open>None\<close> is a mismatch, otherwise whether an index was seen.\<close>

fun common_prefix :: "AccessStep list \<Rightarrow> AccessStep list \<Rightarrow> bool \<Rightarrow> bool option" where
  "common_prefix (w # ws) (r # rs) sawIndex =
     (if Kind w = AccessIndexAny \<or> Kind r = AccessIndexAny then common_prefix ws rs True
      else if \<not> stepsEqual w r then None
      else common_prefix ws rs sawIndex)"
| "common_prefix ws rs sawIndex = Some sawIndex"

definition pathsOverlapIndexAny :: "AccessPath option \<Rightarrow> AccessPath option \<Rightarrow> bool" where
  "pathsOverlapIndexAny write read =
     (case (write, read) of
        (Some w, Some r) \<Rightarrow>
          if Root w \<noteq> Root r then False
          else (case common_prefix (Steps w) (Steps r) False of
                  None \<Rightarrow> False
                | Some True \<Rightarrow> True
                | Some False \<Rightarrow>
                    length (Steps w) > length (Steps r) \<and>
                    list_ex (\<lambda>s. Kind s = AccessIndexAny) (drop (length (Steps r)) (Steps w)))
      | _ \<Rightarrow> False)"

definition MayClobber :: "AccessPath option \<Rightarrow> AccessPath option \<Rightarrow> bool" where
  "MayClobber writePath readPath \<longleftrightarrow> PathsOverlap writePath readPath \<or> pathsOverlapIndexAny writePath readPath"

text \<open>Slices of paths hold no nil here: every path in them comes from the interner.\<close>

definition mergeAccessPaths :: "AccessPath list \<Rightarrow> AccessPath list \<Rightarrow> AccessPath list" where
  "mergeAccessPaths a b = dedup_by PathKey {} (a @ b)"

definition stripRoot :: "AccessPath list \<Rightarrow> AccessPath list" where
  "stripRoot paths = map (\<lambda>p. \<lparr>Root = 0, Steps = CloneSteps p\<rparr>) paths"

definition rebasePathsToSubject :: "AccessPath list \<Rightarrow> AccessPath \<Rightarrow> AccessPath list" where
  "rebasePathsToSubject cached subject =
     map (\<lambda>p. \<lparr>Root = Root subject, Steps = CloneSteps subject @ CloneSteps p\<rparr>) cached"

section \<open>Paths of variables\<close>

definition field_step :: "go_string \<Rightarrow> AccessStep" where
  "field_step f = \<lparr>Kind = AccessField, FieldName = f\<rparr>"

definition index_any :: AccessStep where
  "index_any = \<lparr>Kind = AccessIndexAny, FieldName = []\<rparr>"

definition part_step :: "go_string \<Rightarrow> AccessStep" where
  "part_step part = (if part = ''*'' \<or> part = ''[*]'' then index_any else field_step part)"

definition extend_path :: "AccessPath \<Rightarrow> AccessStep list \<Rightarrow> AccessPath" where
  "extend_path p ss = \<lparr>Root = Root p, Steps = CloneSteps p @ ss\<rparr>"

definition root_only :: "AccessPath \<Rightarrow> AccessPath" where
  "root_only p = \<lparr>Root = Root p, Steps = []\<rparr>"

definition relativeFieldSteps :: "go_string \<Rightarrow> go_string \<Rightarrow> AccessStep list" where
  "relativeFieldSteps guardSubject ensurePath =
     (if ensurePath = guardSubject then []
      else let pre = guardSubject @ ''.'' in
        if take (length pre) ensurePath \<noteq> pre then []
        else map part_step (filter (\<lambda>part. part \<noteq> []) (split_on (CHR ''.'') (drop (length pre) ensurePath))))"

text \<open>
  \<open>resolve\<close> is \<open>CurrentScope().LookupSymbolID\<close> with the fallback 0 for a name that is not bound.
\<close>

definition AccessPathForVariable :: "(Identifier \<Rightarrow> SymbolID) \<Rightarrow> Identifier \<Rightarrow> AccessPath" where
  "AccessPathForVariable resolve name =
     (case split_on (CHR ''.'') name of
        [] \<Rightarrow> \<lparr>Root = resolve name, Steps = []\<rparr>
      | rootName # parts \<Rightarrow> \<lparr>Root = resolve rootName, Steps = map part_step parts\<rparr>)"

primrec dottedIdentFromExpr :: "ExpressionNode \<Rightarrow> go_string" where
  "dottedIdentFromExpr (IntLiteralNode n raw ty) = []"
| "dottedIdentFromExpr (FloatLiteralNode f ty) = []"
| "dottedIdentFromExpr (StringLiteralNode s ty) = []"
| "dottedIdentFromExpr (RuneLiteralNode c ty) = []"
| "dottedIdentFromExpr (BoolLiteralNode b ty) = []"
| "dottedIdentFromExpr (ArrayLiteralNode xs ty) = []"
| "dottedIdentFromExpr (MapLiteralNode xs ty ty') = []"
| "dottedIdentFromExpr NilLiteralNode = []"
| "dottedIdentFromExpr IotaLiteralNode = []"
| "dottedIdentFromExpr (VariableNode x ty) = x"
| "dottedIdentFromExpr (ReferenceNode e) = []"
| "dottedIdentFromExpr (DereferenceNode e) = []"
| "dottedIdentFromExpr (UnaryExpressionNode op e) = []"
| "dottedIdentFromExpr (BinaryExpressionNode l op r) = []"
| "dottedIdentFromExpr (FunctionCallNode f ce tys es) = []"
| "dottedIdentFromExpr (MethodCallNode e f es) = []"
| "dottedIdentFromExpr (IndexExpressionNode e i) = []"
| "dottedIdentFromExpr (SliceExpressionNode e lo hi) = []"
| "dottedIdentFromExpr (SpreadExpressionNode e) = []"
| "dottedIdentFromExpr (TypeExpressionNode ty) = []"
| "dottedIdentFromExpr (FieldAccessNode target f) =
     (let base = dottedIdentFromExpr target in if base = [] then f else base @ ''.'' @ f)"
| "dottedIdentFromExpr (FunctionLiteralNode ps rs) = []"
| "dottedIdentFromExpr (ShapeExpr s) = []"
| "dottedIdentFromExpr (AssertionExpr a) = []"
| "dottedIdentFromExpr (OkExprNode e) = []"
| "dottedIdentFromExpr (ErrExprNode e) = []"

definition accessPathForExpr :: "(Identifier \<Rightarrow> SymbolID) \<Rightarrow> ExpressionNode \<Rightarrow> AccessPath option" where
  "accessPathForExpr resolve arg =
     (case arg of
        VariableNode x ty \<Rightarrow> Some (AccessPathForVariable resolve x)
      | _ \<Rightarrow>
        (let name = dottedIdentFromExpr arg
         in if name \<noteq> [] then Some (AccessPathForVariable resolve name) else None))"

text \<open>A field of a call result is taken for the variable of the field's name.\<close>

lemma call_field_as_variable:
  "accessPathForExpr res (FieldAccessNode (FunctionCallNode g ce tys es) f) = (if f = [] then None else accessPathForExpr res (VariableNode f ty))"
  by (simp add: accessPathForExpr_def Let_def)

section \<open>Dependencies of an assertion\<close>

datatype definition_node = GuardDef TypeGuardNode | TypeDef TypeDefExpr | OtherDef

record fact_env =
  resolve :: "Identifier \<Rightarrow> SymbolID"
  definitions :: "TypeIdent \<rightharpoonup> definition_node"
  visible :: "Symbol set"

definition IsTypeGuardConstraint :: "fact_env \<Rightarrow> go_string \<Rightarrow> bool" where
  "IsTypeGuardConstraint env name =
     (case definitions env name of Some (GuardDef gn) \<Rightarrow> True | _ \<Rightarrow> False)"

definition collection_type :: "TypeNode \<Rightarrow> bool" where
  "collection_type t \<longleftrightarrow> TIdent t = TypeArray \<or> TIdent t = TypeMap \<or> TIdent t = TypeBytes"

definition subjectLooksLikeCollection :: "fact_env \<Rightarrow> AccessPath \<Rightarrow> bool" where
  "subjectLooksLikeCollection env subjectRoot \<longleftrightarrow>
     (\<exists>x \<in> visible env. SymKind x = SymbolVariable \<and> SymID x = Root subjectRoot \<and> list_ex collection_type (SymTypes x))"

text \<open>The order of the fields is that of the list; in the source it is the order of a map iteration.\<close>

fun shapeFieldDeps :: "AccessPath \<Rightarrow> ShapeNode \<Rightarrow> AccessPath list"
  and shape_fields :: "AccessPath \<Rightarrow> (string \<times> ShapeFieldNode) list \<Rightarrow> AccessPath list \<Rightarrow> AccessPath list" where
  "shapeFieldDeps base (ShapeNode fs order bt) = shape_fields base fs []"
| "shape_fields base [] out = out"
| "shape_fields base ((name, ShapeFieldNode nd a None ty m mp mr e tg g) # fs) out =
     shape_fields base fs (mergeAccessPaths out [extend_path base [field_step name]])"
| "shape_fields base ((name, ShapeFieldNode nd a (Some s) ty m mp mr e tg g) # fs) out =
     (let p = extend_path base [field_step name]
      in shape_fields base fs (mergeAccessPaths (mergeAccessPaths out [p]) (shapeFieldDeps p s)))"

definition extractDepsFromMatchShape :: "AccessPath \<Rightarrow> ConstraintArgumentNode list \<Rightarrow> AccessPath list" where
  "extractDepsFromMatchShape subjectRoot args =
     fold (\<lambda>arg out. case ArgShape arg of
              None \<Rightarrow> out
            | Some s \<Rightarrow> mergeAccessPaths out (shapeFieldDeps subjectRoot s)) args [subjectRoot]"

definition subject_builtins :: "go_string set" where
  "subject_builtins =
     {''Present'', ''Nil'', ''Min'', ''Max'', ''Equals'', ''True'', ''False'', ''NotEmpty'', ValueConstraint, ''Ok'', ''Err''}"

text \<open>
  The state of the traversal: the guards visited and the cache of dependencies per guard. The
  functions take the handler for named guards as an argument; \<open>None\<close> is a handler out of fuel.
\<close>

type_synonym dep_state = "go_string set \<times> (go_string \<rightharpoonup> AccessPath list)"
type_synonym guard_handler = "go_string \<Rightarrow> AccessPath \<Rightarrow> dep_state \<Rightarrow> (AccessPath list \<times> dep_state) option"

definition extractDepsFromAtom ::
  "fact_env \<Rightarrow> guard_handler \<Rightarrow> AccessPath \<Rightarrow> go_string \<Rightarrow> ConstraintArgumentNode list \<Rightarrow> dep_state
     \<Rightarrow> (AccessPath list \<times> dep_state) option" where
  "extractDepsFromAtom env guard subjectRoot name args st =
     (if name = [] then Some ([subjectRoot], st)
      else if IsTypeGuardConstraint env name then
        if name \<in> fst st then Some ([subjectRoot], st)
        else guard name subjectRoot (insert name (fst st), snd st)
      else if name \<in> subject_builtins then
        Some (if subjectLooksLikeCollection env subjectRoot
              then mergeAccessPaths [subjectRoot] [extend_path subjectRoot [index_any]] else [subjectRoot], st)
      else if name = ''Match'' then Some (extractDepsFromMatchShape subjectRoot args, st)
      else Some ([root_only subjectRoot], st))"

fun ExtractDepsFromAssertion ::
  "fact_env \<Rightarrow> guard_handler \<Rightarrow> AccessPath \<Rightarrow> Assertion \<Rightarrow> dep_state \<Rightarrow> (AccessPath list \<times> dep_state) option"
  and extract_children ::
  "fact_env \<Rightarrow> guard_handler \<Rightarrow> AccessPath \<Rightarrow> Assertion list \<Rightarrow> AccessPath list \<Rightarrow> dep_state
     \<Rightarrow> (AccessPath list \<times> dep_state) option" where
  "ExtractDepsFromAssertion env guard p (Atom name base args runtime) st = extractDepsFromAtom env guard p name args st"
| "ExtractDepsFromAssertion env guard p (AllOf cs) st = extract_children env guard p cs [] st"
| "ExtractDepsFromAssertion env guard p (AnyOf cs) st = extract_children env guard p cs [] st"
| "extract_children env guard p [] out st = Some (out, st)"
| "extract_children env guard p (c # cs) out st =
     (case ExtractDepsFromAssertion env guard p c st of
        None \<Rightarrow> None
      | Some (ds, st') \<Rightarrow> extract_children env guard p cs (mergeAccessPaths out ds) st')"

text \<open>Values passed to constraints of a guard body, as in \<open>AllowedFor(account)\<close>.\<close>

definition argument_paths :: "fact_env \<Rightarrow> ConstraintNode list \<Rightarrow> AccessPath list" where
  "argument_paths env cs =
     List.map_filter
       (\<lambda>arg. case ArgValue arg of Some (VariableNode x ty) \<Rightarrow> Some (AccessPathForVariable (resolve env) x) | _ \<Rightarrow> None)
       (concat (map CArgs cs))"

definition ensure_deps ::
  "fact_env \<Rightarrow> guard_handler \<Rightarrow> go_string \<Rightarrow> AccessPath \<Rightarrow> EnsureNode \<Rightarrow> AccessPath list \<Rightarrow> dep_state
     \<Rightarrow> (AccessPath list \<times> dep_state) option" where
  "ensure_deps env guard subjIdent subjectRoot ens out st =
     (let rel = relativeFieldSteps subjIdent (EVariable ens);
          place = (if rel = [] then subjectRoot else extend_path subjectRoot rel)
      in case LowerRefinementTarget (ETarget ens) (EAssertion ens) of
           (ir, Some tt) \<Rightarrow> Some (mergeAccessPaths out [place], st)
         | (None, None) \<Rightarrow> Some (mergeAccessPaths out [place], st)
         | (Some ir, None) \<Rightarrow>
             (case ExtractDepsFromAssertion env guard place ir st of
                None \<Rightarrow> None
              | Some (ds, st') \<Rightarrow>
                  Some (let out = mergeAccessPaths out ds
                        in if OrChains (EAssertion ens) \<noteq> [] then out
                           else fold (\<lambda>p out. mergeAccessPaths out [p]) (argument_paths env (Constraints (EAssertion ens))) out,
                        st')))"

fun body_deps ::
  "fact_env \<Rightarrow> guard_handler \<Rightarrow> go_string \<Rightarrow> AccessPath \<Rightarrow> Node list \<Rightarrow> AccessPath list \<Rightarrow> dep_state
     \<Rightarrow> (AccessPath list \<times> dep_state) option" where
  "body_deps env guard subjIdent p [] out st = Some (out, st)"
| "body_deps env guard subjIdent p (EnsureStmt ens # ns) out st =
     (case ensure_deps env guard subjIdent p ens out st of
        None \<Rightarrow> None
      | Some (out', st') \<Rightarrow> body_deps env guard subjIdent p ns out' st')"
| "body_deps env guard subjIdent p (n # ns) out st = body_deps env guard subjIdent p ns out st"

fun depsForNamedGuard :: "nat \<Rightarrow> fact_env \<Rightarrow> guard_handler" where
  "depsForNamedGuard fuel env name subjectRoot st =
     (case snd st name of
        Some cached \<Rightarrow> Some (rebasePathsToSubject cached subjectRoot, st)
      | None \<Rightarrow>
        (case definitions env name of
           Some (GuardDef gn) \<Rightarrow>
             (case fuel of
                0 \<Rightarrow> None
              | Suc n \<Rightarrow>
                (case body_deps env (depsForNamedGuard n env) (Param_GetIdent (GuardSubject gn)) subjectRoot (GuardBody gn) [] st of
                   None \<Rightarrow> None
                 | Some (out, st') \<Rightarrow>
                   (let out = (if out = [] then [root_only subjectRoot] else out)
                    in Some (out, fst st', (snd st')(name \<mapsto> stripRoot out)))))
         | _ \<Rightarrow> Some ([root_only subjectRoot], st)))"

declare depsForNamedGuard.simps [simp del]

definition ExtractDepsForEnsure ::
  "nat \<Rightarrow> fact_env \<Rightarrow> (go_string \<rightharpoonup> AccessPath list) \<Rightarrow> EnsureNode
     \<Rightarrow> (AccessPath list \<times> (go_string \<rightharpoonup> AccessPath list)) option" where
  "ExtractDepsForEnsure fuel env cache n =
     (let subject = AccessPathForVariable (resolve env) (EVariable n)
      in case ETarget n of
           Some (TypeTarget name) \<Rightarrow> Some ([subject], cache)
         | _ \<Rightarrow>
           (case fst (LowerRefinementTarget (ETarget n) (EAssertion n)) of
              None \<Rightarrow> Some ([subject], cache)
            | Some ir \<Rightarrow>
              map_option (\<lambda>(ds, st). (ds, snd st))
                (ExtractDepsFromAssertion env (depsForNamedGuard fuel env) subject ir ({}, cache))))"

section \<open>Overlap is overlap of storage\<close>

text \<open>
  The storage a path names: a location is a binding and the concrete selections made from it, with
  an index where the path has \<open>[*]\<close>. Writing a path changes the cells it names and all below them.
\<close>

datatype selection = InField go_string | AtIndex nat | Pointee

type_synonym location = "SymbolID \<times> selection list"

definition selects :: "AccessStep \<Rightarrow> selection \<Rightarrow> bool" where
  "selects s c =
     (case Kind s of
        AccessField \<Rightarrow> c = InField (FieldName s)
      | AccessIndexAny \<Rightarrow> (\<exists>n. c = AtIndex n)
      | AccessDeref \<Rightarrow> c = Pointee)"

definition cells_of :: "AccessPath \<Rightarrow> location set" where
  "cells_of p = {(r, cs). r = Root p \<and> list_all2 selects (Steps p) cs}"

definition region :: "AccessPath \<Rightarrow> location set" where
  "region p = {(r, cs). \<exists>k. (r, take k cs) \<in> cells_of p}"

lemma selects_same: "selects a c \<Longrightarrow> selects b c \<longleftrightarrow> stepsEqual a b"
  by (auto simp: selects_def stepsEqual_def split: AccessStepKind.splits)

lemma selects_ex: "\<exists>c. selects a c"
  by (cases "Kind a") (auto simp: selects_def)

lemma cells_ex: "\<exists>cs. list_all2 selects ss cs"
proof -
  define c where "c a = (SOME x. selects a x)" for a
  have "selects a (c a)" for a using selects_ex [of a] by (simp add: c_def someI_ex)
  then have "list_all2 selects ss (map c ss)" by (simp add: list_all2_map2 list_all2_same)
  then show ?thesis ..
qed

lemma overlap_steps:
  "list_all2 selects d cs \<Longrightarrow>
     (\<exists>k. list_all2 selects w (take k cs)) \<longleftrightarrow> length w \<le> length d \<and> list_all (\<lambda>i. stepsEqual (w ! i) (d ! i)) [0..<length w]"
proof -
  assume d: "list_all2 selects d cs"
  note len = list_all2_lengthD [OF d]
  have at: "selects (d ! i) (cs ! i)" if "i < length d" for i using d that by (rule list_all2_nthD)
  have eq: "selects (w ! i) (cs ! i) \<longleftrightarrow> stepsEqual (w ! i) (d ! i)" if "i < length d" for i
    using selects_same [OF at [OF that], of "w ! i"] by (auto simp: stepsEqual_def)
  show ?thesis
  proof
    assume "\<exists>k. list_all2 selects w (take k cs)"
    then obtain k where k: "list_all2 selects w (take k cs)" ..
    have lw: "length w = min (length cs) k" using list_all2_lengthD [OF k] by simp
    then have "length w \<le> length d" using len by simp
    moreover have "stepsEqual (w ! i) (d ! i)" if "i < length w" for i
      using list_all2_nthD [OF k that] that lw eq [of i] len by simp
    ultimately show "length w \<le> length d \<and> list_all (\<lambda>i. stepsEqual (w ! i) (d ! i)) [0..<length w]"
      by (simp add: list_all_iff)
  next
    assume r: "length w \<le> length d \<and> list_all (\<lambda>i. stepsEqual (w ! i) (d ! i)) [0..<length w]"
    then have "list_all2 selects w (take (length w) cs)"
      using eq len by (auto simp: list_all2_conv_all_nth list_all_iff)
    then show "\<exists>k. list_all2 selects w (take k cs)" ..
  qed
qed

lemma PathsOverlap_region: "PathsOverlap (Some w) (Some d) \<longleftrightarrow> region w \<inter> cells_of d \<noteq> {}"
proof -
  have "region w \<inter> cells_of d \<noteq> {} \<longleftrightarrow> (\<exists>cs. Root w = Root d \<and> list_all2 selects (Steps d) cs \<and> (\<exists>k. list_all2 selects (Steps w) (take k cs)))"
    by (auto simp: region_def cells_of_def)
  also have "\<dots> \<longleftrightarrow> Root w = Root d \<and> length (Steps w) \<le> length (Steps d) \<and>
      list_all (\<lambda>i. stepsEqual (Steps w ! i) (Steps d ! i)) [0..<length (Steps w)]"
    using overlap_steps [of "Steps d" _ "Steps w"] cells_ex [of "Steps d"] by blast
  also have "\<dots> \<longleftrightarrow> PathsOverlap (Some w) (Some d)" by (auto simp: PathsOverlap_def)
  finally show ?thesis ..
qed

lemma MayClobber_root: "MayClobber (Some w) (Some d) \<Longrightarrow> Root w = Root d"
  by (auto simp: MayClobber_def PathsOverlap_def pathsOverlapIndexAny_def split: if_splits)

text \<open>
  C14. \<open>PathsOverlap\<close> is exact: the written path overlaps the path read exactly when writing changes a
  cell that the read path names. With the coarse treatment of indices \<open>MayClobber\<close> never misses such
  a cell, and it never relates paths of different bindings.
\<close>

theorem PathsOverlap_exact:
  "(PathsOverlap (Some w) (Some d) \<longleftrightarrow> region w \<inter> cells_of d \<noteq> {}) \<and>
   (region w \<inter> cells_of d = {} \<or> MayClobber (Some w) (Some d)) \<and>
   (MayClobber (Some w) (Some d) \<longleftrightarrow> Root w = Root d \<and> MayClobber (Some w) (Some d))"
  using PathsOverlap_region [of w d] MayClobber_root [of w d] by (auto simp: MayClobber_def)

section \<open>Extraction ends\<close>

definition guards_of :: "fact_env \<Rightarrow> go_string set" where
  "guards_of env = Collect (IsTypeGuardConstraint env)"

text \<open>A handler answers on every state with fewer than \<open>n\<close> unvisited guards, and forgets no visit.\<close>

definition answers :: "fact_env \<Rightarrow> nat \<Rightarrow> guard_handler \<Rightarrow> bool" where
  "answers env n h \<longleftrightarrow>
     (\<forall>name p st. card (guards_of env - fst st) < n \<longrightarrow> (\<exists>ds st'. h name p st = Some (ds, st') \<and> fst st \<subseteq> fst st'))"

lemma answersD:
  "answers env n h \<Longrightarrow> card (guards_of env - fst st) < n \<Longrightarrow> \<exists>ds st'. h name p st = Some (ds, st') \<and> fst st \<subseteq> fst st'"
  unfolding answers_def by blast

lemma fewer_unvisited:
  "finite (guards_of env) \<Longrightarrow> V \<subseteq> V' \<Longrightarrow> card (guards_of env - V) \<le> n \<Longrightarrow> card (guards_of env - V') \<le> n"
  by (meson Diff_mono card_mono finite_Diff le_trans order_refl)

lemma atom_answers:
  assumes "finite (guards_of env)" "answers env n h" "card (guards_of env - fst st) \<le> n"
  shows "\<exists>ds st'. extractDepsFromAtom env h p name args st = Some (ds, st') \<and> fst st \<subseteq> fst st'"
proof (cases "name \<noteq> [] \<and> IsTypeGuardConstraint env name \<and> name \<notin> fst st")
  case True
  then have "guards_of env - insert name (fst st) \<subset> guards_of env - fst st" by (auto simp: guards_of_def)
  then have "card (guards_of env - insert name (fst st)) < n"
    using psubset_card_mono [of "guards_of env - fst st"] assms(1,3) by fastforce
  from answersD [OF assms(2), of "(insert name (fst st), snd st)" name p] this True
  show ?thesis by (auto simp: extractDepsFromAtom_def)
next
  case False
  then show ?thesis by (cases st) (auto simp: extractDepsFromAtom_def)
qed

lemma children_answers:
  assumes "finite (guards_of env)"
    and "\<And>c st. c \<in> set cs \<Longrightarrow> card (guards_of env - fst st) \<le> n \<Longrightarrow>
           \<exists>ds st'. ExtractDepsFromAssertion env h p c st = Some (ds, st') \<and> fst st \<subseteq> fst st'"
    and "card (guards_of env - fst st) \<le> n"
  shows "\<exists>ds st'. extract_children env h p cs out st = Some (ds, st') \<and> fst st \<subseteq> fst st'"
  using assms(2,3)
proof (induction cs arbitrary: out st)
  case (Cons c cs)
  from Cons.prems(1) [OF _ Cons.prems(2), of c]
  obtain ds st' where c: "ExtractDepsFromAssertion env h p c st = Some (ds, st')" "fst st \<subseteq> fst st'" by auto
  have le: "card (guards_of env - fst st') \<le> n" using fewer_unvisited [OF assms(1) c(2) Cons.prems(2)] .
  have "\<And>c st. c \<in> set cs \<Longrightarrow> card (guards_of env - fst st) \<le> n \<Longrightarrow>
           \<exists>ds st'. ExtractDepsFromAssertion env h p c st = Some (ds, st') \<and> fst st \<subseteq> fst st'"
    using Cons.prems(1) by simp
  from Cons.IH [OF this le] obtain ds2 st2 where
    "extract_children env h p cs (mergeAccessPaths out ds) st' = Some (ds2, st2)" "fst st' \<subseteq> fst st2" by blast
  with c show ?case by (intro exI [of _ ds2] exI [of _ st2]) auto
qed auto

lemma assertion_answers:
  assumes "finite (guards_of env)" "answers env n h"
  shows "card (guards_of env - fst st) \<le> n \<Longrightarrow>
           \<exists>ds st'. ExtractDepsFromAssertion env h p a st = Some (ds, st') \<and> fst st \<subseteq> fst st'"
proof (induction a arbitrary: st)
  case (Atom name base args runtime)
  then show ?case using atom_answers [OF assms] by simp
next
  case (AnyOf cs)
  from children_answers [OF assms(1) AnyOf.IH AnyOf.prems] show ?case by simp
next
  case (AllOf cs)
  from children_answers [OF assms(1) AllOf.IH AllOf.prems] show ?case by simp
qed

lemma ensure_answers:
  assumes "finite (guards_of env)" "answers env n h" "card (guards_of env - fst st) \<le> n"
  shows "\<exists>ds st'. ensure_deps env h s p ens out st = Some (ds, st') \<and> fst st \<subseteq> fst st'"
proof -
  define place where "place = (let rel = relativeFieldSteps s (EVariable ens) in if rel = [] then p else extend_path p rel)"
  show ?thesis
  proof (cases "LowerRefinementTarget (ETarget ens) (EAssertion ens)")
    case (Pair ir tt)
    show ?thesis
    proof (cases "ir = None \<or> tt \<noteq> None")
      case True
      with Pair show ?thesis by (cases ir; cases tt) (simp_all add: ensure_deps_def Let_def)
    next
      case False
      then obtain a where a: "ir = Some a" "tt = None" by auto
      from assertion_answers [OF assms] obtain ds st' where
        "ExtractDepsFromAssertion env h place a st = Some (ds, st')" "fst st \<subseteq> fst st'" by blast
      with Pair a show ?thesis by (auto simp: ensure_deps_def place_def Let_def)
    qed
  qed
qed

lemma body_answers:
  assumes "finite (guards_of env)" "answers env n h"
  shows "card (guards_of env - fst st) \<le> n \<Longrightarrow>
    \<exists>ds st'. body_deps env h s p ns out st = Some (ds, st') \<and> fst st \<subseteq> fst st'"
proof (induction ns arbitrary: out st)
  case (Cons node ns)
  show ?case
  proof (cases "\<exists>ens. node = EnsureStmt ens")
    case True
    then obtain ens where e: "node = EnsureStmt ens" ..
    from ensure_answers [OF assms Cons.prems] obtain ds st' where
      1: "ensure_deps env h s p ens out st = Some (ds, st')" "fst st \<subseteq> fst st'" by blast
    from Cons.IH [OF fewer_unvisited [OF assms(1) 1(2) Cons.prems]] obtain ds2 st2 where
      "body_deps env h s p ns ds st' = Some (ds2, st2)" "fst st' \<subseteq> fst st2" by blast
    with e 1 show ?thesis by auto
  next
    case False
    then have "body_deps env h s p (node # ns) out st = body_deps env h s p ns out st" by (cases node) auto
    with Cons.IH [OF Cons.prems] show ?thesis by simp
  qed
qed auto

lemma guard_answers:
  assumes "finite (guards_of env)"
  shows "answers env n (depsForNamedGuard n env)"
proof (induction n)
  case (Suc n)
  show ?case unfolding answers_def
  proof (intro allI impI)
    fix name p and st :: dep_state
    assume "card (guards_of env - fst st) < Suc n"
    then have le: "card (guards_of env - fst st) \<le> n" by simp
    show "\<exists>ds st'. depsForNamedGuard (Suc n) env name p st = Some (ds, st') \<and> fst st \<subseteq> fst st'"
    proof (cases "snd st name = None \<and> IsTypeGuardConstraint env name")
      case True
      then obtain gn where gn: "definitions env name = Some (GuardDef gn)"
        by (auto simp: IsTypeGuardConstraint_def split: option.splits definition_node.splits)
      from body_answers [OF assms Suc le] obtain ds st' where
        "body_deps env (depsForNamedGuard n env) (Param_GetIdent (GuardSubject gn)) p (GuardBody gn) [] st = Some (ds, st')"
        "fst st \<subseteq> fst st'" by blast
      with True gn show ?thesis by (auto simp: depsForNamedGuard.simps [of "Suc n"] Let_def)
    next
      case False
      then show ?thesis
        by (cases st) (auto simp: depsForNamedGuard.simps [of "Suc n"] IsTypeGuardConstraint_def split: option.splits definition_node.splits)
    qed
  qed
qed (simp add: answers_def)

text \<open>
  Extraction of dependencies ends although guards may refer to each other in a cycle: as much fuel as
  there are type guards is enough for every \<open>ensure\<close> and every state of the cache.
\<close>

theorem ExtractDeps_returns:
  assumes "finite (guards_of env)" and "card (guards_of env) \<le> fuel"
  shows "\<exists>ds cache'. ExtractDepsForEnsure fuel env cache n = Some (ds, cache')"
proof -
  have "\<exists>ds st'. ExtractDepsFromAssertion env (depsForNamedGuard fuel env) p a ({}, cache) = Some (ds, st') \<and> fst ({} :: go_string set, cache) \<subseteq> fst st'" for p a
    by (rule assertion_answers [OF assms(1) guard_answers [OF assms(1)]]) (simp add: assms(2))
  then have ex: "\<exists>ds c'. map_option (\<lambda>(ds, st). (ds, snd st))
      (ExtractDepsFromAssertion env (depsForNamedGuard fuel env) p a ({}, cache)) = Some (ds, c')" for p a
    by (metis (no_types, lifting) case_prod_conv option.simps(9))
  show ?thesis
  proof (cases "(\<exists>name. ETarget n = Some (TypeTarget name)) \<or> fst (LowerRefinementTarget (ETarget n) (EAssertion n)) = None")
    case True
    then show ?thesis by (auto simp: ExtractDepsForEnsure_def Let_def split: option.split RefinementTarget.split)
  next
    case False
    then obtain ir where "fst (LowerRefinementTarget (ETarget n) (EAssertion n)) = Some ir" by auto
    with False ex show ?thesis by (auto simp: ExtractDepsForEnsure_def Let_def split: option.split RefinementTarget.split)
  qed
qed

text \<open>A guard \<open>is (u User) Adult\<close> whose body is \<open>ensure u.age is Min(18)\<close>, and two variables.\<close>

definition sample_chain :: "go_string \<Rightarrow> AssertionNode" where
  "sample_chain name = AssertionNode None [ConstraintNode name []] [] [] None"

definition sample_ensure :: "Identifier \<Rightarrow> go_string \<Rightarrow> EnsureNode" where
  "sample_ensure x name =
     EnsureNode x None (Some (AssertionTarget [sample_chain name])) (sample_chain name) EnsureImplicitNone None None"

definition sample_env :: fact_env where
  "sample_env =
     \<lparr>resolve = (\<lambda>x. if x = ''x'' then 1 else if x = ''y'' then 2 else 0),
      definitions = [''Adult'' \<mapsto> GuardDef \<lparr>GuardIdent = ''Adult'', GuardSubject = SimpleParamNode ''u'' zero_type False, GuardParams = [],
                                         GuardBody = [EnsureStmt (sample_ensure ''u.age'' ''Min'')]\<rparr>],
      visible = {}\<rparr>"

lemma sample_guards: "guards_of sample_env = {''Adult''}"
  by (auto simp: guards_of_def IsTypeGuardConstraint_def sample_env_def split: if_splits)

theorem ExtractDeps_returns_witness:
  "\<exists>ds cache'. ExtractDepsForEnsure 1 sample_env Map.empty (sample_ensure ''x'' ''Adult'') = Some (ds, cache')"
  by (rule ExtractDeps_returns) (simp_all add: sample_guards)

lemmas extract_sample_simps =
  ExtractDepsForEnsure_def sample_ensure_def sample_chain_def sample_env_def AccessPathForVariable_def
  LowerRefinementTarget_def assertionFromTarget_def LowerAssertionNode_def lowerMeetChain_def constraint_atom_def
  MeetChains_def extractDepsFromAtom_def IsTypeGuardConstraint_def depsForNamedGuard.simps ensure_deps_def
  relativeFieldSteps_def part_step_def Param_GetIdent_def subject_builtins_def subjectLooksLikeCollection_def
  mergeAccessPaths_def argument_paths_def extend_path_def CloneSteps_def field_step_def stripRoot_def rebasePathsToSubject_def

text \<open>
  The cache of guard dependencies keeps the steps of the place the guard was first used on. After
  \<open>ensure x.profile is Adult()\<close>, the fact of \<open>ensure y is Adult()\<close> is recorded to read
  \<open>y.profile.age\<close> instead of \<open>y.age\<close>, and a write to \<open>y.age\<close> does not clobber it.
\<close>

theorem guard_cache_keeps_steps:
  "ExtractDepsForEnsure 1 sample_env Map.empty (sample_ensure ''x.profile'' ''Adult'') =
     Some ([\<lparr>Root = 1, Steps = [field_step ''profile'', field_step ''age'']\<rparr>],
           [''Adult'' \<mapsto> [\<lparr>Root = 0, Steps = [field_step ''profile'', field_step ''age'']\<rparr>]]) \<and>
   map_option fst (ExtractDepsForEnsure 1 sample_env
       [''Adult'' \<mapsto> [\<lparr>Root = 0, Steps = [field_step ''profile'', field_step ''age'']\<rparr>]] (sample_ensure ''y'' ''Adult'')) =
     Some [\<lparr>Root = 2, Steps = [field_step ''profile'', field_step ''age'']\<rparr>] \<and>
   map_option fst (ExtractDepsForEnsure 1 sample_env Map.empty (sample_ensure ''y'' ''Adult'')) =
     Some [\<lparr>Root = 2, Steps = [field_step ''age'']\<rparr>] \<and>
   \<not> MayClobber (Some \<lparr>Root = 2, Steps = [field_step ''age'']\<rparr>)
       (Some \<lparr>Root = 2, Steps = [field_step ''profile'', field_step ''age'']\<rparr>)"
  by (intro conjI)
    (simp_all add: extract_sample_simps Let_def MayClobber_def PathsOverlap_def pathsOverlapIndexAny_def stepsEqual_def)

end
