(* ===== verification/FactStore.thy ===== *)
theory FactStore
  imports FactDeps
begin

text \<open>
  \<open>internal/typechecker/fact_invalidate.go\<close>, \<open>alias.go\<close>, \<open>write_collector.go\<close>, \<open>function_summary.go\<close>,
  \<open>escape.go\<close>, \<open>foreign_invalidate.go\<close> and the write hook of \<open>infer_assignment.go\<close>: the store of
  flow-sensitive facts and everything that drops facts from it. The fields of the type checker that
  these files read and write are the record \<open>flow_state\<close>. Syntax nodes carry no spans here, so an
  operation that reports one takes it as an argument.
\<close>

section \<open>Data\<close>

datatype dropReason = dropByWrite | dropByAlias | dropByCall | dropByForeign | dropByConcurrent

record droppedFact =
  PredicateName :: go_string
  SubjectKey :: go_string
  DroppedEstablishedAt :: SourceSpan
  InvalidatedBy :: SourceSpan
  Reason :: dropReason

record RefinementFact =
  FactSubject :: "AccessPath option"
  ProvedPredicate :: "Predicate option"
  Reads :: "AccessPath list"
  EstablishedAt :: SourceSpan

record AccessPattern =
  ParamIndex :: int
  PatternSteps :: "AccessStep list"
  Reachable :: bool

record AliasStore =
  Dest :: AccessPattern
  Src :: AccessPattern

record ReturnAlias =
  ResultIndex :: int
  Of :: AccessPattern

record FunctionSummary =
  Writes :: "AccessPattern list"
  Stores :: "AliasStore list"
  ReturnAliases :: "ReturnAlias list"
  Escapes :: "AccessPattern list"
  SpawnsWith :: "AccessPattern list"

record compoundNarrowingInfo =
  cguards :: "go_string list"
  cdisp :: go_string

record collectedWrite =
  WrittenPath :: AccessPath
  WriteSpan :: SourceSpan

record flow_state =
  refinementFacts :: "RefinementFact list"
  droppedFacts :: "droppedFact list"
  scopeStack :: ScopeStack
  compoundNarrowingByIdentifier :: "Identifier \<rightharpoonup> compoundNarrowingInfo"
  refinementCtx :: "RefinementContext option"
  aliasCtx :: "(go_string \<rightharpoonup> AccessPath list) option"
  writeCollectorStack :: "collectedWrite list list"
  closureCaptures :: "(Identifier \<rightharpoonup> AccessPath list) option"
  pendingClosureWrites :: "AccessPath list"
  capturingClosure :: bool
  functionSummaries :: "Identifier \<rightharpoonup> FunctionSummary"
  currentInferFn :: Identifier
  currentInferParams :: "Identifier list option"
  checkerDefs :: "TypeIdent \<rightharpoonup> definition_node"
  predicates :: PredicateInterner
  guardDepsCache :: "go_string \<rightharpoonup> AccessPath list"

text \<open>
  \<open>LookupSymbolID\<close> with the fallback of its callers. It panics only on a parameter bound in the global
  scope, which \<open>resolve_total\<close> below excludes for the scopes the checker builds.
\<close>

definition resolve_in :: "flow_state \<Rightarrow> Identifier \<Rightarrow> SymbolID" where
  "resolve_in st name =
     (case LookupSymbolID (scopeStack st) (current (scopeStack st)) name of
        Inr (i, True) \<Rightarrow> i
      | _ \<Rightarrow> 0)"

definition visible_symbols :: "ScopeStack \<Rightarrow> Symbol set" where
  "visible_symbols ss = (\<Union>s \<in> set (scope_chain (store ss) (current ss)). ran (Symbols (store ss ! s)))"

definition env_of :: "flow_state \<Rightarrow> fact_env" where
  "env_of st = \<lparr>resolve = resolve_in st, definitions = checkerDefs st, visible = visible_symbols (scopeStack st)\<rparr>"

section \<open>Clearing narrowings (fact\_invalidate.go)\<close>

definition writeContainsIndexAny :: "AccessPath \<Rightarrow> bool" where
  "writeContainsIndexAny p \<longleftrightarrow> list_ex (\<lambda>s. Kind s = AccessIndexAny) (Steps p)"

definition readsContainIndexAny :: "AccessPath list \<Rightarrow> bool" where
  "readsContainIndexAny reads \<longleftrightarrow> list_ex writeContainsIndexAny reads"

definition pathKeyOrEmpty :: "AccessPath option \<Rightarrow> go_string" where
  "pathKeyOrEmpty p = (case p of None \<Rightarrow> [] | Some q \<Rightarrow> PathKey q)"

definition filterOutGuard :: "go_string list \<Rightarrow> go_string \<Rightarrow> go_string list" where
  "filterOutGuard guards name = filter (\<lambda>g. g \<noteq> name) guards"

definition clear_guard :: "go_string \<Rightarrow> Symbol \<Rightarrow> Symbol" where
  "clear_guard name symb =
     (if SymKind symb \<noteq> SymbolVariable \<and> SymKind symb \<noteq> SymbolParameter then symb
      else let filtered = filterOutGuard (SymTypeGuards symb) name
        in if length filtered = length (SymTypeGuards symb) then symb
           else symb\<lparr>SymTypeGuards := filtered,
                     SymPredicateDisplay := (if filtered = [] then [] else SymPredicateDisplay symb)\<rparr>)"

definition clear_scope :: "go_string \<Rightarrow> Scope \<Rightarrow> Scope" where
  "clear_scope name s = s\<lparr>Symbols := (\<lambda>x. map_option (clear_guard name) (Symbols s x))\<rparr>"

text \<open>The scopes on the chain are distinct cells, so one update of each is what the loop does.\<close>

definition clearGuardNameFromScope :: "go_string \<Rightarrow> ScopeStack \<Rightarrow> ScopeStack" where
  "clearGuardNameFromScope name ss =
     ss\<lparr>store := fold (\<lambda>s st. st[s := clear_scope name (st ! s)]) (scope_chain (store ss) (current ss)) (store ss)\<rparr>"

definition clearCompoundNarrowing ::
  "go_string \<Rightarrow> (Identifier \<rightharpoonup> compoundNarrowingInfo) \<Rightarrow> (Identifier \<rightharpoonup> compoundNarrowingInfo)" where
  "clearCompoundNarrowing name m =
     (\<lambda>x. case m x of
            None \<Rightarrow> None
          | Some info \<Rightarrow>
            (let filtered = filterOutGuard (cguards info) name
             in if filtered = [] then None else Some \<lparr>cguards = filtered, cdisp = cdisp info\<rparr>))"

definition same_fact :: "AccessPath \<Rightarrow> Predicate \<Rightarrow> Fact \<Rightarrow> bool" where
  "same_fact subject pred existing =
     (case Subject existing of
        None \<Rightarrow> False
      | Some p \<Rightarrow> PathKey p = PathKey subject \<and> pkey (FactPredicate existing) = pkey pred)"

definition clearRefinementContext ::
  "AccessPath option \<Rightarrow> Predicate \<Rightarrow> RefinementContext option \<Rightarrow> RefinementContext option" where
  "clearRefinementContext subject pred c =
     (case (c, subject) of
        (Some facts, Some p) \<Rightarrow>
          Some (\<lambda>k. if \<exists>existing \<in> Facts c. same_fact p pred existing \<and>
                        factKey (Subject existing) (Some (FactPredicate existing)) = k
                    then None else facts k)
      | _ \<Rightarrow> c)"

definition clearNarrowingForFact :: "RefinementFact \<Rightarrow> flow_state \<Rightarrow> flow_state" where
  "clearNarrowingForFact f st =
     (case ProvedPredicate f of
        None \<Rightarrow> st
      | Some pred \<Rightarrow>
        (let name = (case POperand pred of None \<Rightarrow> [] | Some op \<Rightarrow> OpName op)
         in if name = [] then st
            else st\<lparr>scopeStack := clearGuardNameFromScope name (scopeStack st),
                    compoundNarrowingByIdentifier := clearCompoundNarrowing name (compoundNarrowingByIdentifier st),
                    refinementCtx := clearRefinementContext (FactSubject f) pred (refinementCtx st)\<rparr>))"

section \<open>Invalidation\<close>

definition fact_clobbered :: "AccessPath \<Rightarrow> RefinementFact \<Rightarrow> bool" where
  "fact_clobbered writePath f \<longleftrightarrow>
     list_ex (\<lambda>r. MayClobber (Some writePath) (Some r)) (Reads f) \<or>
     (case FactSubject f of
        None \<Rightarrow> False
      | Some s \<Rightarrow>
        (Steps writePath = [] \<and> Root writePath = Root s) \<or>
        (Root writePath = Root s \<and> (readsContainIndexAny (Reads f) \<or> writeContainsIndexAny writePath)))"

definition dropped_name :: "RefinementFact \<Rightarrow> go_string" where
  "dropped_name f =
     (case ProvedPredicate f of
        None \<Rightarrow> []
      | Some pred \<Rightarrow> (case POperand pred of Some op \<Rightarrow> OpName op | None \<Rightarrow> Predicate_Shape pred))"

definition drop_record :: "RefinementFact \<Rightarrow> SourceSpan \<Rightarrow> dropReason \<Rightarrow> droppedFact" where
  "drop_record f writeSpan reason =
     \<lparr>PredicateName = dropped_name f, SubjectKey = pathKeyOrEmpty (FactSubject f),
      DroppedEstablishedAt = EstablishedAt f, InvalidatedBy = writeSpan, Reason = reason\<rparr>"

definition drop_fact :: "SourceSpan \<Rightarrow> dropReason \<Rightarrow> RefinementFact \<Rightarrow> flow_state \<Rightarrow> flow_state" where
  "drop_fact writeSpan reason f st =
     clearNarrowingForFact f (st\<lparr>droppedFacts := droppedFacts st @ [drop_record f writeSpan reason]\<rparr>)"

fun drop_loop ::
  "AccessPath \<Rightarrow> SourceSpan \<Rightarrow> dropReason \<Rightarrow> RefinementFact list \<Rightarrow> RefinementFact list \<Rightarrow> flow_state \<Rightarrow> flow_state" where
  "drop_loop w sp reason [] kept st = st\<lparr>refinementFacts := kept\<rparr>"
| "drop_loop w sp reason (f # fs) kept st =
     (if fact_clobbered w f then drop_loop w sp reason fs kept (drop_fact sp reason f st)
      else drop_loop w sp reason fs (kept @ [f]) st)"

definition invalidateOneWritePath :: "AccessPath \<Rightarrow> SourceSpan \<Rightarrow> dropReason \<Rightarrow> flow_state \<Rightarrow> flow_state" where
  "invalidateOneWritePath writePath writeSpan reason st =
     drop_loop writePath writeSpan reason (refinementFacts st) [] st"

definition expandWriteThroughAliases :: "flow_state \<Rightarrow> AccessPath \<Rightarrow> AccessPath list" where
  "expandWriteThroughAliases st write =
     (case aliasCtx st of
        None \<Rightarrow> [write]
      | Some pathAliases \<Rightarrow>
        [write] @
        (case pathAliases (PathKey (root_only write)) of
           None \<Rightarrow> []
         | Some bases \<Rightarrow> map (\<lambda>base. \<lparr>Root = Root base, Steps = CloneSteps base @ CloneSteps write\<rparr>) bases) @
        (case pathAliases (PathKey write) of None \<Rightarrow> [] | Some bases \<Rightarrow> bases))"

definition invalidateOverlappingFactsWithReason ::
  "AccessPath \<Rightarrow> SourceSpan \<Rightarrow> dropReason \<Rightarrow> flow_state \<Rightarrow> flow_state" where
  "invalidateOverlappingFactsWithReason writePath writeSpan reason st =
     fold (\<lambda>p st. invalidateOneWritePath p writeSpan
                    (if p \<noteq> writePath \<and> reason = dropByWrite then dropByAlias else reason) st)
       (dedup_by PathKey {} (expandWriteThroughAliases st writePath)) st"

definition invalidateOverlappingFacts :: "AccessPath \<Rightarrow> SourceSpan \<Rightarrow> flow_state \<Rightarrow> flow_state" where
  "invalidateOverlappingFacts writePath writeSpan st =
     invalidateOverlappingFactsWithReason writePath writeSpan dropByWrite st"

definition stringsContains :: "go_string \<Rightarrow> go_string \<Rightarrow> bool" where
  "stringsContains s sub \<longleftrightarrow>
     length s \<ge> length sub \<and>
     (s = sub \<or> sub = [] \<or> list_ex (\<lambda>i. i + length sub \<le> length s \<and> take (length sub) (drop i s) = sub) [0..<length s + 1])"

text \<open>The search runs from the most recent drop; the path argument is not used.\<close>

definition findDroppedFact :: "flow_state \<Rightarrow> go_string \<Rightarrow> droppedFact option" where
  "findDroppedFact st guard =
     (if guard = [] then None
      else find (\<lambda>d. PredicateName d = guard \<or>
                     (guard = ''Present'' \<and> (PredicateName d = ''Present'' \<or> stringsContains (PredicateName d) ''Present'')))
             (rev (droppedFacts st)))"

definition diagnosticCodeForDrop :: "dropReason \<Rightarrow> go_string" where
  "diagnosticCodeForDrop r =
     (case r of
        dropByAlias \<Rightarrow> ''refinement-invalidated-by-alias''
      | dropByCall \<Rightarrow> ''refinement-invalidated-by-call''
      | dropByForeign \<Rightarrow> ''refinement-invalidated-by-foreign''
      | dropByConcurrent \<Rightarrow> ''refinement-invalidated-by-concurrent''
      | dropByWrite \<Rightarrow> ''refinement-invalidated-by-write'')"

section \<open>Collected writes (write\_collector.go)\<close>

definition pushWriteCollector :: "flow_state \<Rightarrow> flow_state" where
  "pushWriteCollector st = st\<lparr>writeCollectorStack := writeCollectorStack st @ [[]]\<rparr>"

definition popWriteCollectorAndInvalidate :: "flow_state \<Rightarrow> flow_state" where
  "popWriteCollectorAndInvalidate st =
     (if writeCollectorStack st = [] then st
      else fold (\<lambda>w st. invalidateOverlappingFacts (WrittenPath w) (WriteSpan w) st)
             (last (writeCollectorStack st))
             (st\<lparr>writeCollectorStack := butlast (writeCollectorStack st)\<rparr>))"

definition recordBranchOrLoopWrite :: "AccessPath \<Rightarrow> SourceSpan \<Rightarrow> flow_state \<Rightarrow> flow_state" where
  "recordBranchOrLoopWrite p sp st =
     (if writeCollectorStack st = [] then st
      else let stack = writeCollectorStack st; top = length stack - 1
        in st\<lparr>writeCollectorStack := stack[top := stack ! top @ [\<lparr>WrittenPath = p, WriteSpan = sp\<rparr>]]\<rparr>)"

section \<open>May-alias types (alias.go)\<close>

definition shapeFromTypeIdent :: "(TypeIdent \<rightharpoonup> definition_node) \<Rightarrow> TypeIdent \<Rightarrow> ShapeNode option" where
  "shapeFromTypeIdent defs x =
     (if x = [] then None
      else case defs x of Some (TypeDef e) \<Rightarrow> PayloadShape e | _ \<Rightarrow> None)"

text \<open>The test on a field type is an argument; \<open>None\<close> is a test out of fuel.\<close>

fun shapeMayAlias :: "(TypeNode \<Rightarrow> bool option) \<Rightarrow> ShapeNode \<Rightarrow> bool option"
  and fields_may_alias :: "(TypeNode \<Rightarrow> bool option) \<Rightarrow> (string \<times> ShapeFieldNode) list \<Rightarrow> bool option"
  and field_shape_may_alias :: "(TypeNode \<Rightarrow> bool option) \<Rightarrow> ShapeNode option \<Rightarrow> bool option" where
  "shapeMayAlias test (ShapeNode fs order bt) = fields_may_alias test fs"
| "fields_may_alias test [] = Some False"
| "fields_may_alias test ((name, ShapeFieldNode nd a shp ty m mp mr e tg g) # fs) =
     (case (case ty of None \<Rightarrow> Some False | Some t \<Rightarrow> test t) of
        None \<Rightarrow> None
      | Some True \<Rightarrow> Some True
      | Some False \<Rightarrow>
        (case field_shape_may_alias test shp of
           None \<Rightarrow> None
         | Some True \<Rightarrow> Some True
         | Some False \<Rightarrow> fields_may_alias test fs))"
| "field_shape_may_alias test None = Some False"
| "field_shape_may_alias test (Some s) = shapeMayAlias test s"

text \<open>The two cases of the switch on the identifier.\<close>

definition reference_idents :: "TypeIdent set" where
  "reference_idents = {TypePointer, TypeArray, TypeMap, TypeChannel, TypeObject}"

definition value_idents :: "TypeIdent set" where
  "value_idents = {TypeString, TypeInt, TypeFloat, TypeBool, TypeVoid, TypeError, TypeBytes}"

fun typeMayAlias :: "nat \<Rightarrow> (TypeIdent \<rightharpoonup> definition_node) \<Rightarrow> TypeIdent set \<Rightarrow> TypeNode \<Rightarrow> bool option" where
  "typeMayAlias fuel defs visiting typ =
     (if TIdent typ \<in> reference_idents then Some True
      else if TIdent typ \<in> value_idents then Some False
      else if TIdent typ = TypeFunc then Some True
      else if TIdent typ \<in> visiting then Some True
      else case shapeFromTypeIdent defs (TIdent typ) of
             None \<Rightarrow> Some False
           | Some shape \<Rightarrow>
             (case fuel of
                0 \<Rightarrow> None
              | Suc n \<Rightarrow> shapeMayAlias (typeMayAlias n defs (insert (TIdent typ) visiting)) shape))"

declare typeMayAlias.simps [simp del]

definition TypeMayAlias :: "nat \<Rightarrow> (TypeIdent \<rightharpoonup> definition_node) \<Rightarrow> TypeNode \<Rightarrow> bool option" where
  "TypeMayAlias fuel defs typ = typeMayAlias fuel defs {} typ"

text \<open>The number of definitions is fuel enough (\<open>TypeMayAlias_sound\<close> below).\<close>

definition may_alias :: "flow_state \<Rightarrow> TypeNode \<Rightarrow> bool" where
  "may_alias st typ = (TypeMayAlias (card (dom (checkerDefs st))) (checkerDefs st) typ = Some True)"

definition typeSliceMayAlias :: "flow_state \<Rightarrow> TypeNode list \<Rightarrow> bool" where
  "typeSliceMayAlias st types = list_ex (may_alias st) types"

section \<open>Function summaries (function\_summary.go)\<close>

definition empty_summary :: FunctionSummary where
  "empty_summary = \<lparr>Writes = [], Stores = [], ReturnAliases = [], Escapes = [], SpawnsWith = []\<rparr>"

definition SummaryFor :: "flow_state \<Rightarrow> Identifier \<Rightarrow> FunctionSummary option" where
  "SummaryFor st fn = functionSummaries st fn"

definition setFunctionSummary :: "Identifier \<Rightarrow> FunctionSummary \<Rightarrow> flow_state \<Rightarrow> flow_state" where
  "setFunctionSummary fn summ st = st\<lparr>functionSummaries := (functionSummaries st)(fn \<mapsto> summ)\<rparr>"

text \<open>
  The parents that the source walks for an unbound name are those \<open>LookupSymbolID\<close> has already
  searched, and the flag it sets there is a shadowing one: such a parameter is skipped.
\<close>

definition bound_symbol :: "flow_state \<Rightarrow> Identifier \<Rightarrow> SymbolID option" where
  "bound_symbol st x =
     (case LookupSymbolID (scopeStack st) (current (scopeStack st)) x of
        Inr (i, True) \<Rightarrow> Some i
      | _ \<Rightarrow> None)"

definition paramIndexForPath :: "flow_state \<Rightarrow> AccessPath \<Rightarrow> (int \<times> AccessStep list) option" where
  "paramIndexForPath st p =
     (case currentInferParams st of
        None \<Rightarrow> None
      | Some ps \<Rightarrow>
        (case find (\<lambda>i. bound_symbol st (ps ! i) = Some (Root p)) [0..<length ps] of
           None \<Rightarrow> None
         | Some i \<Rightarrow> Some (int i, CloneSteps p)))"

text \<open>The part shared by the three recorders: nothing outside a function or off its parameters.\<close>

definition record_pattern ::
  "(AccessPattern \<Rightarrow> FunctionSummary \<Rightarrow> FunctionSummary) \<Rightarrow> AccessPath \<Rightarrow> flow_state \<Rightarrow> flow_state" where
  "record_pattern add p st =
     (if currentInferFn st = [] then st
      else case paramIndexForPath st p of
             None \<Rightarrow> st
           | Some (i, ss) \<Rightarrow>
             (let summ = (case functionSummaries st (currentInferFn st) of None \<Rightarrow> empty_summary | Some s \<Rightarrow> s)
              in st\<lparr>functionSummaries := (functionSummaries st)
                      (currentInferFn st \<mapsto> add \<lparr>ParamIndex = i, PatternSteps = ss, Reachable = False\<rparr> summ)\<rparr>))"

definition recordParamWriteDuringInfer :: "AccessPath \<Rightarrow> flow_state \<Rightarrow> flow_state" where
  "recordParamWriteDuringInfer = record_pattern (\<lambda>a s. s\<lparr>Writes := Writes s @ [a]\<rparr>)"

definition recordEscapePattern :: "AccessPath \<Rightarrow> flow_state \<Rightarrow> flow_state" where
  "recordEscapePattern = record_pattern (\<lambda>a s. s\<lparr>Escapes := Escapes s @ [a]\<rparr>)"

definition recordSpawnPattern :: "AccessPath \<Rightarrow> flow_state \<Rightarrow> flow_state" where
  "recordSpawnPattern = record_pattern (\<lambda>a s. s\<lparr>SpawnsWith := SpawnsWith s @ [a]\<rparr>)"

definition path_of :: "flow_state \<Rightarrow> ExpressionNode \<Rightarrow> AccessPath option" where
  "path_of st e = accessPathForExpr (resolve_in st) e"

definition invalidate_root :: "SourceSpan \<Rightarrow> dropReason \<Rightarrow> AccessPath \<Rightarrow> flow_state \<Rightarrow> flow_state" where
  "invalidate_root sp reason p st = invalidateOverlappingFactsWithReason (root_only p) sp reason st"

definition apply_summary_write :: "SourceSpan \<Rightarrow> ExpressionNode list \<Rightarrow> AccessPattern \<Rightarrow> flow_state \<Rightarrow> flow_state" where
  "apply_summary_write sp args w st =
     (if ParamIndex w < 0 \<or> ParamIndex w \<ge> int (length args) then st
      else case path_of st (args ! nat (ParamIndex w)) of
             None \<Rightarrow> st
           | Some argPath \<Rightarrow>
             if Reachable w then invalidate_root sp dropByCall argPath st
             else invalidateOverlappingFactsWithReason
                    \<lparr>Root = Root argPath, Steps = CloneSteps argPath @ PatternSteps w\<rparr> sp dropByCall st)"

text \<open>\<open>sp\<close> is the span of the call or, when that is not set, of the function name.\<close>

definition applyCallSummaryInvalidation :: "Identifier \<Rightarrow> ExpressionNode list \<Rightarrow> SourceSpan \<Rightarrow> flow_state \<Rightarrow> flow_state" where
  "applyCallSummaryInvalidation fn args sp st =
     (case SummaryFor st fn of
        None \<Rightarrow>
          fold (\<lambda>arg st. case path_of st arg of None \<Rightarrow> st | Some p \<Rightarrow> invalidate_root sp dropByCall p st) args st
      | Some summ \<Rightarrow> fold (apply_summary_write sp args) (Writes summ) st)"

text \<open>\<open>returned\<close> lists the values of the return statements of the body.\<close>

definition return_alias :: "go_string \<Rightarrow> nat \<Rightarrow> go_string \<Rightarrow> FunctionSummary \<Rightarrow> FunctionSummary" where
  "return_alias x i ps summ =
     (if x = ps \<or> take (length ps + 1) x = ps @ ''.''
      then summ\<lparr>ReturnAliases := ReturnAliases summ @
                   [\<lparr>ResultIndex = 0, Of = \<lparr>ParamIndex = int i, PatternSteps = relativeFieldSteps ps x, Reachable = False\<rparr>\<rparr>],
                 Writes := Writes summ @ [\<lparr>ParamIndex = int i, PatternSteps = [], Reachable = True\<rparr>]\<rparr>
      else summ)"

definition finalizeFunctionSummaryReturns :: "Identifier \<Rightarrow> ExpressionNode list \<Rightarrow> flow_state \<Rightarrow> flow_state" where
  "finalizeFunctionSummaryReturns fn returned st =
     (case SummaryFor st fn of
        None \<Rightarrow> st
      | Some summ \<Rightarrow>
        (let params = (case currentInferParams st of None \<Rightarrow> [] | Some ps \<Rightarrow> ps)
         in setFunctionSummary fn
              (fold (\<lambda>val summ. let x = dottedIdentFromExpr val in
                       if x = [] then summ
                       else fold (\<lambda>i summ. return_alias x i (params ! i) summ) [0..<length params] summ)
                 returned summ) st))"

section \<open>Aliases of assignments (alias.go)\<close>

definition strongUpdate :: "AccessPath \<Rightarrow> AccessPath \<Rightarrow> (go_string \<rightharpoonup> AccessPath list) \<Rightarrow> (go_string \<rightharpoonup> AccessPath list)" where
  "strongUpdate lhs storage m = m(PathKey lhs \<mapsto> [storage])"

definition ensureAliasCtx :: "flow_state \<Rightarrow> (go_string \<rightharpoonup> AccessPath list)" where
  "ensureAliasCtx st = (case aliasCtx st of None \<Rightarrow> Map.empty | Some m \<Rightarrow> m)"

definition handleReferenceAssignment :: "AccessPath \<Rightarrow> ExpressionNode \<Rightarrow> SourceSpan \<Rightarrow> flow_state \<Rightarrow> bool \<times> flow_state" where
  "handleReferenceAssignment lhsPath rhs sp st =
     (case rhs of
        ReferenceNode e \<Rightarrow>
          (case path_of st e of
             None \<Rightarrow> (True, st)
           | Some inner \<Rightarrow>
             (True, recordEscapePattern inner
                (invalidateOverlappingFactsWithReason inner sp dropByConcurrent
                   (st\<lparr>aliasCtx := Some (strongUpdate lhsPath inner (ensureAliasCtx st))\<rparr>))))
      | _ \<Rightarrow> (False, st))"

definition handleFieldExtractAssignment :: "AccessPath \<Rightarrow> AccessPath \<Rightarrow> flow_state \<Rightarrow> bool \<times> flow_state" where
  "handleFieldExtractAssignment lhsPath rhsPath st =
     (if length (Steps rhsPath) > 0
      then (True, st\<lparr>aliasCtx := Some (strongUpdate lhsPath rhsPath (ensureAliasCtx st))\<rparr>)
      else (False, st))"

definition handleWholeValueAssignment :: "AccessPath \<Rightarrow> AccessPath \<Rightarrow> TypeNode list \<Rightarrow> flow_state \<Rightarrow> flow_state" where
  "handleWholeValueAssignment lhsPath rhsPath rhsTypes st =
     (if \<not> typeSliceMayAlias st rhsTypes
      then st\<lparr>aliasCtx := Some ((ensureAliasCtx st)(PathKey lhsPath := None))\<rparr>
      else st\<lparr>aliasCtx := Some (strongUpdate lhsPath rhsPath (ensureAliasCtx st))\<rparr>)"

definition recordAssignmentAlias ::
  "ExpressionNode \<Rightarrow> ExpressionNode \<Rightarrow> TypeNode list \<Rightarrow> SourceSpan \<Rightarrow> flow_state \<Rightarrow> flow_state" where
  "recordAssignmentAlias lhs rhs rhsTypes sp st0 =
     (let st = st0\<lparr>aliasCtx := Some (ensureAliasCtx st0)\<rparr>
      in case path_of st lhs of
           None \<Rightarrow> st
         | Some lhsPath \<Rightarrow>
           (case handleReferenceAssignment lhsPath rhs sp st of
              (True, st') \<Rightarrow> st'
            | (False, st') \<Rightarrow>
              (case path_of st' rhs of
                 None \<Rightarrow> st'
               | Some rhsPath \<Rightarrow>
                 (case handleFieldExtractAssignment lhsPath rhsPath st' of
                    (True, st'') \<Rightarrow> st''
                  | (False, st'') \<Rightarrow> handleWholeValueAssignment lhsPath rhsPath rhsTypes st''))))"

section \<open>Writes (infer\_assignment.go)\<close>

definition applyWriteInvalidation :: "AccessPath \<Rightarrow> SourceSpan \<Rightarrow> flow_state \<Rightarrow> flow_state" where
  "applyWriteInvalidation writePath sp st =
     (if capturingClosure st then st\<lparr>pendingClosureWrites := pendingClosureWrites st @ [writePath]\<rparr>
      else recordParamWriteDuringInfer writePath
             (recordBranchOrLoopWrite writePath sp (invalidateOverlappingFacts writePath sp st)))"

definition writePathFromIndexAssign :: "flow_state \<Rightarrow> ExpressionNode \<Rightarrow> AccessPath option" where
  "writePathFromIndexAssign st target =
     (let baseID = dottedIdentFromExpr target
      in if baseID = [] then None
         else Some (extend_path (AccessPathForVariable (resolve_in st) baseID) [index_any]))"

section \<open>Closures, goroutines and channels (escape.go)\<close>

definition bindClosureCaptures :: "ExpressionNode \<Rightarrow> flow_state \<Rightarrow> flow_state" where
  "bindClosureCaptures lhs st =
     (case lhs of
        VariableNode x ty \<Rightarrow>
          st\<lparr>closureCaptures := Some ((case closureCaptures st of None \<Rightarrow> Map.empty | Some m \<Rightarrow> m)(x \<mapsto> pendingClosureWrites st)),
             pendingClosureWrites := []\<rparr>
      | _ \<Rightarrow> st)"

definition captured_writes :: "flow_state \<Rightarrow> Identifier \<Rightarrow> AccessPath list" where
  "captured_writes st fn =
     (case closureCaptures st of
        None \<Rightarrow> []
      | Some m \<Rightarrow> (case m fn of None \<Rightarrow> [] | Some ws \<Rightarrow> ws))"

definition applyClosureCallInvalidation :: "Identifier \<Rightarrow> SourceSpan \<Rightarrow> flow_state \<Rightarrow> flow_state" where
  "applyClosureCallInvalidation fn sp st =
     fold (\<lambda>w st. invalidateOverlappingFactsWithReason w sp dropByConcurrent st) (captured_writes st fn) st"

definition applyClosureEscapeInvalidation :: "ExpressionNode \<Rightarrow> SourceSpan \<Rightarrow> flow_state \<Rightarrow> flow_state" where
  "applyClosureEscapeInvalidation arg sp st =
     (case arg of
        VariableNode x ty \<Rightarrow>
          (let st' = applyClosureCallInvalidation x sp st
           in fold recordEscapePattern (captured_writes st' x) st')
      | _ \<Rightarrow> st)"

definition scalar_type :: "TypeNode \<Rightarrow> bool" where
  "scalar_type t \<longleftrightarrow> TIdent t = TypeInt \<or> TIdent t = TypeFloat \<or> TIdent t = TypeBool \<or> TIdent t = TypeString"

text \<open>\<open>infer\<close> is \<open>inferExpressionType\<close>, which may change the state; its error is ignored.\<close>

definition spawn_arg ::
  "(ExpressionNode \<Rightarrow> flow_state \<Rightarrow> TypeNode list \<times> flow_state) \<Rightarrow> SourceSpan \<Rightarrow> ExpressionNode \<Rightarrow> flow_state \<Rightarrow> flow_state" where
  "spawn_arg infer sp arg st =
     (case path_of st arg of
        None \<Rightarrow> st
      | Some p \<Rightarrow>
        (case infer arg st of
           (types, st') \<Rightarrow>
             if (case types of [t] \<Rightarrow> scalar_type t \<or> \<not> may_alias st' t | _ \<Rightarrow> False) then st'
             else recordSpawnPattern p (invalidate_root sp dropByConcurrent p st')))"

definition invalidateAfterSpawn ::
  "(ExpressionNode \<Rightarrow> flow_state \<Rightarrow> TypeNode list \<times> flow_state) \<Rightarrow> ExpressionNode list \<Rightarrow> SourceSpan \<Rightarrow> flow_state \<Rightarrow> flow_state" where
  "invalidateAfterSpawn infer args sp st = fold (spawn_arg infer sp) args st"

definition invalidateAfterChannelSend ::
  "(ExpressionNode \<Rightarrow> flow_state \<Rightarrow> TypeNode list \<times> flow_state) \<Rightarrow> ExpressionNode \<Rightarrow> SourceSpan \<Rightarrow> flow_state \<Rightarrow> flow_state" where
  "invalidateAfterChannelSend infer val sp st =
     (case path_of st val of
        None \<Rightarrow> st
      | Some p \<Rightarrow>
        (case infer val st of
           (types, st') \<Rightarrow>
             if (case types of [t] \<Rightarrow> scalar_type t \<or> \<not> may_alias st' t | _ \<Rightarrow> False) then st'
             else recordEscapePattern p (invalidate_root sp dropByConcurrent p st')))"

section \<open>Foreign calls (foreign\_invalidate.go)\<close>

definition lookupArgTypes :: "flow_state \<Rightarrow> ExpressionNode \<Rightarrow> TypeNode list option" where
  "lookupArgTypes st arg =
     (let byID = (let x = dottedIdentFromExpr arg in if x = [] then None else ScopeStack_LookupVariableType (scopeStack st) x)
      in case arg of
           VariableNode x ty \<Rightarrow>
             (case ScopeStack_LookupVariableType (scopeStack st) x of Some ts \<Rightarrow> Some ts | None \<Rightarrow> byID)
         | _ \<Rightarrow> byID)"

fun invalidateReachableMutableArg :: "SourceSpan \<Rightarrow> dropReason \<Rightarrow> ExpressionNode \<Rightarrow> flow_state \<Rightarrow> flow_state" where
  "invalidateReachableMutableArg sp reason (ReferenceNode inner) st = invalidateReachableMutableArg sp reason inner st"
| "invalidateReachableMutableArg sp reason arg st =
     (case path_of st arg of
        None \<Rightarrow> st
      | Some p \<Rightarrow>
        if (case lookupArgTypes st arg of
              Some [t] \<Rightarrow>
                scalar_type t \<or>
                (\<not> may_alias st t \<and> TIdent t \<noteq> TypePointer \<and> TIdent t \<noteq> TypeArray \<and> TIdent t \<noteq> TypeMap \<and> TIdent t \<noteq> TypeObject)
            | _ \<Rightarrow> False)
        then st
        else invalidate_root sp reason p st)"

definition invalidateAfterUntrustedGoCall :: "ExpressionNode list \<Rightarrow> SourceSpan \<Rightarrow> flow_state \<Rightarrow> flow_state" where
  "invalidateAfterUntrustedGoCall args sp st = fold (invalidateReachableMutableArg sp dropByForeign) args st"

definition splitQualified :: "go_string \<Rightarrow> go_string list" where
  "splitQualified x =
     (let i = length (takeWhile (\<lambda>c. c \<noteq> CHR ''.'') x)
      in if i < length x then [take i x, drop (i + 1) x] else [x])"

definition treatUnresolvedQualifiedCallAsForeign ::
  "Identifier \<Rightarrow> ExpressionNode list \<Rightarrow> SourceSpan \<Rightarrow> flow_state \<Rightarrow> TypeNode list option \<times> flow_state" where
  "treatUnresolvedQualifiedCallAsForeign fn args sp st =
     (case splitQualified fn of
        [pkg, name] \<Rightarrow>
          if ScopeStack_LookupVariableType (scopeStack st) pkg \<noteq> None then (None, st)
          else (Some [TypeNode TypeVoid None [] [] None [] []], invalidateAfterUntrustedGoCall args sp st)
      | _ \<Rightarrow> (None, st))"

section \<open>Recording facts (narrow\_if.go, inferred\_type\_guards.go)\<close>

definition isBuiltinType :: "TypeIdent \<Rightarrow> bool" where
  "isBuiltinType x \<longleftrightarrow>
     x \<in> {TypeString, TypeInt, TypeFloat, TypeBool, TypeError, TypeVoid, TypePointer, TypeShape, TypeArray, TypeMap,
          TypeObject, TypeResult, TypeTuple, TypeFunc}"

abbreviation ConstraintMatch :: go_string where "ConstraintMatch \<equiv> ''Match''"

definition typeGuardNamesFromAssertionNode :: "fact_env \<Rightarrow> AssertionNode \<Rightarrow> go_string list" where
  "typeGuardNamesFromAssertionNode env a =
     (if OrChains a \<noteq> [] then
        (let parts = dedup_by (\<lambda>n. n) {[]} (map CName (concat (map Constraints (a # OrChains a))))
         in if parts = [] then [] else [join_strings ''|'' parts])
      else
        dedup_by (\<lambda>n. n) {[], ValueConstraint, ConstraintMatch}
          (map CName (Constraints a) @
           (case BaseType a of
              Some b \<Rightarrow> if Constraints a = [] \<and> (IsTypeGuardConstraint env b \<or> \<not> isBuiltinType b) then [b] else []
            | None \<Rightarrow> [])))"

definition recordRefinementFact :: "RefinementFact \<Rightarrow> flow_state \<Rightarrow> flow_state" where
  "recordRefinementFact f st = st\<lparr>refinementFacts := refinementFacts st @ [f]\<rparr>"

definition recordCompoundNarrowingIdentifier :: "Identifier \<Rightarrow> go_string list \<Rightarrow> go_string \<Rightarrow> flow_state \<Rightarrow> flow_state" where
  "recordCompoundNarrowingIdentifier x guards disp st =
     (if x = [] \<or> CHR ''.'' \<notin> set x then st
      else let prev = (case compoundNarrowingByIdentifier st x of None \<Rightarrow> \<lparr>cguards = [], cdisp = []\<rparr> | Some i \<Rightarrow> i)
        in st\<lparr>compoundNarrowingByIdentifier := (compoundNarrowingByIdentifier st)
                (x \<mapsto> \<lparr>cguards = mergeNarrowingGuardNamesDedupe (cguards prev) guards,
                       cdisp = mergeNarrowingPredicateDisplaySegments (cdisp prev) disp\<rparr>)\<rparr>)"

definition named_atom :: "go_string \<Rightarrow> Operand" where
  "named_atom n = \<lparr>OpName = n, ArgsKey = [], OpRuntimeOnly = False\<rparr>"

definition intern_atom :: "go_string \<Rightarrow> flow_state \<Rightarrow> Predicate option \<times> flow_state" where
  "intern_atom n st =
     (case InternAtom (predicates st) (named_atom n) of (p, pi) \<Rightarrow> (Some p, st\<lparr>predicates := pi\<rparr>))"

definition intern_ir :: "Assertion option \<Rightarrow> flow_state \<Rightarrow> Predicate option \<times> flow_state" where
  "intern_ir ir st =
     (case ir of
        None \<Rightarrow> (None, st)
      | Some a \<Rightarrow> (case FromAssertion (predicates st) a of (p, pi) \<Rightarrow> (Some p, st\<lparr>predicates := pi\<rparr>)))"

definition proveAssertionOnSubject :: "Identifier \<Rightarrow> AssertionNode \<Rightarrow> flow_state \<Rightarrow> flow_state" where
  "proveAssertionOnSubject x a st =
     (case intern_ir (Some (LowerAssertionNode a)) st of
        (p, st') \<Rightarrow>
          st'\<lparr>refinementCtx := Prove (Some (Clone (refinementCtx st'))) (Some (AccessPathForVariable (resolve_in st') x)) p\<rparr>)"

text \<open>\<open>ExtractDepsForEnsure\<close> with fuel for all guards; it answers by \<open>ExtractDeps_returns\<close>.\<close>

definition deps_for_ensure :: "EnsureNode \<Rightarrow> flow_state \<Rightarrow> AccessPath list \<times> flow_state" where
  "deps_for_ensure n st =
     (case ExtractDepsForEnsure (card (guards_of (env_of st))) (env_of st) (guardDepsCache st) n of
        Some (ds, cache) \<Rightarrow> (ds, st\<lparr>guardDepsCache := cache\<rparr>)
      | None \<Rightarrow> ([], st))"

definition record_exported_fact :: "go_string \<Rightarrow> Identifier \<Rightarrow> SourceSpan \<Rightarrow> EnsureNode \<Rightarrow> flow_state \<Rightarrow> flow_state" where
  "record_exported_fact subjIdent callRoot sp ens st =
     (if OrChains (EAssertion ens) \<noteq> [] then st
      else let pathID = rebaseGuardEnsurePath subjIdent callRoot (EVariable ens) in
        if pathID = [] then st
        else
          (case intern_ir (Some (LowerAssertionNode (EAssertion ens))) st of
             (pred, st') \<Rightarrow>
               (case deps_for_ensure
                       (EnsureNode pathID None (ETarget ens) (EAssertion ens) EnsureImplicitNone None None) st' of
                  (reads, st'') \<Rightarrow>
                    recordRefinementFact
                      \<lparr>FactSubject = Some (AccessPathForVariable (resolve_in st'') pathID), ProvedPredicate = pred,
                       Reads = reads, EstablishedAt = sp\<rparr> st'')))"

definition recordExportedMustFacts :: "Identifier \<Rightarrow> SourceSpan \<Rightarrow> go_string \<Rightarrow> flow_state \<Rightarrow> flow_state" where
  "recordExportedMustFacts callRoot sp guardName st =
     (case checkerDefs st guardName of
        Some (GuardDef gn) \<Rightarrow>
          fold (\<lambda>node st. case node of
                  EnsureStmt ens \<Rightarrow> record_exported_fact (Param_GetIdent (GuardSubject gn)) callRoot sp ens st
                | _ \<Rightarrow> st) (GuardBody gn) st
      | _ \<Rightarrow> st)"

text \<open>\<open>sp\<close> is the span of the subject.\<close>

definition recordEnsureRefinementFact :: "EnsureNode \<Rightarrow> SourceSpan \<Rightarrow> flow_state \<Rightarrow> flow_state" where
  "recordEnsureRefinementFact n sp st0 =
     (let subject = AccessPathForVariable (resolve_in st0) (EVariable n)
      in case (case ETarget n of
                 Some (TypeTarget name) \<Rightarrow> intern_atom name st0
               | _ \<Rightarrow> intern_ir (fst (LowerRefinementTarget (ETarget n) (EAssertion n))) st0) of
           (pred, st) \<Rightarrow>
             (case deps_for_ensure n st of
                (reads, st) \<Rightarrow>
                  (case (case typeGuardNamesFromAssertionNode (env_of st) (EAssertion n) of
                           predName # _ \<Rightarrow> intern_atom predName st
                         | [] \<Rightarrow> (pred, st)) of
                     (pred, st) \<Rightarrow>
                       fold (\<lambda>c st. if IsTypeGuardConstraint (env_of st) (CName c)
                                    then recordExportedMustFacts (EVariable n) sp (CName c) st else st)
                         (Constraints (EAssertion n))
                         (recordRefinementFact
                            \<lparr>FactSubject = Some subject, ProvedPredicate = pred, Reads = reads, EstablishedAt = sp\<rparr> st))))"

section \<open>Calls that require a fact (call\_fact\_req.go)\<close>

definition requiredFactForCallee :: "Identifier \<Rightarrow> go_string" where
  "requiredFactForCallee fn =
     (if fn = ''acceptAdult'' then ''Adult''
      else if fn = ''ship'' then ''Shippable''
      else if fn = ''useValid'' then ''ValidPeriod''
      else if fn = ''needA'' then ''A''
      else if fn \<in> {''usePresent'', ''useSession'', ''useUser''} then ''Present''
      else if fn = ''needAdultOrAdmin'' then ''Adult|Admin''
      else if fn = ''useAllowed'' then ''AllowedFor''
      else if fn = ''useHasUserEmail'' then ''HasUserEmail''
      else if fn = ''pay'' then ''Payable''
      else if fn \<in> {''acceptAdultUsers'', ''needAllAdults''} then ''AllAdults''
      else if fn \<in> {''needValid'', ''needValidUser''} then ''ValidUser''
      else if fn = ''needTagged'' then ''Tagged''
      else if fn = ''needPriced'' then ''Priced''
      else if fn = ''needValidMap'' then ''ValidMap''
      else if fn \<in> {''useAdultAge'', ''needMin1''} then ''Min''
      else [])"

text \<open>\<open>occ\<close> is the table of guards recorded per occurrence of a variable.\<close>

definition guards_by_name :: "(Identifier \<Rightarrow> go_string list) \<Rightarrow> flow_state \<Rightarrow> Identifier \<Rightarrow> go_string list" where
  "guards_by_name occ st x =
     (if occ x \<noteq> [] then occ x
      else case LookupVariable (scopeStack st) (current (scopeStack st)) x of
             Inr (Some symb) \<Rightarrow> SymTypeGuards symb
           | _ \<Rightarrow> (case compoundNarrowingByIdentifier st x of Some info \<Rightarrow> cguards info | None \<Rightarrow> []))"

definition narrowingGuardsForExpr :: "(Identifier \<Rightarrow> go_string list) \<Rightarrow> flow_state \<Rightarrow> ExpressionNode \<Rightarrow> go_string list" where
  "narrowingGuardsForExpr occ st arg =
     (case arg of
        VariableNode x ty \<Rightarrow> guards_by_name occ st x
      | _ \<Rightarrow> (let x = dottedIdentFromExpr arg in if x = [] then [] else guards_by_name occ st x))"

definition exprHasGuardFact ::
  "(Identifier \<Rightarrow> go_string list) \<Rightarrow> ExpressionNode \<Rightarrow> go_string \<Rightarrow> flow_state \<Rightarrow> bool \<times> flow_state" where
  "exprHasGuardFact occ arg guard st =
     (if guard = [] then (False, st)
      else if guard \<in> set (narrowingGuardsForExpr occ st arg) then (True, st)
      else case path_of st arg of
             None \<Rightarrow> (False, st)
           | Some p \<Rightarrow>
             (case intern_atom guard st of
                (pred, st') \<Rightarrow>
                  (Has (Some (Clone (refinementCtx st'))) (Some p) pred,
                   st'\<lparr>refinementCtx := Some (Clone (refinementCtx st'))\<rparr>)))"

definition exprHasCompoundOrFact :: "(Identifier \<Rightarrow> go_string list) \<Rightarrow> flow_state \<Rightarrow> ExpressionNode \<Rightarrow> bool" where
  "exprHasCompoundOrFact occ st arg =
     list_ex (\<lambda>g. CHR ''|'' \<in> set g \<or> take 4 g = ''Any('') (narrowingGuardsForExpr occ st arg)"

end
