(* ===== verification/FactProps.thy ===== *)
theory FactProps
  imports FactStore
begin

text \<open>
  Correctness of the fact store: what invalidation keeps and drops, what it leaves of the
  narrowings of a dropped fact, how aliases and function summaries extend a write, and the
  may-alias test on types.
\<close>

text \<open>Looking up a name fails only on a parameter of a scope without a node, the global one.\<close>

lemma lookup_variable_total:
  "(\<And>s x. s \<in> set ss \<Longrightarrow> Symbols (st ! s) name = Some x \<Longrightarrow> SymKind x = SymbolParameter \<Longrightarrow> ScopeNode (st ! s) \<noteq> None) \<Longrightarrow>
     \<exists>r. lookup_variable st ss name = Inr r"
proof (induction ss)
  case (Cons s ss)
  then obtain r where "lookup_variable st ss name = Inr r" by (metis list.set_intros(2))
  moreover have "\<exists>b. owns_parameters (st ! s) = Inr b" if "Symbols (st ! s) name = Some x" "SymKind x = SymbolParameter" for x
    using Cons.prems [of s x] that by (auto simp: owns_parameters_def IsFunction_def IsTypeGuard_def split: bool.split)
  ultimately show ?case by (fastforce split: option.split bool.split)
qed simp

lemma resolve_total:
  "(\<And>s x. s \<in> set (scope_chain (store ss) (current ss)) \<Longrightarrow> Symbols (store ss ! s) name = Some x \<Longrightarrow>
      SymKind x = SymbolParameter \<Longrightarrow> ScopeNode (store ss ! s) \<noteq> None) \<Longrightarrow>
     \<exists>r. LookupSymbolID ss (current ss) name = Inr r"
  using lookup_variable_total [of "scope_chain (store ss) (current ss)" "store ss" name]
  by (force simp: LookupSymbolID_def LookupVariable_def split: option.split)

section \<open>What invalidation keeps\<close>

lemma clearNarrowing_fields [simp]:
  "refinementFacts (clearNarrowingForFact f st) = refinementFacts st"
  "droppedFacts (clearNarrowingForFact f st) = droppedFacts st"
  "aliasCtx (clearNarrowingForFact f st) = aliasCtx st"
  "writeCollectorStack (clearNarrowingForFact f st) = writeCollectorStack st"
  by (auto simp: clearNarrowingForFact_def Let_def split: option.splits)

lemma drop_fact_fields [simp]:
  "refinementFacts (drop_fact sp r f st) = refinementFacts st"
  "droppedFacts (drop_fact sp r f st) = droppedFacts st @ [drop_record f sp r]"
  "aliasCtx (drop_fact sp r f st) = aliasCtx st"
  "writeCollectorStack (drop_fact sp r f st) = writeCollectorStack st"
  by (simp_all add: drop_fact_def)

lemma drop_loop_facts:
  "refinementFacts (drop_loop w sp r fs kept st) = kept @ filter (\<lambda>f. \<not> fact_clobbered w f) fs"
  by (induction w sp r fs kept st rule: drop_loop.induct) auto

lemma drop_loop_dropped:
  "droppedFacts (drop_loop w sp r fs kept st) = droppedFacts st @ map (\<lambda>f. drop_record f sp r) (filter (fact_clobbered w) fs)"
  by (induction w sp r fs kept st rule: drop_loop.induct) auto

lemma drop_loop_other [simp]:
  "aliasCtx (drop_loop w sp r fs kept st) = aliasCtx st"
  "writeCollectorStack (drop_loop w sp r fs kept st) = writeCollectorStack st"
  by (induction w sp r fs kept st rule: drop_loop.induct) auto

lemma one_path_fields [simp]:
  "refinementFacts (invalidateOneWritePath w sp r st) = filter (\<lambda>f. \<not> fact_clobbered w f) (refinementFacts st)"
  "droppedFacts (invalidateOneWritePath w sp r st) =
     droppedFacts st @ map (\<lambda>f. drop_record f sp r) (filter (fact_clobbered w) (refinementFacts st))"
  "aliasCtx (invalidateOneWritePath w sp r st) = aliasCtx st"
  "writeCollectorStack (invalidateOneWritePath w sp r st) = writeCollectorStack st"
  by (simp_all add: invalidateOneWritePath_def drop_loop_facts drop_loop_dropped)

lemma paths_facts:
  "refinementFacts (fold (\<lambda>p. invalidateOneWritePath p sp (g p)) ps st) =
     filter (\<lambda>f. \<not> (\<exists>p \<in> set ps. fact_clobbered p f)) (refinementFacts st)"
  by (induction ps arbitrary: st) (auto simp: conj_commute intro!: filter_cong)

lemma paths_other [simp]:
  "aliasCtx (fold (\<lambda>p. invalidateOneWritePath p sp (g p)) ps st) = aliasCtx st"
  "writeCollectorStack (fold (\<lambda>p. invalidateOneWritePath p sp (g p)) ps st) = writeCollectorStack st"
  by (induction ps arbitrary: st) simp_all

definition wf_write :: "flow_state \<Rightarrow> AccessPath \<Rightarrow> bool" where
  "wf_write st w \<longleftrightarrow> list_all wf_path (expandWriteThroughAliases st w)"

lemma dedup_paths:
  assumes "list_all wf_path ps"
  shows "set (dedup_by PathKey {} ps) = set ps"
proof
  show "set (dedup_by PathKey {} ps) \<subseteq> set ps" by (rule dedup_by_subset)
  show "set ps \<subseteq> set (dedup_by PathKey {} ps)"
  proof
    fix p assume p: "p \<in> set ps"
    then obtain q where q: "q \<in> set (dedup_by PathKey {} ps)" "PathKey q = PathKey p"
      using dedup_by_covers [of p ps PathKey "{}"] by auto
    with dedup_by_subset have "q \<in> set ps" by fast
    with p assms q(2) have "q = p" by (auto simp: list_all_iff intro: PathKey_inject)
    with q(1) show "p \<in> set (dedup_by PathKey {} ps)" by simp
  qed
qed

text \<open>Exactly the facts that no written path clobbers are kept, in their order.\<close>

lemma invalidate_facts:
  assumes "wf_write st w"
  shows "refinementFacts (invalidateOverlappingFactsWithReason w sp r st) =
    filter (\<lambda>f. \<not> (\<exists>p \<in> set (expandWriteThroughAliases st w). fact_clobbered p f)) (refinementFacts st)"
  using dedup_paths [OF assms [unfolded wf_write_def]]
  by (simp add: invalidateOverlappingFactsWithReason_def paths_facts [of sp "\<lambda>p. if p \<noteq> w \<and> r = dropByWrite then dropByAlias else r"])

lemma invalidate_other [simp]:
  "aliasCtx (invalidateOverlappingFactsWithReason w sp r st) = aliasCtx st"
  "writeCollectorStack (invalidateOverlappingFactsWithReason w sp r st) = writeCollectorStack st"
  using paths_other [of sp "\<lambda>p. if p \<noteq> w \<and> r = dropByWrite then dropByAlias else r"]
  by (simp_all add: invalidateOverlappingFactsWithReason_def)

definition cells_read :: "RefinementFact \<Rightarrow> location set" where
  "cells_read f = (\<Union>r \<in> set (Reads f). cells_of r)"

definition cells_written :: "flow_state \<Rightarrow> AccessPath \<Rightarrow> location set" where
  "cells_written st w = (\<Union>p \<in> set (expandWriteThroughAliases st w). region p)"

lemma clobber_cells: "\<not> fact_clobbered p f \<Longrightarrow> cells_read f \<inter> region p = {}"
  using PathsOverlap_region [of p]
  by (fastforce simp: fact_clobbered_def cells_read_def list_ex_iff MayClobber_def)

lemma clobber_root:
  "fact_clobbered p f \<Longrightarrow> Root p \<in> Root ` (set (Reads f) \<union> set_option (FactSubject f))"
  by (auto simp: fact_clobbered_def list_ex_iff split: option.splits dest!: MayClobber_root)


section \<open>What is left of a dropped fact\<close>

definition names_guard :: "go_string \<Rightarrow> flow_state \<Rightarrow> bool" where
  "names_guard n st \<longleftrightarrow>
     (\<exists>x \<in> visible_symbols (scopeStack st). (SymKind x = SymbolVariable \<or> SymKind x = SymbolParameter) \<and> n \<in> set (SymTypeGuards x)) \<or>
     (\<exists>x info. compoundNarrowingByIdentifier st x = Some info \<and> n \<in> set (cguards info))"

lemma clear_guard_fields [simp]: "SymKind (clear_guard n x) = SymKind x" "SymID (clear_guard n x) = SymID x"
  by (simp_all add: clear_guard_def Let_def)

lemma clear_guard_subset: "set (SymTypeGuards (clear_guard n x)) \<subseteq> set (SymTypeGuards x)"
  by (auto simp: clear_guard_def Let_def filterOutGuard_def)

lemma clear_guard_clears:
  "SymKind x = SymbolVariable \<or> SymKind x = SymbolParameter \<Longrightarrow> n \<notin> set (SymTypeGuards (clear_guard n x))"
  using length_filter_less [of n "SymTypeGuards x" "\<lambda>g. g \<noteq> n"]
  by (auto simp: clear_guard_def Let_def filterOutGuard_def)

lemma clear_scope_fields [simp]:
  "Parent (clear_scope n s) = Parent s" "ScopeNode (clear_scope n s) = ScopeNode s"
  "Symbols (clear_scope n s) x = map_option (clear_guard n) (Symbols s x)"
  by (simp_all add: clear_scope_def)

abbreviation clear_scopes :: "go_string \<Rightarrow> nat list \<Rightarrow> Scope list \<Rightarrow> Scope list" where
  "clear_scopes n ss st \<equiv> fold (\<lambda>s st. st[s := clear_scope n (st ! s)]) ss st"

lemma clear_scopes_nth:
  "distinct ss \<Longrightarrow> i < length st \<Longrightarrow> clear_scopes n ss st ! i = (if i \<in> set ss then clear_scope n (st ! i) else st ! i)"
proof (induction ss arbitrary: st)
  case (Cons a ss)
  then show ?case by (cases "i = a") (simp_all add: nth_list_update)
qed simp

lemma clear_scopes_length [simp]: "length (clear_scopes n ss st) = length st"
  by (induction ss arbitrary: st) auto

lemma scope_chain_le: "\<forall>x \<in> set (scope_chain st s). x \<le> s"
proof (induction st s rule: scope_chain.induct)
  case (1 st s)
  show ?case
  proof (cases "Parent (st ! s)")
    case (Some q)
    with 1 show ?thesis by (cases "q < s") (fastforce simp: scope_chain.simps [of st s])+
  qed (simp add: scope_chain.simps [of st s])
qed

lemma scope_chain_descends: "sorted_wrt (>) (scope_chain st s)"
proof (induction st s rule: scope_chain.induct)
  case (1 st s)
  show ?case
  proof (cases "Parent (st ! s)")
    case (Some q)
    then show ?thesis using 1 scope_chain_le [of st q] by (auto simp: scope_chain.simps [of st s] intro: le_less_trans)
  qed (simp add: scope_chain.simps [of st s])
qed

lemma scope_chain_distinct: "distinct (scope_chain st s)"
  using scope_chain_descends [of st s] by (metis distinct_rev sorted_wrt_rev strict_sorted_iff)

lemma chain_in_store: "stack_ok ss \<Longrightarrow> s \<in> set (scope_chain (store ss) (current ss)) \<Longrightarrow> s < length (store ss)"
  using scope_chain_le [of "store ss" "current ss"] stack_okD(1) [of ss] by fastforce

lemma cleared_parent:
  assumes "stack_ok ss" "i < length (store ss)"
  shows "Parent (store (clearGuardNameFromScope n ss) ! i) = Parent (store ss ! i)"
  using assms clear_scopes_nth [OF scope_chain_distinct, of i "store ss" n "store ss" "current ss"]
  by (simp add: clearGuardNameFromScope_def)

lemma clear_store_fields [simp]:
  "length (store (clearGuardNameFromScope n ss)) = length (store ss)"
  "current (clearGuardNameFromScope n ss) = current ss"
  "scopes (clearGuardNameFromScope n ss) = scopes ss"
  by (simp_all add: clearGuardNameFromScope_def)

lemma stack_ok_clear: "stack_ok ss \<Longrightarrow> stack_ok (clearGuardNameFromScope n ss)"
  using cleared_parent [of ss] by (auto simp: stack_ok_def parents_ok_def)

lemma cleared_chain:
  assumes "stack_ok ss"
  shows "scope_chain (store (clearGuardNameFromScope n ss)) (current ss) = scope_chain (store ss) (current ss)"
  by (rule scope_chain_cong) (use cleared_parent [OF assms] stack_okD(1) [OF assms] in auto)

lemma visible_clear:
  assumes "stack_ok ss"
  shows "visible_symbols (clearGuardNameFromScope n ss) = clear_guard n ` visible_symbols ss"
proof -
  have "Symbols (store (clearGuardNameFromScope n ss) ! s) = map_option (clear_guard n) \<circ> Symbols (store ss ! s)"
    if "s \<in> set (scope_chain (store ss) (current ss))" for s
    using that chain_in_store [OF assms that] clear_scopes_nth [OF scope_chain_distinct, of s "store ss" n "store ss" "current ss"]
    by (auto simp: clearGuardNameFromScope_def)
  then have "ran (Symbols (store (clearGuardNameFromScope n ss) ! s)) = clear_guard n ` ran (Symbols (store ss ! s))"
    if "s \<in> set (scope_chain (store ss) (current ss))" for s
    using that by (auto simp: ran_def)
  then show ?thesis
    by (simp add: visible_symbols_def cleared_chain [OF assms] image_UN)
qed

lemma names_guard_mono:
  assumes "stack_ok (scopeStack st)" "names_guard m (clearNarrowingForFact f st)"
  shows "names_guard m st"
  using assms(2) clear_guard_subset
  by (fastforce simp: names_guard_def clearNarrowingForFact_def Let_def visible_clear [OF assms(1)] clearCompoundNarrowing_def
      filterOutGuard_def split: option.splits if_splits)

text \<open>The name under which a fact is narrowed: that of an atomic predicate, unless it is empty.\<close>

definition guard_name :: "RefinementFact \<Rightarrow> go_string option" where
  "guard_name f =
     (case ProvedPredicate f of
        None \<Rightarrow> None
      | Some pred \<Rightarrow>
        (case POperand pred of None \<Rightarrow> None | Some op \<Rightarrow> if OpName op = [] then None else Some (OpName op)))"

lemma guard_nameE:
  assumes "guard_name f = Some n"
  obtains pred op where "ProvedPredicate f = Some pred" "POperand pred = Some op" "OpName op = n" "n \<noteq> []"
  using assms by (auto simp: guard_name_def split: option.splits if_splits)

lemma names_guard_clears:
  assumes "stack_ok (scopeStack st)" "guard_name f = Some n"
  shows "\<not> names_guard n (clearNarrowingForFact f st)"
  using assms(2)
  by (elim guard_nameE)
    (auto simp: clear_guard_clears names_guard_def clearNarrowingForFact_def visible_clear [OF assms(1)] clearCompoundNarrowing_def
        filterOutGuard_def Let_def split: option.splits if_splits)

lemma stack_ok_clearNarrowing: "stack_ok (scopeStack st) \<Longrightarrow> stack_ok (scopeStack (clearNarrowingForFact f st))"
  by (simp add: clearNarrowingForFact_def Let_def stack_ok_clear split: option.split)

text \<open>
  The places where a fact can be seen after it was proved (symbols, compound narrowings, the
  refinement context) are views of the state. The interface: clearing a fact keeps the invariant of
  the view, never adds to the view, and removes the fact. Invalidation then does the same for all
  the facts it drops.
\<close>

locale narrowing_view =
  fixes inv :: "flow_state \<Rightarrow> bool" and view :: "'k \<Rightarrow> flow_state \<Rightarrow> bool" and key :: "RefinementFact \<Rightarrow> 'k option"
  assumes inv_clear: "inv st \<Longrightarrow> inv (clearNarrowingForFact f st)"
    and inv_facts: "inv (st\<lparr>droppedFacts := d\<rparr>) = inv st" "inv (st\<lparr>refinementFacts := fs\<rparr>) = inv st"
    and view_facts: "view k (st\<lparr>droppedFacts := d\<rparr>) = view k st" "view k (st\<lparr>refinementFacts := fs\<rparr>) = view k st"
    and view_mono: "inv st \<Longrightarrow> view k (clearNarrowingForFact f st) \<Longrightarrow> view k st"
    and view_clears: "inv st \<Longrightarrow> key f = Some k \<Longrightarrow> \<not> view k (clearNarrowingForFact f st)"
begin

lemma drop_loop_view:
  "inv st \<Longrightarrow>
     inv (drop_loop w sp r fs kept st) \<and>
     (view m (drop_loop w sp r fs kept st) \<longrightarrow> view m st) \<and>
     (\<forall>f \<in> set fs. fact_clobbered w f \<longrightarrow> key f = Some m \<longrightarrow> \<not> view m (drop_loop w sp r fs kept st))"
proof (induction w sp r fs kept st rule: drop_loop.induct)
  case (2 w sp reason f fs kept st)
  show ?case
  proof (cases "fact_clobbered w f")
    case True
    have i: "inv (st\<lparr>droppedFacts := d\<rparr>)" for d using 2(3) by (simp add: inv_facts)
    have "inv (drop_fact sp reason f st)" using inv_clear [OF i] by (simp add: drop_fact_def)
    note IH = 2(1) [OF True this]
    have "view m (drop_fact sp reason f st) \<longrightarrow> view m st"
      using view_mono [OF i] by (auto simp: drop_fact_def view_facts)
    moreover have "key f = Some m \<longrightarrow> \<not> view m (drop_fact sp reason f st)"
      using view_clears [OF i] by (simp add: drop_fact_def)
    ultimately show ?thesis using True IH by auto
  next
    case False
    from 2(2) [OF False 2(3)] False show ?thesis by auto
  qed
qed (simp add: inv_facts view_facts)

lemma one_path_view:
  assumes "inv st"
  shows "inv (invalidateOneWritePath p sp r st)" "view m (invalidateOneWritePath p sp r st) \<Longrightarrow> view m st"
    "f \<in> set (refinementFacts st) \<Longrightarrow> fact_clobbered p f \<Longrightarrow> key f = Some m \<Longrightarrow> \<not> view m (invalidateOneWritePath p sp r st)"
  using drop_loop_view [OF assms] by (auto simp: invalidateOneWritePath_def)

lemma paths_view:
  assumes "inv st"
  shows "inv (fold (\<lambda>p. invalidateOneWritePath p sp (g p)) ps st) \<and>
    (view m (fold (\<lambda>p. invalidateOneWritePath p sp (g p)) ps st) \<longrightarrow> view m st) \<and>
    (\<forall>f \<in> set (refinementFacts st). (\<exists>p \<in> set ps. fact_clobbered p f) \<longrightarrow> key f = Some m \<longrightarrow>
       \<not> view m (fold (\<lambda>p. invalidateOneWritePath p sp (g p)) ps st))"
  using assms
proof (induction ps arbitrary: st)
  case (Cons p ps)
  note one = one_path_view [OF Cons.prems, where p = p and sp = sp and r = "g p"]
  from Cons.IH [OF one(1)] one(2,3) show ?case by auto
qed simp

lemma dropped_not_viewed:
  assumes "inv st" "wf_write st w" "f \<in> set (refinementFacts st)" "key f = Some m"
    and "f \<notin> set (refinementFacts (invalidateOverlappingFactsWithReason w sp r st))"
  shows "\<not> view m (invalidateOverlappingFactsWithReason w sp r st)"
proof -
  have "\<exists>p \<in> set (expandWriteThroughAliases st w). fact_clobbered p f"
    using assms(3,5) by (auto simp: invalidate_facts [OF assms(2)])
  then have "\<exists>p \<in> set (dedup_by PathKey {} (expandWriteThroughAliases st w)). fact_clobbered p f"
    using dedup_paths assms(2) by (simp add: wf_write_def)
  with paths_view [OF assms(1)] assms(3,4) show ?thesis by (simp add: invalidateOverlappingFactsWithReason_def)
qed

end

lemma names_guard_facts:
  "names_guard n (st\<lparr>droppedFacts := d\<rparr>) = names_guard n st" "names_guard n (st\<lparr>refinementFacts := fs\<rparr>) = names_guard n st"
  by (simp_all add: names_guard_def)

interpretation guards: narrowing_view "\<lambda>st. stack_ok (scopeStack st)" names_guard guard_name
  by unfold_locales (auto simp: names_guard_facts stack_ok_clearNarrowing intro: names_guard_mono dest: names_guard_clears)

text \<open>The refinement context: its invariant is that every fact is stored under its own key.\<close>

definition context_ok :: "flow_state \<Rightarrow> bool" where
  "context_ok st = (case refinementCtx st of None \<Rightarrow> True | Some c \<Rightarrow> well_keyed c)"

definition knows :: "AccessPath \<times> Predicate \<Rightarrow> flow_state \<Rightarrow> bool" where
  "knows k st = Has (refinementCtx st) (Some (fst k)) (Some (snd k))"

definition context_key :: "RefinementFact \<Rightarrow> (AccessPath \<times> Predicate) option" where
  "context_key f =
     (case (FactSubject f, ProvedPredicate f) of
        (Some s, Some pred) \<Rightarrow>
          if guard_name f \<noteq> None \<and> wf_subject (Some s) \<and> flat_canonical pred then Some (s, pred) else None
      | _ \<Rightarrow> None)"

lemma clearRefinementContext_sub:
  "clearRefinementContext s p c = Some c' \<Longrightarrow> \<exists>c0. c = Some c0 \<and> c' \<subseteq>\<^sub>m c0"
  by (auto simp: clearRefinementContext_def map_le_def split: option.splits if_splits)

lemma context_ok_clear: "context_ok st \<Longrightarrow> context_ok (clearNarrowingForFact f st)"
  using clearRefinementContext_sub [of _ _ "refinementCtx st"]
  by (fastforce simp: context_ok_def clearNarrowingForFact_def Let_def well_keyed_def map_le_def dom_def split: option.splits)

lemma knows_mono: "knows k (clearNarrowingForFact f st) \<Longrightarrow> knows k st"
  using clearRefinementContext_sub [of _ _ "refinementCtx st"]
  by (fastforce simp: knows_def Has_def clearNarrowingForFact_def Let_def map_le_def dom_def split: option.splits if_splits)

lemma knows_clears:
  assumes "context_ok st" "context_key f = Some (s, pred)"
  shows "\<not> knows (s, pred) (clearNarrowingForFact f st)"
proof -
  from assms(2) have f: "FactSubject f = Some s" "ProvedPredicate f = Some pred" "guard_name f \<noteq> None"
    and wf: "wf_subject (Some s)" "flat_canonical pred"
    by (auto simp: context_key_def split: option.splits if_splits)
  have st: "refinementCtx (clearNarrowingForFact f st) = clearRefinementContext (Some s) pred (refinementCtx st)"
    using f by (auto simp: clearNarrowingForFact_def guard_name_def Let_def split: option.splits if_splits)
  show ?thesis
  proof (cases "refinementCtx st")
    case None
    with st show ?thesis by (simp add: knows_def Has_def clearRefinementContext_def)
  next
    case (Some c)
    let ?k = "factKey (Some s) (Some pred)"
    have "\<exists>e \<in> Facts (Some c). same_fact s pred e \<and> factKey (Subject e) (Some (FactPredicate e)) = ?k" if "c ?k = Some e" for e
    proof -
      have w: "wf_fact e" "factKey (Subject e) (Some (FactPredicate e)) = ?k"
        using assms(1) Some that by (auto simp: context_ok_def well_keyed_def)
      then have "Subject e = Some s \<and> FactPredicate e = pred"
        using wf by (auto simp: wf_fact_def dest: factKey_inject)
      then show ?thesis using that w(2) by (auto simp: Facts_def ran_def same_fact_def)
    qed
    with Some st show ?thesis by (cases "c ?k") (auto simp: knows_def Has_def clearRefinementContext_def)
  qed
qed

interpretation ctx: narrowing_view context_ok knows context_key
  by unfold_locales (auto simp: context_ok_def knows_def intro: context_ok_clear [unfolded context_ok_def] knows_mono [unfolded knows_def]
      dest: knows_clears [unfolded context_ok_def knows_def])

lemma paths_dropped_mono:
  "set (droppedFacts st) \<subseteq> set (droppedFacts (fold (\<lambda>p. invalidateOneWritePath p sp (g p)) ps st))"
proof (induction ps arbitrary: st)
  case (Cons p ps)
  have "set (droppedFacts st) \<subseteq> set (droppedFacts (invalidateOneWritePath p sp (g p) st))" by simp
  also note Cons.IH
  finally show ?case by simp
qed simp

lemma paths_dropped:
  "f \<in> set (refinementFacts st) \<Longrightarrow> \<exists>p \<in> set ps. fact_clobbered p f \<Longrightarrow>
     \<exists>r. drop_record f sp r \<in> set (droppedFacts (fold (\<lambda>p. invalidateOneWritePath p sp (g p)) ps st))"
proof (induction ps arbitrary: st)
  case (Cons p ps)
  show ?case
  proof (cases "fact_clobbered p f")
    case True
    then have "drop_record f sp (g p) \<in> set (droppedFacts (invalidateOneWritePath p sp (g p) st))" using Cons.prems(1) by simp
    with paths_dropped_mono show ?thesis by (fastforce simp del: one_path_fields)
  next
    case False
    with Cons show ?thesis by simp
  qed
qed simp

lemma guard_name_dropped: "guard_name f = Some n \<Longrightarrow> dropped_name f = n"
  by (elim guard_nameE) (simp add: dropped_name_def)


section \<open>Branches and loops\<close>

lemma collected_facts:
  assumes "list_all (\<lambda>w. wf_write st (WrittenPath w)) ws"
  shows "refinementFacts (fold (\<lambda>w st. invalidateOverlappingFacts (WrittenPath w) (WriteSpan w) st) ws st) =
    filter (\<lambda>f. \<not> (\<exists>w \<in> set ws. \<exists>p \<in> set (expandWriteThroughAliases st (WrittenPath w)). fact_clobbered p f)) (refinementFacts st)"
  using assms
proof (induction ws arbitrary: st)
  case (Cons w ws)
  let ?st = "invalidateOverlappingFacts (WrittenPath w) (WriteSpan w) st"
  have ex: "expandWriteThroughAliases ?st = expandWriteThroughAliases st"
    by (simp add: fun_eq_iff expandWriteThroughAliases_def invalidateOverlappingFacts_def)
  have "list_all (\<lambda>w. wf_write ?st (WrittenPath w)) ws" using Cons.prems by (simp add: wf_write_def ex)
  note IH = Cons.IH [OF this, unfolded ex]
  have "refinementFacts ?st =
      filter (\<lambda>f. \<not> (\<exists>p \<in> set (expandWriteThroughAliases st (WrittenPath w)). fact_clobbered p f)) (refinementFacts st)"
    unfolding invalidateOverlappingFacts_def by (rule invalidate_facts) (use Cons.prems in simp)
  with IH show ?case by (auto simp: conj_commute intro!: filter_cong)
qed simp

text \<open>
  The end of a branch or loop: after the collector of the region is popped, the facts left are
  unaffected by every write that was recorded in it, through every alias known then, in whatever
  order the writes and the facts came; the collectors of the enclosing regions are untouched.
\<close>

theorem collected_writes_respected:
  assumes "writeCollectorStack st = outer @ [ws]" and "list_all (\<lambda>w. wf_write st (WrittenPath w)) ws"
    and "st' = popWriteCollectorAndInvalidate st"
  shows "writeCollectorStack st' = outer \<and> set (refinementFacts st') \<subseteq> set (refinementFacts st) \<and>
    (\<Union>f \<in> set (refinementFacts st'). cells_read f) \<inter> (\<Union>w \<in> set ws. cells_written st (WrittenPath w)) = {}"
proof -
  let ?st = "st\<lparr>writeCollectorStack := outer\<rparr>"
  have ex: "expandWriteThroughAliases ?st = expandWriteThroughAliases st"
    by (simp add: fun_eq_iff expandWriteThroughAliases_def)
  have pop: "st' = fold (\<lambda>w st. invalidateOverlappingFacts (WrittenPath w) (WriteSpan w) st) ws ?st"
    using assms(1,3) by (simp add: popWriteCollectorAndInvalidate_def)
  have stack: "writeCollectorStack (fold (\<lambda>w st. invalidateOverlappingFacts (WrittenPath w) (WriteSpan w) st) ws s) = writeCollectorStack s" for s
    by (induction ws arbitrary: s) (simp_all add: invalidateOverlappingFacts_def)
  have facts: "refinementFacts st' =
      filter (\<lambda>f. \<not> (\<exists>w \<in> set ws. \<exists>p \<in> set (expandWriteThroughAliases st (WrittenPath w)). fact_clobbered p f)) (refinementFacts st)"
    using collected_facts [of ?st ws] assms(2) by (simp add: pop ex wf_write_def)
  then have "cells_read f \<inter> region p = {}" if "f \<in> set (refinementFacts st')" "w \<in> set ws" "p \<in> set (expandWriteThroughAliases st (WrittenPath w))" for f w p
    using that by (intro clobber_cells) auto
  then show ?thesis using facts stack by (fastforce simp: pop cells_written_def)
qed

section \<open>May-alias types\<close>

text \<open>A value of the type holds a reference: a reference type, or a field that does, at any depth.\<close>

inductive holds_reference :: "(TypeIdent \<rightharpoonup> definition_node) \<Rightarrow> TypeNode \<Rightarrow> bool"
  and shape_reference :: "(TypeIdent \<rightharpoonup> definition_node) \<Rightarrow> ShapeNode \<Rightarrow> bool" for defs where
  reference: "TIdent t \<in> reference_idents \<or> TIdent t = TypeFunc \<Longrightarrow> holds_reference defs t"
| named: "TIdent t \<notin> value_idents \<Longrightarrow>
    shapeFromTypeIdent defs (TIdent t) = Some s \<Longrightarrow> shape_reference defs s \<Longrightarrow> holds_reference defs t"
| field_type: "(name, fld) \<in> set (Fields s) \<Longrightarrow> FType fld = Some t \<Longrightarrow> holds_reference defs t \<Longrightarrow> shape_reference defs s"
| field_shape: "(name, fld) \<in> set (Fields s) \<Longrightarrow> FShape fld = Some s' \<Longrightarrow> shape_reference defs s' \<Longrightarrow> shape_reference defs s"

inductive_cases holds_referenceE: "holds_reference defs t"
inductive_simps shape_reference_iff: "shape_reference defs (ShapeNode fs order bt)"

definition fields_reference :: "(TypeIdent \<rightharpoonup> definition_node) \<Rightarrow> (string \<times> ShapeFieldNode) list \<Rightarrow> bool" where
  "fields_reference defs fs \<longleftrightarrow>
     (\<exists>(name, fld) \<in> set fs. (\<exists>t. FType fld = Some t \<and> holds_reference defs t) \<or> (\<exists>s. FShape fld = Some s \<and> shape_reference defs s))"

lemma fields_reference_simps:
  "fields_reference defs [] = False"
  "fields_reference defs ((name, fld) # fs) \<longleftrightarrow>
     (\<exists>t. FType fld = Some t \<and> holds_reference defs t) \<or> (\<exists>s. FShape fld = Some s \<and> shape_reference defs s) \<or> fields_reference defs fs"
  "shape_reference defs (ShapeNode fs order bt) \<longleftrightarrow> fields_reference defs fs"
  by (auto simp: fields_reference_def shape_reference_iff)

text \<open>An answer is conservative for a property if it is given, and is true where the property holds.\<close>

definition covers :: "bool option \<Rightarrow> bool \<Rightarrow> bool" where
  "covers answer prop \<longleftrightarrow> answer = Some True \<or> (answer = Some False \<and> \<not> prop)"

lemma covers_or:
  "covers a p \<Longrightarrow> covers b q \<Longrightarrow>
     covers (case a of None \<Rightarrow> None | Some True \<Rightarrow> Some True | Some False \<Rightarrow> b) (p \<or> q)"
  by (auto simp: covers_def)

lemma shapeMayAlias_covers:
  "(\<And>t. covers (test t) (holds_reference defs t)) \<Longrightarrow> covers (shapeMayAlias test s) (shape_reference defs s)"
  "(\<And>t. covers (test t) (holds_reference defs t)) \<Longrightarrow> covers (fields_may_alias test fs) (fields_reference defs fs)"
  "(\<And>t. covers (test t) (holds_reference defs t)) \<Longrightarrow>
     covers (field_shape_may_alias test os) (\<exists>s. os = Some s \<and> shape_reference defs s)"
proof (induction test s and test fs and test os rule: shapeMayAlias_fields_may_alias_field_shape_may_alias.induct)
  case (3 test name nd a shp ty m mp mr e tg g fs)
  let ?a = "case ty of None \<Rightarrow> Some False | Some t \<Rightarrow> test t"
  have a: "covers ?a (\<exists>t. ty = Some t \<and> holds_reference defs t)"
    using 3(3) by (cases ty) (auto simp: covers_def)
  show ?case
  proof (cases "?a = Some False \<and> field_shape_may_alias test shp = Some False")
    case True
    have "covers (field_shape_may_alias test shp) (\<exists>s. shp = Some s \<and> shape_reference defs s)"
      using 3(1) [of False] 3(3) True by blast
    moreover have "covers (fields_may_alias test fs) (fields_reference defs fs)"
      using 3(2) [of False False] 3(3) True by blast
    ultimately have "covers (case field_shape_may_alias test shp of None \<Rightarrow> None | Some True \<Rightarrow> Some True | Some False \<Rightarrow> fields_may_alias test fs)
      ((\<exists>s. shp = Some s \<and> shape_reference defs s) \<or> fields_reference defs fs)" by (rule covers_or)
    from covers_or [OF a this] show ?thesis by (simp add: fields_reference_simps)
  next
    case False
    from a False 3(1) [of False] 3(3) show ?thesis
      by (auto simp: covers_def fields_reference_simps split: bool.splits)
  qed
qed (simp_all add: fields_reference_simps covers_def)

lemma value_no_reference: "TIdent t \<in> value_idents \<Longrightarrow> \<not> holds_reference defs t"
  by (auto simp: value_idents_def reference_idents_def elim!: holds_referenceE)

lemma unnamed_no_reference:
  "TIdent t \<notin> reference_idents \<Longrightarrow> TIdent t \<noteq> TypeFunc \<Longrightarrow> shapeFromTypeIdent defs (TIdent t) = None \<Longrightarrow> \<not> holds_reference defs t"
  by (auto elim!: holds_referenceE)

lemma typeMayAlias_covers:
  assumes "finite (dom defs)"
  shows "card (dom defs - visiting) \<le> n \<Longrightarrow> covers (typeMayAlias n defs visiting t) (holds_reference defs t)"
proof (induction n arbitrary: visiting t)
  case 0
  then have "dom defs \<subseteq> visiting" using assms by simp
  then have "shapeFromTypeIdent defs (TIdent t) = None" if "TIdent t \<notin> visiting"
    using that by (auto simp: shapeFromTypeIdent_def split: option.splits)
  then show ?case using value_no_reference [of t defs] unnamed_no_reference [of t defs]
    by (auto simp: typeMayAlias.simps [of 0] covers_def)
next
  case (Suc n)
  show ?case
  proof (cases "\<exists>s. shapeFromTypeIdent defs (TIdent t) = Some s \<and> TIdent t \<notin> visiting \<and>
      TIdent t \<notin> reference_idents \<and>
      TIdent t \<notin> value_idents \<and> TIdent t \<noteq> TypeFunc")
    case True
    then obtain s where s: "shapeFromTypeIdent defs (TIdent t) = Some s" "TIdent t \<notin> visiting" by blast
    from s(1) have "TIdent t \<in> dom defs" by (auto simp: shapeFromTypeIdent_def split: option.splits if_splits)
    with s(2) have "dom defs - insert (TIdent t) visiting \<subset> dom defs - visiting" by auto
    then have "card (dom defs - insert (TIdent t) visiting) < card (dom defs - visiting)"
      using assms by (intro psubset_card_mono) auto
    with Suc.prems have "card (dom defs - insert (TIdent t) visiting) \<le> n" by simp
    from shapeMayAlias_covers(1) [OF Suc.IH [OF this]]
    have "covers (shapeMayAlias (typeMayAlias n defs (insert (TIdent t) visiting)) s) (shape_reference defs s)" .
    moreover have "holds_reference defs t \<Longrightarrow> shape_reference defs s"
      using True s by (auto elim: holds_referenceE)
    ultimately show ?thesis using True s by (auto simp: typeMayAlias.simps [of "Suc n"] covers_def)
  next
    case False
    then show ?thesis using value_no_reference [of t defs] unnamed_no_reference [of t defs]
      by (auto simp: typeMayAlias.simps [of "Suc n"] covers_def split: option.split)
  qed
qed


text \<open>The type of a tree whose node has a child of the same type behind a pointer.\<close>

definition named_type :: "TypeIdent \<Rightarrow> TypeNode list \<Rightarrow> TypeNode" where
  "named_type n ps = TypeNode n None ps [] None [] []"

definition tree_defs :: "TypeIdent \<rightharpoonup> definition_node" where
  "tree_defs = [''Tree'' \<mapsto> TypeDef (TypeDefShapeExpr (ShapeNode
     [(''left'', ShapeFieldNode None None None (Some (named_type TypePointer [named_type ''Tree'' []])) False [] [] False [] False)] [''left''] None))]"


text \<open>
  Value types of the test that Go compiles to references or that can hold one: \<open>Bytes\<close> is a slice, and
  the members of a \<open>Result\<close> or a union are not looked at.
\<close>

lemma TypeMayAlias_misses:
  "TypeMayAlias fuel defs (named_type TypeBytes []) = Some False"
  "defs TypeResult = None \<Longrightarrow> TypeMayAlias fuel defs (named_type TypeResult [named_type TypePointer ts]) = Some False"
  by (simp_all add: TypeMayAlias_def typeMayAlias.simps named_type_def reference_idents_def value_idents_def shapeFromTypeIdent_def)

section \<open>A sample state\<close>

text \<open>
  \<open>x\<close> (symbol 1) is known to be \<open>Adult\<close>, a fact that reads \<open>x.age\<close>; \<open>p\<close> (symbol 2) is an alias of \<open>x\<close>.
\<close>

definition no_span :: SourceSpan where
  "no_span = \<lparr>StartLine = 0, StartCol = 0, EndLine = 0, EndCol = 0\<rparr>"

definition age_of :: "SymbolID \<Rightarrow> AccessPath" where
  "age_of s = \<lparr>Root = s, Steps = [field_step ''age'']\<rparr>"

definition sample_fact :: RefinementFact where
  "sample_fact = \<lparr>FactSubject = sample_subject, ProvedPredicate = Some (sample_pred ''Adult''), Reads = [age_of 1],
     EstablishedAt = no_span\<rparr>"

definition sample_scopes :: ScopeStack where
  "sample_scopes = RegisterSymbolWithNarrowing 0 ''x'' [] SymbolVariable [''Adult''] [] (NewScopeStack 0)"

definition sample_flow :: "collectedWrite list list \<Rightarrow> flow_state" where
  "sample_flow ws =
     \<lparr>refinementFacts = [sample_fact], droppedFacts = [], scopeStack = sample_scopes,
      compoundNarrowingByIdentifier = Map.empty,
      refinementCtx = Prove (Some NewRefinementContext) sample_subject (Some (sample_pred ''Adult'')),
      aliasCtx = Some [PathKey \<lparr>Root = 2, Steps = []\<rparr> \<mapsto> [\<lparr>Root = 1, Steps = []\<rparr>]],
      writeCollectorStack = ws, closureCaptures = None, pendingClosureWrites = [], capturingClosure = False,
      functionSummaries = Map.empty, currentInferFn = [], currentInferParams = None, checkerDefs = Map.empty,
      predicates = NewPredicateInterner, guardDepsCache = Map.empty\<rparr>"

lemma sample_expand: "expandWriteThroughAliases (sample_flow ws) (age_of 2) = [age_of 2, age_of 1]"
  by (simp add: expandWriteThroughAliases_def sample_flow_def root_only_def age_of_def CloneSteps_def field_step_def
      PathKey_def step_key_def dec_nat.simps)

lemma sample_wf: "wf_write (sample_flow ws) (age_of 2)"
  unfolding wf_write_def sample_expand by (simp add: wf_path_def wf_step_def age_of_def field_step_def)

lemma sample_clobbered: "fact_clobbered (age_of 1) sample_fact"
  by (simp add: fact_clobbered_def sample_fact_def MayClobber_def PathsOverlap_def age_of_def stepsEqual_def)


theorem collected_writes_respected_witness:
  "sample_fact \<notin> set (refinementFacts (popWriteCollectorAndInvalidate (sample_flow [[], [\<lparr>WrittenPath = age_of 2, WriteSpan = no_span\<rparr>]])))"
proof -
  let ?ws = "[\<lparr>WrittenPath = age_of 2, WriteSpan = no_span\<rparr>]"
  let ?st = "sample_flow [[], ?ws]"
  have "writeCollectorStack ?st = [[]] @ [?ws]" by (simp add: sample_flow_def)
  moreover have "list_all (\<lambda>w. wf_write ?st (WrittenPath w)) ?ws" using sample_wf by simp
  ultimately have "(\<Union>f \<in> set (refinementFacts (popWriteCollectorAndInvalidate ?st)). cells_read f) \<inter>
      (\<Union>w \<in> set ?ws. cells_written ?st (WrittenPath w)) = {}"
    using collected_writes_respected [OF _ _ refl] by blast
  moreover have "(1, [InField ''age'']) \<in> cells_read sample_fact"
    by (simp add: cells_read_def sample_fact_def cells_of_def age_of_def field_step_def selects_def)
  moreover have "(1, [InField ''age'']) \<in> (\<Union>w \<in> set ?ws. cells_written ?st (WrittenPath w))"
    using sample_expand [of "[[], ?ws]"]
    by (simp add: cells_written_def region_def)
      (auto simp: cells_of_def age_of_def field_step_def selects_def intro!: exI [of _ "Suc 0"])
  ultimately show ?thesis by blast
qed


section \<open>Chains of aliases\<close>

text \<open>The sample state after \<open>q := p\<close>, with all three variables bound.\<close>

definition chain_flow :: flow_state where
  "chain_flow = (sample_flow [])\<lparr>scopeStack :=
     RegisterSymbol 0 ''q'' [] SymbolVariable (RegisterSymbol 0 ''p'' [] SymbolVariable sample_scopes)\<rparr>"

lemma chain_resolve: "resolve_in chain_flow ''x'' = 1" "resolve_in chain_flow ''p'' = 2" "resolve_in chain_flow ''q'' = 3"
  by (simp_all add: resolve_in_def chain_flow_def sample_flow_def sample_scopes_def RegisterSymbol_def RegisterSymbolWithNarrowing_def
      NewScopeStack_def NewScope_def ScopeStack_allocSymbolID_def set_symbol_def LookupSymbolID_def LookupVariable_def
      scope_chain.simps Let_def)

lemma chain_paths:
  "path_of (chain_flow\<lparr>aliasCtx := c\<rparr>) (VariableNode ''p'' ty) = Some \<lparr>Root = 2, Steps = []\<rparr>"
  "path_of (chain_flow\<lparr>aliasCtx := c\<rparr>) (VariableNode ''q'' ty) = Some \<lparr>Root = 3, Steps = []\<rparr>"
  using chain_resolve by (simp_all add: path_of_def accessPathForExpr_def AccessPathForVariable_def resolve_in_def)

text \<open>
  Aliases are followed one step only. With \<open>p\<close> an alias of \<open>x\<close>, after \<open>q := p\<close> a write to \<open>q.age\<close> is taken
  to write \<open>q.age\<close> and \<open>p.age\<close>, not \<open>x.age\<close>, and the fact about \<open>x\<close> that reads \<open>x.age\<close> is kept; the same
  write through \<open>p\<close> drops it.
\<close>

theorem alias_chain_not_followed:
  "let st = recordAssignmentAlias (VariableNode ''q'' zero_type) (VariableNode ''p'' zero_type) [named_type TypePointer []] no_span chain_flow
   in expandWriteThroughAliases st (age_of 3) = [age_of 3, age_of 2] \<and>
      sample_fact \<in> set (refinementFacts (invalidateOverlappingFacts (age_of 3) no_span st)) \<and>
      sample_fact \<notin> set (refinementFacts (invalidateOverlappingFacts (age_of 2) no_span st))"
proof -
  define st where "st = recordAssignmentAlias (VariableNode ''q'' zero_type) (VariableNode ''p'' zero_type) [named_type TypePointer []] no_span chain_flow"
  have may: "typeSliceMayAlias (chain_flow\<lparr>aliasCtx := c\<rparr>) [named_type TypePointer []]" for c
    by (simp add: typeSliceMayAlias_def may_alias_def TypeMayAlias_def typeMayAlias.simps named_type_def reference_idents_def)
  have st: "st = chain_flow\<lparr>aliasCtx := Some [PathKey \<lparr>Root = 2, Steps = []\<rparr> \<mapsto> [\<lparr>Root = 1, Steps = []\<rparr>],
      PathKey \<lparr>Root = 3, Steps = []\<rparr> \<mapsto> [\<lparr>Root = 2, Steps = []\<rparr>]]\<rparr>"
    using may
    by (simp add: st_def recordAssignmentAlias_def chain_paths handleReferenceAssignment_def handleFieldExtractAssignment_def
        handleWholeValueAssignment_def strongUpdate_def ensureAliasCtx_def Let_def)
      (simp add: chain_flow_def sample_flow_def)
  have e3: "expandWriteThroughAliases st (age_of 3) = [age_of 3, age_of 2]"
    and e2: "expandWriteThroughAliases st (age_of 2) = [age_of 2, age_of 1]"
    by (simp_all add: st expandWriteThroughAliases_def root_only_def age_of_def CloneSteps_def field_step_def
        PathKey_def step_key_def dec_nat.simps)
  have wf: "wf_path (age_of s)" for s by (simp add: wf_path_def wf_step_def age_of_def field_step_def)
  have f: "refinementFacts st = [sample_fact]" by (simp add: st chain_flow_def sample_flow_def)
  have "\<not> fact_clobbered (age_of 3) sample_fact" "\<not> fact_clobbered (age_of 2) sample_fact"
    by (simp_all add: fact_clobbered_def sample_fact_def MayClobber_def PathsOverlap_def pathsOverlapIndexAny_def age_of_def sample_subject_def)
  then show ?thesis
    unfolding Let_def st_def [symmetric] invalidateOverlappingFacts_def
    using sample_clobbered wf by (simp add: e3 e2 f invalidate_facts wf_write_def)
qed

section \<open>Chains of guards\<close>

text \<open>\<open>x\<close> narrowed by \<open>ensure x is A().B()\<close>.\<close>

definition two_guards :: AssertionNode where
  "two_guards = AssertionNode None [ConstraintNode ''A'' [], ConstraintNode ''B'' []] [] [] None"

definition two_guards_ensure :: EnsureNode where
  "two_guards_ensure = EnsureNode ''x'' None (Some (AssertionTarget [two_guards])) two_guards EnsureImplicitNone None None"

definition guarded_flow :: flow_state where
  "guarded_flow = (sample_flow [])\<lparr>refinementFacts := [], aliasCtx := None, refinementCtx := None,
     scopeStack := RegisterSymbolWithNarrowing 0 ''x'' [] SymbolVariable [''A'', ''B''] [] (NewScopeStack 0)\<rparr>"

lemma guarded_resolve: "resolve_in guarded_flow ''x'' = 1"
  by (simp add: resolve_in_def guarded_flow_def RegisterSymbolWithNarrowing_def
      NewScopeStack_def NewScope_def ScopeStack_allocSymbolID_def set_symbol_def LookupSymbolID_def LookupVariable_def
      scope_chain.simps Let_def)

definition guarded_fact :: RefinementFact where
  "guarded_fact = \<lparr>FactSubject = Some \<lparr>Root = 1, Steps = []\<rparr>, ProvedPredicate = Some (sample_pred ''A''),
     Reads = [\<lparr>Root = 1, Steps = []\<rparr>], EstablishedAt = no_span\<rparr>"

lemma two_guards_fields:
  "ETarget two_guards_ensure = Some (AssertionTarget [two_guards])" "EAssertion two_guards_ensure = two_guards"
  "EVariable two_guards_ensure = ''x''" "Constraints two_guards = [ConstraintNode ''A'' [], ConstraintNode ''B'' []]"
  by (simp_all add: two_guards_ensure_def two_guards_def)

lemma guarded_lower:
  "LowerRefinementTarget (ETarget two_guards_ensure) (EAssertion two_guards_ensure) = (Some (AllOf [sample_atom ''A'', sample_atom ''B'']), None)"
  by (simp add: two_guards_ensure_def two_guards_def LowerRefinementTarget_def assertionFromTarget_def LowerAssertionNode_def
      lowerMeetChain_def constraint_atom_def MeetChains_def sample_atom_def constraintArgsRuntimeOnly_def)

lemma guarded_deps:
  "definitions env = Map.empty \<Longrightarrow>
     ExtractDepsForEnsure fuel env cache two_guards_ensure = Some ([\<lparr>Root = resolve env ''x'', Steps = []\<rparr>], cache)"
  using guarded_lower
  by (simp add: ExtractDepsForEnsure_def two_guards_ensure_def AccessPathForVariable_def sample_atom_def extractDepsFromAtom_def
      IsTypeGuardConstraint_def subject_builtins_def root_only_def mergeAccessPaths_def)

lemma guarded_names: "typeGuardNamesFromAssertionNode env two_guards = [''A'', ''B'']"
  by (simp add: typeGuardNamesFromAssertionNode_def two_guards_def)

lemma guarded_record:
  "\<exists>pi. flat_table pi \<and>
     recordEnsureRefinementFact two_guards_ensure no_span guarded_flow = guarded_flow\<lparr>refinementFacts := [guarded_fact], predicates := pi\<rparr>"
proof -
  define a where "a = AllOf [sample_atom ''A'', sample_atom ''B'']"
  define pi where "pi = snd (FromAssertion NewPredicateInterner a)"
  have "flat_assertion a" by (simp add: a_def flat_assertion_def plain_sample)
  then have pi: "flat_table pi" using FromAssertion_flat [OF flat_table_new] by (simp add: pi_def)
  have op: "plain_operand (named_atom ''A'')" by (simp add: plain_operand_def named_atom_def Operand_Key_def)
  note atom = InternAtom_flat [OF pi op]
  have defs: "checkerDefs (guarded_flow\<lparr>predicates := pi\<rparr>) = Map.empty" "predicates guarded_flow = NewPredicateInterner" for pi
    by (simp_all add: guarded_flow_def sample_flow_def)
  have env: "resolve (env_of (guarded_flow\<lparr>predicates := pi\<rparr>)) ''x'' = 1" for pi
    using guarded_resolve by (simp add: env_of_def resolve_in_def)
  have deps: "deps_for_ensure two_guards_ensure (guarded_flow\<lparr>predicates := pi\<rparr>) =
      ([\<lparr>Root = 1, Steps = []\<rparr>], guarded_flow\<lparr>predicates := pi\<rparr>)" for pi
    using guarded_deps [of "env_of (guarded_flow\<lparr>predicates := pi\<rparr>)"] env [of pi] defs(1) [of pi]
    by (simp add: deps_for_ensure_def env_of_def)
  let ?pi' = "snd (InternAtom pi (named_atom ''A''))"
  have s1: "intern_ir (Some a) guarded_flow = (Some (fst (FromAssertion NewPredicateInterner a)), guarded_flow\<lparr>predicates := pi\<rparr>)"
    by (simp add: intern_ir_def defs case_prod_beta pi_def)
  have s2: "intern_atom ''A'' (guarded_flow\<lparr>predicates := pi\<rparr>) = (Some (sample_pred ''A''), guarded_flow\<lparr>predicates := ?pi'\<rparr>)"
    using atom by (simp add: intern_atom_def case_prod_beta sample_pred_def named_atom_def)
  have guard: "IsTypeGuardConstraint (env_of (st\<lparr>predicates := p, refinementFacts := fs\<rparr>)) n \<longleftrightarrow> IsTypeGuardConstraint (env_of st) n" for st p fs n
    by (simp add: IsTypeGuardConstraint_def env_of_def)
  have none: "\<not> IsTypeGuardConstraint (env_of guarded_flow) n" for n
    by (simp add: IsTypeGuardConstraint_def env_of_def guarded_flow_def sample_flow_def)
  have "recordRefinementFact guarded_fact (guarded_flow\<lparr>predicates := ?pi'\<rparr>) = guarded_flow\<lparr>refinementFacts := [guarded_fact], predicates := ?pi'\<rparr>"
    by (simp add: recordRefinementFact_def guarded_flow_def)
  moreover have "recordEnsureRefinementFact two_guards_ensure no_span guarded_flow =
      recordRefinementFact guarded_fact (guarded_flow\<lparr>predicates := ?pi'\<rparr>)"
    using guarded_lower [folded a_def, unfolded two_guards_fields] s1 s2 deps [of pi] guarded_resolve none guard
    by (simp add: recordEnsureRefinementFact_def two_guards_fields guarded_names guarded_fact_def AccessPathForVariable_def
        recordRefinementFact_def Let_def)
  ultimately show ?thesis using atom by auto
qed

text \<open>
  Only the first guard of a chain is dropped. After \<open>ensure x is A().B()\<close> a write to the whole of \<open>x\<close> drops the
  recorded fact and forgets \<open>A\<close>, but \<open>x\<close> still counts as \<open>B\<close>.
\<close>

theorem second_guard_survives:
  "let st = invalidateOverlappingFacts \<lparr>Root = 1, Steps = []\<rparr> no_span
              (recordEnsureRefinementFact two_guards_ensure no_span guarded_flow)
   in refinementFacts st = [] \<and> \<not> fst (exprHasGuardFact (\<lambda>_. []) (VariableNode ''x'' zero_type) ''A'' st) \<and>
      fst (exprHasGuardFact (\<lambda>_. []) (VariableNode ''x'' zero_type) ''B'' st)"
proof -
  obtain pi where rec: "recordEnsureRefinementFact two_guards_ensure no_span guarded_flow = guarded_flow\<lparr>refinementFacts := [guarded_fact], predicates := pi\<rparr>"
    using guarded_record by blast
  have "fact_clobbered \<lparr>Root = 1, Steps = []\<rparr> guarded_fact"
    by (simp add: fact_clobbered_def guarded_fact_def MayClobber_def PathsOverlap_def)
  then show ?thesis unfolding rec
    by (simp add: invalidateOverlappingFacts_def invalidateOverlappingFactsWithReason_def expandWriteThroughAliases_def
        invalidateOneWritePath_def drop_fact_def clearNarrowingForFact_def clearGuardNameFromScope_def clear_scope_def
        clear_guard_def filterOutGuard_def clearRefinementContext_def guarded_flow_def sample_flow_def guarded_fact_def
        sample_pred_def atom_pred_def RegisterSymbolWithNarrowing_def NewScopeStack_def NewScope_def ScopeStack_allocSymbolID_def
        set_symbol_def scope_chain.simps exprHasGuardFact_def narrowingGuardsForExpr_def guards_by_name_def LookupVariable_def
        path_of_def accessPathForExpr_def intern_atom_def case_prod_beta Clone_def Has_def NewRefinementContext_def Let_def)
qed

end
