(* ===== verification/Printer.thy ===== *)
theory Printer
  imports Statements
begin

text \<open>
  \<open>internal/printer\<close>: the source formatter. Texts of operators (\<open>ops.go\<close>), of types and assertions
  (\<open>typeprint.go\<close>), of expressions, shapes, statements and declarations (\<open>printer.go\<close>) and the clean-up of
  white space (\<open>whitespace.go\<close>). The field \<open>depth\<close> of the printer is an argument: every return that is not an
  error restores it. An error carries its message. \<open>strconv.Quote\<close> and \<open>strconv.QuoteRune\<close>, which consult the
  Unicode tables, are the record \<open>quoting\<close>.
\<close>

section \<open>Results and texts\<close>

type_synonym printed = "go_string + go_string"

definition comma_list :: "printed list \<Rightarrow> printed" where
  "comma_list rs = map_ok (join_strings '', '') (all_ok rs)"

definition repeat_text :: "go_string \<Rightarrow> nat \<Rightarrow> go_string" where
  "repeat_text s n = concat (replicate n s)"

abbreviation linefeed :: char where "linefeed \<equiv> CHR 0x0A"

definition TrimSuffix_newline :: "go_string \<Rightarrow> go_string" where
  "TrimSuffix_newline s = (if s \<noteq> [] \<and> last s = linefeed then butlast s else s)"

record quoting =
  Quote :: "go_string \<Rightarrow> go_string"
  QuoteRune :: "int \<Rightarrow> go_string"

record Config =
  Indent :: go_string
  TypeDefLineWidth :: int

definition DefaultConfig :: Config where
  "DefaultConfig = \<lparr>Indent = [CHR 0x09], TypeDefLineWidth = 80\<rparr>"

section \<open>Operators (ops.go)\<close>

definition tokenBinary :: "TokenIdent \<Rightarrow> go_string" where
  "tokenBinary op =
     (if op = TokenPlus then ''+''
      else if op = TokenMinus then ''-''
      else if op = TokenStar then ''*''
      else if op = TokenDivide then ''/''
      else if op = TokenModulo then ''%''
      else if op = TokenEquals then ''==''
      else if op = TokenNotEquals then ''!=''
      else if op = TokenGreater then ''>''
      else if op = TokenLess then ''<''
      else if op = TokenGreaterEqual then ''>=''
      else if op = TokenLessEqual then ''<=''
      else if op = TokenLogicalAnd then ''&&''
      else if op = TokenLogicalOr then ''||''
      else if op = TokenIs then ''is''
      else if op = TokenBitwiseAnd then ''&''
      else if op = TokenBitwiseOr then ''|''
      else if op = TokenXor then ''^''
      else if op = TokenLShift then ''<<''
      else if op = TokenRShift then ''>>''
      else if op = TokenAndNot then ''&^''
      else op)"

definition incDecSuffix :: "TokenIdent \<Rightarrow> go_string option" where
  "incDecSuffix op =
     (if op = TokenPlusPlus then Some ''++'' else if op = TokenMinusMinus then Some ''--'' else None)"

definition tokenUnary :: "TokenIdent \<Rightarrow> go_string" where
  "tokenUnary op =
     (if op = TokenLogicalNot then ''!''
      else if op = TokenMinus then ''-''
      else if op = TokenStar then ''*''
      else if op = TokenBitwiseAnd then ''&''
      else if op = TokenPlusPlus then ''++''
      else if op = TokenMinusMinus then ''--''
      else op)"

section \<open>Layout of shapes\<close>

definition effectiveTypeDefLineWidth :: "Config \<Rightarrow> int" where
  "effectiveTypeDefLineWidth c = (if TypeDefLineWidth c \<le> 0 then 80 else TypeDefLineWidth c)"

text \<open>The dynamic type of an expression the printer has no case for, as \<open>%T\<close> writes it.\<close>

definition expression_type_name :: "ExpressionNode \<Rightarrow> go_string" where
  "expression_type_name e =
     (case e of
        IotaLiteralNode \<Rightarrow> ''ast.IotaLiteralNode''
      | MethodCallNode _ _ _ \<Rightarrow> ''ast.MethodCallNode''
      | SliceExpressionNode _ _ _ \<Rightarrow> ''ast.SliceExpressionNode''
      | SpreadExpressionNode _ \<Rightarrow> ''ast.SpreadExpressionNode''
      | TypeExpressionNode _ \<Rightarrow> ''ast.TypeExpressionNode''
      | FieldAccessNode _ _ \<Rightarrow> ''ast.FieldAccessNode''
      | FunctionLiteralNode _ _ \<Rightarrow> ''ast.FunctionLiteralNode''
      | AssertionExpr _ \<Rightarrow> ''ast.AssertionNode''
      | OkExprNode _ \<Rightarrow> ''ast.OkExprNode''
      | ErrExprNode _ \<Rightarrow> ''ast.ErrExprNode''
      | _ \<Rightarrow> [])"

definition unsupported_expression :: "go_string \<Rightarrow> printed" where
  "unsupported_expression ty = Inl (''printer: unsupported expression '' @ ty)"

definition shapeExprHasNestedFields :: "ExpressionNode \<Rightarrow> bool" where
  "shapeExprHasNestedFields e =
     (case e of
        ShapeExpr s \<Rightarrow> Fields s \<noteq> []
      | ReferenceNode (ShapeExpr s) \<Rightarrow> Fields s \<noteq> []
      | _ \<Rightarrow> False)"

text \<open>Whether a shape whose text on one line is \<open>oneLine\<close> is broken across lines.\<close>

definition shapeShouldUseMultiline :: "Config \<Rightarrow> ShapeNode \<Rightarrow> printed \<Rightarrow> bool" where
  "shapeShouldUseMultiline c s oneLine =
     (if Fields s = [] then False
      else case oneLine of
             Inl _ \<Rightarrow> True
           | Inr line \<Rightarrow>
             int (length line) > effectiveTypeDefLineWidth c \<or>
             (length (Fields s) > 1 \<and>
              list_ex (\<lambda>(name, field).
                (case FShape field of Some t \<Rightarrow> Fields t \<noteq> [] | None \<Rightarrow> False) \<or>
                (case ValueExpression field of Some e \<Rightarrow> shapeExprHasNestedFields e | None \<Rightarrow> False)) (Fields s)))"

definition sortedShapeFieldNames :: "(go_string \<times> 'f) list \<Rightarrow> go_string list" where
  "sortedShapeFieldNames fs = sort (map fst fs)"

definition shapeFieldNamesForPrint :: "ShapeNode \<Rightarrow> go_string list" where
  "shapeFieldNamesForPrint s = (if FieldOrder s \<noteq> [] then FieldOrder s else sortedShapeFieldNames (Fields s))"

text \<open>The name in front of the brace; an anonymous structural type has \<open>TypeShape\<close> as its base type.\<close>

definition shape_head :: "ShapeNode \<Rightarrow> go_string" where
  "shape_head s = (case SBaseType s of Some b \<Rightarrow> if b \<noteq> TypeShape then b else [] | None \<Rightarrow> [])"

definition member_text :: "go_string \<Rightarrow> ShapeFieldNode \<Rightarrow> printed \<Rightarrow> printed" where
  "member_text name field rhs =
     (if IsMethod field then Inr (FormatShapeMemberName name field)
      else if Embedded field then map_ok (\<lambda>r. if r = [] then name else r) rhs
      else map_ok (\<lambda>r. name @ '': '' @ r) rhs)"

text \<open>The entries of a shape in the order they are printed. A name without a field has the zero field: its text
  is empty.\<close>

definition entries_in_order :: "ShapeNode \<Rightarrow> (go_string \<times> printed) list \<Rightarrow> printed list" where
  "entries_in_order s entries =
     map (\<lambda>name. case map_of entries name of Some r \<Rightarrow> r | None \<Rightarrow> Inr (name @ '': '')) (shapeFieldNamesForPrint s)"

definition one_line :: "ShapeNode \<Rightarrow> (go_string \<times> printed) list \<Rightarrow> printed" where
  "one_line s entries = map_ok (\<lambda>body. shape_head s @ ''{'' @ body @ ''}'') (comma_list (entries_in_order s entries))"

definition multi_line :: "Config \<Rightarrow> ShapeNode \<Rightarrow> nat \<Rightarrow> (go_string \<times> printed) list \<Rightarrow> printed" where
  "multi_line c s fieldIndent entries =
     (let fieldIndent = max fieldIndent 1
      in map_ok (\<lambda>es. shape_head s @ ''{'' @ [linefeed] @
           concat (map (\<lambda>e. repeat_text (Indent c) fieldIndent @ e @ '','' @ [linefeed]) es) @
           repeat_text (Indent c) (fieldIndent - 1) @ ''}'') (all_ok (entries_in_order s entries)))"

section \<open>Types, assertions and expressions (typeprint.go, printer.go)\<close>

definition print_type_params :: "TypeIdent \<Rightarrow> go_string \<Rightarrow> go_string \<Rightarrow> go_string list \<Rightarrow> go_string" where
  "print_type_params head opening closing ps = head @ opening @ join_strings '', '' ps @ closing"

text \<open>The parts of \<open>printType\<close> without recursion: \<open>asrt\<close> and \<open>chain\<close> are the texts of the assertion of the type, if it
  has one, and of its constraints; \<open>ps\<close> the texts of its type parameters.\<close>

definition print_type_text :: "TypeIdent \<Rightarrow> go_string option \<Rightarrow> go_string option \<Rightarrow> go_string list \<Rightarrow> go_string" where
  "print_type_text ident asrt chain ps =
     (if ident \<in> {TypeInt, TypeFloat, TypeString, TypeBool, TypeVoid, TypeError} then TypeIdent_String ident
      else if ident = TypeArray then (case ps of p # _ \<Rightarrow> ''[]'' @ p | [] \<Rightarrow> ''[]'')
      else if ident = TypeMap then (case ps of k # v # _ \<Rightarrow> ''Map['' @ k @ '', '' @ v @ '']'' | _ \<Rightarrow> ''Map'')
      else if ident = TypePointer then (case ps of p # _ \<Rightarrow> ''*'' @ p | [] \<Rightarrow> ''*'')
      else if ident = TypeAssertion then (case asrt of Some a \<Rightarrow> a | None \<Rightarrow> ''Assertion(?)'')
      else if ident = TypeShape then (case asrt of Some a \<Rightarrow> a | None \<Rightarrow> ''Shape'')
      else if ident = TypeImplicit then []
      else if ident = TypeResult then (case ps of s # f # _ \<Rightarrow> ''Result('' @ s @ '', '' @ f @ '')'' | _ \<Rightarrow> ''Result'')
      else if ident = TypeTuple then (if ps \<noteq> [] then print_type_params ''Tuple'' ''('' '')'' ps else ''Tuple'')
      else case chain of
             Some cs \<Rightarrow> ident @ ''.'' @ cs
           | None \<Rightarrow> if ps \<noteq> [] then print_type_params ident ''<'' ''>'' ps else ident)"

text \<open>The expression of a shape literal field, which the parser stores as \<open>Value(expr)\<close>.\<close>

definition parsed_value :: "AssertionNode \<Rightarrow> ExpressionNode option" where
  "parsed_value a =
     (case a of
        AssertionNode None [ConstraintNode name [ConstraintArgumentNode v _ _]] _ _ _ \<Rightarrow>
          if name = ValueConstraint then v else None
      | _ \<Rightarrow> None)"

definition shapeFieldParsedValueExpr :: "ShapeFieldNode \<Rightarrow> ExpressionNode option" where
  "shapeFieldParsedValueExpr f = (case FAssertion f of Some a \<Rightarrow> parsed_value a | None \<Rightarrow> None)"

lemma parsed_value_size: "parsed_value a = Some e \<Longrightarrow> size e < size a"
  by (auto simp: parsed_value_def split: AssertionNode.splits option.splits list.splits ConstraintNode.splits
      ConstraintArgumentNode.splits if_splits)

definition call_text :: "printed \<Rightarrow> go_string list \<Rightarrow> printed list \<Rightarrow> printed" where
  "call_text callee typeArgs args =
     and_then callee (\<lambda>f. map_ok (\<lambda>as. f @ (if typeArgs \<noteq> [] then ''['' @ join_strings '', '' typeArgs @ '']'' else []) @
       ''('' @ as @ '')'') (comma_list args))"

definition or_question_mark :: "printed \<Rightarrow> go_string" where
  "or_question_mark r = (case r of Inl _ \<Rightarrow> ''?'' | Inr s \<Rightarrow> s)"

lemma field_sizes:
  "FShape f = Some s \<Longrightarrow> size s < size f" "FAssertion f = Some a \<Longrightarrow> size a < size f" "FType f = Some ty \<Longrightarrow> size ty < size f"
  by (cases f; simp)+

lemmas member_sizes =
  member_size [where 'a = TypeNode] member_size [where 'a = AssertionNode] member_size [where 'a = ConstraintNode]
  member_size [where 'a = ConstraintArgumentNode] member_size [where 'a = ExpressionNode]

lemma pair_size:
  fixes a b :: ExpressionNode
  shows "(a, b) \<in> set xs \<Longrightarrow> size a < size_list (size_prod size size) xs \<and> size b < size_list (size_prod size size) xs"
  by (induction xs) auto

lemma shape_field_size: "(name, g) \<in> set (Fields s) \<Longrightarrow> size g < size s"
  by (cases s) (auto dest!: split_list)

function (sequential)
      printType :: "quoting \<Rightarrow> TypeNode \<Rightarrow> go_string"
  and formatAssertion :: "quoting \<Rightarrow> Config \<Rightarrow> AssertionNode \<Rightarrow> go_string"
  and formatAssertionMeet :: "quoting \<Rightarrow> Config \<Rightarrow> AssertionNode \<Rightarrow> go_string"
  and formatAssertionChainOnly :: "quoting \<Rightarrow> Config \<Rightarrow> AssertionNode \<Rightarrow> go_string"
  and formatConstraint :: "quoting \<Rightarrow> Config \<Rightarrow> ConstraintNode \<Rightarrow> go_string"
  and formatConstraintArg :: "quoting \<Rightarrow> Config \<Rightarrow> ConstraintArgumentNode \<Rightarrow> go_string"
  and printExpr :: "quoting \<Rightarrow> Config \<Rightarrow> ExpressionNode \<Rightarrow> printed"
  and printShapeAtFieldIndent :: "quoting \<Rightarrow> Config \<Rightarrow> ShapeNode \<Rightarrow> nat \<Rightarrow> printed"
  and printShapeOneLine :: "quoting \<Rightarrow> Config \<Rightarrow> ShapeNode \<Rightarrow> printed"
  and printShapeMultiline :: "quoting \<Rightarrow> Config \<Rightarrow> ShapeNode \<Rightarrow> nat \<Rightarrow> printed"
  and printShapeFieldEntry :: "quoting \<Rightarrow> Config \<Rightarrow> go_string \<Rightarrow> ShapeFieldNode \<Rightarrow> nat \<Rightarrow> printed"
  and printShapeFieldRHS :: "quoting \<Rightarrow> Config \<Rightarrow> ShapeFieldNode \<Rightarrow> nat \<Rightarrow> printed" where
  "printType q (TypeNode ident asrt params kind arrayLen fps frs) =
     print_type_text ident (case asrt of Some a \<Rightarrow> Some (formatAssertion q DefaultConfig a) | None \<Rightarrow> None)
       (case asrt of Some a \<Rightarrow> Some (formatAssertionChainOnly q DefaultConfig a) | None \<Rightarrow> None) (map (printType q) params)"
| "formatAssertion q c (AssertionNode base cs alts params arrayLen) =
     formatAssertionMeet q c (AssertionNode base cs alts params arrayLen) @
     concat (map (\<lambda>alt. '' or '' @ formatAssertionMeet q c alt) alts)"
| "formatAssertionMeet q c (AssertionNode base cs alts params arrayLen) =
     (case (base, cs) of
        (None, [ConstraintNode name [ConstraintArgumentNode v (Some s) t]]) \<Rightarrow>
          if name = ''Match'' then
            (case printShapeAtFieldIndent q c s 1 of
               Inr txt \<Rightarrow> txt
             | Inl _ \<Rightarrow> formatAssertionChainOnly q c (AssertionNode base cs alts params arrayLen))
          else formatAssertionChainOnly q c (AssertionNode base cs alts params arrayLen)
      | (None, _) \<Rightarrow> formatAssertionChainOnly q c (AssertionNode base cs alts params arrayLen)
      | (Some b, []) \<Rightarrow> TypeIdent_String b
      | (Some b, _) \<Rightarrow> TypeIdent_String b @ ''.'' @ formatAssertionChainOnly q c (AssertionNode base cs alts params arrayLen))"
| "formatAssertionChainOnly q c (AssertionNode base cs alts params arrayLen) =
     join_strings ''.'' (map (formatConstraint q c) cs)"
| "formatConstraint q c (ConstraintNode name args) =
     (let call = name @ ''('' @ join_strings '', '' (map (formatConstraintArg q c) args) @ '')''
      in case args of
           [ConstraintArgumentNode None (Some s) None] \<Rightarrow>
             (case printShapeAtFieldIndent q c s 1 of Inr txt \<Rightarrow> name @ '' '' @ txt | Inl _ \<Rightarrow> call)
         | _ \<Rightarrow> call)"
| "formatConstraintArg q c (ConstraintArgumentNode v s t) =
     (case v of
        Some e \<Rightarrow> or_question_mark (printExpr q c e)
      | None \<Rightarrow>
        (case s of
           Some sh \<Rightarrow> or_question_mark (printShapeAtFieldIndent q c sh 1)
         | None \<Rightarrow> (case t of Some ty \<Rightarrow> printType q ty | None \<Rightarrow> ''?'')))"
| "printExpr q c e =
     (case e of
        VariableNode x ty \<Rightarrow> Inr x
      | IntLiteralNode v raw ty \<Rightarrow> Inr (int_literal_source v raw)
      | FloatLiteralNode txt ty \<Rightarrow> Inr txt
      | StringLiteralNode s ty \<Rightarrow> Inr (Quote q s)
      | RuneLiteralNode r ty \<Rightarrow> Inr (QuoteRune q r)
      | BoolLiteralNode b ty \<Rightarrow> Inr (if b then ''true'' else ''false'')
      | NilLiteralNode \<Rightarrow> Inr ''nil''
      | UnaryExpressionNode op operand \<Rightarrow>
          map_ok (\<lambda>inner. case incDecSuffix op of Some suffix \<Rightarrow> inner @ suffix | None \<Rightarrow> tokenUnary op @ inner) (printExpr q c operand)
      | BinaryExpressionNode l op r \<Rightarrow>
          and_then (printExpr q c l) (\<lambda>left. map_ok (\<lambda>right. left @ '' '' @ tokenBinary op @ '' '' @ right) (printExpr q c r))
      | FunctionCallNode f callee typeArgs args \<Rightarrow>
          call_text (case callee of Some g \<Rightarrow> printExpr q c g | None \<Rightarrow> Inr f) (map (printType q) typeArgs) (map (printExpr q c) args)
      | IndexExpressionNode target index \<Rightarrow>
          and_then (printExpr q c target) (\<lambda>t. map_ok (\<lambda>i. t @ ''['' @ i @ '']'') (printExpr q c index))
      | ReferenceNode v \<Rightarrow> map_ok (\<lambda>s. ''&'' @ s) (printExpr q c v)
      | DereferenceNode v \<Rightarrow> map_ok (\<lambda>s. ''*'' @ s) (printExpr q c v)
      | ShapeExpr s \<Rightarrow> printShapeAtFieldIndent q c s 1
      | ArrayLiteralNode items ty \<Rightarrow>
          map_ok (\<lambda>body. if TIdent ty \<noteq> TypeImplicit then ''[]'' @ printType q ty @ ''{'' @ body @ ''}'' else ''['' @ body @ '']'')
            (comma_list (map (printExpr q c) items))
      | MapLiteralNode entries kt vt \<Rightarrow>
          map_ok (\<lambda>body. ''map['' @ printType q kt @ '']'' @ printType q vt @ ''{'' @ body @ ''}'')
            (comma_list (map (\<lambda>(k, v). and_then (printExpr q c k) (\<lambda>ks. map_ok (\<lambda>vs. ks @ '': '' @ vs) (printExpr q c v))) entries))
      | _ \<Rightarrow> unsupported_expression (expression_type_name e))"
| "printShapeAtFieldIndent q c s fieldIndent =
     (if \<not> shapeShouldUseMultiline c s (printShapeOneLine q c s) then printShapeOneLine q c s
      else printShapeMultiline q c s fieldIndent)"
| "printShapeOneLine q c s =
     one_line s (map (\<lambda>(name, field). (name, printShapeFieldEntry q c name field 1)) (Fields s))"
| "printShapeMultiline q c s fieldIndent =
     multi_line c s fieldIndent
       (map (\<lambda>(name, field). (name, printShapeFieldEntry q c name field (max fieldIndent 1 + 1))) (Fields s))"
| "printShapeFieldEntry q c name field fieldIndent = member_text name field (printShapeFieldRHS q c field fieldIndent)"
| "printShapeFieldRHS q c field fieldIndent =
     (if IsMethod field then Inr (ShapeField_String field)
      else case FShape field of
             Some s \<Rightarrow> printShapeAtFieldIndent q c s fieldIndent
           | None \<Rightarrow>
             (case shapeFieldParsedValueExpr field of
                Some e \<Rightarrow> printExpr q c e
              | None \<Rightarrow>
                (case FAssertion field of
                   Some a \<Rightarrow> Inr (formatAssertion q c a)
                 | None \<Rightarrow> (case FType field of Some ty \<Rightarrow> Inr (printType q ty) | None \<Rightarrow> Inr []))))"
  by pat_completeness auto
termination
  apply (relation "measure (case_sum (case_sum (case_sum (\<lambda>(q,t). 12 * size t + 0)
       (case_sum (\<lambda>(q,c,a). 12 * size a + 3)
       (\<lambda>(q,c,a). 12 * size a + 2)))
       (case_sum (\<lambda>(q,c,a). 12 * size a + 1)
       (case_sum (\<lambda>(q,c,k). 12 * size k + 0)
       (\<lambda>(q,c,x). 12 * size x + 0))))
       (case_sum (case_sum (\<lambda>(q,c,e). 12 * size e + 0)
       (case_sum (\<lambda>(q,c,s,n). 12 * size s + 2)
       (\<lambda>(q,c,s). 12 * size s + 1)))
       (case_sum (\<lambda>(q,c,s,n). 12 * size s + 1)
       (case_sum (\<lambda>(q,c,w,f,n). 12 * size f + 1)
       (\<lambda>(q,c,f,n). 12 * size f + 0)))))")
  by (auto simp: shapeFieldParsedValueExpr_def dest!: parsed_value_size field_sizes shape_field_size
    member_sizes pair_size split: option.splits)

lemmas printer_simps [simp del] =
  printExpr.simps printShapeAtFieldIndent.simps printShapeOneLine.simps printShapeMultiline.simps
  printShapeFieldEntry.simps printShapeFieldRHS.simps

definition printShape :: "quoting \<Rightarrow> Config \<Rightarrow> ShapeNode \<Rightarrow> printed" where
  "printShape q c s = printShapeAtFieldIndent q c s 1"

definition print_optional :: "quoting \<Rightarrow> Config \<Rightarrow> ExpressionNode option \<Rightarrow> printed" where
  "print_optional q c e = (case e of Some e \<Rightarrow> printExpr q c e | None \<Rightarrow> unsupported_expression ''<nil>'')"

definition printExprList :: "quoting \<Rightarrow> Config \<Rightarrow> ExpressionNode option list \<Rightarrow> printed" where
  "printExprList q c xs = comma_list (map (print_optional q c) xs)"

definition printParam :: "quoting \<Rightarrow> ParamNode \<Rightarrow> go_string" where
  "printParam q p =
     (case p of
        SimpleParamNode ident ty variadic \<Rightarrow> ident @ (if variadic then '' ...'' else '' '') @ printType q ty
      | DestructuredParamNode fs ty \<Rightarrow> ''{'' @ join_strings '', '' fs @ ''} '' @ printType q ty)"

section \<open>Lines\<close>

definition prefixEachLine :: "go_string \<Rightarrow> go_string \<Rightarrow> go_string" where
  "prefixEachLine pre s =
     (let s = TrimSuffix_newline s
      in if s = [] then [] else join_strings [linefeed] (map (\<lambda>line. pre @ line) (split_on linefeed s)))"

definition indentation :: "Config \<Rightarrow> nat \<Rightarrow> go_string" where
  "indentation c depth = repeat_text (Indent c) depth"

definition prefixFirstLineOnly :: "Config \<Rightarrow> nat \<Rightarrow> go_string \<Rightarrow> go_string" where
  "prefixFirstLineOnly c depth s =
     (let s = TrimSuffix_newline s in if s = [] then [] else indentation c depth @ s)"

definition formatIndentedComment :: "go_string \<Rightarrow> go_string" where
  "formatIndentedComment s = rev (dropWhile (\<lambda>ch. ch = linefeed) (rev s))"

section \<open>Statements\<close>

text \<open>The left-hand sides of an assignment, with the type annotations of variables.\<close>

definition target_text :: "quoting \<Rightarrow> Config \<Rightarrow> TypeNode option \<Rightarrow> ExpressionNode \<Rightarrow> printed" where
  "target_text q c explicit lv =
     (case lv of
        VariableNode x ty \<Rightarrow>
          Inr (x @ (case explicit of
                      Some t \<Rightarrow> '': '' @ printType q t
                    | None \<Rightarrow> if TIdent ty \<noteq> [] \<and> TIdent ty \<noteq> TypeImplicit then '': '' @ printType q ty else []))
      | _ \<Rightarrow> printExpr q c lv)"

definition explicit_type :: "TypeNode option list \<Rightarrow> nat \<Rightarrow> TypeNode option" where
  "explicit_type ts i = (if i < length ts then ts ! i else None)"

definition printAssignment :: "quoting \<Rightarrow> Config \<Rightarrow> AssignmentNode \<Rightarrow> printed" where
  "printAssignment q c a =
     (let typed = length (LValues a) = 1 \<and> explicit_type (ExplicitTypes a) 0 \<noteq> None
      in and_then (all_ok (map (\<lambda>i. target_text q c (explicit_type (ExplicitTypes a) i) (LValues a ! i)) [0..<length (LValues a)]))
        (\<lambda>parts. let lhs = join_strings '', '' parts in
           if IsShort a then map_ok (\<lambda>rhs. lhs @ '' := '' @ rhs) (printExprList q c (RValues a))
           else if RValues a = [] then Inr (if typed then ''var '' @ lhs else lhs)
           else map_ok (\<lambda>rhs.
             (case CompoundOp a of
                Some op \<Rightarrow> lhs @ '' '' @ CompoundAssignOperatorString op @ '' '' @ rhs
              | None \<Rightarrow> (if typed then ''var '' else []) @ lhs @ '' = '' @ rhs)) (printExprList q c (RValues a))))"

definition printReturn :: "quoting \<Rightarrow> Config \<Rightarrow> ExpressionNode list \<Rightarrow> printed" where
  "printReturn q c vs = (if vs = [] then Inr ''return'' else map_ok (\<lambda>s. ''return '' @ s) (printExprList q c (map Some vs)))"

definition printUse :: "quoting \<Rightarrow> Identifier option \<Rightarrow> TypeNode \<Rightarrow> go_string" where
  "printUse q ident ty = ''use '' @ (case ident of Some x \<Rightarrow> x @ '': '' | None \<Rightarrow> []) @ printType q ty"

text \<open>The condition of an ensure statement: the subject and what it is tested for.\<close>

definition ensure_subject :: "quoting \<Rightarrow> Config \<Rightarrow> EnsureNode \<Rightarrow> printed" where
  "ensure_subject q c e = (case ESubject e of Some s \<Rightarrow> printExpr q c s | None \<Rightarrow> Inr (EVariable e))"

definition continuation :: "Config \<Rightarrow> nat \<Rightarrow> go_string" where
  "continuation c depth = [linefeed] @ indentation c depth @ ''    ''"

definition ensure_condition :: "quoting \<Rightarrow> Config \<Rightarrow> nat \<Rightarrow> EnsureNode \<Rightarrow> go_string \<Rightarrow> go_string" where
  "ensure_condition q c depth e v =
     (let a = EAssertion e in
      if v = [] then []
      else case EImplicit e of
             EnsureImplicitBang \<Rightarrow> ''ensure !'' @ v
           | EnsureImplicitBare \<Rightarrow> ''ensure '' @ v
           | EnsureImplicitNone \<Rightarrow>
             if map CName (Constraints a) = [''Nil''] \<and> BaseType a = Some TypeError then ''ensure !'' @ v
             else if OrChains a \<noteq> [] then
               ''ensure '' @ v @ continuation c depth @ ''is '' @ formatAssertionMeet q c a @
               concat (map (\<lambda>alt. continuation c depth @ ''or '' @ formatAssertionMeet q c alt) (OrChains a))
             else ''ensure '' @ v @ '' is '' @
               (case ETarget e of Some (TypeTarget name) \<Rightarrow> name | _ \<Rightarrow> formatAssertion q c a))"

definition ensure_else :: "quoting \<Rightarrow> Config \<Rightarrow> nat \<Rightarrow> EnsureErrorNode option \<Rightarrow> printed" where
  "ensure_else q c depth err =
     (case err of
        None \<Rightarrow> Inr []
      | Some x \<Rightarrow>
        map_ok (\<lambda>s. continuation c depth @ ''else '' @ s)
          (case x of
             EnsureErrorCall ty args \<Rightarrow> map_ok (\<lambda>as. ty @ ''('' @ as @ '')'') (comma_list (map (printExpr q c) args))
           | EnsureErrorVar v \<Rightarrow> Inr v
           | EnsureErrorExpr e \<Rightarrow> print_optional q c e))"

definition ensure_block :: "Config \<Rightarrow> nat \<Rightarrow> EnsureNode \<Rightarrow> printed option \<Rightarrow> printed" where
  "ensure_block c depth e body =
     (case body of
        None \<Rightarrow> Inr []
      | Some b \<Rightarrow>
        map_ok (\<lambda>txt. if OrChains (EAssertion e) \<noteq> []
            then continuation c depth @ ''else {'' @ [linefeed] @ txt @ indentation c depth @ ''    }''
            else '' else {'' @ [linefeed] @ txt @ indentation c depth @ ''}'') b)"

text \<open>The heads of with and for statements; \<open>init\<close> and \<open>post\<close> are the texts of the statements, if there are any.\<close>

definition with_head :: "quoting \<Rightarrow> Config \<Rightarrow> nat \<Rightarrow> ExpressionNode \<Rightarrow> printed" where
  "with_head q c depth wiring =
     map_ok (\<lambda>w. ''with '' @ w @ '' {'' @ [linefeed])
       (case wiring of
          ShapeExpr s \<Rightarrow>
            and_then (printShapeOneLine q c s) (\<lambda>oneLine.
              if int (length (''with '' @ oneLine @ '' {'')) \<le> effectiveTypeDefLineWidth c then Inr oneLine
              else printShapeMultiline q c s (depth + 1))
        | _ \<Rightarrow> printExpr q c wiring)"

definition range_head :: "quoting \<Rightarrow> Config \<Rightarrow> ForNode \<Rightarrow> printed" where
  "range_head q c n =
     map_ok (\<lambda>rx. ''for '' @
       (case RangeKey n of
          Some k \<Rightarrow> k @ (case RangeValue n of Some v \<Rightarrow> '', '' @ v | None \<Rightarrow> []) @ (if RangeShort n then '' := '' else '' = '')
        | None \<Rightarrow> []) @ ''range '' @ rx) (print_optional q c (RangeX n))"

definition clause_head :: "quoting \<Rightarrow> Config \<Rightarrow> ForNode \<Rightarrow> printed option \<Rightarrow> printed option \<Rightarrow> printed" where
  "clause_head q c n init post =
     (let cond = (case ForCond n of Some e \<Rightarrow> printExpr q c e | None \<Rightarrow> Inr []);
          text_of = (\<lambda>r. case r of Some s \<Rightarrow> s | None \<Rightarrow> Inr [])
      in map_ok (\<lambda>s. ''for '' @ s)
        (if init \<noteq> None \<or> post \<noteq> None then
           and_then (text_of init) (\<lambda>i. and_then cond (\<lambda>cd. map_ok (\<lambda>p. i @ ''; '' @ cd @ ''; '' @ p) (text_of post)))
         else cond))"

definition braces :: "Config \<Rightarrow> nat \<Rightarrow> printed \<Rightarrow> printed \<Rightarrow> printed" where
  "braces c depth head body =
     and_then head (\<lambda>h. map_ok (\<lambda>b. h @ '' {'' @ [linefeed] @ b @ indentation c depth @ ''}'') body)"

definition optional_label :: "go_string \<Rightarrow> Identifier option \<Rightarrow> go_string" where
  "optional_label word label = word @ (case label of Some l \<Rightarrow> '' '' @ l | None \<Rightarrow> [])"

text \<open>One line of a block: comments, returns and assignments are indented line by line, other statements have
  laid out their own lines.\<close>

definition block_line :: "Config \<Rightarrow> nat \<Rightarrow> Node \<Rightarrow> go_string \<Rightarrow> go_string" where
  "block_line c depth node line =
     (if linefeed \<in> set line \<and> (case node of CommentNode _ \<Rightarrow> False | ReturnNode _ _ \<Rightarrow> False | AssignStmt _ \<Rightarrow> False | _ \<Rightarrow> True)
      then prefixFirstLineOnly c depth line else prefixEachLine (indentation c depth) line) @ [linefeed]"

text \<open>The dynamic type of a statement, as \<open>%T\<close> writes it.\<close>

definition node_type_name :: "Node \<Rightarrow> go_string" where
  "node_type_name n =
     (case n of
        CommentNode _ \<Rightarrow> ''ast.CommentNode''
      | EnsureStmt _ \<Rightarrow> ''ast.EnsureNode''
      | IfStmt _ \<Rightarrow> ''*ast.IfNode''
      | ExprStmt e \<Rightarrow> expression_type_name e
      | AssignStmt _ \<Rightarrow> ''ast.AssignmentNode''
      | ReturnNode _ _ \<Rightarrow> ''ast.ReturnNode''
      | UseNode _ _ \<Rightarrow> ''ast.UseNode''
      | WithNode _ _ \<Rightarrow> ''ast.WithNode''
      | GotoNode _ \<Rightarrow> ''*ast.GotoNode''
      | LabeledStmtNode _ _ \<Rightarrow> ''*ast.LabeledStmtNode''
      | ForStmt _ \<Rightarrow> ''*ast.ForNode''
      | SwitchNode _ _ _ \<Rightarrow> ''*ast.SwitchNode''
      | FallthroughNode \<Rightarrow> ''ast.FallthroughNode''
      | BreakNode _ \<Rightarrow> ''*ast.BreakNode''
      | ContinueNode _ \<Rightarrow> ''*ast.ContinueNode''
      | DeferNode _ \<Rightarrow> ''*ast.DeferNode''
      | GoStmtNode _ \<Rightarrow> ''*ast.GoStmtNode'')"

definition printExprFromNode :: "quoting \<Rightarrow> Config \<Rightarrow> Node \<Rightarrow> printed" where
  "printExprFromNode q c n =
     (case n of ExprStmt e \<Rightarrow> printExpr q c e | _ \<Rightarrow> Inl (''printer: expected expression, got '' @ node_type_name n))"

function printBlock :: "quoting \<Rightarrow> Config \<Rightarrow> nat \<Rightarrow> Node list \<Rightarrow> printed"
  and printStmt :: "quoting \<Rightarrow> Config \<Rightarrow> nat \<Rightarrow> Node \<Rightarrow> printed"
  and printEnsure :: "quoting \<Rightarrow> Config \<Rightarrow> nat \<Rightarrow> EnsureNode \<Rightarrow> printed"
  and printIf :: "quoting \<Rightarrow> Config \<Rightarrow> nat \<Rightarrow> IfNode \<Rightarrow> printed"
  and printFor :: "quoting \<Rightarrow> Config \<Rightarrow> nat \<Rightarrow> ForNode \<Rightarrow> printed" where
  "printBlock q c depth nodes =
     map_ok concat (all_ok (map (\<lambda>node. map_ok (block_line c depth node) (printStmt q c depth node)) nodes))"
| "printStmt q c depth node =
     (case node of
        CommentNode s \<Rightarrow> Inr (formatIndentedComment s)
      | AssignStmt a \<Rightarrow> printAssignment q c a
      | ReturnNode vs ty \<Rightarrow> printReturn q c vs
      | EnsureStmt e \<Rightarrow> printEnsure q c depth e
      | UseNode ident ty \<Rightarrow> Inr (printUse q ident ty)
      | WithNode wiring body \<Rightarrow>
          and_then (with_head q c depth wiring) (\<lambda>h.
            map_ok (\<lambda>b. h @ b @ indentation c depth @ ''}'') (printBlock q c (Suc depth) body))
      | IfStmt n \<Rightarrow> printIf q c depth n
      | ForStmt n \<Rightarrow> printFor q c depth n
      | BreakNode l \<Rightarrow> Inr (optional_label ''break'' l)
      | ContinueNode l \<Rightarrow> Inr (optional_label ''continue'' l)
      | GotoNode l \<Rightarrow> Inr (''goto '' @ l)
      | LabeledStmtNode l s \<Rightarrow> map_ok (\<lambda>inner. l @ '':'' @ [linefeed] @ indentation c depth @ inner) (printStmt q c depth s)
      | DeferNode e \<Rightarrow> map_ok (\<lambda>s. ''defer '' @ s) (printExpr q c e)
      | GoStmtNode e \<Rightarrow> map_ok (\<lambda>s. ''go '' @ s) (printExpr q c e)
      | ExprStmt e \<Rightarrow> printExpr q c e
      | _ \<Rightarrow> Inl (''printer: unsupported statement '' @ node_type_name node))"
| "printEnsure q c depth (EnsureNode var subj target asrt impl err block) =
     (let e = EnsureNode var subj target asrt impl err block in
      and_then (ensure_subject q c e) (\<lambda>v.
        and_then (ensure_else q c depth err) (\<lambda>els.
          map_ok (\<lambda>blk. ensure_condition q c depth e v @ els @ blk)
            (ensure_block c depth e
               (case block of Some body \<Rightarrow> if body \<noteq> [] then Some (printBlock q c (Suc depth) body) else None | None \<Rightarrow> None)))))"
| "printIf q c depth (IfNode cond body elseIfs els init) =
     and_then (case init of Some s \<Rightarrow> map_ok (\<lambda>t. t @ ''; '') (printStmt q c depth s) | None \<Rightarrow> Inr []) (\<lambda>i.
       and_then (braces c depth (map_ok (\<lambda>s. ''if '' @ i @ s) (printExprFromNode q c cond)) (printBlock q c (Suc depth) body)) (\<lambda>thn.
         and_then (all_ok (map (\<lambda>(ec, eb). braces c depth (map_ok (\<lambda>s. '' else if '' @ s) (printExprFromNode q c ec))
                                             (printBlock q c (Suc depth) eb)) elseIfs)) (\<lambda>eis.
           map_ok (\<lambda>e. thn @ concat eis @ e)
             (case els of Some eb \<Rightarrow> braces c depth (Inr '' else'') (printBlock q c (Suc depth) eb) | None \<Rightarrow> Inr []))))"
| "printFor q c depth (ForNode label init cond post isRange rx rk rv rs body) =
     (let n = ForNode label init cond post isRange rx rk rv rs body;
          lab = (case label of Some l \<Rightarrow> l @ '': '' | None \<Rightarrow> []);
          head = (if isRange then range_head q c n
                  else clause_head q c n (case init of Some s \<Rightarrow> Some (printStmt q c depth s) | None \<Rightarrow> None)
                         (case post of Some s \<Rightarrow> Some (printStmt q c depth s) | None \<Rightarrow> None))
      in braces c depth (map_ok (\<lambda>h. lab @ h) head) (printBlock q c (Suc depth) body))"
  by pat_completeness auto
termination
  by (relation "measure (case_sum (case_sum (\<lambda>(q,c,d,ns). 2 * size_list size ns) (\<lambda>(q,c,d,n). 2 * size n + 1))
        (case_sum (\<lambda>(q,c,d,e). 2 * size e + 1) (case_sum (\<lambda>(q,c,d,n). 2 * size n + 1) (\<lambda>(q,c,d,n). 2 * size n + 1))))")
    (auto dest!: member_size [where 'a = Node] else_if_size)

section \<open>Type definitions\<close>

definition printTypeDefAssertion :: "quoting \<Rightarrow> Config \<Rightarrow> AssertionNode \<Rightarrow> printed" where
  "printTypeDefAssertion q c a =
     (case (if OrChains a = [] then parsed_value a else None) of
        Some e \<Rightarrow> printExpr q c e
      | None \<Rightarrow> Inr (formatAssertion q c a))"

fun printTypeDefExpr :: "quoting \<Rightarrow> Config \<Rightarrow> TypeDefExpr \<Rightarrow> printed" where
  "printTypeDefExpr q c (TypeDefAssertionExpr a) =
     (case a of None \<Rightarrow> Inl ''printer: empty type def assertion'' | Some a \<Rightarrow> printTypeDefAssertion q c a)"
| "printTypeDefExpr q c (TypeDefBinaryExpr l op r) =
     and_then (printTypeDefExpr q c l) (\<lambda>left. map_ok (\<lambda>right.
       left @ '' '' @ (if op = TokenBitwiseOr then ''|'' else ''&'') @ '' '' @ right) (printTypeDefExpr q c r))"
| "printTypeDefExpr q c (TypeDefShapeExpr s) = printShape q c s"
| "printTypeDefExpr q c (TypeDefErrorExpr s) = map_ok (\<lambda>b. ''error '' @ b) (printShape q c s)"

fun flattenTypeDefSameOp :: "TypeDefExpr \<Rightarrow> TokenIdent \<Rightarrow> TypeDefExpr list" where
  "flattenTypeDefSameOp (TypeDefBinaryExpr l o' r) op =
     (if o' \<noteq> op then [TypeDefBinaryExpr l o' r] else flattenTypeDefSameOp l op @ flattenTypeDefSameOp r op)"
| "flattenTypeDefSameOp e op = [e]"

definition flattenTypeDefSameOpChain :: "TypeDefExpr \<Rightarrow> TokenIdent \<times> TypeDefExpr list" where
  "flattenTypeDefSameOpChain e =
     (case e of
        TypeDefBinaryExpr l op r \<Rightarrow>
          if op \<noteq> TokenBitwiseOr \<and> op \<noteq> TokenBitwiseAnd then ([], [])
          else let members = flattenTypeDefSameOp e op in if length members < 2 then ([], []) else (op, members)
      | _ \<Rightarrow> ([], []))"

definition printTypeDefExprLeadingOps :: "quoting \<Rightarrow> Config \<Rightarrow> TokenIdent \<Rightarrow> TypeDefExpr list \<Rightarrow> printed" where
  "printTypeDefExprLeadingOps q c op members =
     map_ok (\<lambda>ss. join_strings [linefeed] (map (\<lambda>s. (if op = TokenBitwiseAnd then ''&'' else ''|'') @ '' '' @ s) ss))
       (all_ok (map (printTypeDefExpr q c) members))"

definition maybeMultilineTypeDefAlias :: "quoting \<Rightarrow> Config \<Rightarrow> go_string \<Rightarrow> TypeDefExpr \<Rightarrow> go_string \<Rightarrow> go_string + go_string option" where
  "maybeMultilineTypeDefAlias q c name e singleLine =
     (case flattenTypeDefSameOpChain e of (op, members) \<Rightarrow>
        if length members < 2 then Inr None
        else if length members = 2 \<and> int (length singleLine) \<le> effectiveTypeDefLineWidth c then Inr None
        else map_ok (\<lambda>body. Some (''type '' @ name @ '' ='' @ [linefeed] @ prefixEachLine (Indent c) body))
               (printTypeDefExprLeadingOps q c op members))"

definition printTypeDef :: "quoting \<Rightarrow> Config \<Rightarrow> TypeIdent \<Rightarrow> TypeDefExpr \<Rightarrow> printed" where
  "printTypeDef q c name e =
     (case e of
        TypeDefErrorExpr payload \<Rightarrow> map_ok (\<lambda>body. ''error '' @ name @ '' '' @ body) (printShape q c payload)
      | _ \<Rightarrow>
        and_then (printTypeDefExpr q c e) (\<lambda>expr.
          let single = ''type '' @ name @ '' = '' @ expr in
          map_ok (\<lambda>r. case r of Some body \<Rightarrow> body | None \<Rightarrow> single) (maybeMultilineTypeDefAlias q c name e single)))"

section \<open>Declarations and files\<close>

definition quoted :: "go_string \<Rightarrow> go_string" where
  "quoted s = [CHR 0x22] @ s @ [CHR 0x22]"

definition import_spec :: "ImportNode \<Rightarrow> go_string" where
  "import_spec i =
     (let alias = (case ImportAlias i of Some a \<Rightarrow> a @ '' '' | None \<Rightarrow> []) in
      if BridgeOptIn i \<and> BridgeOptInSource i = ''import_js'' then alias @ quoted (ImportPath i) @ '' js''
      else if SideEffectOnly i then ''_ '' @ quoted (ImportPath i)
      else alias @ quoted (ImportPath i))"

definition printImport :: "ImportNode \<Rightarrow> go_string" where
  "printImport i = ''import '' @ import_spec i"

definition printImportGroup :: "Config \<Rightarrow> ImportNode list \<Rightarrow> go_string" where
  "printImportGroup c is =
     ''import ('' @ [linefeed] @ concat (map (\<lambda>i. indentation c 1 @ import_spec i @ [linefeed]) is) @ '')'' @ [linefeed]"

definition receiver_text :: "quoting \<Rightarrow> ParamNode option \<Rightarrow> go_string" where
  "receiver_text q r =
     (case r of
        Some (SimpleParamNode ident ty variadic) \<Rightarrow> ''('' @ (if ident \<noteq> [] then ident @ '' '' else []) @ printType q ty @ '') ''
      | _ \<Rightarrow> [])"

definition type_params_text :: "quoting \<Rightarrow> TypeParamDecl list \<Rightarrow> go_string" where
  "type_params_text q tps =
     (if tps = [] then []
      else ''['' @ join_strings '', '' (map (\<lambda>tp. TypeParamName tp @
        (case TypeParamConstraint tp of Some t \<Rightarrow> '' '' @ printType q t | None \<Rightarrow> [])) tps) @ '']'')"

definition printFunction :: "quoting \<Rightarrow> Config \<Rightarrow> FunctionNode \<Rightarrow> printed" where
  "printFunction q c fn =
     map_ok (\<lambda>body.
       ''func '' @ receiver_text q (Receiver fn) @ FunctionIdent fn @ type_params_text q (FunctionTypeParams fn) @
       ''('' @ join_strings '', '' (map (printParam q) (FunctionParams fn)) @ '')'' @
       (if FunctionReturnTypes fn \<noteq> [] then '': '' @ join_strings '', '' (map (printType q) (FunctionReturnTypes fn)) else []) @
       '' {'' @ [linefeed] @ body @ ''}'') (printBlock q c 1 (FunctionBody fn))"

definition printTypeGuard :: "quoting \<Rightarrow> Config \<Rightarrow> TypeGuardNode \<Rightarrow> printed" where
  "printTypeGuard q c g =
     map_ok (\<lambda>body.
       ''is ('' @ join_strings '', '' (map (printParam q) (GuardSubject g # GuardParams g)) @ '') '' @ GuardIdent g @
       '' {'' @ [linefeed] @ body @ ''}'') (printBlock q c 1 (GuardBody g))"

definition printTopLevel :: "quoting \<Rightarrow> Config \<Rightarrow> Decl \<Rightarrow> printed" where
  "printTopLevel q c d =
     (case d of
        PackageNode p \<Rightarrow> Inr (''package '' @ p)
      | ImportDecl i \<Rightarrow> Inr (printImport i)
      | ImportGroupNode is \<Rightarrow> Inr (printImportGroup c is)
      | TypeDefNode name e \<Rightarrow> printTypeDef q c name e
      | FunctionDecl fn \<Rightarrow> printFunction q c fn
      | TypeGuardDecl g \<Rightarrow> printTypeGuard q c g
      | CommentDecl s \<Rightarrow> Inr s
      | VarDecl _ \<Rightarrow> Inl ''printer: unsupported top-level node ast.AssignmentNode''
      | ConstGroupNode _ \<Rightarrow> Inl ''printer: unsupported top-level node ast.ConstGroupNode'')"

definition is_comment :: "Decl \<Rightarrow> bool" where
  "is_comment d = (case d of CommentDecl _ \<Rightarrow> True | _ \<Rightarrow> False)"

definition topLevelSeparator :: "Decl \<Rightarrow> Decl \<Rightarrow> go_string" where
  "topLevelSeparator prev nxt = (if is_comment prev then [linefeed] else [linefeed, linefeed])"

definition final_newline :: "go_string \<Rightarrow> go_string" where
  "final_newline out = (if out \<noteq> [] \<and> last out \<noteq> linefeed then out @ [linefeed] else out)"

fun print_decls :: "quoting \<Rightarrow> Config \<Rightarrow> Decl option \<Rightarrow> Decl list \<Rightarrow> printed" where
  "print_decls q c prev [] = Inr []"
| "print_decls q c prev (d # ds) =
     and_then (printTopLevel q c d) (\<lambda>s. map_ok (\<lambda>rest.
       (case prev of Some p \<Rightarrow> topLevelSeparator p d | None \<Rightarrow> []) @ s @ rest) (print_decls q c (Some d) ds))"

definition printFile :: "quoting \<Rightarrow> Config \<Rightarrow> Decl list \<Rightarrow> printed" where
  "printFile q c ds = map_ok final_newline (print_decls q c None ds)"

definition with_indent :: "Config \<Rightarrow> Config" where
  "with_indent c = (if Indent c = [] then c\<lparr>Indent := [CHR 0x09]\<rparr> else c)"

definition Print :: "quoting \<Rightarrow> Config \<Rightarrow> Decl list \<Rightarrow> printed" where
  "Print q c ds = printFile q (with_indent c) ds"

definition FormatTypeDefNode :: "quoting \<Rightarrow> Config \<Rightarrow> TypeIdent \<Rightarrow> TypeDefExpr \<Rightarrow> printed" where
  "FormatTypeDefNode q c name e = printTypeDef q (with_indent c) name e"

definition FormatTypeGuardNode :: "quoting \<Rightarrow> Config \<Rightarrow> TypeGuardNode \<Rightarrow> printed" where
  "FormatTypeGuardNode q c g = printTypeGuard q (with_indent c) g"

section \<open>White space (whitespace.go)\<close>

text \<open>\<open>r\<close> lies between \<open>lo\<close> and \<open>hi\<close>.\<close>

definition byte_in :: "char \<Rightarrow> nat \<Rightarrow> nat \<Rightarrow> bool" where
  "byte_in ch lo hi \<longleftrightarrow> lo \<le> of_char ch \<and> of_char ch \<le> hi"

definition continues :: "char list \<Rightarrow> nat \<Rightarrow> bool" where
  "continues s n \<longleftrightarrow> n \<le> length s \<and> list_all (\<lambda>ch. byte_in ch 128 191) (take n s)"

text \<open>The width in bytes of the first rune, as the range loop over a string decodes it: an invalid byte is a rune of its
  own.\<close>

fun rune_width :: "go_string \<Rightarrow> nat" where
  "rune_width [] = 0"
| "rune_width (a # rest) =
     (let second = (\<lambda>lo hi. case rest of b # _ \<Rightarrow> byte_in b lo hi | [] \<Rightarrow> False) in
      if byte_in a 194 223 \<and> continues rest 1 then 2
      else if continues rest 2 \<and>
        (byte_in a 224 224 \<and> second 160 191 \<or> byte_in a 225 236 \<or> byte_in a 237 237 \<and> second 128 159 \<or> byte_in a 238 239) then 3
      else if continues rest 3 \<and>
        (byte_in a 240 240 \<and> second 144 191 \<or> byte_in a 241 243 \<or> byte_in a 244 244 \<and> second 128 143) then 4
      else 1)"

lemma rune_width_pos: "s \<noteq> [] \<Longrightarrow> 0 < rune_width s"
  by (cases s) (auto simp: Let_def)

text \<open>The runes above \<open>0xFFFF\<close> are those of four bytes.\<close>

function UTF16Len :: "go_string \<Rightarrow> nat" where
  "UTF16Len s = (if s = [] then 0 else (if rune_width s = 4 then 2 else 1) + UTF16Len (drop (rune_width s) s))"
  by pat_completeness auto
termination
  by (relation "measure length") (auto simp: rune_width_pos)

declare UTF16Len.simps [simp del]

record LSPCharPos =
  LspLine :: nat
  Character :: nat

abbreviation carriage_return :: char where "carriage_return \<equiv> CHR 0x0D"

text \<open>CRLF and then CR become LF.\<close>

fun replace_crlf :: "go_string \<Rightarrow> go_string" where
  "replace_crlf (a # b # s) =
     (if a = carriage_return \<and> b = linefeed then linefeed # replace_crlf s else a # replace_crlf (b # s))"
| "replace_crlf s = s"

definition normalize_newlines :: "go_string \<Rightarrow> go_string" where
  "normalize_newlines s = map (\<lambda>ch. if ch = carriage_return then linefeed else ch) (replace_crlf s)"

definition EndPositionExclusive :: "go_string \<Rightarrow> LSPCharPos" where
  "EndPositionExclusive src =
     (if src = [] then \<lparr>LspLine = 0, Character = 0\<rparr>
      else let norm = normalize_newlines src in
           \<lparr>LspLine = length (filter (\<lambda>ch. ch = linefeed) norm),
            Character = UTF16Len (rev (takeWhile (\<lambda>ch. ch \<noteq> linefeed) (rev norm)))\<rparr>)"

definition tab_width :: "int \<Rightarrow> nat" where
  "tab_width tabSize = nat (if tabSize \<le> 0 then 4 else tabSize)"

abbreviation tab :: char where "tab \<equiv> CHR 0x09"

definition expandLeadingTabs :: "go_string \<Rightarrow> int \<Rightarrow> go_string" where
  "expandLeadingTabs line tabSize =
     (let tabs = takeWhile (\<lambda>ch. ch = tab) line
      in concat (map (\<lambda>_. replicate (tab_width tabSize) (CHR '' '')) tabs) @ drop (length tabs) line)"

definition trim_line :: "go_string \<Rightarrow> go_string" where
  "trim_line line = rev (dropWhile (\<lambda>ch. ch = CHR '' '' \<or> ch = tab) (rev line))"

definition FormatForstWhitespace :: "go_string \<Rightarrow> int \<Rightarrow> bool \<Rightarrow> go_string" where
  "FormatForstWhitespace src tabSize insertSpaces =
     final_newline (join_strings [linefeed]
       (map (\<lambda>line. let line = trim_line line in if insertSpaces then expandLeadingTabs line tabSize else line)
         (split_on linefeed (normalize_newlines src))))"

end
