(* ===== verification/Parser_Base.thy ===== *)
theory Parser_Base
  imports Statements
begin

text \<open>
  \<open>internal/parser/parser.go\<close>, \<open>utils.go\<close>, and what the parser uses of \<open>strconv\<close>: the state of the
  recursive descent parser, its errors, the few operations everything is built from, and integer
  literals; \<open>scope.go\<close>, \<open>scope_stack.go\<close> and \<open>context.go\<close>: what the parser knows about the declaration it
  is in. The parser stops by a Go panic that is caught at the top; a panic is \<open>Inl\<close>. Spans and the
  layout of error reports are left out, so an error carries the offending token and the code or the
  message of the report.
\<close>

section \<open>State and errors (parser.go, scope.go, scope\_stack.go, context.go)\<close>

record ParserScope =
  ScopeVariables :: "go_string \<rightharpoonup> TypeNode"
  FunctionName :: go_string
  InTypeGuard :: bool
  IsGlobal :: bool

text \<open>The scopes are a stack with the current one first; \<open>Package\<close> is the package clause read so far.\<close>

record Parser =
  ptokens :: "Token list"
  currentIndex :: nat
  Package :: "Identifier option"
  parserScopes :: "ParserScope list"

datatype parse_error =
    ExpectedToken TokenIdent Token
  | ParseFailure Token go_string
  | FatalLog Token go_string
  | IndexOutOfRange
  | OutOfFuel

type_synonym 'a parser = "Parser \<Rightarrow> parse_error + 'a \<times> Parser"

definition NewScope :: "go_string \<Rightarrow> bool \<Rightarrow> bool \<Rightarrow> ParserScope" where
  "NewScope functionName isGlobal isTypeGuard =
     \<lparr>ScopeVariables = Map.empty, FunctionName = functionName, InTypeGuard = isTypeGuard, IsGlobal = isGlobal\<rparr>"

definition NewScopeStack :: "ParserScope list" where
  "NewScopeStack = [NewScope [] True False]"

definition New_Parser :: "Token list \<Rightarrow> Parser" where
  "New_Parser ts = \<lparr>ptokens = ts, currentIndex = 0, Package = None, parserScopes = NewScopeStack\<rparr>"

definition eof_token :: Token where
  "eof_token = \<lparr>Type = TokenEOF, Value = [], FileID = [], Line = 0, Column = 0\<rparr>"

definition peek :: "nat \<Rightarrow> Parser \<Rightarrow> Token" where
  "peek offset p =
     (if currentIndex p + offset < length (ptokens p) then ptokens p ! (currentIndex p + offset) else eof_token)"

definition current_token :: "Parser \<Rightarrow> Token" where
  "current_token p = (if currentIndex p < length (ptokens p) then ptokens p ! currentIndex p else eof_token)"

definition advance :: "Parser \<Rightarrow> Parser" where
  "advance p = p\<lparr>currentIndex := currentIndex p + 1\<rparr>"

abbreviation tok :: "Parser \<Rightarrow> TokenIdent" where
  "tok p \<equiv> Type (current_token p)"

definition CurrentScope :: "Parser \<Rightarrow> ParserScope" where
  "CurrentScope p = hd (parserScopes p)"

definition GlobalScope :: "Parser \<Rightarrow> ParserScope" where
  "GlobalScope p = last (parserScopes p)"

definition IsTypeGuard :: "Parser \<Rightarrow> bool" where
  "IsTypeGuard p = InTypeGuard (CurrentScope p)"

definition IsMainFunction :: "Parser \<Rightarrow> bool" where
  "IsMainFunction p =
     (if Package p \<noteq> Some ''main'' then False else FunctionName (CurrentScope p) = ''main'')"

definition set_current_scope :: "(ParserScope \<Rightarrow> ParserScope) \<Rightarrow> Parser \<Rightarrow> Parser" where
  "set_current_scope f p = p\<lparr>parserScopes := f (CurrentScope p) # tl (parserScopes p)\<rparr>"

definition DefineVariable :: "go_string \<Rightarrow> TypeNode \<Rightarrow> ParserScope \<Rightarrow> ParserScope" where
  "DefineVariable name typeNode s = s\<lparr>ScopeVariables := (ScopeVariables s)(name \<mapsto> typeNode)\<rparr>"

section \<open>Combinators\<close>

definition ret :: "'a \<Rightarrow> 'a parser" where
  "ret x p = Inr (x, p)"

definition fail_with :: "parse_error \<Rightarrow> 'a parser" where
  "fail_with e p = Inl e"

definition bindp :: "'a parser \<Rightarrow> ('a \<Rightarrow> 'b parser) \<Rightarrow> 'b parser" where
  "bindp m f p = (case m p of Inl e \<Rightarrow> Inl e | Inr (x, p') \<Rightarrow> f x p')"

text \<open>Reading the state: a value of it selects how to go on.\<close>

definition look :: "(Parser \<Rightarrow> 'b) \<Rightarrow> ('b \<Rightarrow> 'a parser) \<Rightarrow> 'a parser" where
  "look g f p = f (g p) p"

text \<open>A change of the state that cannot fail.\<close>

definition change :: "(Parser \<Rightarrow> Parser) \<Rightarrow> unit parser" where
  "change f p = Inr ((), f p)"

definition PushScope :: "ParserScope \<Rightarrow> unit parser" where
  "PushScope s = look current_token (\<lambda>t.
     if IsGlobal s then fail_with (FatalLog t ''Cannot push global scope'')
     else change (\<lambda>p. p\<lparr>parserScopes := s # parserScopes p\<rparr>))"

definition PopScope :: "unit parser" where
  "PopScope = look (\<lambda>p. (IsGlobal (CurrentScope p), current_token p)) (\<lambda>(global, t).
     if global then fail_with (FatalLog t ''Cannot pop global scope'')
     else change (\<lambda>p. p\<lparr>parserScopes := tl (parserScopes p)\<rparr>))"

text \<open>\<open>tok := p.current(); p.advance()\<close>.\<close>

definition next_token :: "Token parser" where
  "next_token p = Inr (current_token p, advance p)"

definition expect :: "TokenIdent \<Rightarrow> Token parser" where
  "expect ty = look current_token (\<lambda>t. if Type t \<noteq> ty then fail_with (ExpectedToken ty t) else next_token)"

text \<open>\<open>p.tokens[p.currentIndex-1]\<close>, which Go checks.\<close>

definition prev_token :: "Token parser" where
  "prev_token p =
     (if currentIndex p \<ge> 1 \<and> currentIndex p - 1 < length (ptokens p)
      then Inr (ptokens p ! (currentIndex p - 1), p) else Inl IndexOutOfRange)"

definition skip_if :: "TokenIdent \<Rightarrow> unit parser" where
  "skip_if ty = look tok (\<lambda>t. if t = ty then bindp next_token (\<lambda>_. ret ()) else ret ())"

text \<open>
  A loop \<open>for !stop { body }\<close> that carries a value. Every round of every loop of the parser consumes
  a token, so one round more than there are tokens left is enough; the theory of the properties
  proves that the loop never runs out.
\<close>

definition remaining :: "Parser \<Rightarrow> nat" where
  "remaining p = length (ptokens p) - currentIndex p"

fun loop :: "nat \<Rightarrow> ('s \<Rightarrow> Parser \<Rightarrow> bool) \<Rightarrow> ('s \<Rightarrow> 's parser) \<Rightarrow> 's \<Rightarrow> 's parser" where
  "loop 0 stop body s p = Inl OutOfFuel"
| "loop (Suc n) stop body s p =
     (if stop s p then Inr (s, p)
      else case body s p of Inl e \<Rightarrow> Inl e | Inr (s', p') \<Rightarrow> loop n stop body s' p')"

definition loop_until :: "('s \<Rightarrow> Parser \<Rightarrow> bool) \<Rightarrow> ('s \<Rightarrow> 's parser) \<Rightarrow> 's \<Rightarrow> 's parser" where
  "loop_until stop body s p = loop (Suc (remaining p)) stop body s p"

text \<open>\<open>for current != close { item; skip an optional comma }\<close>.\<close>

definition items_until :: "TokenIdent \<Rightarrow> 'a parser \<Rightarrow> 'a list parser" where
  "items_until close item =
     loop_until (\<lambda>_ p. tok p = close) (\<lambda>xs. bindp item (\<lambda>x. bindp (skip_if TokenComma) (\<lambda>_. ret (xs @ [x])))) []"

text \<open>\<open>for { item; if current != comma { break }; advance }\<close>.\<close>

definition comma_separated :: "'a parser \<Rightarrow> 'a list parser" where
  "comma_separated item =
     bindp item (\<lambda>x.
       loop_until (\<lambda>_ p. tok p \<noteq> TokenComma) (\<lambda>xs. bindp next_token (\<lambda>_. bindp item (\<lambda>y. ret (xs @ [y])))) [x])"

text \<open>A try that returns false puts the index back; nothing it calls changes the rest of the state.\<close>

definition attempt :: "'a option parser \<Rightarrow> 'a option parser" where
  "attempt m p = (case m p of Inr (None, p') \<Rightarrow> Inr (None, p) | r \<Rightarrow> r)"

section \<open>Names (utils.go)\<close>

text \<open>\<open>unicode.IsUpper\<close> of a byte read as a Latin-1 rune.\<close>

definition upper_byte :: "char \<Rightarrow> bool" where
  "upper_byte c =
     (let n = (of_char c :: nat) in (65 \<le> n \<and> n \<le> 90) \<or> (192 \<le> n \<and> n \<le> 222 \<and> n \<noteq> 215))"

definition isCapitalCase :: "go_string \<Rightarrow> bool" where
  "isCapitalCase v = (case v of [] \<Rightarrow> False | c # _ \<Rightarrow> upper_byte c)"

text \<open>The text after the last dot, or all of it.\<close>

definition after_last_dot :: "go_string \<Rightarrow> go_string" where
  "after_last_dot s = rev (takeWhile (\<lambda>c. c \<noteq> CHR ''.'') (rev s))"

definition isShapeLiteralTypePrefix :: "go_string \<Rightarrow> bool" where
  "isShapeLiteralTypePrefix ident = (if ident = [] then False else isCapitalCase (after_last_dot ident))"

definition looksLikeTypedCompositeOrShapeBody :: "Parser \<Rightarrow> bool" where
  "looksLikeTypedCompositeOrShapeBody p =
     (if tok p \<noteq> TokenLBrace then False
      else let next = Type (peek 1 p) in
        if next = TokenRBrace then True
        else if next \<in> {TokenIdentifier, TokenString, TokenInt, TokenFloat, TokenBool}
        then Type (peek 2 p) = TokenColon else False)"

section \<open>Integer literals\<close>

text \<open>
  \<open>strconv.ParseInt(s, 0, 64)\<close> and \<open>strconv.ParseInt(s, 10, 64)\<close> on text without a sign: base prefixes,
  underscores as digit separators (base 0 only), and the bounds of \<open>int64\<close>.
\<close>

definition lower_byte :: "char \<Rightarrow> nat" where
  "lower_byte c = (let n = of_char c in if 65 \<le> n \<and> n \<le> 90 then n + 32 else n)"

definition digit_value :: "char \<Rightarrow> nat option" where
  "digit_value c =
     (let n = lower_byte c in
      if 48 \<le> n \<and> n \<le> 57 then Some (n - 48)
      else if 97 \<le> n \<and> n \<le> 122 then Some (n - 87) else None)"

fun digits_value :: "nat \<Rightarrow> bool \<Rightarrow> int \<Rightarrow> go_string \<Rightarrow> int option" where
  "digits_value base seps acc [] = Some acc"
| "digits_value base seps acc (c # cs) =
     (if c = CHR ''_'' \<and> seps then digits_value base seps acc cs
      else case digit_value c of
             None \<Rightarrow> None
           | Some d \<Rightarrow> if d \<ge> base then None else digits_value base seps (acc * int base + int d) cs)"

definition base_prefix :: "go_string \<Rightarrow> (nat \<times> go_string) option" where
  "base_prefix s =
     (case s of
        z # k # rest \<Rightarrow>
          if z = CHR ''0'' then
            (let l = lower_byte k in
             if l = of_char (CHR ''b'') then Some (2, rest)
             else if l = of_char (CHR ''o'') then Some (8, rest)
             else if l = of_char (CHR ''x'') then Some (16, rest) else None)
          else None
      | _ \<Rightarrow> None)"

text \<open>\<open>underscoreOK\<close>: \<open>Some True\<close> after a digit, \<open>Some False\<close> after an underscore, \<open>None\<close> otherwise.\<close>

fun underscores_ok :: "bool \<Rightarrow> bool option \<Rightarrow> go_string \<Rightarrow> bool" where
  "underscores_ok hex prev [] \<longleftrightarrow> prev \<noteq> Some False"
| "underscores_ok hex prev (c # cs) =
     (if (48 \<le> (of_char c :: nat) \<and> of_char c \<le> (57 :: nat)) \<or> (hex \<and> 97 \<le> lower_byte c \<and> lower_byte c \<le> 102)
      then underscores_ok hex (Some True) cs
      else if c = CHR ''_'' then (if prev \<noteq> Some True then False else underscores_ok hex (Some False) cs)
      else if prev = Some False then False else underscores_ok hex None cs)"

definition underscoreOK :: "go_string \<Rightarrow> bool" where
  "underscoreOK s =
     (case base_prefix s of
        Some (b, rest) \<Rightarrow> underscores_ok (b = 16) (Some True) rest
      | None \<Rightarrow> underscores_ok False None s)"

definition in_int64 :: "int \<Rightarrow> int option" where
  "in_int64 n = (if n < 2 ^ 63 then Some n else None)"

definition ParseInt :: "nat \<Rightarrow> go_string \<Rightarrow> int option" where
  "ParseInt base s =
     (if s = [] then None
      else if base \<noteq> 0 then Option.bind (digits_value base False 0 s) in_int64
      else
        (let (b, rest) =
               (case base_prefix s of
                  Some (b, rest) \<Rightarrow> if rest = [] then (8, tl s) else (b, rest)
                | None \<Rightarrow> if hd s = CHR ''0'' then (8, tl s) else (10, s))
         in if CHR ''_'' \<in> set rest \<and> \<not> underscoreOK s then None
            else Option.bind (digits_value b True 0 rest) in_int64))"

end
