(* ===== verification/Parser_Expr.thy ===== *)
theory Parser_Expr
  imports Parser_Base AssertionIR
begin

text \<open>
  \<open>internal/parser\<close>: types (\<open>type.go\<close>, \<open>typedef.go\<close>), shapes (\<open>shape.go\<close>), assertions (\<open>assertion.go\<close>),
  parameters and function literals (\<open>function.go\<close>), values and literals (\<open>value.go\<close>, \<open>literal.go\<close>,
  \<open>make_new.go\<close>) and expressions (\<open>expression.go\<close>). The functions call each other recursively without a
  measure that could be seen locally, so they take the recursive calls as fields of a record; the
  theory of declarations ties the knot with fuel. The same record holds the conversions of
  \<open>strconv\<close> on floating point and quoted text, which are parameters of the whole parser.
\<close>

section \<open>Recursive calls\<close>

record parsers =
  ParseFloat :: "go_string \<Rightarrow> go_string option"
  Unquote :: "go_string \<Rightarrow> go_string option"
  UnquoteChar :: "go_string \<Rightarrow> (int \<times> go_string) option"
  rec_expr :: "nat \<Rightarrow> nat \<Rightarrow> ExpressionNode parser"
  rec_unary :: "nat \<Rightarrow> ExpressionNode parser"
  rec_value :: "ExpressionNode parser"
  rec_type :: "bool \<Rightarrow> TypeNode parser"
  rec_shape_literal :: "TypeIdent option \<Rightarrow> bool \<Rightarrow> ShapeNode parser"
  rec_shape_type :: "bool \<Rightarrow> ShapeNode parser"
  rec_composite :: "TypeNode \<Rightarrow> ExpressionNode parser"
  rec_typedef :: "TypeDefExpr parser"
  rec_statement :: "Node list parser"
  rec_block :: "Node list parser"

text \<open>Type nodes and variables with their other fields at Go's zero value.\<close>

definition plain_type :: "TypeIdent \<Rightarrow> TypeNode" where
  "plain_type ident = TypeNode ident None [] [] None [] []"

definition variable :: "Identifier \<Rightarrow> ExpressionNode" where
  "variable x = VariableNode x (plain_type [])"

definition report :: "Token \<Rightarrow> go_string \<Rightarrow> 'a parser" where
  "report t code = fail_with (ParseFailure t code)"

section \<open>Identifiers (value.go, type.go, assertion.go, typedef.go)\<close>

definition selector_token :: "go_string \<Rightarrow> Token \<Rightarrow> Token" where
  "selector_token v t = \<lparr>Type = TokenIdentifier, Value = v, FileID = [], Line = Line t, Column = Column t\<rparr>"

definition parseSelectorName :: "Token parser" where
  "parseSelectorName = look current_token (\<lambda>t.
     if Type t = TokenIdentifier then next_token
     else if Type t = TokenString then bindp next_token (\<lambda>_. ret (selector_token ''String'' t))
     else if Type t = TokenInt then bindp next_token (\<lambda>_. ret (selector_token ''Int'' t))
     else if Type t = TokenFloat then bindp next_token (\<lambda>_. ret (selector_token ''Float'' t))
     else if Type t = TokenBool then bindp next_token (\<lambda>_. ret (selector_token ''Bool'' t))
     else expect TokenIdentifier)"

definition parseIdentifier :: "Identifier parser" where
  "parseIdentifier = bindp next_token (\<lambda>first.
     loop_until (\<lambda>_ p. tok p \<noteq> TokenDot \<or> Type (peek 1 p) = TokenIntLiteral)
       (\<lambda>identifier. bindp next_token (\<lambda>_. bindp parseSelectorName (\<lambda>n. ret (identifier @ ''.'' @ Value n))))
       (Value first))"

definition parseTypeIdent :: "TypeIdent parser" where
  "parseTypeIdent = look current_token (\<lambda>t.
     if Type t \<noteq> TokenIdentifier then fail_with (ParseFailure t ''expected identifier'')
     else bindp next_token (\<lambda>t. ret (Value t)))"

definition isPossibleTypeIdentifier :: "bool \<Rightarrow> Token \<Rightarrow> bool" where
  "isPossibleTypeIdentifier allowLowercaseTypes t =
     (if Type t = TokenIdentifier then allowLowercaseTypes \<or> isCapitalCase (Value t)
      else Type t \<in> {TokenString, TokenInt, TokenFloat, TokenBool, TokenVoid, TokenError, TokenArray, TokenLBracket,
                     TokenMap, TokenChan})"

definition isPossibleConstraintIdentifier :: "Token \<Rightarrow> bool" where
  "isPossibleConstraintIdentifier t = isCapitalCase (Value t)"

definition isBuiltinTypeToken :: "Token \<Rightarrow> bool" where
  "isBuiltinTypeToken t \<longleftrightarrow> Type t \<in> {TokenString, TokenInt, TokenFloat, TokenBool}"

definition builtinTypeIdentFromToken :: "Token \<Rightarrow> TypeIdent option" where
  "builtinTypeIdentFromToken t =
     (if Type t = TokenString then Some TypeString
      else if Type t = TokenInt then Some TypeInt
      else if Type t = TokenFloat then Some TypeFloat
      else if Type t = TokenBool then Some TypeBool else None)"

definition expectCustomTypeIdentifier :: "bool \<Rightarrow> Token parser" where
  "expectCustomTypeIdentifier lower = bindp (expect TokenIdentifier) (\<lambda>t.
     if isPossibleTypeIdentifier lower t then ret t else report t ''typedef-uppercase'')"

definition expectCustomTypeIdentifierOrPackageName :: "bool \<Rightarrow> Token parser" where
  "expectCustomTypeIdentifierOrPackageName lower = bindp (expect TokenIdentifier) (\<lambda>t.
     look (\<lambda>p. tok p = TokenDot \<and> isPossibleTypeIdentifier lower (peek 1 p) \<and> Type (peek 2 p) \<noteq> TokenLParen) (\<lambda>qualified.
       if qualified then
         bindp next_token (\<lambda>_. bindp (expect TokenIdentifier) (\<lambda>ty. ret (selector_token (Value t @ ''.'' @ Value ty) t)))
       else if isPossibleTypeIdentifier lower t then ret t else report t ''typedef-uppercase''))"

section \<open>Assertions (assertion.go)\<close>

definition expectConstraintIdentifier :: "Token parser" where
  "expectConstraintIdentifier = bindp (expect TokenIdentifier) (\<lambda>t.
     if isPossibleConstraintIdentifier t then ret t
     else fail_with (FatalLog t ''Constraint must start with capital letter''))"

definition parseConstraintArgument :: "parsers \<Rightarrow> ConstraintArgumentNode parser" where
  "parseConstraintArgument P = look current_token (\<lambda>t.
     if Type t = TokenLBrace then
       bindp (rec_shape_literal P None True) (\<lambda>s. ret (ConstraintArgumentNode None (Some s) None))
     else if isPossibleTypeIdentifier True t \<or> Type t = TokenLBracket \<or> Type t = TokenMap \<or> Type t = TokenStar then
       bindp (rec_type P True) (\<lambda>ty. ret (ConstraintArgumentNode None None (Some ty)))
     else bindp (rec_value P) (\<lambda>v. ret (ConstraintArgumentNode (Some v) None None)))"

definition parseConstraint :: "parsers \<Rightarrow> ConstraintNode parser" where
  "parseConstraint P = bindp expectConstraintIdentifier (\<lambda>c. bindp (expect TokenLParen) (\<lambda>_.
     bindp (items_until TokenRParen (parseConstraintArgument P)) (\<lambda>args. bindp (expect TokenRParen) (\<lambda>_.
     ret (ConstraintNode (Value c) args)))))"

definition rejectPipeInAssertion :: "unit parser" where
  "rejectPipeInAssertion = look current_token (\<lambda>t.
     if Type t = TokenBitwiseOr then report t ''refinement-pipe-in-assertion'' else ret ())"

definition parseDotConstraintChain :: "parsers \<Rightarrow> ConstraintNode list parser" where
  "parseDotConstraintChain P =
     loop_until (\<lambda>_ p. tok p \<noteq> TokenDot) (\<lambda>cs. bindp next_token (\<lambda>_. bindp (parseConstraint P) (\<lambda>c. ret (cs @ [c])))) []"

definition resolveQualifiedType :: "parsers \<Rightarrow> TypeIdent \<Rightarrow> TypeIdent parser" where
  "resolveQualifiedType P baseType =
     look (\<lambda>p. tok p = TokenDot \<and> isPossibleTypeIdentifier False (peek 1 p) \<and> Type (peek 2 p) \<noteq> TokenLParen) (\<lambda>qualified.
       if qualified then
         bindp next_token (\<lambda>_. bindp (rec_type P False) (\<lambda>pkgType. ret (baseType @ ''.'' @ TIdent pkgType)))
       else ret baseType)"

definition parseAssertionMeetChain :: "parsers \<Rightarrow> bool \<Rightarrow> AssertionNode parser" where
  "parseAssertionMeetChain P requireBaseType =
     look (\<lambda>p. (current_token p, Type (peek 1 p))) (\<lambda>(t, nxt).
       bindp
         (if Type t = TokenIdentifier \<or> isPossibleConstraintIdentifier t \<or> isBuiltinTypeToken t then
            if nxt = TokenLParen then
              if requireBaseType then report t ''parse-expected''
              else bindp (parseConstraint P) (\<lambda>c. ret (None, [c]))
            else if isBuiltinTypeToken t then bindp next_token (\<lambda>_. ret (builtinTypeIdentFromToken t, []))
            else bindp (rec_type P False) (\<lambda>ty. bindp (resolveQualifiedType P (TIdent ty)) (\<lambda>b. ret (Some b, [])))
          else ret (None, []))
         (\<lambda>(baseType, cs). bindp (parseDotConstraintChain P) (\<lambda>ds. ret (AssertionNode baseType (cs @ ds) [] [] None))))"

definition parseAssertionChain :: "parsers \<Rightarrow> bool \<Rightarrow> AssertionNode parser" where
  "parseAssertionChain P requireBaseType = parseAssertionMeetChain P requireBaseType"

definition looksLikeConstraint :: "Token \<Rightarrow> Token \<Rightarrow> bool" where
  "looksLikeConstraint altTok peekTok \<longleftrightarrow>
     (Type altTok = TokenIdentifier \<or> isPossibleConstraintIdentifier altTok) \<and> Type peekTok = TokenLParen"

definition looksLikeBaseConstraint :: "Token \<Rightarrow> Token \<Rightarrow> bool" where
  "looksLikeBaseConstraint altTok peekTok \<longleftrightarrow>
     Type altTok \<in> {TokenIdentifier, TokenString, TokenInt, TokenFloat, TokenBool} \<and> Type peekTok = TokenDot"

definition add_or_chain :: "AssertionNode \<Rightarrow> AssertionNode \<Rightarrow> AssertionNode" where
  "add_or_chain a alt = AssertionNode (BaseType a) (Constraints a) (OrChains a @ [alt]) (ATypeParams a) (AArrayLen a)"

text \<open>One round of the loop over \<open>or\<close>; a pipe was rejected before the alternative is looked at.\<close>

definition or_alternative :: "parsers \<Rightarrow> AssertionNode \<Rightarrow> AssertionNode parser" where
  "or_alternative P first = bindp next_token (\<lambda>orTok. bindp rejectPipeInAssertion (\<lambda>_.
     look (\<lambda>p. (current_token p, peek 1 p)) (\<lambda>(altTok, peekTok).
       if Type altTok = TokenIdentifier \<and> Type peekTok = TokenIs then report altTok ''refinement-repeated-is-subject''
       else if looksLikeConstraint altTok peekTok \<and> \<not> isPossibleConstraintIdentifier altTok
       then report altTok ''refinement-or-non-constraint''
       else if \<not> looksLikeConstraint altTok peekTok \<and> \<not> looksLikeBaseConstraint altTok peekTok then
         (if Type altTok = TokenIdentifier \<and> Type peekTok \<noteq> TokenLParen then report altTok ''refinement-or-non-constraint''
          else report orTok ''refinement-or-non-constraint'')
       else bindp (parseAssertionMeetChain P False) (\<lambda>alt.
         if Constraints alt = [] then report altTok ''refinement-or-mixed-target'' else ret (add_or_chain first alt)))))"

definition parseAssertionOrJoin :: "parsers \<Rightarrow> AssertionNode \<Rightarrow> AssertionNode parser" where
  "parseAssertionOrJoin P first =
     bindp (loop_until (\<lambda>_ p. tok p \<noteq> TokenOr) (or_alternative P) first) (\<lambda>a. bindp rejectPipeInAssertion (\<lambda>_. ret a))"

definition match_assertion :: "TypeIdent option \<Rightarrow> go_string \<Rightarrow> ShapeNode \<Rightarrow> AssertionNode" where
  "match_assertion base name s =
     AssertionNode base [ConstraintNode name [ConstraintArgumentNode None (Some s) None]] [] [] None"

definition joined_target :: "parsers \<Rightarrow> AssertionNode \<Rightarrow> (RefinementTarget \<times> AssertionNode) parser" where
  "joined_target P a = bindp (parseAssertionOrJoin P a) (\<lambda>a. ret (AssertionTarget (MeetChains a), a))"

definition handleShapeRefinementTarget :: "parsers \<Rightarrow> (RefinementTarget \<times> AssertionNode) parser" where
  "handleShapeRefinementTarget P =
     bindp (rec_shape_literal P None False) (\<lambda>s. joined_target P (match_assertion None ''Match'' s))"

definition handleShapeSugar :: "parsers \<Rightarrow> (RefinementTarget \<times> AssertionNode) parser" where
  "handleShapeSugar P = bindp next_token (\<lambda>_. bindp (expect TokenLParen) (\<lambda>_. look current_token (\<lambda>t.
     if Type t = TokenLBrace then
       bindp (rec_shape_literal P None False) (\<lambda>s. bindp (expect TokenRParen) (\<lambda>_.
         joined_target P (match_assertion None ''Match'' s)))
     else report t ''parse-expected'')))"

text \<open>A base type: constraints follow a dot, otherwise it is a type target.\<close>

definition type_target :: "TypeIdent \<Rightarrow> RefinementTarget \<times> AssertionNode" where
  "type_target b = (TypeTarget b, AssertionNode (Some b) [] [] [] None)"

definition handleDotConstraintChain ::
  "parsers \<Rightarrow> TypeIdent \<Rightarrow> (RefinementTarget \<times> AssertionNode) parser \<Rightarrow> (RefinementTarget \<times> AssertionNode) parser" where
  "handleDotConstraintChain P b otherwise = look tok (\<lambda>t.
     if t = TokenDot then
       bindp (parseDotConstraintChain P) (\<lambda>cs. joined_target P (AssertionNode (Some b) cs [] [] None))
     else otherwise)"

definition parseRefinementTarget :: "parsers \<Rightarrow> (RefinementTarget \<times> AssertionNode) parser" where
  "parseRefinementTarget P = bindp rejectPipeInAssertion (\<lambda>_. look (\<lambda>p. (current_token p, Type (peek 1 p))) (\<lambda>(t, nxt).
     if Type t = TokenLBrace then handleShapeRefinementTarget P
     else if Type t = TokenIdentifier \<and> Value t = ''Shape'' \<and> nxt = TokenLParen then handleShapeSugar P
     else if \<not> (Type t = TokenIdentifier \<or> isPossibleConstraintIdentifier t) \<and> \<not> isBuiltinTypeToken t
     then report t ''refinement-expected-target''
     else if nxt = TokenLParen then
       (if isBuiltinTypeToken t then report t ''refinement-builtin-constraint''
        else bindp (parseAssertionMeetChain P False) (joined_target P))
     else if isBuiltinTypeToken t then
       bindp next_token (\<lambda>_. handleDotConstraintChain P (the (builtinTypeIdentFromToken t))
         (bindp rejectPipeInAssertion (\<lambda>_. ret (type_target (the (builtinTypeIdentFromToken t))))))
     else bindp (rec_type P False) (\<lambda>ty. bindp (resolveQualifiedType P (TIdent ty)) (\<lambda>b.
       handleDotConstraintChain P b
         (bindp rejectPipeInAssertion (\<lambda>_. look current_token (\<lambda>t.
            if Type t = TokenOr then report t ''refinement-or-mixed-target'' else ret (type_target b))))))))"

section \<open>Types (type.go, function.go)\<close>

definition shape_match_type :: "ShapeNode \<Rightarrow> TypeNode" where
  "shape_match_type s =
     TypeNode TypeShape (Some (match_assertion (Some TypeShape) ''Match'' s)) [] [] None [] []"

definition parseReturnTypeSingle :: "parsers \<Rightarrow> TypeNode parser" where
  "parseReturnTypeSingle P = look tok (\<lambda>t.
     if t = TokenLBrace then bindp (rec_shape_type P False) (\<lambda>s. ret (shape_match_type s)) else rec_type P False)"

definition parseReturnType :: "parsers \<Rightarrow> TypeNode list parser" where
  "parseReturnType P = look tok (\<lambda>t.
     if t = TokenColon then bindp next_token (\<lambda>_. look tok (\<lambda>t.
       if t = TokenLParen then
         bindp next_token (\<lambda>_. bindp (comma_separated (parseReturnTypeSingle P)) (\<lambda>ts.
           bindp (expect TokenRParen) (\<lambda>_. ret ts)))
       else bindp (parseReturnTypeSingle P) (\<lambda>ty. ret [ty])))
     else ret [])"

definition array_type_suffix :: "parsers \<Rightarrow> TypeNode parser" where
  "array_type_suffix P = look tok (\<lambda>t.
     if t = TokenRBracket then bindp next_token (\<lambda>_. bindp (rec_type P True) (\<lambda>el. ret (NewArrayType el)))
     else bindp (expect TokenIntLiteral) (\<lambda>lenTok.
       case ParseInt 10 (Value lenTok) of
         None \<Rightarrow> report lenTok ''array-length-invalid''
       | Some n \<Rightarrow>
           if n < 0 then report lenTok ''array-length-invalid''
           else bindp (expect TokenRBracket) (\<lambda>_. bindp (rec_type P True) (\<lambda>el. ret (NewFixedArrayType el n)))))"

definition func_type :: "parsers \<Rightarrow> TypeNode parser" where
  "func_type P = bindp (expect TokenLParen) (\<lambda>_. look tok (\<lambda>t.
     bindp (if t \<noteq> TokenRParen
            then comma_separated (bindp (rec_type P False) (\<lambda>ty. ret (SimpleParamNode [] ty False)))
            else ret [])
       (\<lambda>ps. bindp (expect TokenRParen) (\<lambda>_. bindp (parseReturnType P) (\<lambda>rs. ret (NewFunctionType ps rs))))))"

text \<open>The parameters and fields of an interface with members; the results are discarded.\<close>

definition interface_param :: "parsers \<Rightarrow> unit parser" where
  "interface_param P = bindp (expect TokenIdentifier) (\<lambda>_. bindp (expect TokenColon) (\<lambda>_. bindp (rec_type P True) (\<lambda>_.
     skip_if TokenComma)))"

definition interface_member :: "parsers \<Rightarrow> unit parser" where
  "interface_member P = bindp (expect TokenIdentifier) (\<lambda>_. look tok (\<lambda>t.
     bindp
       (if t = TokenLParen then
          bindp (expect TokenLParen) (\<lambda>_. bindp (loop_until (\<lambda>_ p. tok p = TokenRParen) (\<lambda>_. interface_param P) ()) (\<lambda>_.
            bindp (expect TokenRParen) (\<lambda>_. ret ())))
        else ret ())
       (\<lambda>_. bindp (expect TokenColon) (\<lambda>_. bindp (rec_type P True) (\<lambda>_. ret ())))))"

definition interface_type :: "parsers \<Rightarrow> TypeNode parser" where
  "interface_type P = look tok (\<lambda>t.
     if t = TokenLBrace then
       bindp next_token (\<lambda>_. bindp (expect TokenRBrace) (\<lambda>_. ret (NewBuiltinType TypeObject)))
     else
       bindp (expect TokenLBrace) (\<lambda>_. bindp (loop_until (\<lambda>_ p. tok p = TokenRBrace) (\<lambda>_. interface_member P) ()) (\<lambda>_.
         bindp (expect TokenRBrace) (\<lambda>_. ret (NewBuiltinType TypeObject)))))"

definition tuple_type :: "parsers \<Rightarrow> bool \<Rightarrow> TypeNode parser" where
  "tuple_type P opts =
     bindp (loop_until (\<lambda>_ p. tok p = TokenRParen)
              (\<lambda>elems. bindp (if elems \<noteq> [] then bindp (expect TokenComma) (\<lambda>_. ret ()) else ret ()) (\<lambda>_.
                 bindp (rec_type P opts) (\<lambda>ty. ret (elems @ [ty])))) [])
       (\<lambda>elems. bindp (expect TokenRParen) (\<lambda>_. look current_token (\<lambda>t.
          if elems = [] then report t ''tuple-empty'' else ret (NewTupleType elems))))"

definition assertion_type :: "parsers \<Rightarrow> TypeNode parser" where
  "assertion_type P = bindp (parseAssertionChain P True) (\<lambda>a. ret (NewAssertionType (Some a)))"

definition named_type :: "parsers \<Rightarrow> bool \<Rightarrow> TypeNode parser" where
  "named_type P opts = bindp (expectCustomTypeIdentifierOrPackageName opts) (\<lambda>first.
     look (\<lambda>p. (tok p, Type (peek 2 p))) (\<lambda>(t, after).
       if Value first = ''Result'' \<and> t = TokenLParen then
         bindp next_token (\<lambda>_. bindp (rec_type P opts) (\<lambda>succ. bindp (expect TokenComma) (\<lambda>_.
           bindp (rec_type P opts) (\<lambda>fl. bindp (expect TokenRParen) (\<lambda>_. ret (NewResultType succ fl))))))
       else if Value first = ''Tuple'' \<and> t = TokenLParen then bindp next_token (\<lambda>_. tuple_type P opts)
       else if t = TokenDot \<and> after \<noteq> TokenLParen then
         bindp next_token (\<lambda>_. bindp (expectCustomTypeIdentifier opts) (\<lambda>ty. look tok (\<lambda>t.
           if t = TokenLParen then assertion_type P
           else ret (NewUserDefinedType (Value first @ ''.'' @ Value ty)))))
       else if t = TokenLParen then assertion_type P
       else if Value first = ''Error'' then ret (NewBuiltinType TypeError)
       else ret (NewUserDefinedType (Value first))))"

definition builtin :: "TypeIdent \<Rightarrow> TypeNode parser" where
  "builtin ident = bindp next_token (\<lambda>_. ret (NewBuiltinType ident))"

definition parseType :: "parsers \<Rightarrow> bool \<Rightarrow> TypeNode parser" where
  "parseType P opts = look tok (\<lambda>t.
     if t = TokenStar then bindp next_token (\<lambda>_. bindp (rec_type P opts) (\<lambda>b. ret (NewPointerType b)))
     else if t = TokenArray then
       bindp next_token (\<lambda>_. bindp (expect TokenLParen) (\<lambda>_. bindp (rec_type P opts) (\<lambda>el.
         bindp (expect TokenRParen) (\<lambda>_. ret (NewArrayType el)))))
     else if t = TokenLBrace then
       bindp (rec_shape_type P False) (\<lambda>s. ret (NewAssertionType (Some (match_assertion (Some TypeShape) ''Match'' s))))
     else if t = TokenString then builtin TypeString
     else if t = TokenInt then builtin TypeInt
     else if t = TokenFloat then builtin TypeFloat
     else if t = TokenBool then builtin TypeBool
     else if t = TokenVoid then builtin TypeVoid
     else if t = TokenError then builtin TypeError
     else if t = TokenLBracket then bindp next_token (\<lambda>_. array_type_suffix P)
     else if t = TokenMap then
       bindp next_token (\<lambda>_. bindp (expect TokenLBracket) (\<lambda>_. bindp (rec_type P True) (\<lambda>k.
         bindp (expect TokenRBracket) (\<lambda>_. bindp (rec_type P True) (\<lambda>v. ret (NewMapType k v))))))
     else if t = TokenChan then bindp next_token (\<lambda>_. bindp (rec_type P True) (\<lambda>el. ret (NewChannelType el)))
     else if t = TokenFunc then bindp next_token (\<lambda>_. func_type P)
     else if t = TokenInterface then bindp next_token (\<lambda>_. interface_type P)
     else named_type P opts)"

section \<open>Parameters and function literals (function.go)\<close>

definition assertion_param_type :: "parsers \<Rightarrow> TypeNode parser" where
  "assertion_param_type P =
     bindp (parseAssertionChain P True) (\<lambda>a. ret (TypeNode TypeAssertion (Some a) [] [] None [] []))"

definition looksLikeAssertionTypeAfterIdent :: "Parser \<Rightarrow> bool" where
  "looksLikeAssertionTypeAfterIdent p =
     (if tok p \<noteq> TokenIdentifier \<or> Type (peek 1 p) \<noteq> TokenDot then False
      else Type (peek 2 p) = TokenIdentifier \<and> Type (peek 3 p) = TokenLParen)"

definition parseParameterType :: "parsers \<Rightarrow> TypeNode parser" where
  "parseParameterType P = look (\<lambda>p. (current_token p, Type (peek 1 p), looksLikeAssertionTypeAfterIdent p)) (\<lambda>(t, nxt, asrt).
     if Type t = TokenIdentifier \<and> nxt = TokenDot then (if asrt then assertion_param_type P else rec_type P False)
     else if Type t = TokenLParen then assertion_param_type P
     else if Type t = TokenIdentifier \<and> Value t = ''Shape'' then
       bindp (expect TokenIdentifier) (\<lambda>ident. look current_token (\<lambda>t.
         if Type t = TokenLParen then report t ''shape-wrapper-disallowed'' else ret (plain_type (Value ident))))
     else if Type t = TokenLBrace then bindp (rec_shape_type P False) (\<lambda>s. ret (shape_match_type s))
     else rec_type P False)"

definition parseDestructuredParameter :: "parsers \<Rightarrow> ParamNode parser" where
  "parseDestructuredParameter P = bindp (expect TokenLBrace) (\<lambda>_.
     bindp (items_until TokenRBrace (bindp (expect TokenIdentifier) (\<lambda>t. ret (Value t)))) (\<lambda>fs.
     bindp (expect TokenRBrace) (\<lambda>_. bindp (skip_if TokenColon) (\<lambda>_.
     bindp (parseParameterType P) (\<lambda>ty. ret (DestructuredParamNode fs ty))))))"

definition simple_parameter_type :: "parsers \<Rightarrow> TypeNode parser" where
  "simple_parameter_type P = look (\<lambda>p. (current_token p, Type (peek 1 p), looksLikeAssertionTypeAfterIdent p)) (\<lambda>(t, nxt, asrt).
     if Type t = TokenIdentifier \<and> nxt = TokenDot then (if asrt then assertion_param_type P else rec_type P False)
     else if Type t = TokenIdentifier \<and> Value t = ''Shape'' then
       (if nxt = TokenLParen then report t ''shape-wrapper-disallowed''
        else bindp next_token (\<lambda>_. ret (plain_type ''Shape'')))
     else if Type t = TokenLBrace then bindp (rec_shape_type P False) (\<lambda>s. ret (shape_match_type s))
     else rec_type P False)"

definition parseSimpleParameter :: "parsers \<Rightarrow> ParamNode parser" where
  "parseSimpleParameter P = bindp (expect TokenIdentifier) (\<lambda>nameTok. bindp (skip_if TokenColon) (\<lambda>_. look tok (\<lambda>t.
     bindp (skip_if TokenEllipsis) (\<lambda>_. bindp (simple_parameter_type P) (\<lambda>ty.
       ret (SimpleParamNode (Value nameTok) ty (t = TokenEllipsis)))))))"

definition parseParameter :: "parsers \<Rightarrow> ParamNode parser" where
  "parseParameter P = look current_token (\<lambda>t.
     if Type t = TokenIdentifier then parseSimpleParameter P
     else if Type t = TokenLBrace then parseDestructuredParameter P
     else fail_with (ParseFailure t ''Expected parameter''))"

definition variadic_param :: "ParamNode \<Rightarrow> bool" where
  "variadic_param q = (case q of SimpleParamNode _ _ v \<Rightarrow> v | DestructuredParamNode _ _ \<Rightarrow> False)"

definition parseFunctionSignature :: "parsers \<Rightarrow> ParamNode list parser" where
  "parseFunctionSignature P = bindp (expect TokenLParen) (\<lambda>_. look tok (\<lambda>t.
     if t = TokenRParen then bindp next_token (\<lambda>_. ret [])
     else bindp (comma_separated (parseParameter P)) (\<lambda>ps. bindp (expect TokenRParen) (\<lambda>_. look current_token (\<lambda>t.
       if list_ex variadic_param (butlast ps) then report t ''func-variadic-last'' else ret ps)))))"

text \<open>The statements of the body are not part of the node here.\<close>

definition parseFunctionLiteral :: "parsers \<Rightarrow> ExpressionNode parser" where
  "parseFunctionLiteral P = bindp (expect TokenFunc) (\<lambda>_. bindp (parseFunctionSignature P) (\<lambda>ps.
     bindp (parseReturnType P) (\<lambda>rs. bindp (rec_block P) (\<lambda>_. ret (FunctionLiteralNode ps rs)))))"

section \<open>Shapes (shape.go)\<close>

definition parseShapeMemberName :: "go_string parser" where
  "parseShapeMemberName = look (\<lambda>p. (current_token p, Type (peek 1 p))) (\<lambda>(t, nxt).
     if Type t = TokenIdentifier \<or> (Type t = TokenError \<and> nxt = TokenLParen) then bindp next_token (\<lambda>t. ret (Value t))
     else fail_with (ParseFailure t ''expected shape member name''))"

definition parseShapeMethodSignature :: "parsers \<Rightarrow> (ParamNode list \<times> TypeNode list) parser" where
  "parseShapeMethodSignature P = bindp (expect TokenLParen) (\<lambda>_. look tok (\<lambda>t.
     bindp (if t \<noteq> TokenRParen then comma_separated (parseParameter P) else ret []) (\<lambda>ps.
       bindp (expect TokenRParen) (\<lambda>_. look tok (\<lambda>t.
         if t = TokenColon then bindp (parseReturnType P) (\<lambda>rs. ret (ps, rs)) else ret (ps, []))))))"

definition tokenCanStartAssertionBaseType :: "Token \<Rightarrow> bool" where
  "tokenCanStartAssertionBaseType t \<longleftrightarrow>
     Type t = TokenIdentifier \<or> isPossibleConstraintIdentifier t \<or> Type t \<in> {TokenString, TokenInt, TokenFloat, TokenBool}"

definition parseStructTagLiteral :: "parsers \<Rightarrow> go_string \<Rightarrow> go_string" where
  "parseStructTagLiteral P v =
     (if length v \<ge> 2 \<and> hd v = CHR 0x60 \<and> last v = CHR 0x60 then butlast (tl v)
      else case Unquote P v of Some u \<Rightarrow> u | None \<Rightarrow> v)"

definition type_field :: "ShapeNode option \<Rightarrow> TypeNode \<Rightarrow> go_string \<Rightarrow> ShapeFieldNode" where
  "type_field shp ty tag = ShapeFieldNode None None shp (Some ty) False [] [] False tag False"

text \<open>The field is built once its tag is known.\<close>

definition attachOptionalStructTag :: "parsers \<Rightarrow> (go_string \<Rightarrow> ShapeFieldNode) \<Rightarrow> ShapeFieldNode parser" where
  "attachOptionalStructTag P fld = look tok (\<lambda>t.
     if t = TokenStringLiteral then bindp next_token (\<lambda>t. ret (fld (parseStructTagLiteral P (Value t)))) else ret (fld []))"

definition shape_field_type :: "ShapeNode \<Rightarrow> TypeNode" where
  "shape_field_type s = TypeNode TypeShape (Some (match_assertion None ''Shape'' s)) [] [] None [] []"

definition parseShapeFieldTypeAfterColon :: "parsers \<Rightarrow> bool \<Rightarrow> ShapeFieldNode parser" where
  "parseShapeFieldTypeAfterColon P inShapeLiteral = look (\<lambda>p. (current_token p, Type (peek 1 p))) (\<lambda>(t, nxt).
     if Type t = TokenLBrace then
       (if inShapeLiteral then
          bindp (rec_shape_literal P None True) (\<lambda>s.
            attachOptionalStructTag P (\<lambda>tag. ShapeFieldNode None None (Some s) None False [] [] False tag False))
        else bindp (rec_shape_type P False) (\<lambda>s. attachOptionalStructTag P (type_field None (shape_field_type s))))
     else if nxt = TokenDot \<and> tokenCanStartAssertionBaseType t then
       bindp (assertion_param_type P) (\<lambda>ty. attachOptionalStructTag P (type_field None ty))
     else if isPossibleTypeIdentifier False t \<or> Type t = TokenStar \<or> Type t = TokenArray then
       bindp (rec_type P True) (\<lambda>ty. attachOptionalStructTag P (type_field None ty))
     else report t ''shape-type-required'')"

definition parseShapeTypeField :: "parsers \<Rightarrow> go_string \<Rightarrow> ShapeFieldNode parser" where
  "parseShapeTypeField P name = look tok (\<lambda>t.
     if t = TokenLParen then
       bindp (parseShapeMethodSignature P) (\<lambda>(ps, rs). ret (ShapeFieldNode None None None None True ps rs False [] False))
     else if t = TokenColon then bindp next_token (\<lambda>_. parseShapeFieldTypeAfterColon P False)
     else if t = TokenStar then bindp (rec_type P True) (\<lambda>ty. attachOptionalStructTag P (type_field None ty))
     else if t = TokenLBrace then
       bindp (rec_shape_type P False) (\<lambda>s. attachOptionalStructTag P (type_field (Some s) (shape_field_type s)))
     else ret (ShapeFieldNode None None None (Some (plain_type name)) False [] [] True [] False))"

text \<open>\<open>fields[name] = v\<close>.\<close>

fun put_field :: "go_string \<Rightarrow> 'v \<Rightarrow> (go_string \<times> 'v) list \<Rightarrow> (go_string \<times> 'v) list" where
  "put_field name v [] = [(name, v)]"
| "put_field name v ((n, w) # fs) = (if n = name then (n, v) # fs else (n, w) # put_field name v fs)"

definition shape_members :: "(go_string \<Rightarrow> ShapeFieldNode parser) \<Rightarrow> ((go_string \<times> ShapeFieldNode) list \<times> go_string list) parser" where
  "shape_members fld =
     loop_until (\<lambda>_ p. tok p = TokenRBrace)
       (\<lambda>(fs, order). bindp parseShapeMemberName (\<lambda>name. bindp (fld name) (\<lambda>v. bindp (skip_if TokenComma) (\<lambda>_.
          ret (put_field name v fs, order @ [name]))))) ([], [])"

definition parseShapeTypeInternal :: "parsers \<Rightarrow> bool \<Rightarrow> ShapeNode parser" where
  "parseShapeTypeInternal P allowEmpty = bindp (expect TokenLBrace) (\<lambda>_. bindp (shape_members (parseShapeTypeField P)) (\<lambda>(fs, order).
     bindp (expect TokenRBrace) (\<lambda>_. look current_token (\<lambda>t.
       if fs = [] \<and> \<not> allowEmpty then report t ''shape-empty'' else ret (ShapeNode fs order (Some TypeShape))))))"

definition parseShapeTypeForError :: "parsers \<Rightarrow> ShapeNode parser" where
  "parseShapeTypeForError P = bindp (expect TokenLBrace) (\<lambda>_. bindp (shape_members (parseShapeTypeField P)) (\<lambda>(fs, order).
     bindp (expect TokenRBrace) (\<lambda>_. ret (ShapeNode fs order (Some TypeShape)))))"

text \<open>The nodes that implement \<open>ast.ValueNode\<close>.\<close>

definition is_value_node :: "ExpressionNode \<Rightarrow> bool" where
  "is_value_node e =
     (case e of
        IntLiteralNode _ _ _ \<Rightarrow> True | FloatLiteralNode _ _ \<Rightarrow> True | StringLiteralNode _ _ \<Rightarrow> True | RuneLiteralNode _ _ \<Rightarrow> True
      | BoolLiteralNode _ _ \<Rightarrow> True | ArrayLiteralNode _ _ \<Rightarrow> True | MapLiteralNode _ _ _ \<Rightarrow> True | NilLiteralNode \<Rightarrow> True
      | VariableNode _ _ \<Rightarrow> True | ReferenceNode _ \<Rightarrow> True | DereferenceNode _ \<Rightarrow> True | ShapeExpr _ \<Rightarrow> True
      | _ \<Rightarrow> False)"

definition value_constraint :: "ExpressionNode \<Rightarrow> AssertionNode" where
  "value_constraint v = AssertionNode None [ConstraintNode ValueConstraint [ConstraintArgumentNode (Some v) None None]] [] [] None"

definition value_field :: "ExpressionNode \<Rightarrow> ShapeFieldNode" where
  "value_field v =
     ShapeFieldNode (Some v)
       (case v of ShapeExpr _ \<Rightarrow> None | _ \<Rightarrow> if is_value_node v then Some (value_constraint v) else None)
       (case v of ShapeExpr s \<Rightarrow> Some s | _ \<Rightarrow> None)
       (case v of VariableNode x _ \<Rightarrow> Some (plain_type x) | _ \<Rightarrow> None)
       False [] [] False [] False"

definition shape_literal_field :: "parsers \<Rightarrow> bool \<Rightarrow> go_string \<Rightarrow> ShapeFieldNode parser" where
  "shape_literal_field P parseAsTypes name = look tok (\<lambda>t.
     if t = TokenColon then bindp next_token (\<lambda>_.
       if parseAsTypes then parseShapeFieldTypeAfterColon P True
       else bindp (rec_expr P 0 0) (\<lambda>v. ret (value_field v)))
     else ret (type_field None (plain_type name) []))"

definition parseShapeLiteral :: "parsers \<Rightarrow> TypeIdent option \<Rightarrow> bool \<Rightarrow> ShapeNode parser" where
  "parseShapeLiteral P baseType parseAsTypes = bindp (expect TokenLBrace) (\<lambda>_.
     bindp (shape_members (shape_literal_field P parseAsTypes)) (\<lambda>(fs, order). bindp (expect TokenRBrace) (\<lambda>_.
       ret (ShapeNode fs order baseType))))"

section \<open>Literals (literal.go)\<close>

definition trim_suffix_f :: "go_string \<Rightarrow> go_string" where
  "trim_suffix_f s = (if s \<noteq> [] \<and> last s = CHR ''f'' then butlast s else s)"

text \<open>A float node for the text, negated if \<open>neg\<close>; floats are kept as their text.\<close>

definition float_literal :: "parsers \<Rightarrow> bool \<Rightarrow> Token \<Rightarrow> go_string \<Rightarrow> ExpressionNode parser" where
  "float_literal P neg t s =
     (case ParseFloat P s of
        None \<Rightarrow> fail_with (ParseFailure t ''Invalid float literal'')
      | Some f \<Rightarrow> ret (FloatLiteralNode (if neg then ''-'' @ f else f) (plain_type [])))"

definition int_literal :: "bool \<Rightarrow> Token \<Rightarrow> ExpressionNode parser" where
  "int_literal neg t =
     (case ParseInt 0 (Value t) of
        None \<Rightarrow> fail_with (ParseFailure t ''Invalid integer literal'')
      | Some n \<Rightarrow> ret (IntLiteralNode (if neg then - n else n) (Value t) (plain_type [])))"

definition string_literal :: "parsers \<Rightarrow> Token \<Rightarrow> ExpressionNode parser" where
  "string_literal P t =
     (let v = Value t in
      if length v \<ge> 2 \<and> (hd v = CHR 0x22 \<or> hd v = CHR 0x60) then
        (case Unquote P v of
           None \<Rightarrow> fail_with (ParseFailure t ''illegal string literal'')
         | Some u \<Rightarrow> ret (StringLiteralNode u (plain_type [])))
      else ret (StringLiteralNode v (plain_type [])))"

definition rune_literal :: "parsers \<Rightarrow> Token \<Rightarrow> ExpressionNode parser" where
  "rune_literal P t =
     (let content = (if length (Value t) \<ge> 2 then butlast (tl (Value t)) else Value t) in
      case UnquoteChar P content of
        Some (r, tail) \<Rightarrow>
          if tail = [] then ret (RuneLiteralNode r (plain_type [])) else fail_with (ParseFailure t ''illegal rune literal'')
      | None \<Rightarrow> fail_with (ParseFailure t ''illegal rune literal''))"

definition parseOptionalArrayElementTypeSuffix :: "parsers \<Rightarrow> Token \<Rightarrow> TypeNode parser" where
  "parseOptionalArrayElementTypeSuffix P rbrack = look current_token (\<lambda>nxt.
     if Line nxt \<noteq> Line rbrack then ret (plain_type TypeImplicit)
     else if Type nxt \<in> {TokenLBracket, TokenStar, TokenMap, TokenChan, TokenFunc, TokenArray} then rec_type P True
     else if Type nxt = TokenIdentifier then bindp next_token (\<lambda>t. ret (plain_type (Value t)))
     else if Type nxt = TokenString then builtin TypeString
     else if Type nxt = TokenInt then builtin TypeInt
     else if Type nxt = TokenBool then builtin TypeBool
     else ret (plain_type TypeImplicit))"

definition nested_element :: "TypeNode \<Rightarrow> TypeNode" where
  "nested_element ty = (if TIdent ty = TypeArray \<and> length (TypeParams ty) = 1 then hd (TypeParams ty) else plain_type TypeImplicit)"

definition parseBraceCompositeArrayLiteral :: "parsers \<Rightarrow> TypeNode \<Rightarrow> ExpressionNode parser" where
  "parseBraceCompositeArrayLiteral P elemType = bindp (expect TokenLBrace) (\<lambda>_.
     bindp (items_until TokenRBrace (look tok (\<lambda>t.
              if t = TokenLBrace then rec_composite P (nested_element elemType) else rec_expr P 0 0))) (\<lambda>items.
     bindp (expect TokenRBrace) (\<lambda>_. ret (ArrayLiteralNode items elemType))))"

definition array_literal :: "parsers \<Rightarrow> ExpressionNode parser" where
  "array_literal P = bindp (items_until TokenRBracket (rec_expr P 0 0)) (\<lambda>items. bindp (expect TokenRBracket) (\<lambda>rbrack.
     bindp (parseOptionalArrayElementTypeSuffix P rbrack) (\<lambda>arrayType. look tok (\<lambda>t.
       if t = TokenLBrace then rec_composite P arrayType else ret (ArrayLiteralNode items arrayType)))))"

definition minus_before :: "Token \<Rightarrow> go_string \<Rightarrow> bool \<Rightarrow> 'a parser \<Rightarrow> 'a parser" where
  "minus_before t what neg m =
     (if neg then fail_with (ParseFailure t (''Invalid use of unary minus before '' @ what)) else m)"

definition literal_from :: "parsers \<Rightarrow> bool \<Rightarrow> Token \<Rightarrow> ExpressionNode parser" where
  "literal_from P neg t =
     (if Type t = TokenStringLiteral then minus_before t ''string literal'' neg (string_literal P t)
      else if Type t = TokenRuneLiteral then minus_before t ''rune literal'' neg (rune_literal P t)
      else if Type t = TokenIntLiteral then look tok (\<lambda>nxt.
        if nxt = TokenDot then
          bindp next_token (\<lambda>_. bindp (expect TokenFloatLiteral) (\<lambda>suffix.
            float_literal P neg t (Value t @ ''.'' @ trim_suffix_f (Value suffix))))
        else int_literal neg t)
      else if Type t = TokenFloatLiteral then float_literal P neg t (trim_suffix_f (Value t))
      else if Type t = TokenTrue then minus_before t ''boolean literal'' neg (ret (BoolLiteralNode True (plain_type [])))
      else if Type t = TokenFalse then minus_before t ''boolean literal'' neg (ret (BoolLiteralNode False (plain_type [])))
      else if Type t = TokenLBracket then minus_before t ''array literal'' neg (array_literal P)
      else if Type t = TokenNil then minus_before t ''nil'' neg (ret NilLiteralNode)
      else fail_with (ParseFailure t ''a literal''))"

definition parseLiteral :: "parsers \<Rightarrow> ExpressionNode parser" where
  "parseLiteral P = look tok (\<lambda>t.
     if t = TokenMinus then bindp next_token (\<lambda>_. bindp next_token (literal_from P True))
     else bindp next_token (literal_from P False))"

section \<open>Values (value.go)\<close>

definition typed_shape_follows :: "Identifier \<Rightarrow> Parser \<Rightarrow> bool" where
  "typed_shape_follows x p \<longleftrightarrow>
     tok p = TokenLBrace \<and> isShapeLiteralTypePrefix x \<and> looksLikeTypedCompositeOrShapeBody p"

definition variable_or_shape :: "parsers \<Rightarrow> Identifier \<Rightarrow> ExpressionNode parser" where
  "variable_or_shape P x = look (typed_shape_follows x) (\<lambda>typed.
     if typed then bindp (rec_shape_literal P (Some x) False) (\<lambda>s. ret (ShapeExpr s)) else ret (variable x))"

definition map_entry :: "parsers \<Rightarrow> (ExpressionNode \<times> ExpressionNode) parser" where
  "map_entry P = bindp (rec_value P) (\<lambda>k. bindp (expect TokenColon) (\<lambda>_. bindp (rec_value P) (\<lambda>v. ret (k, v))))"

definition map_literal :: "parsers \<Rightarrow> ExpressionNode parser" where
  "map_literal P = bindp (expect TokenLBracket) (\<lambda>_. bindp (rec_type P True) (\<lambda>k. bindp (expect TokenRBracket) (\<lambda>_.
     bindp (rec_type P True) (\<lambda>v. bindp (expect TokenLBrace) (\<lambda>_. bindp (items_until TokenRBrace (map_entry P)) (\<lambda>es.
     bindp (expect TokenRBrace) (\<lambda>_. ret (MapLiteralNode es k v))))))))"

definition reference_value :: "parsers \<Rightarrow> ExpressionNode parser" where
  "reference_value P = look current_token (\<lambda>nxt.
     if Type nxt = TokenIdentifier then
       bindp parseIdentifier (\<lambda>x. bindp (variable_or_shape P x) (\<lambda>e. ret (ReferenceNode e)))
     else if Type nxt = TokenLBrace then
       bindp parseTypeIdent (\<lambda>b. bindp (rec_shape_literal P (Some b) False) (\<lambda>s. ret (ReferenceNode (ShapeExpr s))))
     else fail_with (ParseFailure nxt ''Expected identifier or shape literal after &''))"

definition parseValue :: "parsers \<Rightarrow> ExpressionNode parser" where
  "parseValue P = look tok (\<lambda>t.
     if t = TokenBitwiseAnd then bindp next_token (\<lambda>_. reference_value P)
     else if t = TokenIdentifier then bindp parseIdentifier (variable_or_shape P)
     else if t = TokenMap then bindp next_token (\<lambda>_. map_literal P)
     else if t = TokenLBrace then bindp (rec_shape_literal P None False) (\<lambda>s. ret (ShapeExpr s))
     else if t = TokenStar then
       bindp next_token (\<lambda>_. bindp parseIdentifier (\<lambda>x. ret (DereferenceNode (variable x))))
     else parseLiteral P)"

section \<open>Expressions (expression.go, make\_new.go)\<close>

definition parseExpression :: "parsers \<Rightarrow> ExpressionNode parser" where
  "parseExpression P = rec_expr P 0 0"

definition call_argument :: "parsers \<Rightarrow> ExpressionNode parser" where
  "call_argument P = bindp (parseExpression P) (\<lambda>arg. look tok (\<lambda>t.
     bindp (if t = TokenEllipsis then bindp next_token (\<lambda>_. ret (SpreadExpressionNode arg)) else ret arg) (\<lambda>arg.
       bindp prev_token (\<lambda>_. ret arg))))"

definition parseCallArguments :: "parsers \<Rightarrow> ExpressionNode list parser" where
  "parseCallArguments P = items_until TokenRParen (call_argument P)"

definition MaxExpressionDepth :: nat where
  "MaxExpressionDepth = 20"

definition binaryPrecedence :: "TokenIdent \<Rightarrow> nat" where
  "binaryPrecedence op =
     (if op = TokenLogicalOr then 10
      else if op = TokenLogicalAnd then 20
      else if op \<in> {TokenEquals, TokenNotEquals, TokenGreater, TokenLess, TokenGreaterEqual, TokenLessEqual, TokenIs} then 30
      else if op \<in> {TokenPlus, TokenMinus, TokenBitwiseOr, TokenXor} then 40
      else if op \<in> {TokenStar, TokenDivide, TokenModulo, TokenLShift, TokenRShift, TokenBitwiseAnd, TokenAndNot} then 50
      else 0)"

text \<open>The four conditions that end the loop over binary operators.\<close>

definition binary_stop :: "nat \<Rightarrow> Parser \<Rightarrow> bool" where
  "binary_stop minPrec p \<longleftrightarrow>
     \<not> IsBinaryOperator (tok p) \<or>
     (tok p = TokenEquals \<and> Value (current_token p) = ''='') \<or>
     (tok p = TokenStar \<and> Type (peek 1 p) = TokenStar) \<or>
     binaryPrecedence (tok p) < minPrec"

definition is_call :: "ExpressionNode \<Rightarrow> bool" where
  "is_call e = (case e of FunctionCallNode _ _ _ _ \<Rightarrow> True | _ \<Rightarrow> False)"

definition binary_step :: "parsers \<Rightarrow> nat \<Rightarrow> ExpressionNode \<Rightarrow> ExpressionNode parser" where
  "binary_step P depth lhs = look current_token (\<lambda>t.
     if Type t = TokenBitwiseOr \<and> is_call lhs then report t ''refinement-pipe-in-assertion''
     else bindp next_token (\<lambda>_.
       if Type t = TokenIs then
         bindp (parseRefinementTarget P) (\<lambda>(_, a). ret (BinaryExpressionNode lhs (Type t) (AssertionExpr a)))
       else bindp (rec_expr P (binaryPrecedence (Type t) + 1) (depth + 1)) (\<lambda>rhs.
         ret (BinaryExpressionNode lhs (Type t) rhs))))"

definition too_deep :: "'a parser" where
  "too_deep = look current_token (\<lambda>t. fail_with (ParseFailure t ''Expression nesting too deep - maximum depth is 20''))"

definition parseExpr :: "parsers \<Rightarrow> nat \<Rightarrow> nat \<Rightarrow> ExpressionNode parser" where
  "parseExpr P minPrec depth =
     (if depth > MaxExpressionDepth then too_deep
      else bindp (rec_unary P depth) (loop_until (\<lambda>_. binary_stop minPrec) (binary_step P depth)))"

definition index_high :: "parsers \<Rightarrow> ExpressionNode \<Rightarrow> ExpressionNode option \<Rightarrow> ExpressionNode parser" where
  "index_high P base low = look tok (\<lambda>t.
     bindp (if t \<noteq> TokenRBracket then bindp (parseExpression P) (\<lambda>e. ret (Some e)) else ret None) (\<lambda>high.
       bindp (expect TokenRBracket) (\<lambda>_. ret (SliceExpressionNode base low high))))"

definition index_suffix :: "parsers \<Rightarrow> ExpressionNode \<Rightarrow> ExpressionNode parser" where
  "index_suffix P base = bindp next_token (\<lambda>_. look tok (\<lambda>t.
     if t = TokenColon then bindp next_token (\<lambda>_. index_high P base None)
     else bindp (parseExpression P) (\<lambda>first. look tok (\<lambda>t.
       if t = TokenColon then bindp next_token (\<lambda>_. index_high P base (Some first))
       else bindp (expect TokenRBracket) (\<lambda>_. ret (IndexExpressionNode base first))))))"

definition parseIndexSuffixChain :: "parsers \<Rightarrow> ExpressionNode \<Rightarrow> ExpressionNode parser" where
  "parseIndexSuffixChain P base = loop_until (\<lambda>_ p. tok p \<noteq> TokenLBracket) (index_suffix P) base"

definition tokenCanStartTypeArg :: "nat \<Rightarrow> Parser \<Rightarrow> bool" where
  "tokenCanStartTypeArg offset p \<longleftrightarrow>
     Type (peek offset p) \<in> {TokenStar, TokenArray, TokenLBrace, TokenString, TokenInt, TokenFloat, TokenBool, TokenVoid,
       TokenMap, TokenFunc, TokenLBracket, TokenIdentifier, TokenChan}"

definition tryParseTypeArgList :: "parsers \<Rightarrow> TypeNode list option parser" where
  "tryParseTypeArgList P = look (\<lambda>p. tok p = TokenRBracket \<or> \<not> tokenCanStartTypeArg 0 p) (\<lambda>none.
     if none then ret None
     else bindp (rec_type P True) (\<lambda>first.
       loop_until (\<lambda>out p. out = None \<or> tok p \<noteq> TokenComma)
         (\<lambda>out. bindp next_token (\<lambda>_. look (tokenCanStartTypeArg 0) (\<lambda>ok.
            if ok then bindp (rec_type P True) (\<lambda>ty. ret (map_option (\<lambda>ts. ts @ [ty]) out)) else ret None)))
         (Some [first])))"

definition tryParseGenericTypeArgSuffix :: "parsers \<Rightarrow> TypeNode list option parser" where
  "tryParseGenericTypeArgSuffix P = look (\<lambda>p. tok p \<noteq> TokenLBracket \<or> \<not> tokenCanStartTypeArg 1 p) (\<lambda>none.
     if none then ret None
     else attempt (bindp next_token (\<lambda>_. bindp (tryParseTypeArgList P) (\<lambda>typeArgs. look tok (\<lambda>t.
       if typeArgs = None \<or> t \<noteq> TokenRBracket then ret None
       else bindp next_token (\<lambda>_. look tok (\<lambda>t. if t \<noteq> TokenLParen then ret None else ret typeArgs)))))))"

text \<open>A call of what was parsed so far: a variable is called by its name.\<close>

definition call_of :: "ExpressionNode \<Rightarrow> TypeNode list \<Rightarrow> ExpressionNode list \<Rightarrow> ExpressionNode" where
  "call_of base typeArgs args =
     (case base of
        VariableNode x _ \<Rightarrow> FunctionCallNode x None typeArgs args
      | _ \<Rightarrow> FunctionCallNode [] (Some base) typeArgs args)"

definition call_suffix :: "parsers \<Rightarrow> (ExpressionNode list \<Rightarrow> ExpressionNode) \<Rightarrow> ExpressionNode parser" where
  "call_suffix P mk = bindp next_token (\<lambda>_. bindp (parseCallArguments P) (\<lambda>args. bindp (expect TokenRParen) (\<lambda>_. ret (mk args))))"

definition selector_suffix :: "parsers \<Rightarrow> ExpressionNode \<Rightarrow> ExpressionNode parser" where
  "selector_suffix P base = bindp next_token (\<lambda>_. look tok (\<lambda>t.
     if t = TokenIntLiteral then bindp next_token (\<lambda>t. ret (FieldAccessNode base (Value t)))
     else bindp parseSelectorName (\<lambda>m. look tok (\<lambda>t.
       if t = TokenLParen then call_suffix P (MethodCallNode base (Value m)) else ret (FieldAccessNode base (Value m))))))"

text \<open>
  One round of the loop over suffixes. After \<open>[\<close> the index chain always returns a new node, so the
  comparison with the previous one always goes on with the loop.
\<close>

definition postfix_step :: "parsers \<Rightarrow> ExpressionNode \<Rightarrow> ExpressionNode parser" where
  "postfix_step P base = bindp (tryParseGenericTypeArgSuffix P) (\<lambda>generic.
     case generic of
       Some typeArgs \<Rightarrow> call_suffix P (call_of base typeArgs)
     | None \<Rightarrow> look tok (\<lambda>t.
         if t = TokenLBracket then parseIndexSuffixChain P base
         else if t = TokenLParen then call_suffix P (call_of base [])
         else selector_suffix P base))"

definition parsePostfixSuffixChain :: "parsers \<Rightarrow> ExpressionNode \<Rightarrow> ExpressionNode parser" where
  "parsePostfixSuffixChain P base =
     loop_until (\<lambda>_ p. tok p \<noteq> TokenLBracket \<and> tok p \<noteq> TokenLParen \<and> tok p \<noteq> TokenDot) (postfix_step P) base"

definition parseMakeNewCallArguments :: "parsers \<Rightarrow> ExpressionNode list parser" where
  "parseMakeNewCallArguments P = look current_token (\<lambda>t.
     if Type t = TokenRParen then ret []
     else if Type t \<noteq> TokenStar \<and> \<not> isPossibleTypeIdentifier True t then report t ''make-new-type-arg''
     else bindp (rec_type P True) (\<lambda>typ. bindp prev_token (\<lambda>_.
       loop_until (\<lambda>_ p. tok p \<noteq> TokenComma)
         (\<lambda>args. bindp next_token (\<lambda>_. bindp (parseExpression P) (\<lambda>arg. bindp prev_token (\<lambda>_. ret (args @ [arg])))))
         [TypeExpressionNode typ])))"

definition finish_call :: "Identifier \<Rightarrow> Token \<Rightarrow> ExpressionNode list \<Rightarrow> ExpressionNode parser" where
  "finish_call x lparen args =
     (if x = ''Ok'' \<or> x = ''Err'' then
        (case args of
           [v] \<Rightarrow> ret (if x = ''Ok'' then OkExprNode (Some v) else ErrExprNode (Some v))
         | _ \<Rightarrow> report lparen ''result-constructor-args'')
      else ret (FunctionCallNode x None [] args))"

definition parseIdentifierPrimary :: "parsers \<Rightarrow> ExpressionNode parser" where
  "parseIdentifierPrimary P = bindp parseIdentifier (\<lambda>x. look tok (\<lambda>t.
     if t = TokenLParen then
       bindp next_token (\<lambda>lparen.
         bindp (if x = ''make'' \<or> x = ''new'' then parseMakeNewCallArguments P else parseCallArguments P) (\<lambda>args.
         bindp (expect TokenRParen) (\<lambda>_. finish_call x lparen args)))
     else variable_or_shape P x))"

definition isBuiltinTypeKeywordIdent :: "TypeIdent \<Rightarrow> bool" where
  "isBuiltinTypeKeywordIdent ident \<longleftrightarrow> ident \<in> {TypeInt, TypeString, TypeFloat, TypeBool}"

definition tryParseSliceConversion :: "parsers \<Rightarrow> ExpressionNode option parser" where
  "tryParseSliceConversion P = look (\<lambda>p. Type (peek 1 p)) (\<lambda>nxt.
     if nxt \<noteq> TokenRBracket then ret None
     else attempt (bindp next_token (\<lambda>_. bindp (expect TokenRBracket) (\<lambda>rbrack.
       bindp (parseOptionalArrayElementTypeSuffix P rbrack) (\<lambda>elemType. look tok (\<lambda>t.
         if TIdent elemType = TypeImplicit \<or> t \<noteq> TokenLParen then ret None
         else if isBuiltinTypeKeywordIdent (TIdent elemType) then report rbrack ''type-as-conversion''
         else bindp (call_suffix P (FunctionCallNode (''[]'' @ TIdent elemType) None [])) (\<lambda>e. ret (Some e))))))))"

definition type_name_primary :: "ExpressionNode parser" where
  "type_name_primary = bindp next_token (\<lambda>typeTok. look tok (\<lambda>t.
     if t = TokenLParen then report typeTok ''type-as-conversion'' else report typeTok ''type-as-expression''))"

definition dereference_primary :: "parsers \<Rightarrow> nat \<Rightarrow> ExpressionNode parser" where
  "dereference_primary P depth = bindp next_token (\<lambda>_. bindp (rec_unary P (depth + 1)) (\<lambda>operand.
     if is_value_node operand then ret (DereferenceNode operand)
     else look current_token (\<lambda>t. report t ''deref-value-required'')))"

definition primary :: "parsers \<Rightarrow> nat \<Rightarrow> ExpressionNode parser" where
  "primary P depth = look tok (\<lambda>t.
     if t = TokenLogicalNot then
       bindp next_token (\<lambda>_. bindp (rec_unary P (depth + 1)) (\<lambda>e. ret (UnaryExpressionNode TokenLogicalNot e)))
     else if t = TokenMinus then
       bindp next_token (\<lambda>_. bindp (rec_unary P (depth + 1)) (\<lambda>e. ret (UnaryExpressionNode TokenMinus e)))
     else if t = TokenStar then dereference_primary P depth
     else if t = TokenLParen then
       bindp next_token (\<lambda>_. bindp (rec_expr P 0 (depth + 1)) (\<lambda>e. bindp (expect TokenRParen) (\<lambda>_. ret e)))
     else if t = TokenLBracket then
       bindp (tryParseSliceConversion P) (\<lambda>conv. case conv of Some e \<Rightarrow> ret e | None \<Rightarrow> rec_value P)
     else if t = TokenFunc then parseFunctionLiteral P
     else if t = TokenIdentifier then parseIdentifierPrimary P
     else if t \<in> {TokenInt, TokenString, TokenBool, TokenFloat} then type_name_primary
     else if t = TokenNil then bindp next_token (\<lambda>_. ret NilLiteralNode)
     else if t = TokenIota then bindp next_token (\<lambda>_. ret IotaLiteralNode)
     else rec_value P)"

definition parseUnaryOrPrimary :: "parsers \<Rightarrow> nat \<Rightarrow> ExpressionNode parser" where
  "parseUnaryOrPrimary P depth =
     (if depth > MaxExpressionDepth then too_deep else bindp (primary P depth) (parsePostfixSuffixChain P))"

end
