(* ===== verification/Parser_Stmt.thy ===== *)
theory Parser_Stmt
  imports Parser_Expr
begin

text \<open>
  \<open>internal/parser\<close>: assignments and variables (\<open>assignment.go\<close>, \<open>deref_assign.go\<close>, \<open>declaration.go\<close>,
  \<open>var.go\<close>), ensure statements (\<open>ensure.go\<close>), control flow (\<open>control_flow.go\<close>, \<open>for.go\<close>, \<open>switch.go\<close>,
  \<open>goto.go\<close>), providers (\<open>use.go\<close>, \<open>with.go\<close>), return statements (\<open>function.go\<close>), and the statements of a
  block (\<open>statement.go\<close>, \<open>block.go\<close>). Recursive calls are fields of the record \<open>parsers\<close>.
\<close>

section \<open>Trying\<close>

text \<open>\<open>recover\<close>: a panic becomes \<open>None\<close>. \<open>log.Fatal\<close> ends the process and is not caught.\<close>

definition recovered :: "'a parser \<Rightarrow> 'a option parser" where
  "recovered m p =
     (case m p of
        Inl e \<Rightarrow> (case e of OutOfFuel \<Rightarrow> Inl e | FatalLog _ _ \<Rightarrow> Inl e | _ \<Rightarrow> Inr (None, p))
      | Inr (x, p') \<Rightarrow> Inr (Some x, p'))"

text \<open>\<open>saved := p.currentIndex; ...; p.currentIndex = saved\<close>.\<close>

definition peeking :: "'a parser \<Rightarrow> 'a parser" where
  "peeking m p = (case m p of Inl e \<Rightarrow> Inl e | Inr (x, p') \<Rightarrow> Inr (x, p))"

definition failure :: "Token \<Rightarrow> go_string \<Rightarrow> 'a parser" where
  "failure t msg = fail_with (ParseFailure t msg)"

section \<open>Variables (var.go, declaration.go)\<close>

definition var_assignment :: "ExpressionNode \<Rightarrow> ExpressionNode option list \<Rightarrow> TypeNode option list \<Rightarrow> AssignmentNode" where
  "var_assignment lhs rhs tys =
     \<lparr>LValues = [lhs], RValues = rhs, ExplicitTypes = tys, IsShort = False, CompoundOp = None, IsPackageLevel = False\<rparr>"

definition is_nil :: "ExpressionNode \<Rightarrow> bool" where
  "is_nil e = (case e of NilLiteralNode \<Rightarrow> True | _ \<Rightarrow> False)"

text \<open>An initialiser after a type: only the kind of the token is compared, and \<open>==\<close> has the same kind.\<close>

definition optional_init :: "parsers \<Rightarrow> ExpressionNode option list parser" where
  "optional_init P = look tok (\<lambda>t.
     if t = TokenEquals then bindp next_token (\<lambda>_. bindp (parseExpression P) (\<lambda>e. ret [Some e])) else ret [])"

definition typed_var :: "parsers \<Rightarrow> Token \<Rightarrow> AssignmentNode parser" where
  "typed_var P ident = bindp (rec_type P True) (\<lambda>ty. bindp (optional_init P) (\<lambda>rhs.
     ret (var_assignment (VariableNode (Value ident) ty) rhs [Some ty])))"

definition parseVarStatement :: "parsers \<Rightarrow> AssignmentNode parser" where
  "parseVarStatement P = bindp next_token (\<lambda>_. bindp (expect TokenIdentifier) (\<lambda>ident. look tok (\<lambda>t.
     if t = TokenColon then bindp next_token (\<lambda>_. typed_var P ident)
     else if t = TokenEquals then
       bindp next_token (\<lambda>_. bindp (parseExpression P) (\<lambda>rvalue.
         if is_nil rvalue then report ident ''var-nil-type-required''
         else ret (var_assignment (variable (Value ident)) [Some rvalue] [])))
     else typed_var P ident)))"

definition parsePackageVarDeclaration :: "parsers \<Rightarrow> AssignmentNode parser" where
  "parsePackageVarDeclaration P = bindp (parseVarStatement P) (\<lambda>node. ret (node\<lparr>IsPackageLevel := True\<rparr>))"

text \<open>Without an initialiser the only right-hand side is a nil expression.\<close>

definition parseVarDeclaration :: "parsers \<Rightarrow> AssignmentNode parser" where
  "parseVarDeclaration P = bindp (expect TokenIdentifier) (\<lambda>ident. bindp (expect TokenColon) (\<lambda>_.
     bindp (rec_type P False) (\<lambda>ty. bindp (optional_init P) (\<lambda>rhs.
     ret (var_assignment (variable (Value ident)) (if rhs = [] then [None] else rhs) [Some ty])))))"

section \<open>Assignments (assignment.go, deref\_assign.go)\<close>

definition is_index :: "ExpressionNode \<Rightarrow> bool" where
  "is_index e = (case e of IndexExpressionNode _ _ \<Rightarrow> True | _ \<Rightarrow> False)"

definition is_variable :: "ExpressionNode \<Rightarrow> bool" where
  "is_variable e = (case e of VariableNode _ _ \<Rightarrow> True | _ \<Rightarrow> False)"

definition is_dereference :: "ExpressionNode \<Rightarrow> bool" where
  "is_dereference e = (case e of DereferenceNode _ \<Rightarrow> True | _ \<Rightarrow> False)"

definition assignable :: "ExpressionNode \<Rightarrow> bool" where
  "assignable e \<longleftrightarrow> is_variable e \<or> is_index e \<or> is_dereference e"

definition parseAssignableExpr :: "parsers \<Rightarrow> ExpressionNode parser" where
  "parseAssignableExpr P = look current_token (\<lambda>t.
     if Type t \<noteq> TokenIdentifier then failure t ''expected identifier''
     else bindp (parseIdentifierPrimary P) (parseIndexSuffixChain P))"

definition check_target :: "ExpressionNode \<Rightarrow> TypeNode option \<Rightarrow> Token \<Rightarrow> unit parser" where
  "check_target lhs explicitType t =
     (if Type t = TokenColonEquals then (if is_variable lhs then ret () else report t ''assign-short-non-var'')
      else if IsCompoundAssignToken (Type t) then
        (if explicitType \<noteq> None then report t ''assign-compound-typed''
         else if assignable lhs then ret () else report t ''assign-compound-lhs'')
      else if Type t = TokenEquals then (if assignable lhs then ret () else report t ''assign-lhs'')
      else ret ())"

definition annotated_target :: "parsers \<Rightarrow> ExpressionNode \<Rightarrow> (ExpressionNode \<times> TypeNode option) parser" where
  "annotated_target P lhs = look tok (\<lambda>t.
     case lhs of
       VariableNode x _ \<Rightarrow>
         if t = TokenColon
         then bindp next_token (\<lambda>_. bindp (rec_type P False) (\<lambda>ty. ret (VariableNode x ty, Some ty)))
         else ret (lhs, None)
     | _ \<Rightarrow> ret (lhs, None))"

definition finishAssignment :: "parsers \<Rightarrow> ExpressionNode \<Rightarrow> AssignmentNode parser" where
  "finishAssignment P lhs = look current_token (\<lambda>t.
     if is_index lhs \<and> Type t = TokenColon then report t ''assign-indexed-type''
     else bindp (annotated_target P lhs) (\<lambda>(lhs, explicitType). look current_token (\<lambda>assignToken.
       if \<not> IsAssignmentOperatorToken assignToken
       then failure assignToken ''Expected assignment or short assignment operator''
       else bindp (check_target lhs explicitType assignToken) (\<lambda>_. bindp next_token (\<lambda>_.
         bindp (parseExpression P) (\<lambda>e.
           ret \<lparr>LValues = [lhs], RValues = [Some e], ExplicitTypes = [explicitType],
                IsShort = (Type assignToken = TokenColonEquals),
                CompoundOp = (if IsCompoundAssignToken (Type assignToken) then Some (Type assignToken) else None),
                IsPackageLevel = False\<rparr>))))))"

definition parseAssignment :: "parsers \<Rightarrow> AssignmentNode parser" where
  "parseAssignment P = bindp (parseAssignableExpr P) (finishAssignment P)"

definition parseMultipleAssignment :: "parsers \<Rightarrow> AssignmentNode parser" where
  "parseMultipleAssignment P = bindp (expect TokenIdentifier) (\<lambda>first. bindp (expect TokenComma) (\<lambda>_.
     bindp (expect TokenIdentifier) (\<lambda>second. look current_token (\<lambda>assignToken.
       if Type assignToken \<noteq> TokenEquals \<and> Type assignToken \<noteq> TokenColonEquals
       then failure assignToken ''Expected assignment or short assignment operator''
       else bindp next_token (\<lambda>_. bindp (comma_separated (parseExpression P)) (\<lambda>es.
         ret \<lparr>LValues = [variable (Value first), variable (Value second)], RValues = map Some es,
              ExplicitTypes = [None, None], IsShort = (Type assignToken = TokenColonEquals), CompoundOp = None,
              IsPackageLevel = False\<rparr>))))))"

text \<open>The stars in front of a target, as their number.\<close>

definition stars :: "nat parser" where
  "stars = loop_until (\<lambda>_ p. tok p \<noteq> TokenStar) (\<lambda>n. bindp next_token (\<lambda>_. ret (Suc n))) 0"

definition parseDerefAssignableExpr :: "parsers \<Rightarrow> ExpressionNode option parser" where
  "parseDerefAssignableExpr P = look tok (\<lambda>t.
     if t \<noteq> TokenStar then ret None
     else bindp stars (\<lambda>depth. bindp (parseIdentifierPrimary P) (\<lambda>base. bindp (parseIndexSuffixChain P base) (\<lambda>base.
       ret (if is_value_node base then Some ((DereferenceNode ^^ depth) base) else None)))))"

section \<open>Providers and return (use.go, with.go, function.go)\<close>

definition has_question_mark :: "go_string \<Rightarrow> bool" where
  "has_question_mark s \<longleftrightarrow> CHR ''?'' \<in> set s"

definition use_binding :: "Identifier option parser" where
  "use_binding = look (\<lambda>p. (tok p, Type (peek 1 p))) (\<lambda>(t, nxt).
     if t = TokenIdentifier \<and> nxt = TokenColon then
       bindp (expect TokenIdentifier) (\<lambda>nameTok.
         if has_question_mark (Value nameTok) then report nameTok ''use-optional-unsupported''
         else bindp (expect TokenColon) (\<lambda>_. ret (Some (Value nameTok))))
     else ret None)"

definition parseUseStatement :: "parsers \<Rightarrow> Node parser" where
  "parseUseStatement P = bindp next_token (\<lambda>_. look current_token (\<lambda>t.
     if has_question_mark (Value t) then report t ''use-optional-unsupported''
     else bindp use_binding (\<lambda>binding. bindp (rec_type P False) (\<lambda>contractType. bindp prev_token (\<lambda>endTok.
       if has_question_mark (TypeIdent_String (TIdent contractType)) then report endTok ''use-optional-unsupported''
       else ret (UseNode binding contractType))))))"

definition with_wiring :: "parsers \<Rightarrow> ExpressionNode parser" where
  "with_wiring P = look (\<lambda>p. (current_token p, Type (peek 1 p))) (\<lambda>(t, nxt).
     if Type t = TokenLBrace then bindp (rec_shape_literal P None False) (\<lambda>s. ret (ShapeExpr s))
     else if Type t = TokenIdentifier \<and> nxt = TokenLBrace then report t ''with-wiring''
     else parseExpression P)"

definition parseWithStatement :: "parsers \<Rightarrow> Node parser" where
  "parseWithStatement P = bindp next_token (\<lambda>_. bindp (with_wiring P) (\<lambda>wiring. look current_token (\<lambda>t.
     if Type t \<noteq> TokenLBrace then report t ''with-body''
     else bindp (rec_block P) (\<lambda>body. bindp prev_token (\<lambda>_. ret (WithNode wiring body))))))"

definition parseReturnStatement :: "parsers \<Rightarrow> Node parser" where
  "parseReturnStatement P = bindp next_token (\<lambda>_. look tok (\<lambda>t.
     bindp (if t \<noteq> TokenSemicolon \<and> t \<noteq> TokenRBrace then comma_separated (parseExpression P) else ret []) (\<lambda>values.
       ret (ReturnNode values (plain_type TypeImplicit)))))"

section \<open>Ensure statements (ensure.go)\<close>

definition ensureStatementContinuesWithoutIs :: "Token \<Rightarrow> bool" where
  "ensureStatementContinuesWithoutIs t \<longleftrightarrow>
     Type t \<in> {TokenElse, TokenRBrace, TokenEOF, TokenEnsure, TokenReturn, TokenIf, TokenFor, TokenSwitch, TokenDefer,
       TokenGo, TokenVar, TokenConst, TokenType, TokenFunc, TokenBreak, TokenContinue, TokenFallthrough, TokenGoto,
       TokenIdentifier}"

definition parseEnsureBlock :: "parsers \<Rightarrow> Node list option parser" where
  "parseEnsureBlock P = look tok (\<lambda>t.
     if t \<noteq> TokenLBrace then ret None else bindp (rec_block P) (\<lambda>body. ret (Some body)))"

definition undotted :: "go_string \<Rightarrow> bool" where
  "undotted s \<longleftrightarrow> CHR ''.'' \<notin> set s"

definition ensure_error_of :: "ExpressionNode \<Rightarrow> EnsureErrorNode" where
  "ensure_error_of e =
     (case e of
        FunctionCallNode x _ _ args \<Rightarrow> if x \<noteq> [] \<and> undotted x then EnsureErrorCall x args else EnsureErrorExpr (Some e)
      | VariableNode x _ \<Rightarrow> if undotted x then EnsureErrorVar x else EnsureErrorExpr (Some e)
      | _ \<Rightarrow> EnsureErrorExpr (Some e))"

definition parseEnsureError :: "parsers \<Rightarrow> EnsureErrorNode parser" where
  "parseEnsureError P = bindp (parseExpression P) (\<lambda>e. ret (ensure_error_of e))"

text \<open>A place or a call; the loop over selectors ends at a method call.\<close>

definition subject_step :: "parsers \<Rightarrow> Identifier + ExpressionNode \<Rightarrow> (Identifier + ExpressionNode) parser" where
  "subject_step P s = bindp next_token (\<lambda>_. bindp (expect TokenIdentifier) (\<lambda>nextTok. look tok (\<lambda>t.
     case s of
       Inl cur \<Rightarrow>
         if t = TokenLParen
         then bindp (call_suffix P (MethodCallNode (variable cur) (Value nextTok))) (\<lambda>e. ret (Inr e))
         else ret (Inl (cur @ ''.'' @ Value nextTok))
     | Inr e \<Rightarrow> ret (Inr e))))"

definition parseEnsureSubject :: "parsers \<Rightarrow> (Identifier + ExpressionNode) parser" where
  "parseEnsureSubject P = bindp (expect TokenIdentifier) (\<lambda>firstTok. look tok (\<lambda>t.
     if t = TokenLParen then bindp (call_suffix P (FunctionCallNode (Value firstTok) None [])) (\<lambda>e. ret (Inr e))
     else loop_until (\<lambda>s p. case s of Inl _ \<Rightarrow> tok p \<noteq> TokenDot | Inr _ \<Rightarrow> True) (subject_step P) (Inl (Value firstTok))))"

text \<open>What is known before the failure part: subject, target, assertion, implicit form.\<close>

type_synonym ensure_head =
  "(Identifier + ExpressionNode) \<times> RefinementTarget option \<times> AssertionNode \<times> EnsureImplicitKind"

definition no_assertion :: AssertionNode where
  "no_assertion = AssertionNode None [] [] [] None"

definition ensure_bang :: "ensure_head parser" where
  "ensure_bang = bindp next_token (\<lambda>_. look (\<lambda>p. (current_token p, Type (peek 1 p))) (\<lambda>(t, nxt).
     if nxt = TokenLParen then report t ''ensure-negation-subject''
     else bindp next_token (\<lambda>v. look current_token (\<lambda>t.
       if Type t = TokenIs then report t ''ensure-bang-is''
       else ret (Inl (Value v), None, no_assertion, EnsureImplicitBang)))))"

text \<open>The base type of an assertion about a variable the parser has a type for.\<close>

definition scope_base_type :: "ParserScope \<Rightarrow> Identifier + ExpressionNode \<Rightarrow> AssertionNode \<Rightarrow> AssertionNode" where
  "scope_base_type s subject a =
     (case subject of
        Inr _ \<Rightarrow> a
      | Inl x \<Rightarrow>
        if BaseType a \<noteq> None \<or> \<not> undotted x then a
        else case ScopeVariables s x of
               None \<Rightarrow> a
             | Some ty \<Rightarrow> AssertionNode (Some (TIdent ty)) (Constraints a) (OrChains a) (ATypeParams a) (AArrayLen a))"

definition ensure_is :: "parsers \<Rightarrow> Identifier + ExpressionNode \<Rightarrow> ensure_head parser" where
  "ensure_is P subject = bindp (expect TokenIs) (\<lambda>_. look current_token (\<lambda>t.
     if Type t = TokenTrue \<or> Type t = TokenFalse then report t ''ensure-boolean-literal''
     else bindp (parseRefinementTarget P) (\<lambda>(target, a). look CurrentScope (\<lambda>s.
       ret (subject, Some target, scope_base_type s subject a, EnsureImplicitNone)))))"

definition ensure_place :: "parsers \<Rightarrow> ensure_head parser" where
  "ensure_place P = look current_token (\<lambda>t.
     if Type t \<in> {TokenStringLiteral, TokenIntLiteral, TokenFloatLiteral, TokenRuneLiteral, TokenTrue, TokenFalse, TokenNil,
                  TokenLParen} then report t ''refinement-non-place-subject''
     else if Type t \<noteq> TokenIdentifier then report t ''ensure-missing-is''
     else bindp (parseEnsureSubject P) (\<lambda>subject. look current_token (\<lambda>t.
       if Type t = TokenIs then ensure_is P subject
       else if IsArithmeticBinaryOperator (Type t) \<or> IsComparisonBinaryOperator (Type t) \<or> Type t = TokenLogicalOr \<or>
               Type t = TokenLogicalAnd then report t ''refinement-non-place-subject''
       else if Type t = TokenOr then report t ''ensure-missing-is''
       else if ensureStatementContinuesWithoutIs t then ret (subject, None, no_assertion, EnsureImplicitBare)
       else report t ''ensure-missing-is'')))"

definition ensure_failure :: "parsers \<Rightarrow> (EnsureErrorNode option \<times> Node list option) parser" where
  "ensure_failure P = look (\<lambda>p. (current_token p, Type (peek 1 p), IsTypeGuard p, IsMainFunction p)) (\<lambda>(t, nxt, inGuard, inMain).
     if Type t = TokenElse then
       if nxt = TokenIf then ret (None, None)
       else bindp next_token (\<lambda>elseTok. look tok (\<lambda>t.
         if t = TokenLBrace then
           if inGuard then report elseTok ''refinement-failure-block-in-guard''
           else bindp (parseEnsureBlock P) (\<lambda>block. ret (None, block))
         else if inGuard then report elseTok ''refinement-else-in-guard''
         else if inMain then report elseTok ''refinement-else-in-main''
         else bindp (parseEnsureError P) (\<lambda>err. look current_token (\<lambda>t.
           if Type t = TokenLBrace then report t ''refinement-else-and-block'' else ret (Some err, None)))))
     else if Type t = TokenLBrace then
       (if inGuard then report t ''refinement-failure-block-in-guard'' else report t ''refinement-bare-ensure-block'')
     else ret (None, None))"

definition ensure_node :: "ensure_head \<Rightarrow> EnsureErrorNode option \<Rightarrow> Node list option \<Rightarrow> EnsureNode" where
  "ensure_node h err block =
     (case h of (subject, target, a, implicit) \<Rightarrow>
        EnsureNode (case subject of Inl x \<Rightarrow> x | Inr _ \<Rightarrow> []) (case subject of Inl _ \<Rightarrow> None | Inr e \<Rightarrow> Some e)
          target a implicit err block)"

definition parseEnsureStatement :: "parsers \<Rightarrow> EnsureNode parser" where
  "parseEnsureStatement P = bindp next_token (\<lambda>_. look (\<lambda>p. (tok p, Type (peek 1 p))) (\<lambda>(t, nxt).
     bindp (if t = TokenLogicalNot \<and> nxt = TokenIdentifier then ensure_bang else ensure_place P) (\<lambda>head.
     bindp (ensure_failure P) (\<lambda>(err, block). look current_token (\<lambda>t.
       if Type t = TokenElse \<and> block \<noteq> None then report t ''refinement-else-and-block''
       else if Type t = TokenOr \<and> err = None \<and> block = None then report t ''refinement-legacy-failure-or''
       else ret (ensure_node head err block))))))"

end
