(* ===== verification/Parser_Block.thy ===== *)
theory Parser_Block
  imports Parser_Stmt
begin

text \<open>
  \<open>internal/parser\<close>: if statements and simple statements (\<open>control_flow.go\<close>), loops (\<open>for.go\<close>), switches
  (\<open>switch.go\<close>), labels (\<open>goto.go\<close>), and the statements of a block (\<open>statement.go\<close>, \<open>block.go\<close>).
\<close>

section \<open>Simple statements (control\_flow.go)\<close>

definition inc_dec :: "Token \<Rightarrow> TokenIdent \<Rightarrow> Node" where
  "inc_dec ident op = ExprStmt (UnaryExpressionNode op (variable (Value ident)))"

definition parseIncDecStmt :: "Node parser" where
  "parseIncDecStmt = bindp (expect TokenIdentifier) (\<lambda>ident. look (\<lambda>p. (current_token p, Type (peek 1 p))) (\<lambda>(op, nxt).
     if Type op = TokenPlusPlus then bindp next_token (\<lambda>_. ret (inc_dec ident TokenPlusPlus))
     else if Type op = TokenMinusMinus then bindp next_token (\<lambda>_. ret (inc_dec ident TokenMinusMinus))
     else if Type op = TokenPlus \<and> nxt = TokenPlus then
       bindp next_token (\<lambda>_. bindp next_token (\<lambda>_. ret (inc_dec ident TokenPlusPlus)))
     else if Type op = TokenMinus \<and> nxt = TokenMinus then
       bindp next_token (\<lambda>_. bindp next_token (\<lambda>_. ret (inc_dec ident TokenMinusMinus)))
     else failure op ''Expected ++ or --''))"

definition parseSendStmt :: "parsers \<Rightarrow> Node parser" where
  "parseSendStmt P = bindp (expect TokenIdentifier) (\<lambda>ident. bindp (expect TokenArrow) (\<lambda>_.
     bindp (parseExpression P) (\<lambda>value. ret (ExprStmt (BinaryExpressionNode (variable (Value ident)) TokenArrow value)))))"

text \<open>
  The test for an increment: the second condition reads \<open>p.peek(1)\<close>, which is \<open>next\<close> itself and not
  the token after it, so a single plus or minus passes it too.
\<close>

definition inc_dec_follows :: "Token \<Rightarrow> Token \<Rightarrow> bool" where
  "inc_dec_follows next peek1 \<longleftrightarrow>
     Type next = TokenPlusPlus \<or> Type next = TokenMinusMinus \<or>
     (Type next = TokenPlus \<and> Type peek1 = TokenPlus) \<or> (Type next = TokenMinus \<and> Type peek1 = TokenMinus)"

definition expression_stmt :: "parsers \<Rightarrow> Node parser" where
  "expression_stmt P = bindp (parseExpression P) (\<lambda>e. ret (ExprStmt e))"

definition parseSimpleStatement :: "parsers \<Rightarrow> Node parser" where
  "parseSimpleStatement P = look (\<lambda>p. (tok p, peek 1 p)) (\<lambda>(t, next).
     if t = TokenVar then bindp (parseVarStatement P) (\<lambda>a. ret (AssignStmt a))
     else if t = TokenIdentifier then
       if Type next = TokenColonEquals \<or> (Type next = TokenEquals \<and> Value next = ''='') \<or> IsCompoundAssignToken (Type next)
       then bindp (parseAssignment P) (\<lambda>a. ret (AssignStmt a))
       else if inc_dec_follows next next then parseIncDecStmt
       else if Type next = TokenArrow then parseSendStmt P
       else expression_stmt P
     else expression_stmt P)"

definition call_statement :: "parsers \<Rightarrow> (ExpressionNode \<Rightarrow> Node) \<Rightarrow> go_string \<Rightarrow> Node parser" where
  "call_statement P mk code = bindp next_token (\<lambda>_. look current_token (\<lambda>t.
     if Type t = TokenLParen then report t code else bindp (parseExpression P) (\<lambda>call. ret (mk call))))"

definition parseDeferStatement :: "parsers \<Rightarrow> Node parser" where
  "parseDeferStatement P = call_statement P DeferNode ''defer-parenthesized''"

definition parseGoStatement :: "parsers \<Rightarrow> Node parser" where
  "parseGoStatement P = call_statement P GoStmtNode ''go-parenthesized''"

section \<open>If statements (control\_flow.go)\<close>

definition semicolon_after :: "go_string \<Rightarrow> 'a parser \<Rightarrow> 'a parser" where
  "semicolon_after what m = bindp m (\<lambda>x. look current_token (\<lambda>t.
     if Type t = TokenSemicolon then bindp next_token (\<lambda>_. ret x) else failure t what))"

definition if_init :: "parsers \<Rightarrow> Node option parser" where
  "if_init P = look (\<lambda>p. (tok p, peek 1 p)) (\<lambda>(t, next).
     let simple = (\<lambda>m. semicolon_after ''Expected semicolon after initialization statement'' (bindp m (\<lambda>n. ret (Some n)))) in
     if t = TokenVar then
       bindp next_token (\<lambda>_. semicolon_after ''Expected semicolon after var declaration''
         (bindp (parseVarDeclaration P) (\<lambda>a. ret (Some (AssignStmt a)))))
     else if t = TokenIdentifier then
       if Type next = TokenColonEquals \<or> (Type next = TokenEquals \<and> Value next = ''='')
       then simple (bindp (parseAssignment P) (\<lambda>a. ret (AssignStmt a)))
       else if Type next = TokenPlusPlus \<or> Type next = TokenMinusMinus then simple parseIncDecStmt
       else if Type next = TokenArrow then simple (parseSendStmt P)
       else ret None
     else ret None)"

definition condition_and_block :: "parsers \<Rightarrow> go_string \<Rightarrow> (Node \<times> Node list) parser" where
  "condition_and_block P msg = bindp (parseExpression P) (\<lambda>c. look current_token (\<lambda>t.
     if Type t \<noteq> TokenLBrace then failure t msg else bindp (rec_block P) (\<lambda>body. ret (ExprStmt c, body))))"

definition else_step ::
  "parsers \<Rightarrow> (Node \<times> Node list) list \<times> Node list option \<Rightarrow> ((Node \<times> Node list) list \<times> Node list option) parser" where
  "else_step P s = bindp next_token (\<lambda>_. look tok (\<lambda>t.
     if t = TokenIf then
       bindp next_token (\<lambda>_. bindp (condition_and_block P ''Expected { after else-if condition'') (\<lambda>b. ret (fst s @ [b], snd s)))
     else bindp (rec_block P) (\<lambda>body. ret (fst s, Some body))))"

definition parseIfStatement :: "parsers \<Rightarrow> Node parser" where
  "parseIfStatement P = bindp next_token (\<lambda>_. bindp (if_init P) (\<lambda>init.
     bindp (condition_and_block P ''Expected { after if condition'') (\<lambda>(c, body).
     bindp (loop_until (\<lambda>s p. snd s \<noteq> None \<or> tok p \<noteq> TokenElse) (else_step P) ([], None)) (\<lambda>(elseIfs, els).
     ret (IfStmt (IfNode c body elseIfs els init))))))"

section \<open>Loops (for.go)\<close>

datatype forHeaderKind = forHeaderCond | forHeaderThree | forHeaderRange

definition header_kind :: "nat \<Rightarrow> bool \<Rightarrow> forHeaderKind" where
  "header_kind semi hasRange = (if semi > 0 then forHeaderThree else if hasRange then forHeaderRange else forHeaderCond)"

fun classify_header :: "nat \<Rightarrow> nat \<Rightarrow> bool \<Rightarrow> Token list \<Rightarrow> forHeaderKind" where
  "classify_header depth semi hasRange [] = header_kind semi hasRange"
| "classify_header depth semi hasRange (t # ts) =
     (if Type t = TokenEOF then header_kind semi hasRange
      else if Type t = TokenLParen then classify_header (Suc depth) semi hasRange ts
      else if Type t = TokenRParen then classify_header (depth - 1) semi hasRange ts
      else if Type t = TokenSemicolon then classify_header depth (if depth = 0 then Suc semi else semi) hasRange ts
      else if Type t = TokenRange then classify_header depth semi (depth = 0 \<or> hasRange) ts
      else if Type t = TokenLBrace \<and> depth = 0 then header_kind semi hasRange
      else classify_header depth semi hasRange ts)"

definition classifyForHeader :: "Parser \<Rightarrow> forHeaderKind" where
  "classifyForHeader p = classify_header 0 0 False (drop (currentIndex p) (ptokens p))"

text \<open>\<open>parseForConditionExpression\<close> and \<open>parseRangeExpression\<close> have the same body.\<close>

definition parseForConditionExpression :: "parsers \<Rightarrow> ExpressionNode parser" where
  "parseForConditionExpression P = look (\<lambda>p. (tok p, Type (peek 1 p))) (\<lambda>(t, nxt).
     if t = TokenIdentifier \<and> nxt = TokenLBrace then bindp parseIdentifier (\<lambda>x. ret (variable x)) else parseExpression P)"

definition parseRangeExpression :: "parsers \<Rightarrow> ExpressionNode parser" where
  "parseRangeExpression P = look (\<lambda>p. (tok p, Type (peek 1 p))) (\<lambda>(t, nxt).
     if t = TokenIdentifier \<and> nxt = TokenLBrace then bindp parseIdentifier (\<lambda>x. ret (variable x)) else parseExpression P)"

definition unless :: "TokenIdent \<Rightarrow> 'a parser \<Rightarrow> 'a option parser" where
  "unless stop m = look tok (\<lambda>t. if t = stop then ret None else bindp m (\<lambda>x. ret (Some x)))"

definition parseForThreeClause :: "parsers \<Rightarrow> ForNode parser" where
  "parseForThreeClause P =
     bindp (unless TokenSemicolon (parseSimpleStatement P)) (\<lambda>init. bindp (expect TokenSemicolon) (\<lambda>_.
     bindp (unless TokenSemicolon (parseForConditionExpression P)) (\<lambda>cond. bindp (expect TokenSemicolon) (\<lambda>_.
     bindp (unless TokenLBrace (parseSimpleStatement P)) (\<lambda>post. bindp (rec_block P) (\<lambda>body.
     ret (ForNode None init cond post False None None None False body)))))))"

definition range_value :: "Identifier option parser" where
  "range_value = look tok (\<lambda>t.
     if t = TokenComma then bindp next_token (\<lambda>_. bindp (expect TokenIdentifier) (\<lambda>v. ret (Some (Value v)))) else ret None)"

definition parseForRangeClause :: "parsers \<Rightarrow> ForNode parser" where
  "parseForRangeClause P = look tok (\<lambda>t.
     if t = TokenRange then
       bindp next_token (\<lambda>_. bindp (parseRangeExpression P) (\<lambda>x. bindp (rec_block P) (\<lambda>body.
         ret (ForNode None None None None True (Some x) None None False body))))
     else bindp (expect TokenIdentifier) (\<lambda>first. bindp range_value (\<lambda>val. look current_token (\<lambda>assignTok.
       if Type assignTok \<noteq> TokenColonEquals \<and> Type assignTok \<noteq> TokenEquals
       then failure assignTok ''expected := or = before range''
       else bindp next_token (\<lambda>_. bindp (expect TokenRange) (\<lambda>_. bindp (parseRangeExpression P) (\<lambda>x.
         bindp (rec_block P) (\<lambda>body.
           ret (ForNode None None None None True (Some x) (Some (Value first)) val (Type assignTok = TokenColonEquals) body))))))))) "

definition parseForStatement :: "parsers \<Rightarrow> Node parser" where
  "parseForStatement P = bindp next_token (\<lambda>_. look (\<lambda>p. (tok p, classifyForHeader p)) (\<lambda>(t, kind).
     bindp
       (if t = TokenLBrace then
          bindp (rec_block P) (\<lambda>body. ret (ForNode None None None None False None None None False body))
        else case kind of
               forHeaderThree \<Rightarrow> parseForThreeClause P
             | forHeaderRange \<Rightarrow> parseForRangeClause P
             | forHeaderCond \<Rightarrow>
                 bindp (parseForConditionExpression P) (\<lambda>cond. bindp (rec_block P) (\<lambda>body.
                   ret (ForNode None None (Some cond) None False None None None False body))))
       (\<lambda>f. ret (ForStmt f))))"

definition label_after :: "(Identifier option \<Rightarrow> Node) \<Rightarrow> Node parser" where
  "label_after mk = bindp next_token (\<lambda>_. look tok (\<lambda>t.
     if t = TokenIdentifier then bindp (expect TokenIdentifier) (\<lambda>l. ret (mk (Some (Value l)))) else ret (mk None)))"

definition parseBreakStatement :: "Node parser" where
  "parseBreakStatement = label_after BreakNode"

definition parseContinueStatement :: "Node parser" where
  "parseContinueStatement = label_after ContinueNode"

section \<open>Switches (switch.go)\<close>

definition switchHeaderContainsTypeSwitch :: "Parser \<Rightarrow> bool" where
  "switchHeaderContainsTypeSwitch p =
     list_ex (\<lambda>i. Value (ptokens p ! i) = ''type'' \<and> i \<ge> 2 \<and> Value (ptokens p ! (i - 1)) = ''('' \<and> Value (ptokens p ! (i - 2)) = ''.'')
       (takeWhile (\<lambda>i. Type (ptokens p ! i) \<noteq> TokenLBrace) [currentIndex p ..< length (ptokens p)])"

definition switch_init :: "parsers \<Rightarrow> Node option parser" where
  "switch_init P = look (\<lambda>p. (tok p, Type (peek 1 p))) (\<lambda>(t, nxt).
     let after = semicolon_after (''expected '' @ [CHR 0x27] @ '';'' @ [CHR 0x27] @ '' after switch init statement'') in
     if t = TokenVar then bindp next_token (\<lambda>_. after (bindp (parseVarDeclaration P) (\<lambda>a. ret (Some (AssignStmt a)))))
     else if t = TokenIdentifier \<and> nxt = TokenColonEquals
     then after (bindp (parseAssignment P) (\<lambda>a. ret (Some (AssignStmt a))))
     else ret None)"

definition parseSwitchCaseValues :: "parsers \<Rightarrow> ExpressionNode list parser" where
  "parseSwitchCaseValues P = comma_separated (parseExpression P)"

definition parseSwitchClauseBody :: "parsers \<Rightarrow> Node list parser" where
  "parseSwitchClauseBody P =
     loop_until (\<lambda>_ p. tok p \<in> {TokenCase, TokenDefault, TokenRBrace})
       (\<lambda>body. look tok (\<lambda>t.
          if t = TokenFallthrough then bindp next_token (\<lambda>_. ret (body @ [FallthroughNode]))
          else bindp (rec_statement P) (\<lambda>ns. ret (body @ ns)))) []"

definition switch_clause :: "parsers \<Rightarrow> SwitchClauseNode parser" where
  "switch_clause P = look current_token (\<lambda>t.
     if Type t = TokenCase then
       bindp next_token (\<lambda>_. bindp (parseSwitchCaseValues P) (\<lambda>values. bindp (expect TokenColon) (\<lambda>_.
         bindp (parseSwitchClauseBody P) (\<lambda>body. ret (SwitchClauseNode False values body)))))
     else if Type t = TokenDefault then
       bindp next_token (\<lambda>_. bindp (expect TokenColon) (\<lambda>_. bindp (parseSwitchClauseBody P) (\<lambda>body.
         ret (SwitchClauseNode True [] body))))
     else failure t ''expected case or default in switch'')"

definition parseSwitchClauses :: "parsers \<Rightarrow> SwitchClauseNode list parser" where
  "parseSwitchClauses P =
     loop_until (\<lambda>_ p. tok p = TokenRBrace) (\<lambda>cs. bindp (switch_clause P) (\<lambda>c. ret (cs @ [c]))) []"

definition parseSwitchStatement :: "parsers \<Rightarrow> Node parser" where
  "parseSwitchStatement P = bindp next_token (\<lambda>_. look (\<lambda>p. (current_token p, switchHeaderContainsTypeSwitch p)) (\<lambda>(t, tswitch).
     if tswitch then report t ''switch-type-unsupported''
     else bindp (switch_init P) (\<lambda>init. bindp (unless TokenLBrace (parseExpression P)) (\<lambda>tag.
       bindp (expect TokenLBrace) (\<lambda>_. bindp (parseSwitchClauses P) (\<lambda>clauses. bindp (expect TokenRBrace) (\<lambda>_.
         ret (SwitchNode init tag clauses))))))))"

section \<open>Labels (goto.go)\<close>

definition tryParseTypeThenAssignOp :: "parsers \<Rightarrow> bool parser" where
  "tryParseTypeThenAssignOp P = bindp (recovered (rec_type P False)) (\<lambda>ty. look tok (\<lambda>t.
     ret (ty \<noteq> None \<and> (t = TokenEquals \<or> t = TokenColonEquals))))"

definition looksLikeLabeledStatement :: "parsers \<Rightarrow> bool parser" where
  "looksLikeLabeledStatement P = look (\<lambda>p. (tok p, Type (peek 1 p), Type (peek 2 p))) (\<lambda>(t, nxt, afterColon).
     if t \<noteq> TokenIdentifier \<or> nxt \<noteq> TokenColon then ret False
     else if afterColon \<in> {TokenFor, TokenIf, TokenSwitch, TokenReturn, TokenBreak, TokenContinue, TokenGoto, TokenDefer,
                           TokenGo, TokenEnsure, TokenVar, TokenUse, TokenWith} then ret True
     else peeking (bindp next_token (\<lambda>_. bindp next_token (\<lambda>_. bindp (tryParseTypeThenAssignOp P) (\<lambda>isTyped. ret (\<not> isTyped))))))"

definition parseGotoStatement :: "Node parser" where
  "parseGotoStatement = bindp next_token (\<lambda>_. look current_token (\<lambda>t.
     if Type t \<noteq> TokenIdentifier then failure t ''expected label after goto''
     else bindp (expect TokenIdentifier) (\<lambda>l. ret (GotoNode (Value l)))))"

definition labeled :: "Identifier \<Rightarrow> Node \<Rightarrow> Node" where
  "labeled l s =
     (case s of
        ForStmt (ForNode _ i c po rng x k v sh b) \<Rightarrow> ForStmt (ForNode (Some l) i c po rng x k v sh b)
      | _ \<Rightarrow> LabeledStmtNode l s)"

definition parseLabeledStatement :: "parsers \<Rightarrow> Node parser" where
  "parseLabeledStatement P = bindp (expect TokenIdentifier) (\<lambda>idTok. bindp (expect TokenColon) (\<lambda>_.
     bindp (rec_statement P) (\<lambda>stmts.
       case stmts of [s] \<Rightarrow> ret (labeled (Value idTok) s) | _ \<Rightarrow> report idTok ''goto-label-body'')))"

section \<open>Statements of a block (statement.go, block.go)\<close>

definition outside_guard :: "go_string \<Rightarrow> Node parser \<Rightarrow> Node parser" where
  "outside_guard code m = look (\<lambda>p. (current_token p, IsTypeGuard p)) (\<lambda>(t, inGuard). if inGuard then report t code else m)"

text \<open>An assignable expression that an assignment operator or a type annotation follows; otherwise the index is put back.\<close>

definition assignment_target :: "parsers \<Rightarrow> ExpressionNode option parser" where
  "assignment_target P = attempt (bindp (parseAssignableExpr P) (\<lambda>lhs. look current_token (\<lambda>t.
     ret (if is_index lhs \<and> Type t = TokenColon then None
          else if IsAssignmentOperatorToken t \<or> (is_variable lhs \<and> Type t = TokenColon) then Some lhs else None))))"

definition deref_target :: "parsers \<Rightarrow> ExpressionNode option parser" where
  "deref_target P = attempt (bindp (parseDerefAssignableExpr P) (\<lambda>lhs. look current_token (\<lambda>t.
     ret (if IsAssignmentOperatorToken t then lhs else None))))"

definition assign_or_expression :: "parsers \<Rightarrow> ExpressionNode option parser \<Rightarrow> Node parser" where
  "assign_or_expression P target = bindp target (\<lambda>lhs.
     case lhs of
       Some lhs \<Rightarrow> bindp (finishAssignment P lhs) (\<lambda>a. ret (AssignStmt a))
     | None \<Rightarrow> expression_stmt P)"

definition identifier_statement :: "parsers \<Rightarrow> Node parser" where
  "identifier_statement P = look (peek 1) (\<lambda>next.
     bindp (if Type next = TokenColon then looksLikeLabeledStatement P else ret False) (\<lambda>label.
       if label then outside_guard ''typeguard-forbidden-label'' (parseLabeledStatement P)
       else if Type next = TokenComma then bindp (parseMultipleAssignment P) (\<lambda>a. ret (AssignStmt a))
       else if inc_dec_follows next next then parseIncDecStmt
       else if Type next = TokenArrow then parseSendStmt P
       else assign_or_expression P (assignment_target P)))"

definition block_statement :: "parsers \<Rightarrow> Node parser" where
  "block_statement P = look tok (\<lambda>t.
     if t = TokenVar then outside_guard ''typeguard-forbidden-var'' (bindp (parseVarStatement P) (\<lambda>a. ret (AssignStmt a)))
     else if t = TokenEnsure then bindp (parseEnsureStatement P) (\<lambda>e. ret (EnsureStmt e))
     else if t = TokenUse then outside_guard ''typeguard-forbidden-use'' (parseUseStatement P)
     else if t = TokenWith then outside_guard ''typeguard-forbidden-with'' (parseWithStatement P)
     else if t = TokenReturn then outside_guard ''typeguard-forbidden-return'' (parseReturnStatement P)
     else if t = TokenGoto then outside_guard ''typeguard-forbidden-goto'' parseGotoStatement
     else if t = TokenIdentifier then identifier_statement P
     else if t = TokenIf then parseIfStatement P
     else if t = TokenSwitch then outside_guard ''typeguard-forbidden-switch'' (parseSwitchStatement P)
     else if t = TokenFor then outside_guard ''typeguard-forbidden-for'' (parseForStatement P)
     else if t = TokenBreak then outside_guard ''typeguard-forbidden-break'' parseBreakStatement
     else if t = TokenContinue then outside_guard ''typeguard-forbidden-continue'' parseContinueStatement
     else if t = TokenDefer then outside_guard ''typeguard-forbidden-defer'' (parseDeferStatement P)
     else if t = TokenGo then outside_guard ''typeguard-forbidden-go'' (parseGoStatement P)
     else if t = TokenStar then assign_or_expression P (deref_target P)
     else expression_stmt P)"

definition parseBlockStatement :: "parsers \<Rightarrow> Node list parser" where
  "parseBlockStatement P = bindp (block_statement P) (\<lambda>n. ret [n])"

definition block_comments :: "Node list \<Rightarrow> Node list parser" where
  "block_comments = loop_until (\<lambda>_ p. tok p \<noteq> TokenComment) (\<lambda>body. bindp next_token (\<lambda>t. ret (body @ [CommentNode (Value t)])))"

text \<open>One round reads the comments and, unless the block ends after them, a statement.\<close>

definition block_step :: "parsers \<Rightarrow> Node list \<Rightarrow> Node list parser" where
  "block_step P body = bindp (block_comments body) (\<lambda>body. look tok (\<lambda>t.
     if t = TokenRBrace \<or> t = TokenEOF then ret body else bindp (rec_statement P) (\<lambda>ns. ret (body @ ns))))"

definition parseBlockWithClose :: "parsers \<Rightarrow> Node list parser" where
  "parseBlockWithClose P = bindp (expect TokenLBrace) (\<lambda>_.
     bindp (loop_until (\<lambda>_ p. tok p = TokenRBrace \<or> tok p = TokenEOF) (block_step P) []) (\<lambda>body.
     bindp (expect TokenRBrace) (\<lambda>_. ret body)))"

definition parseBlock :: "parsers \<Rightarrow> Node list parser" where
  "parseBlock P = rec_block P"

end
