(* ===== verification/Parser_File.thy ===== *)
theory Parser_File
  imports Parser_Block
begin

text \<open>
  \<open>internal/parser\<close>: imports (\<open>imports.go\<close>), type definitions (\<open>typedef.go\<close>), constants (\<open>const.go\<close>), functions
  (\<open>function.go\<close>), type guards (\<open>typeguard.go\<close>), the package clause (\<open>package.go\<close>) and the file
  (\<open>parse.go\<close>). The last section ties the recursive calls of all parsers together.
\<close>

section \<open>Imports and package (imports.go, package.go)\<close>

definition parsePackage :: "Decl parser" where
  "parsePackage = bindp (expect TokenPackage) (\<lambda>_. bindp (expect TokenIdentifier) (\<lambda>n.
     bindp (change (\<lambda>p. p\<lparr>Package := Some (Value n)\<rparr>)) (\<lambda>_. ret (PackageNode (Value n)))))"

definition has_prefix :: "go_string \<Rightarrow> go_string \<Rightarrow> bool" where
  "has_prefix s pre \<longleftrightarrow> take (length pre) s = pre"

definition isScriptImportPath :: "go_string \<Rightarrow> bool" where
  "isScriptImportPath path \<longleftrightarrow> has_prefix path ''./'' \<or> has_prefix path ''../'' \<or> has_prefix path ''@''"

definition isSingleSegmentImportPath :: "go_string \<Rightarrow> bool" where
  "isSingleSegmentImportPath path \<longleftrightarrow> path \<noteq> [] \<and> CHR ''/'' \<notin> set path"

definition allowsPostfixJSMarker :: "go_string \<Rightarrow> bool \<Rightarrow> bool" where
  "allowsPostfixJSMarker path inGroup =
     (if isScriptImportPath path then True else if inGroup \<and> isSingleSegmentImportPath path then False else True)"

definition unquoteImportPath :: "parsers \<Rightarrow> go_string \<Rightarrow> go_string" where
  "unquoteImportPath P raw = (case Unquote P raw of Some u \<Rightarrow> u | None \<Rightarrow> raw)"

definition import_alias :: "Identifier option parser" where
  "import_alias = look current_token (\<lambda>t.
     if Type t = TokenStar then report t ''import-star-removed''
     else if Type t = TokenDot then bindp next_token (\<lambda>_. ret (Some ''.''))
     else if Type t = TokenIdentifier then bindp next_token (\<lambda>_. ret (Some (Value t)))
     else ret None)"

definition import_marker :: "go_string \<Rightarrow> bool \<Rightarrow> bool parser" where
  "import_marker path inGroup = look current_token (\<lambda>t.
     if Type t = TokenIdentifier \<and> Value t = ''js'' \<and> allowsPostfixJSMarker path inGroup
     then bindp next_token (\<lambda>_. ret True)
     else if Type t = TokenIdentifier \<and> Value t = ''node'' \<and> allowsPostfixJSMarker path inGroup
     then report t ''import-node-removed''
     else ret False)"

definition parseImport :: "parsers \<Rightarrow> bool \<Rightarrow> ImportNode parser" where
  "parseImport P inGroup = bindp import_alias (\<lambda>alias'. bindp (expect TokenStringLiteral) (\<lambda>pathToken.
     let path = unquoteImportPath P (Value pathToken) in
     bindp (import_marker path inGroup) (\<lambda>js.
       ret \<lparr>ImportPath = path, ImportAlias = alias', SideEffectOnly = (alias' = Some ''_''), BridgeOptIn = js,
            BridgeOptInSource = (if js then ''import_js'' else [])\<rparr>)))"

definition parseImportGroup :: "parsers \<Rightarrow> ImportNode list parser" where
  "parseImportGroup P = bindp next_token (\<lambda>_.
     bindp (loop_until (\<lambda>_ p. tok p = TokenRParen) (\<lambda>is. bindp (parseImport P True) (\<lambda>i. ret (is @ [i]))) []) (\<lambda>is.
     bindp (expect TokenRParen) (\<lambda>_. ret is)))"

definition parseImports :: "parsers \<Rightarrow> Decl parser" where
  "parseImports P = bindp next_token (\<lambda>_. look tok (\<lambda>t.
     if t = TokenLParen then bindp (parseImportGroup P) (\<lambda>is. ret (ImportGroupNode is))
     else bindp (parseImport P False) (\<lambda>i. ret (ImportDecl i))))"

section \<open>Type definitions (typedef.go)\<close>

definition typeDefExprFromLiteral :: "ExpressionNode \<Rightarrow> TypeDefExpr" where
  "typeDefExprFromLiteral lit = TypeDefAssertionExpr (Some (value_constraint lit))"

definition literal_member :: "ExpressionNode \<Rightarrow> bool" where
  "literal_member e =
     (case e of StringLiteralNode _ _ \<Rightarrow> True | IntLiteralNode _ _ _ \<Rightarrow> True | BoolLiteralNode _ _ \<Rightarrow> True | _ \<Rightarrow> False)"

definition tryParseTypeDefLiteralMember :: "parsers \<Rightarrow> TypeDefExpr option parser" where
  "tryParseTypeDefLiteralMember P = look (\<lambda>p. (current_token p, Type (peek 1 p))) (\<lambda>(t, nxt).
     if Type t \<in> {TokenStringLiteral, TokenIntLiteral, TokenTrue, TokenFalse} \<or> (Type t = TokenMinus \<and> nxt = TokenIntLiteral)
     then bindp (parseLiteral P) (\<lambda>lit.
       if literal_member lit then ret (Some (typeDefExprFromLiteral lit)) else report t ''refinement-unsupported-union'')
     else if Type t = TokenFloatLiteral then report t ''refinement-unsupported-union''
     else ret None)"

definition shape_typedef :: "parsers \<Rightarrow> TypeDefExpr parser" where
  "shape_typedef P = bindp (rec_shape_type P True) (\<lambda>s. look tok (\<lambda>t.
     if t = TokenDot then
       bindp (parseDotConstraintChain P) (\<lambda>cs.
         ret (TypeDefAssertionExpr (Some (AssertionNode (Some TypeShape)
           (ConstraintNode ''Match'' [ConstraintArgumentNode None (Some s) None] # cs) [] [] None))))
     else ret (TypeDefShapeExpr s)))"

definition typedef_operand :: "parsers \<Rightarrow> TypeDefExpr parser" where
  "typedef_operand P = bindp (tryParseTypeDefLiteralMember P) (\<lambda>lit.
     case lit of
       Some d \<Rightarrow> ret d
     | None \<Rightarrow> look (\<lambda>p. Type (peek 1 p)) (\<lambda>nxt.
         if nxt = TokenDot then bindp (parseAssertionChain P True) (\<lambda>a. ret (TypeDefAssertionExpr (Some a)))
         else bindp (rec_type P False) (\<lambda>ty.
           ret (TypeDefAssertionExpr (Some (AssertionNode (Some (TIdent ty)) [] [] (TypeParams ty) (ArrayLen ty)))))))"

definition parseTypeDefExpr :: "parsers \<Rightarrow> TypeDefExpr parser" where
  "parseTypeDefExpr P = look tok (\<lambda>t.
     if t = TokenLParen then
       bindp next_token (\<lambda>_. bindp (rec_typedef P) (\<lambda>e. bindp (expect TokenRParen) (\<lambda>_. ret e)))
     else if t = TokenLBrace then shape_typedef P
     else if t = TokenBitwiseOr \<or> t = TokenBitwiseAnd then bindp next_token (\<lambda>_. rec_typedef P)
     else bindp (typedef_operand P) (\<lambda>left. look tok (\<lambda>op.
       if op \<noteq> TokenBitwiseAnd \<and> op \<noteq> TokenBitwiseOr then ret left
       else bindp next_token (\<lambda>_. bindp (rec_typedef P) (\<lambda>right. ret (TypeDefBinaryExpr left op right))))))"

definition parseTypeDef :: "parsers \<Rightarrow> Decl parser" where
  "parseTypeDef P = bindp (expect TokenType) (\<lambda>_. bindp (expectCustomTypeIdentifier False) (\<lambda>name.
     bindp (expect TokenEquals) (\<lambda>_. bindp (rec_typedef P) (\<lambda>e. ret (TypeDefNode (Value name) e)))))"

definition parseErrorTypeDef :: "parsers \<Rightarrow> Decl parser" where
  "parseErrorTypeDef P = bindp (expect TokenError) (\<lambda>_. bindp (expectCustomTypeIdentifier False) (\<lambda>nameTok.
     if Value nameTok = ''Error'' then report nameTok ''error-base-name''
     else bindp (parseShapeTypeForError P) (\<lambda>s. ret (TypeDefNode (Value nameTok) (TypeDefErrorExpr s)))))"

section \<open>Constants (const.go)\<close>

definition parseConstSpec :: "parsers \<Rightarrow> bool \<Rightarrow> ConstSpec parser" where
  "parseConstSpec P requireValue = bindp (expect TokenIdentifier) (\<lambda>identTok. look tok (\<lambda>t.
     bindp (if t = TokenColon then bindp next_token (\<lambda>_. bindp (rec_type P True) (\<lambda>ty. ret (Some ty))) else ret None) (\<lambda>ty.
     look tok (\<lambda>t.
       bindp
         (if t = TokenEquals then bindp next_token (\<lambda>_. bindp (parseExpression P) (\<lambda>e. ret (Some e)))
          else if requireValue then report identTok ''const-init-required'' else ret None)
         (\<lambda>v. ret \<lparr>ConstName = Value identTok, ConstType = ty, ConstValue = v\<rparr>)))))"

definition parseConstSpecList :: "parsers \<Rightarrow> ConstSpec list parser" where
  "parseConstSpecList P =
     loop_until (\<lambda>_ p. tok p = TokenRParen) (\<lambda>specs. bindp (parseConstSpec P False) (\<lambda>s. ret (specs @ [s]))) []"

definition parseConstDeclaration :: "parsers \<Rightarrow> Decl parser" where
  "parseConstDeclaration P = bindp next_token (\<lambda>_. look tok (\<lambda>t.
     if t = TokenLParen then
       bindp next_token (\<lambda>_. bindp (parseConstSpecList P) (\<lambda>specs. bindp (expect TokenRParen) (\<lambda>_.
         ret (ConstGroupNode specs))))
     else bindp (parseConstSpec P True) (\<lambda>s. ret (ConstGroupNode [s]))))"

section \<open>Functions (function.go)\<close>

definition parseFunctionName :: "Token parser" where
  "parseFunctionName = look (\<lambda>p. (current_token p, Type (peek 1 p))) (\<lambda>(t, nxt).
     if Type t = TokenIdentifier \<or> ((Type t = TokenError \<or> Type t = TokenUse) \<and> nxt = TokenLParen) then next_token
     else failure t ''expected function name'')"

text \<open>A receiver with a type only: the index goes back to the name just read.\<close>

definition parseReceiver :: "parsers \<Rightarrow> ParamNode parser" where
  "parseReceiver P = bindp (expect TokenLParen) (\<lambda>_. bindp (expect TokenIdentifier) (\<lambda>firstTok. look tok (\<lambda>t.
     bindp
       (if t \<in> {TokenIdentifier, TokenStar, TokenMap, TokenLBracket} then
          bindp (rec_type P False) (\<lambda>ty. ret (SimpleParamNode (Value firstTok) ty False))
        else
          bindp (change (\<lambda>p. p\<lparr>currentIndex := currentIndex p - 1\<rparr>)) (\<lambda>_. bindp (rec_type P False) (\<lambda>ty.
            ret (SimpleParamNode [] ty False))))
       (\<lambda>recv. bindp (expect TokenRParen) (\<lambda>_. ret recv)))))"

definition type_param :: "parsers \<Rightarrow> TypeParamDecl parser" where
  "type_param P = bindp (expect TokenIdentifier) (\<lambda>nameTok. look tok (\<lambda>t.
     bindp (if t = TokenIdentifier then bindp (rec_type P True) (\<lambda>c. ret (Some c)) else ret None) (\<lambda>c.
       ret \<lparr>TypeParamName = Value nameTok, TypeParamConstraint = c\<rparr>)))"

definition parseTypeParamList :: "parsers \<Rightarrow> TypeParamDecl list parser" where
  "parseTypeParamList P = look tok (\<lambda>t.
     if t \<noteq> TokenLBracket then ret []
     else bindp next_token (\<lambda>_. bindp (comma_separated (type_param P)) (\<lambda>ps. bindp (expect TokenRBracket) (\<lambda>_. ret ps))))"

definition set_function_name :: "go_string \<Rightarrow> unit parser" where
  "set_function_name name = change (set_current_scope (\<lambda>s. s\<lparr>FunctionName := name\<rparr>))"

definition parseFunctionBody :: "parsers \<Rightarrow> Node list parser" where
  "parseFunctionBody P = parseBlock P"

definition parseFunctionDefinition :: "parsers \<Rightarrow> FunctionNode parser" where
  "parseFunctionDefinition P = bindp (expect TokenFunc) (\<lambda>_. look tok (\<lambda>t.
     bindp (if t = TokenLParen then bindp (parseReceiver P) (\<lambda>r. ret (Some r)) else ret None) (\<lambda>receiver.
     bindp parseFunctionName (\<lambda>name. bindp (set_function_name (Value name)) (\<lambda>_.
     bindp (parseTypeParamList P) (\<lambda>typeParams.
       if receiver \<noteq> None \<and> typeParams \<noteq> [] then report name ''func-generic-method''
       else bindp (parseFunctionSignature P) (\<lambda>params. bindp (parseReturnType P) (\<lambda>returnType.
         bindp (parseFunctionBody P) (\<lambda>body.
           ret \<lparr>Receiver = receiver, FunctionIdent = Value name, FunctionTypeParams = typeParams, FunctionParams = params,
                FunctionReturnTypes = returnType, FunctionBody = body\<rparr>)))))))))"

section \<open>Type guards (typeguard.go)\<close>

definition parseInlineTypeGuardBody :: "parsers \<Rightarrow> ParamNode \<Rightarrow> Node list parser" where
  "parseInlineTypeGuardBody P subjectParam = bindp (parseEnsureStatement P) (\<lambda>ensure. look current_token (\<lambda>t.
     if EVariable ensure \<noteq> Param_GetIdent subjectParam then report t ''typeguard-subject-refine''
     else ret [EnsureStmt ensure]))"

definition parseTypeGuardBody :: "parsers \<Rightarrow> ParamNode \<Rightarrow> Node list parser" where
  "parseTypeGuardBody P subjectParam = look tok (\<lambda>t.
     if t = TokenLBrace then parseBlock P else parseInlineTypeGuardBody P subjectParam)"

definition guard_params :: "parsers \<Rightarrow> ParamNode list parser" where
  "guard_params P = look tok (\<lambda>t.
     if t = TokenLParen then
       bindp next_token (\<lambda>_. bindp (items_until TokenRParen (parseParameter P)) (\<lambda>ps. bindp (expect TokenRParen) (\<lambda>_. ret ps)))
     else ret [])"

definition parseTypeGuard :: "parsers \<Rightarrow> TypeGuardNode parser" where
  "parseTypeGuard P = bindp (expect TokenIs) (\<lambda>_. bindp (expect TokenLParen) (\<lambda>_. look current_token (\<lambda>t.
     if Type t = TokenRParen then report t ''typeguard-subject-required''
     else bindp (parseParameter P) (\<lambda>subject. bindp (expect TokenRParen) (\<lambda>_. look current_token (\<lambda>t.
       if Type t \<noteq> TokenIdentifier then report t ''typeguard-name-required''
       else bindp next_token (\<lambda>guardName. bindp (guard_params P) (\<lambda>ps. bindp (parseTypeGuardBody P subject) (\<lambda>body.
         ret \<lparr>GuardIdent = Value guardName, GuardSubject = subject, GuardParams = ps, GuardBody = body\<rparr>))))))))) "

section \<open>Files (parse.go)\<close>

text \<open>The scope pushed for a function or a guard is never popped.\<close>

definition scoped :: "bool \<Rightarrow> 'a parser \<Rightarrow> ('a \<Rightarrow> go_string) \<Rightarrow> 'a parser" where
  "scoped guard m name = bindp (PushScope (NewScope [] False guard)) (\<lambda>_. bindp m (\<lambda>x.
     bindp (set_function_name (name x)) (\<lambda>_. ret x)))"

definition parse_decl :: "parsers \<Rightarrow> Decl parser" where
  "parse_decl P = look current_token (\<lambda>t.
     if Type t = TokenComment then bindp next_token (\<lambda>t. ret (CommentDecl (Value t)))
     else if Type t = TokenPackage then parsePackage
     else if Type t = TokenImport then parseImports P
     else if Type t = TokenType then parseTypeDef P
     else if Type t = TokenError then parseErrorTypeDef P
     else if Type t = TokenFunc then bindp (scoped False (parseFunctionDefinition P) FunctionIdent) (\<lambda>f. ret (FunctionDecl f))
     else if Type t = TokenVar then bindp (parsePackageVarDeclaration P) (\<lambda>a. ret (VarDecl a))
     else if Type t = TokenConst then parseConstDeclaration P
     else if Type t = TokenIs then bindp (scoped True (parseTypeGuard P) GuardIdent) (\<lambda>g. ret (TypeGuardDecl g))
     else fail_with (ParseFailure t (''unexpected token: '' @ Value t)))"

definition parse_decls :: "parsers \<Rightarrow> Decl list parser" where
  "parse_decls P = loop_until (\<lambda>_ p. tok p = TokenEOF) (\<lambda>nodes. bindp (parse_decl P) (\<lambda>n. ret (nodes @ [n]))) []"

section \<open>Tying the knot\<close>

text \<open>The recursive calls with \<open>n\<close> levels of calls left; the conversions of \<open>E\<close> are kept.\<close>

fun parsers_at :: "parsers \<Rightarrow> nat \<Rightarrow> parsers" where
  "parsers_at E 0 =
     E\<lparr>rec_expr := \<lambda>_ _. fail_with OutOfFuel, rec_unary := \<lambda>_. fail_with OutOfFuel, rec_value := fail_with OutOfFuel,
       rec_type := \<lambda>_. fail_with OutOfFuel, rec_shape_literal := \<lambda>_ _. fail_with OutOfFuel,
       rec_shape_type := \<lambda>_. fail_with OutOfFuel, rec_composite := \<lambda>_. fail_with OutOfFuel,
       rec_typedef := fail_with OutOfFuel, rec_statement := fail_with OutOfFuel, rec_block := fail_with OutOfFuel\<rparr>"
| "parsers_at E (Suc n) =
     (let P = parsers_at E n in
      E\<lparr>rec_expr := parseExpr P, rec_unary := parseUnaryOrPrimary P, rec_value := parseValue P, rec_type := parseType P,
        rec_shape_literal := parseShapeLiteral P, rec_shape_type := parseShapeTypeInternal P,
        rec_composite := parseBraceCompositeArrayLiteral P, rec_typedef := parseTypeDefExpr P,
        rec_statement := parseBlockStatement P, rec_block := parseBlockWithClose P\<rparr>)"

text \<open>
  The levels needed for a token list: at most five calls in a row (statement, expression, operand,
  value, shape) consume no token.
\<close>

definition enough_fuel :: "Parser \<Rightarrow> nat" where
  "enough_fuel p = 5 * remaining p + 5"

definition parse_expression :: "parsers \<Rightarrow> ExpressionNode parser" where
  "parse_expression E p = parseExpression (parsers_at E (enough_fuel p)) p"

definition parse_type :: "parsers \<Rightarrow> bool \<Rightarrow> TypeNode parser" where
  "parse_type E opts p = rec_type (parsers_at E (enough_fuel p)) opts p"

definition parse_with :: "parsers \<Rightarrow> nat \<Rightarrow> Token list \<Rightarrow> parse_error + Decl list" where
  "parse_with E n ts = (case parse_decls (parsers_at E n) (New_Parser ts) of Inl e \<Rightarrow> Inl e | Inr (ds, _) \<Rightarrow> Inr ds)"

definition ParseFile :: "parsers \<Rightarrow> Token list \<Rightarrow> parse_error + Decl list" where
  "ParseFile E ts = parse_with E (enough_fuel (New_Parser ts)) ts"

end
