(* ===== verification/Formatter.thy ===== *)
theory Formatter
  imports Printer Lexer Parser_File
begin

text \<open>
  The pipelines that join the lexer, the parser and the printer: \<open>FormatSource\<close> (\<open>printer.go\<close>), \<open>FormatDocument\<close>
  (\<open>whitespace.go\<close>), the edit of the language server (\<open>lsp/formatting.go\<close>) and \<open>ParseExpressionSource\<close>
  (\<open>parser/parse_expression.go\<close>). \<open>None\<close> is a panic that reaches the caller. \<open>ParseFile\<close> returns one error, the one for a
  token no declaration starts with; every other parse error is a panic.
\<close>

definition returned_error :: "parse_error \<Rightarrow> bool" where
  "returned_error e = (case e of ParseFailure t msg \<Rightarrow> msg = ''unexpected token: '' @ Value t | _ \<Rightarrow> False)"

definition FormatSource :: "quoting \<Rightarrow> parsers \<Rightarrow> go_string \<Rightarrow> go_string \<Rightarrow> printed option" where
  "FormatSource q E src fileID =
     (case lex fileID src of
        None \<Rightarrow> None
      | Some ts \<Rightarrow>
        (case ParseFile E ts of
           Inl e \<Rightarrow> if returned_error e then Some (Inl ''unexpected token'') else None
         | Inr nodes \<Rightarrow> Some (Print q DefaultConfig nodes)))"

definition FormatDocument :: "quoting \<Rightarrow> parsers \<Rightarrow> go_string \<Rightarrow> go_string \<Rightarrow> int \<Rightarrow> bool \<Rightarrow> go_string option" where
  "FormatDocument q E src fileID tabSize insertSpaces =
     map_option (\<lambda>r. case r of
         Inl _ \<Rightarrow> FormatForstWhitespace src tabSize insertSpaces
       | Inr pretty \<Rightarrow> FormatForstWhitespace pretty tabSize insertSpaces) (FormatSource q E src fileID)"

text \<open>The edit replaces everything from the start of the document to the position given.\<close>

definition documentFormattingEdits ::
  "quoting \<Rightarrow> parsers \<Rightarrow> go_string \<Rightarrow> go_string option \<Rightarrow> int \<Rightarrow> bool \<Rightarrow> (LSPCharPos \<times> go_string) option option" where
  "documentFormattingEdits q E uri doc tabSize insertSpaces =
     (case doc of
        None \<Rightarrow> Some None
      | Some src \<Rightarrow>
        map_option (\<lambda>formatted. if formatted = src then None else Some (EndPositionExclusive src, formatted))
          (FormatDocument q E src uri (if tabSize \<le> 0 then 4 else tabSize) insertSpaces))"

definition wrapped_source :: "go_string \<Rightarrow> go_string" where
  "wrapped_source expr = ''package __lsp__'' @ [linefeed] @ ''func __() { _ = '' @ expr @ '' }'' @ [linefeed]"

definition first_assigned :: "Decl \<Rightarrow> ExpressionNode option list" where
  "first_assigned d =
     (case d of
        FunctionDecl fn \<Rightarrow> concat (map (\<lambda>st. case st of AssignStmt a \<Rightarrow> if length (RValues a) = 1 then RValues a else [] | _ \<Rightarrow> []) (FunctionBody fn))
      | _ \<Rightarrow> [])"

text \<open>A panic of the parser is recovered; the lexer runs outside the recovery.\<close>

definition ParseExpressionSource :: "parsers \<Rightarrow> go_string \<Rightarrow> go_string \<Rightarrow> (go_string + ExpressionNode option) option" where
  "ParseExpressionSource E fileID expr =
     (if expr = [] then Some (Inl ''empty expression'')
      else map_option (\<lambda>ts.
             case ParseFile E ts of
               Inl e \<Rightarrow> Inl ''parse error''
             | Inr nodes \<Rightarrow>
               (case concat (map first_assigned nodes) of
                  e # _ \<Rightarrow> Inr e
                | [] \<Rightarrow> Inl ''expression not found in parse wrapper'')) (lex fileID (wrapped_source expr)))"

end
