(* ===== verification/Parser_Props.thy ===== *)
theory Parser_Props
  imports Parser_File
begin

text \<open>
  Progress of the parser. \<open>runs m p Q\<close> is a weakest precondition: \<open>m\<close> does not run out of fuel from \<open>p\<close>,
  and what it returns satisfies \<open>Q\<close>. The locale \<open>ready_parsers\<close> states what the recursive calls promise
  on a token list shorter than \<open>r\<close>; in it every operation of the parser is shown to consume a token
  (\<open>eats\<close>) or at least not to go back (\<open>moves\<close>). The recursive calls of \<open>parsers_at\<close> keep the promise when
  there are five levels of calls for every token.
\<close>

section \<open>Runs of a parser\<close>

definition runs :: "'a parser \<Rightarrow> Parser \<Rightarrow> ('a \<Rightarrow> Parser \<Rightarrow> bool) \<Rightarrow> bool" where
  "runs m p Q = (case m p of Inl e \<Rightarrow> e \<noteq> OutOfFuel | Inr (x, p') \<Rightarrow> Q x p')"

definition live :: "Parser \<Rightarrow> bool" where
  "live p \<longleftrightarrow> (tok p \<noteq> TokenEOF \<longrightarrow> 0 < remaining p)"

abbreviation eats :: "'a parser \<Rightarrow> Parser \<Rightarrow> bool" where
  "eats m p \<equiv> runs m p (\<lambda>_ q. remaining q < remaining p)"

abbreviation moves :: "'a parser \<Rightarrow> Parser \<Rightarrow> bool" where
  "moves m p \<equiv> runs m p (\<lambda>_ q. remaining q \<le> remaining p)"

lemma live: "live p"
  by (auto simp: live_def remaining_def current_token_def eof_token_def)

lemma live_token [simp]: "tok p \<noteq> TokenEOF \<Longrightarrow> live p = (0 < remaining p)"
  by (simp add: live_def)

lemma at_end: "remaining p = 0 \<Longrightarrow> current_token p = eof_token"
  by (simp add: remaining_def current_token_def)

lemma remaining_advance [simp]: "remaining (advance p) = remaining p - 1"
  by (simp add: remaining_def advance_def)

lemma remaining_context [simp]:
  "remaining (p\<lparr>Package := x\<rparr>) = remaining p" "remaining (p\<lparr>parserScopes := y\<rparr>) = remaining p"
  by (simp_all add: remaining_def)

lemma remaining_set_scope [simp]: "remaining (set_current_scope f p) = remaining p"
  by (simp add: set_current_scope_def)

lemma step_back [simp]: "advance p\<lparr>currentIndex := currentIndex (advance p) - Suc 0\<rparr> = p"
  by (simp add: advance_def)

lemma runs_bindp [wp]: "runs (bindp m f) p Q = runs m p (\<lambda>x q. runs (f x) q Q)"
  by (auto simp: runs_def bindp_def split: sum.splits prod.splits)

lemma runs_look [wp]: "runs (look g f) p Q = (live p \<longrightarrow> runs (f (g p)) p Q)"
  by (simp add: live) (simp add: runs_def look_def)

lemma runs_ret [wp]: "runs (ret x) p Q = Q x p"
  by (simp add: runs_def ret_def)

lemma runs_fail [wp]: "runs (fail_with e) p Q = (e \<noteq> OutOfFuel)"
  by (simp add: runs_def fail_with_def)

lemma runs_report [wp]: "runs (report t c) p Q"
  by (simp add: report_def runs_fail)

lemma runs_failure [wp]: "runs (failure t c) p Q"
  by (simp add: failure_def runs_fail)

lemma runs_next [wp]: "runs next_token p Q = Q (current_token p) (advance p)"
  by (simp add: runs_def next_token_def)

lemma runs_expect [wp]: "runs (expect ty) p Q = (live p \<longrightarrow> tok p = ty \<longrightarrow> Q (current_token p) (advance p))"
  by (auto simp: expect_def wp live)

lemma runs_prev [wp]: "runs prev_token p Q = (currentIndex p \<ge> 1 \<and> currentIndex p - 1 < length (ptokens p) \<longrightarrow> Q (ptokens p ! (currentIndex p - 1)) p)"
  by (auto simp: runs_def prev_token_def)

lemma runs_skip [wp]: "runs (skip_if ty) p Q = (live p \<longrightarrow> (if tok p = ty then Q () (advance p) else Q () p))"
  by (simp add: skip_if_def wp)

lemma runs_change [wp]: "runs (change f) p Q = Q () (f p)"
  by (simp add: runs_def change_def)

lemma runs_attempt [wp]: "runs (attempt m) p Q = runs m p (\<lambda>x q. case x of None \<Rightarrow> Q None p | Some y \<Rightarrow> Q (Some y) q)"
  by (auto simp: runs_def attempt_def split: sum.splits prod.splits option.splits)

lemma runs_peeking [wp]: "runs (peeking m) p Q = runs m p (\<lambda>x _. Q x p)"
  by (auto simp: runs_def peeking_def split: sum.splits prod.splits)

lemma runs_mono: "runs m p Q' \<Longrightarrow> (\<And>x q. Q' x q \<Longrightarrow> Q x q) \<Longrightarrow> runs m p Q"
  by (auto simp: runs_def split: sum.splits prod.splits)

lemma runs_recovered: "runs m p Q' \<Longrightarrow> (\<And>x q. Q' x q \<Longrightarrow> Q (Some x) q) \<Longrightarrow> Q None p \<Longrightarrow> runs (recovered m) p Q"
  by (auto simp: runs_def recovered_def split: sum.splits prod.splits parse_error.splits)

lemma runs_if [wp]: "runs (if b then m else m') p Q = (if b then runs m p Q else runs m' p Q)"
  by simp

lemma eats_call: "eats m p \<Longrightarrow> (\<And>x q. remaining q < remaining p \<Longrightarrow> Q x q) \<Longrightarrow> runs m p Q"
  by (rule runs_mono)

lemma moves_call: "moves m p \<Longrightarrow> (\<And>x q. remaining q \<le> remaining p \<Longrightarrow> Q x q) \<Longrightarrow> runs m p Q"
  by (rule runs_mono)

lemma loop_moves:
  assumes "\<And>s q. remaining q \<le> remaining p \<Longrightarrow> live q \<Longrightarrow> \<not> stop s q \<Longrightarrow> eats (body s) q" "remaining p < n"
  shows "moves (loop n stop body s) p"
  using assms
proof (induction n arbitrary: s p)
  case 0
  then show ?case by simp
next
  case (Suc n)
  show ?case
  proof (cases "stop s p \<or> (\<exists>e. body s p = Inl e)")
    case True
    then show ?thesis using Suc.prems(1) [of p s] by (auto simp: runs_def live split: sum.splits)
  next
    case False
    then obtain s' q where b: "body s p = Inr (s', q)" "\<not> stop s p" by (metis surj_pair old.sum.exhaust)
    then have q: "remaining q < remaining p" using Suc.prems(1) [of p s] by (simp add: runs_def live)
    have "moves (loop n stop body s') q" using Suc.prems q by (intro Suc.IH) auto
    then show ?thesis using b q by (auto simp: runs_def split: sum.splits prod.splits)
  qed
qed

lemma loop_until_moves [THEN moves_call, calls]:
  assumes "\<And>s q. remaining q \<le> remaining p \<Longrightarrow> live q \<Longrightarrow> \<not> stop s q \<Longrightarrow> eats (body s) q"
  shows "moves (loop_until stop body s) p"
  unfolding loop_until_def [abs_def] using loop_moves [of p stop body "Suc (remaining p)" s] assms by (simp add: runs_def)

lemma loop_until_eats:
  assumes "\<And>s q. remaining q \<le> remaining p \<Longrightarrow> live q \<Longrightarrow> \<not> stop s q \<Longrightarrow> eats (body s) q" "\<not> stop s p"
  shows "eats (loop_until stop body s) p"
proof (cases "body s p")
  case (Inl e)
  then show ?thesis using assms(1) [of p s] assms(2) by (simp add: loop_until_def runs_def live)
next
  case (Inr xq)
  then obtain x q where b: "body s p = Inr (x, q)" by (cases xq) auto
  then have q: "remaining q < remaining p" using assms(1) [of p s] assms(2) by (simp add: runs_def live)
  have "moves (loop (remaining p) stop body x) q" using assms(1) q by (intro loop_moves) auto
  then show ?thesis using b q assms(2) by (auto simp: loop_until_def runs_def split: sum.splits prod.splits)
qed

lemma items_until_moves [THEN moves_call, calls]:
  assumes "\<And>q. remaining q \<le> remaining p \<Longrightarrow> eats item q"
  shows "moves (items_until close item) p"
  unfolding items_until_def by (rule loop_until_moves) (auto simp: wp intro!: eats_call [OF assms])

lemma comma_separated_eats [THEN eats_call, calls]:
  assumes "\<And>q. remaining q \<le> remaining p \<Longrightarrow> eats item q"
  shows "eats (comma_separated item) p"
  unfolding comma_separated_def
  by (auto simp: wp intro!: eats_call [OF assms] loop_until_moves)

section \<open>Progress of every parser\<close>

locale ready_parsers =
  fixes P :: parsers and r :: nat
  assumes expr_ok: "remaining p < r \<Longrightarrow> eats (rec_expr P minPrec depth) p"
    and unary_ok: "remaining p < r \<Longrightarrow> eats (rec_unary P depth) p"
    and value_ok: "remaining p < r \<Longrightarrow> eats (rec_value P) p"
    and type_ok: "remaining p < r \<Longrightarrow> eats (rec_type P opts) p"
    and shape_literal_ok: "remaining p < r \<Longrightarrow> eats (rec_shape_literal P base asTypes) p"
    and shape_type_ok: "remaining p < r \<Longrightarrow> eats (rec_shape_type P allowEmpty) p"
    and composite_ok: "remaining p < r \<Longrightarrow> eats (rec_composite P ty) p"
    and typedef_ok: "remaining p < r \<Longrightarrow> moves (rec_typedef P) p"
    and statement_ok: "remaining p < r \<Longrightarrow> eats (rec_statement P) p"
    and block_ok: "remaining p < r \<Longrightarrow> eats (rec_block P) p"
begin

lemmas rec_calls [calls] = expr_ok [THEN eats_call] unary_ok [THEN eats_call] value_ok [THEN eats_call] type_ok [THEN eats_call]
  shape_literal_ok [THEN eats_call] shape_type_ok [THEN eats_call] composite_ok [THEN eats_call] typedef_ok [THEN moves_call]
  statement_ok [THEN eats_call] block_ok [THEN eats_call]

lemma parseSelectorName [THEN eats_call, calls]: "eats parseSelectorName p"
  unfolding parseSelectorName_def by (auto simp: wp)

lemma parseIdentifier [THEN moves_call, calls]: "moves parseIdentifier p"
  unfolding parseIdentifier_def by (auto simp: wp intro!: calls)

lemma parseIdentifier_eats: "tok p \<noteq> TokenEOF \<Longrightarrow> eats parseIdentifier p"
  unfolding parseIdentifier_def using live [of p] by (auto simp: wp intro!: calls)

lemma expectCustomTypeIdentifier [THEN eats_call, calls]: "eats (expectCustomTypeIdentifier lower) p"
  unfolding expectCustomTypeIdentifier_def by (auto simp: wp)

lemma expectCustomTypeIdentifierOrPackageName [THEN eats_call, calls]:
  "eats (expectCustomTypeIdentifierOrPackageName lower) p"
  unfolding expectCustomTypeIdentifierOrPackageName_def by (auto simp: wp)

lemma expectConstraintIdentifier [THEN eats_call, calls]: "eats expectConstraintIdentifier p"
  unfolding expectConstraintIdentifier_def by (auto simp: wp)

lemma parseConstraintArgument [THEN eats_call, calls]: "remaining p < r \<Longrightarrow> eats (parseConstraintArgument P) p"
  unfolding parseConstraintArgument_def by (auto simp: wp intro!: calls)

lemma parseConstraint [THEN eats_call, calls]: "remaining p < r \<Longrightarrow> eats (parseConstraint P) p"
  unfolding parseConstraint_def by (auto simp: wp intro!: calls)

lemma parseDotConstraintChain [THEN moves_call, calls]: "remaining p \<le> r \<Longrightarrow> moves (parseDotConstraintChain P) p"
  unfolding parseDotConstraintChain_def by (auto simp: wp intro!: calls)

lemma resolveQualifiedType [THEN moves_call, calls]: "remaining p \<le> r \<Longrightarrow> moves (resolveQualifiedType P b) p"
  unfolding resolveQualifiedType_def by (auto simp: wp intro!: calls)

lemma parseAssertionMeetChain [THEN moves_call, calls]: "remaining p < r \<Longrightarrow> moves (parseAssertionMeetChain P b) p"
  unfolding parseAssertionMeetChain_def by (auto simp: wp intro!: calls)

lemma parseAssertionChain [THEN moves_call, calls]: "remaining p < r \<Longrightarrow> moves (parseAssertionChain P b) p"
  unfolding parseAssertionChain_def by (auto simp: wp intro!: calls; arith)

lemma rejectPipeInAssertion [THEN moves_call, calls]: "moves (rejectPipeInAssertion) p"
  unfolding rejectPipeInAssertion_def by (auto simp: wp intro!: calls; arith)

lemma parseAssertionOrJoin [THEN moves_call, calls]: "remaining p < r \<Longrightarrow> moves (parseAssertionOrJoin P first) p"
  unfolding parseAssertionOrJoin_def or_alternative_def by (auto simp: wp split: prod.splits intro!: calls; arith)

lemma joined_target [THEN moves_call, calls]: "remaining p < r \<Longrightarrow> moves (joined_target P a) p"
  unfolding joined_target_def by (auto simp: wp intro!: calls; arith)

lemma handleShapeRefinementTarget [THEN eats_call, calls]: "remaining p < r \<Longrightarrow> eats (handleShapeRefinementTarget P) p"
  unfolding handleShapeRefinementTarget_def by (auto simp: wp intro!: calls; arith)

lemma handleShapeSugar [THEN eats_call, calls]: "remaining p < r \<Longrightarrow> eats (handleShapeSugar P) p"
  unfolding handleShapeSugar_def by (auto simp: wp intro!: calls; arith)

lemma parseRefinementTarget [THEN moves_call, calls]: "remaining p < r \<Longrightarrow> moves (parseRefinementTarget P) p"
  unfolding parseRefinementTarget_def handleDotConstraintChain_def by (auto simp: wp split: prod.splits intro!: calls; arith)

lemma parseReturnTypeSingle [THEN eats_call, calls]: "remaining p < r \<Longrightarrow> eats (parseReturnTypeSingle P) p"
  unfolding parseReturnTypeSingle_def by (auto simp: wp intro!: calls; arith)

lemma parseReturnType [THEN moves_call, calls]: "remaining p < r \<Longrightarrow> moves (parseReturnType P) p"
  unfolding parseReturnType_def by (auto simp: wp intro!: calls; arith)

lemma array_type_suffix [THEN eats_call, calls]: "remaining p < r \<Longrightarrow> eats (array_type_suffix P) p"
  unfolding array_type_suffix_def by (auto simp: wp split: option.splits intro!: calls; arith)

lemma func_type [THEN eats_call, calls]: "remaining p < r \<Longrightarrow> eats (func_type P) p"
  unfolding func_type_def by (auto simp: wp intro!: calls; arith)

lemma interface_param [THEN eats_call, calls]: "remaining p < r \<Longrightarrow> eats (interface_param P) p"
  unfolding interface_param_def by (auto simp: wp intro!: calls; arith)

lemma interface_member [THEN eats_call, calls]: "remaining p < r \<Longrightarrow> eats (interface_member P) p"
  unfolding interface_member_def by (auto simp: wp intro!: calls; arith)

lemma interface_type [THEN eats_call, calls]: "remaining p < r \<Longrightarrow> eats (interface_type P) p"
  unfolding interface_type_def by (auto simp: wp intro!: calls; arith)

lemma tuple_type [THEN moves_call, calls]: "remaining p < r \<Longrightarrow> moves (tuple_type P opts) p"
  unfolding tuple_type_def by (auto simp: wp intro!: calls; arith)

lemma assertion_type [THEN moves_call, calls]: "remaining p < r \<Longrightarrow> moves (assertion_type P) p"
  unfolding assertion_type_def by (auto simp: wp intro!: calls; arith)

lemma named_type [THEN eats_call, calls]: "remaining p \<le> r \<Longrightarrow> eats (named_type P opts) p"
  unfolding named_type_def by (auto simp: wp split: prod.splits intro!: calls; arith)

lemma assertion_param_type [THEN moves_call, calls]: "remaining p < r \<Longrightarrow> moves (assertion_param_type P) p"
  unfolding assertion_param_type_def by (auto simp: wp intro!: calls; arith)

lemma parseParameterType [THEN moves_call, calls]: "remaining p < r \<Longrightarrow> moves (parseParameterType P) p"
  unfolding parseParameterType_def by (auto simp: wp split: prod.splits intro!: calls; arith)

lemma parseDestructuredParameter [THEN eats_call, calls]: "remaining p < r \<Longrightarrow> eats (parseDestructuredParameter P) p"
  unfolding parseDestructuredParameter_def by (auto simp: wp intro!: calls; arith)

lemma simple_parameter_type [THEN moves_call, calls]: "remaining p < r \<Longrightarrow> moves (simple_parameter_type P) p"
  unfolding simple_parameter_type_def by (auto simp: wp split: prod.splits intro!: calls; arith)

lemma parseSimpleParameter [THEN eats_call, calls]: "remaining p < r \<Longrightarrow> eats (parseSimpleParameter P) p"
  unfolding parseSimpleParameter_def by (auto simp: wp intro!: calls; arith)

lemma parseParameter [THEN eats_call, calls]: "remaining p < r \<Longrightarrow> eats (parseParameter P) p"
  unfolding parseParameter_def by (auto simp: wp intro!: calls; arith)

lemma parseFunctionSignature [THEN eats_call, calls]: "remaining p \<le> r \<Longrightarrow> eats (parseFunctionSignature P) p"
  unfolding parseFunctionSignature_def by (auto simp: wp intro!: calls; arith)

lemma parseFunctionLiteral [THEN eats_call, calls]: "remaining p \<le> r \<Longrightarrow> eats (parseFunctionLiteral P) p"
  unfolding parseFunctionLiteral_def by (auto simp: wp intro!: calls; arith)

lemma parseShapeMemberName [THEN eats_call, calls]: "eats (parseShapeMemberName) p"
  unfolding parseShapeMemberName_def by (auto simp: wp split: prod.splits intro!: calls; arith)

lemma parseShapeMethodSignature [THEN eats_call, calls]: "remaining p < r \<Longrightarrow> eats (parseShapeMethodSignature P) p"
  unfolding parseShapeMethodSignature_def by (auto simp: wp intro!: calls; arith)

lemma attachOptionalStructTag [THEN moves_call, calls]: "moves (attachOptionalStructTag P f) p"
  unfolding attachOptionalStructTag_def by (auto simp: wp intro!: calls; arith)

lemma parseShapeFieldTypeAfterColon [THEN moves_call, calls]: "remaining p < r \<Longrightarrow> moves (parseShapeFieldTypeAfterColon P b) p"
  unfolding parseShapeFieldTypeAfterColon_def by (auto simp: wp split: prod.splits intro!: calls; arith)

lemma parseShapeTypeField [THEN moves_call, calls]: "remaining p < r \<Longrightarrow> moves (parseShapeTypeField P name) p"
  unfolding parseShapeTypeField_def by (auto simp: wp split: prod.splits intro!: calls; arith)

lemma shape_members [THEN moves_call, calls]:
  assumes "\<And>q name. remaining q < remaining p \<Longrightarrow> moves (f name) q"
  shows "moves (shape_members f) p"
  unfolding shape_members_def by (auto simp: wp intro!: calls moves_call [OF assms] split: prod.splits; arith)

lemma parseShapeTypeInternal [THEN eats_call, calls]: "remaining p \<le> r \<Longrightarrow> eats (parseShapeTypeInternal P b) p"
  unfolding parseShapeTypeInternal_def by (auto simp: wp split: prod.splits intro!: calls; arith)

lemma parseShapeTypeForError [THEN eats_call, calls]: "remaining p \<le> r \<Longrightarrow> eats (parseShapeTypeForError P) p"
  unfolding parseShapeTypeForError_def by (auto simp: wp split: prod.splits intro!: calls; arith)

lemma shape_literal_field [THEN moves_call, calls]: "remaining p < r \<Longrightarrow> moves (shape_literal_field P b name) p"
  unfolding shape_literal_field_def by (auto simp: wp intro!: calls; arith)

lemma parseShapeLiteral [THEN eats_call, calls]: "remaining p \<le> r \<Longrightarrow> eats (parseShapeLiteral P base b) p"
  unfolding parseShapeLiteral_def by (auto simp: wp split: prod.splits intro!: calls; arith)

lemma float_literal [THEN moves_call, calls]: "moves (float_literal P neg t s) p"
  unfolding float_literal_def by (auto simp: wp split: option.splits intro!: calls; arith)

lemma int_literal [THEN moves_call, calls]: "moves (int_literal neg t) p"
  unfolding int_literal_def by (auto simp: wp split: option.splits intro!: calls; arith)

lemma string_literal [THEN moves_call, calls]: "moves (string_literal P t) p"
  unfolding string_literal_def by (auto simp: wp split: option.splits simp: Let_def intro!: calls; arith)

lemma rune_literal [THEN moves_call, calls]: "moves (rune_literal P t) p"
  unfolding rune_literal_def by (auto simp: wp split: option.splits simp: Let_def intro!: calls; arith)

lemma builtin [THEN eats_call, calls]: "tok p \<noteq> TokenEOF \<Longrightarrow> eats (builtin ident) p"
  unfolding builtin_def using live [of p] by (auto simp: wp intro!: calls; arith)

lemma parseOptionalArrayElementTypeSuffix [THEN moves_call, calls]: "remaining p < r \<Longrightarrow> moves (parseOptionalArrayElementTypeSuffix P t) p"
  unfolding parseOptionalArrayElementTypeSuffix_def by (auto simp: wp intro!: calls; arith)

lemma parseBraceCompositeArrayLiteral [THEN eats_call, calls]: "remaining p \<le> r \<Longrightarrow> eats (parseBraceCompositeArrayLiteral P ty) p"
  unfolding parseBraceCompositeArrayLiteral_def by (auto simp: wp intro!: calls; arith)

lemma array_literal [THEN moves_call, calls]: "remaining p < r \<Longrightarrow> moves (array_literal P) p"
  unfolding array_literal_def by (auto simp: wp intro!: calls; arith)

lemma literal_from [THEN moves_call, calls]: "remaining p < r \<Longrightarrow> moves (literal_from P neg t) p"
  unfolding literal_from_def minus_before_def by (auto simp: wp intro!: calls; arith)

lemma parseLiteral [THEN eats_call, calls]: "remaining p \<le> r \<Longrightarrow> eats (parseLiteral P) p"
proof (cases "remaining p = 0")
  case True
  then show ?thesis by (simp add: parseLiteral_def at_end eof_token_def literal_from_def wp)
next
  case False
  assume "remaining p \<le> r"
  with False show ?thesis unfolding parseLiteral_def by (auto simp: wp intro!: calls; arith)
qed

lemma variable_or_shape [THEN moves_call, calls]: "remaining p < r \<Longrightarrow> moves (variable_or_shape P x) p"
  unfolding variable_or_shape_def by (auto simp: wp intro!: calls; arith)

lemma map_entry [THEN eats_call, calls]: "remaining p < r \<Longrightarrow> eats (map_entry P) p"
  unfolding map_entry_def by (auto simp: wp intro!: calls; arith)

lemma map_literal [THEN eats_call, calls]: "remaining p < r \<Longrightarrow> eats (map_literal P) p"
  unfolding map_literal_def by (auto simp: wp intro!: calls; arith)

lemma reference_value [THEN moves_call, calls]: "remaining p < r \<Longrightarrow> moves (reference_value P) p"
  unfolding reference_value_def parseTypeIdent_def by (auto simp: wp intro!: calls; arith)

lemma parseValue [THEN eats_call]:
  assumes "remaining p \<le> r" "\<And>base b. eats (rec_shape_literal P base b) p"
  shows "eats (parseValue P) p"
proof (cases "tok p = TokenIdentifier")
  case True
  with assms(1) show ?thesis
    unfolding parseValue_def by (auto simp: wp intro!: parseIdentifier_eats [THEN eats_call] variable_or_shape)
next
  case False
  with assms(1) show ?thesis
    unfolding parseValue_def
    by (auto simp: wp intro!: assms(2) [THEN eats_call] reference_value map_literal parseIdentifier parseLiteral; arith)
qed

lemma parseExpression [THEN eats_call, calls]: "remaining p < r \<Longrightarrow> eats (parseExpression P) p"
  unfolding parseExpression_def by (auto simp: wp intro!: calls; arith)

lemma call_argument [THEN eats_call, calls]: "remaining p < r \<Longrightarrow> eats (call_argument P) p"
  unfolding call_argument_def by (auto simp: wp intro!: calls; arith)

lemma parseCallArguments [THEN moves_call, calls]: "remaining p < r \<Longrightarrow> moves (parseCallArguments P) p"
  unfolding parseCallArguments_def by (auto simp: wp intro!: calls; arith)

lemma index_high [THEN moves_call, calls]: "remaining p < r \<Longrightarrow> moves (index_high P base low) p"
  unfolding index_high_def by (auto simp: wp intro!: calls; arith)

lemma index_suffix [THEN eats_call, calls]: "remaining p < r \<Longrightarrow> tok p \<noteq> TokenEOF \<Longrightarrow> eats (index_suffix P base) p"
  unfolding index_suffix_def using live [of p] by (auto simp: wp intro!: calls; arith)

lemma parseIndexSuffixChain [THEN moves_call, calls]: "remaining p < r \<Longrightarrow> moves (parseIndexSuffixChain P base) p"
  unfolding parseIndexSuffixChain_def by (auto simp: wp intro!: calls; arith)

lemma tryParseTypeArgList [THEN moves_call, calls]: "remaining p < r \<Longrightarrow> moves (tryParseTypeArgList P) p"
  unfolding tryParseTypeArgList_def by (auto simp: wp split: if_splits intro!: calls)

lemma tryParseGenericTypeArgSuffix:
  "remaining p < r \<Longrightarrow>
   runs (tryParseGenericTypeArgSuffix P) p (\<lambda>x q. case x of None \<Rightarrow> q = p | Some _ \<Rightarrow> remaining q < remaining p)"
  unfolding tryParseGenericTypeArgSuffix_def by (auto simp: wp intro!: calls split: option.splits; arith)

lemma call_suffix_moves: "remaining p < r \<Longrightarrow> moves (call_suffix P mk) p"
  unfolding call_suffix_def by (auto simp: wp intro!: calls; arith)

lemma call_suffix [THEN eats_call, calls]:
  "remaining p \<le> r \<Longrightarrow> tok p \<noteq> TokenEOF \<Longrightarrow> eats (call_suffix P mk) p"
  unfolding call_suffix_def using live [of p] by (auto simp: wp intro!: calls; arith)

lemma selector_suffix [THEN eats_call, calls]: "remaining p < r \<Longrightarrow> tok p \<noteq> TokenEOF \<Longrightarrow> eats (selector_suffix P base) p"
  unfolding selector_suffix_def using live [of p] by (auto simp: wp intro!: calls; arith)

lemma parseIndexSuffixChain_eats:
  "remaining p < r \<Longrightarrow> tok p = TokenLBracket \<Longrightarrow> eats (parseIndexSuffixChain P base) p"
  unfolding parseIndexSuffixChain_def by (rule loop_until_eats) (auto intro!: index_suffix)

lemma postfix_step [THEN eats_call, calls]:
  assumes "remaining p < r" "tok p = TokenLBracket \<or> tok p = TokenLParen \<or> tok p = TokenDot"
  shows "eats (postfix_step P base) p"
  unfolding postfix_step_def runs_bindp
proof (rule runs_mono [OF tryParseGenericTypeArgSuffix [OF assms(1)]], goal_cases)
  case (1 generic q)
  show ?case
  proof (cases generic)
    case None
    then show ?thesis using assms 1 live [of p]
      by (auto intro!: parseIndexSuffixChain_eats call_suffix selector_suffix simp: wp)
  next
    case (Some typeArgs)
    then show ?thesis using assms(1) 1 by (auto intro!: call_suffix_moves [THEN moves_call])
  qed
qed

lemma parsePostfixSuffixChain [THEN moves_call, calls]: "remaining p < r \<Longrightarrow> moves (parsePostfixSuffixChain P base) p"
  unfolding parsePostfixSuffixChain_def by (auto simp: wp intro!: calls; arith)

lemma parseMakeNewCallArguments [THEN moves_call, calls]: "remaining p < r \<Longrightarrow> moves (parseMakeNewCallArguments P) p"
  unfolding parseMakeNewCallArguments_def by (auto simp: wp intro!: calls; arith)

lemma finish_call [THEN moves_call, calls]: "moves (finish_call x t args) p"
  unfolding finish_call_def by (auto simp: wp split: list.splits intro!: calls; arith)

lemma identifier_moves [THEN moves_call, calls]: "remaining p < r \<Longrightarrow> moves (parseIdentifierPrimary P) p"
  unfolding parseIdentifierPrimary_def by (auto simp: wp intro!: calls; arith)

lemma identifier_eats:
  "remaining p \<le> r \<Longrightarrow> tok p \<noteq> TokenEOF \<Longrightarrow> eats (parseIdentifierPrimary P) p"
  unfolding parseIdentifierPrimary_def
  by (auto simp: wp intro!: parseIdentifier_eats [THEN eats_call] parseMakeNewCallArguments parseCallArguments finish_call
        variable_or_shape)

lemma tryParseSliceConversion:
  "remaining p \<le> r \<Longrightarrow> tok p = TokenLBracket \<Longrightarrow>
   runs (tryParseSliceConversion P) p (\<lambda>x q. case x of None \<Rightarrow> q = p | Some _ \<Rightarrow> remaining q < remaining p)"
  unfolding tryParseSliceConversion_def using live [of p]
  by (auto simp: wp intro!: calls call_suffix_moves [THEN moves_call] split: option.splits; arith)

lemma type_name_primary [THEN eats_call, calls]: "eats (type_name_primary) p"
  unfolding type_name_primary_def by (auto simp: wp intro!: calls; arith)

lemma dereference_primary [THEN eats_call, calls]: "remaining p \<le> r \<Longrightarrow> tok p \<noteq> TokenEOF \<Longrightarrow> eats (dereference_primary P depth) p"
  unfolding dereference_primary_def using live [of p] by (auto simp: wp intro!: calls; arith)

lemma primary:
  assumes "remaining p \<le> r" "eats (rec_value P) p"
  shows "eats (primary P depth) p"
proof (cases "tok p = TokenLBracket")
  case True
  then show ?thesis
    using assms live [of p]
    by (auto simp: primary_def wp split: option.splits
          intro!: tryParseSliceConversion [THEN runs_mono] assms(2) [THEN eats_call])
next
  case False
  then show ?thesis
    using assms(1) live [of p]
    by (auto simp: primary_def wp intro!: assms(2) [THEN eats_call] unary_ok [THEN eats_call] expr_ok [THEN eats_call]
          dereference_primary parseFunctionLiteral identifier_eats type_name_primary; arith)
qed

lemma parseUnaryOrPrimary [THEN eats_call]:
  "remaining p \<le> r \<Longrightarrow> eats (rec_value P) p \<Longrightarrow> eats (parseUnaryOrPrimary P depth) p"
  unfolding parseUnaryOrPrimary_def too_deep_def
  by (auto simp: wp intro!: primary [THEN eats_call] parsePostfixSuffixChain)

lemma binary_step:
  assumes "remaining p < r" "\<not> binary_stop minPrec p"
  shows "eats (binary_step P depth lhs) p"
proof -
  have "0 < remaining p" using live [of p] assms(2) by (auto simp: binary_stop_def IsBinaryOperator_def)
  then show ?thesis using assms(1)
    unfolding binary_step_def by (auto simp: wp split: prod.splits intro!: calls; arith)
qed

lemma parseExpr [THEN eats_call]:
  assumes "remaining p \<le> r" "\<And>d. eats (rec_unary P d) p"
  shows "eats (parseExpr P minPrec depth) p"
  unfolding parseExpr_def too_deep_def
  using assms(1) by (auto simp: wp intro!: assms(2) [THEN eats_call] loop_until_moves binary_step)

lemma parseType [THEN eats_call]:
  assumes "remaining p \<le> r" "\<And>b. eats (rec_shape_type P b) p"
  shows "eats (parseType P opts) p"
  unfolding parseType_def using assms(1)
  by (auto simp: wp intro!: assms(2) [THEN eats_call] type_ok [THEN eats_call] builtin array_type_suffix
        func_type interface_type named_type; arith)

lemma optional_init [THEN moves_call, calls]: "remaining p < r \<Longrightarrow> moves (optional_init P) p"
  unfolding optional_init_def by (auto simp: wp intro!: calls; arith)

lemma typed_var [THEN eats_call, calls]: "remaining p < r \<Longrightarrow> eats (typed_var P t) p"
  unfolding typed_var_def by (auto simp: wp intro!: calls; arith)

lemma parseVarStatement [THEN eats_call, calls]: "remaining p \<le> r \<Longrightarrow> tok p \<noteq> TokenEOF \<Longrightarrow> eats (parseVarStatement P) p"
  unfolding parseVarStatement_def using live [of p] by (auto simp: wp intro!: calls; arith)

lemma parsePackageVarDeclaration [THEN eats_call, calls]: "remaining p \<le> r \<Longrightarrow> tok p \<noteq> TokenEOF \<Longrightarrow> eats (parsePackageVarDeclaration P) p"
  unfolding parsePackageVarDeclaration_def by (auto simp: wp intro!: calls; arith)

lemma parseVarDeclaration [THEN eats_call, calls]: "remaining p < r \<Longrightarrow> eats (parseVarDeclaration P) p"
  unfolding parseVarDeclaration_def by (auto simp: wp intro!: calls; arith)

lemma parseAssignableExpr [THEN eats_call, calls]: "remaining p \<le> r \<Longrightarrow> eats (parseAssignableExpr P) p"
  unfolding parseAssignableExpr_def by (auto simp: wp intro!: identifier_eats [THEN eats_call] parseIndexSuffixChain)

lemma check_target [THEN moves_call, calls]: "moves (check_target lhs ty t) p"
  unfolding check_target_def by (auto simp: wp intro!: calls; arith)

lemma annotated_target [THEN moves_call, calls]: "remaining p < r \<Longrightarrow> moves (annotated_target P lhs) p"
  unfolding annotated_target_def by (auto simp: wp split: ExpressionNode.splits intro!: calls; arith)

lemma finishAssignment [THEN moves_call, calls]: "remaining p < r \<Longrightarrow> moves (finishAssignment P lhs) p"
  unfolding finishAssignment_def by (auto simp: wp split: prod.splits intro!: calls; arith)

lemma parseAssignment [THEN eats_call, calls]: "remaining p \<le> r \<Longrightarrow> eats (parseAssignment P) p"
  unfolding parseAssignment_def by (auto simp: wp intro!: calls; arith)

lemma parseMultipleAssignment [THEN eats_call, calls]: "remaining p \<le> r \<Longrightarrow> eats (parseMultipleAssignment P) p"
  unfolding parseMultipleAssignment_def by (auto simp: wp intro!: calls; arith)

lemma stars [THEN moves_call, calls]: "moves (stars) p"
  unfolding stars_def by (auto simp: wp intro!: calls; arith)

lemma stars_eats: "tok p = TokenStar \<Longrightarrow> eats stars p"
  unfolding stars_def by (rule loop_until_eats) (auto simp: wp)

lemma parseDerefAssignableExpr [THEN moves_call, calls]: "remaining p \<le> r \<Longrightarrow> moves (parseDerefAssignableExpr P) p"
  unfolding parseDerefAssignableExpr_def
  by (auto simp: wp intro!: stars_eats [THEN eats_call] identifier_moves parseIndexSuffixChain)

lemma use_binding [THEN moves_call, calls]: "moves (use_binding) p"
  unfolding use_binding_def by (auto simp: wp split: prod.splits intro!: calls; arith)

lemma parseUseStatement [THEN eats_call, calls]: "remaining p \<le> r \<Longrightarrow> tok p \<noteq> TokenEOF \<Longrightarrow> eats (parseUseStatement P) p"
  unfolding parseUseStatement_def using live [of p] by (auto simp: wp intro!: calls; arith)

lemma with_wiring [THEN moves_call, calls]: "remaining p < r \<Longrightarrow> moves (with_wiring P) p"
  unfolding with_wiring_def by (auto simp: wp split: prod.splits intro!: calls; arith)

lemma parseWithStatement [THEN eats_call, calls]: "remaining p \<le> r \<Longrightarrow> tok p \<noteq> TokenEOF \<Longrightarrow> eats (parseWithStatement P) p"
  unfolding parseWithStatement_def using live [of p] by (auto simp: wp intro!: calls; arith)

lemma parseReturnStatement [THEN eats_call, calls]: "remaining p \<le> r \<Longrightarrow> tok p \<noteq> TokenEOF \<Longrightarrow> eats (parseReturnStatement P) p"
  unfolding parseReturnStatement_def using live [of p] by (auto simp: wp intro!: calls; arith)

lemma parseEnsureBlock [THEN moves_call, calls]: "remaining p < r \<Longrightarrow> moves (parseEnsureBlock P) p"
  unfolding parseEnsureBlock_def by (auto simp: wp intro!: calls; arith)

lemma parseEnsureError [THEN eats_call, calls]: "remaining p < r \<Longrightarrow> eats (parseEnsureError P) p"
  unfolding parseEnsureError_def by (auto simp: wp intro!: calls; arith)

lemma subject_step [THEN eats_call, calls]: "remaining p < r \<Longrightarrow> tok p \<noteq> TokenEOF \<Longrightarrow> eats (subject_step P s) p"
  unfolding subject_step_def using live [of p] by (auto simp: wp split: sum.splits intro!: calls; arith)

lemma parseEnsureSubject [THEN eats_call, calls]: "remaining p < r \<Longrightarrow> eats (parseEnsureSubject P) p"
  unfolding parseEnsureSubject_def by (auto simp: wp split: sum.splits intro!: calls; arith)

lemma ensure_bang [THEN moves_call, calls]: "moves (ensure_bang) p"
  unfolding ensure_bang_def by (auto simp: wp split: prod.splits intro!: calls; arith)

lemma ensure_is [THEN moves_call, calls]: "remaining p < r \<Longrightarrow> moves (ensure_is P s) p"
  unfolding ensure_is_def by (auto simp: wp split: prod.splits intro!: calls; arith)

lemma ensure_place [THEN moves_call, calls]: "remaining p < r \<Longrightarrow> moves (ensure_place P) p"
  unfolding ensure_place_def by (auto simp: wp intro!: calls; arith)

lemma ensure_failure [THEN moves_call, calls]: "remaining p < r \<Longrightarrow> moves (ensure_failure P) p"
  unfolding ensure_failure_def by (auto simp: wp split: prod.splits intro!: calls; arith)

lemma parseEnsureStatement [THEN eats_call, calls]: "remaining p \<le> r \<Longrightarrow> tok p \<noteq> TokenEOF \<Longrightarrow> eats (parseEnsureStatement P) p"
  unfolding parseEnsureStatement_def using live [of p] by (auto simp: wp split: prod.splits intro!: calls; arith)

lemma parseIncDecStmt [THEN eats_call, calls]: "eats (parseIncDecStmt) p"
  unfolding parseIncDecStmt_def by (auto simp: wp split: prod.splits intro!: calls; arith)

lemma parseSendStmt [THEN eats_call, calls]: "remaining p \<le> r \<Longrightarrow> eats (parseSendStmt P) p"
  unfolding parseSendStmt_def by (auto simp: wp intro!: calls; arith)

lemma expression_stmt [THEN eats_call, calls]: "remaining p < r \<Longrightarrow> eats (expression_stmt P) p"
  unfolding expression_stmt_def by (auto simp: wp intro!: calls; arith)

lemma parseSimpleStatement [THEN eats_call, calls]: "remaining p < r \<Longrightarrow> eats (parseSimpleStatement P) p"
  unfolding parseSimpleStatement_def by (auto simp: wp split: prod.splits intro!: calls; arith)

lemma call_statement [THEN eats_call, calls]: "remaining p \<le> r \<Longrightarrow> tok p \<noteq> TokenEOF \<Longrightarrow> eats (call_statement P mk code) p"
  unfolding call_statement_def using live [of p] by (auto simp: wp intro!: calls; arith)

lemma parseDeferStatement [THEN eats_call, calls]: "remaining p \<le> r \<Longrightarrow> tok p \<noteq> TokenEOF \<Longrightarrow> eats (parseDeferStatement P) p"
  unfolding parseDeferStatement_def by (auto simp: wp intro!: calls; arith)

lemma parseGoStatement [THEN eats_call, calls]: "remaining p \<le> r \<Longrightarrow> tok p \<noteq> TokenEOF \<Longrightarrow> eats (parseGoStatement P) p"
  unfolding parseGoStatement_def by (auto simp: wp intro!: calls; arith)

lemma semicolon_after [THEN moves_call, calls]: "moves m p \<Longrightarrow> moves (semicolon_after what m) p"
  unfolding semicolon_after_def by (auto simp: wp intro!: moves_call [of m]; arith)

lemma some_node: "eats m p \<Longrightarrow> moves (bindp m (\<lambda>n. ret (f n))) p"
  by (auto simp: wp intro: runs_mono)

lemma if_init [THEN moves_call, calls]: "remaining p < r \<Longrightarrow> moves (if_init P) p"
  unfolding if_init_def
  by (auto simp: wp Let_def split: prod.splits intro!: semicolon_after some_node parseVarDeclaration parseAssignment
        parseIncDecStmt parseSendStmt; arith)

lemma condition_and_block [THEN eats_call, calls]: "remaining p < r \<Longrightarrow> eats (condition_and_block P msg) p"
  unfolding condition_and_block_def by (auto simp: wp intro!: calls; arith)

lemma else_step [THEN eats_call, calls]: "remaining p < r \<Longrightarrow> tok p \<noteq> TokenEOF \<Longrightarrow> eats (else_step P s) p"
  unfolding else_step_def using live [of p] by (auto simp: wp intro!: calls; arith)

lemma parseIfStatement [THEN eats_call, calls]: "remaining p \<le> r \<Longrightarrow> tok p \<noteq> TokenEOF \<Longrightarrow> eats (parseIfStatement P) p"
  unfolding parseIfStatement_def using live [of p] by (auto simp: wp split: prod.splits intro!: calls; arith)

lemma loop_operand:
  "remaining p < r \<Longrightarrow> eats (parseForConditionExpression P) p" "remaining p < r \<Longrightarrow> eats (parseRangeExpression P) p"
  unfolding parseForConditionExpression_def parseRangeExpression_def
  by (auto simp: wp split: prod.splits intro!: parseIdentifier_eats [THEN eats_call] parseExpression)

lemmas loop_operands [calls] = loop_operand [THEN eats_call]

lemma unless [THEN moves_call, calls]:
  assumes "eats m p"
  shows "moves (unless stop m) p"
  unfolding unless_def using assms by (auto simp: wp intro: runs_mono)

lemma parseForThreeClause [THEN eats_call, calls]: "remaining p < r \<Longrightarrow> eats (parseForThreeClause P) p"
  unfolding parseForThreeClause_def by (auto simp: wp intro!: calls; arith)

lemma range_value [THEN moves_call, calls]: "moves (range_value) p"
  unfolding range_value_def by (auto simp: wp intro!: calls; arith)

lemma parseForRangeClause [THEN eats_call, calls]: "remaining p < r \<Longrightarrow> eats (parseForRangeClause P) p"
  unfolding parseForRangeClause_def by (auto simp: wp intro!: calls; arith)

lemma parseForStatement [THEN eats_call, calls]: "remaining p \<le> r \<Longrightarrow> tok p \<noteq> TokenEOF \<Longrightarrow> eats (parseForStatement P) p"
  unfolding parseForStatement_def using live [of p] by (auto simp: wp split: prod.splits forHeaderKind.splits intro!: calls; arith)

lemma label_after [THEN eats_call, calls]: "tok p \<noteq> TokenEOF \<Longrightarrow> eats (label_after mk) p"
  unfolding label_after_def using live [of p] by (auto simp: wp intro!: calls; arith)

lemma switch_init [THEN moves_call, calls]: "remaining p < r \<Longrightarrow> moves (switch_init P) p"
  unfolding switch_init_def
  by (auto simp: wp Let_def split: prod.splits intro!: semicolon_after some_node parseVarDeclaration parseAssignment; arith)

lemma parseSwitchCaseValues [THEN eats_call, calls]: "remaining p < r \<Longrightarrow> eats (parseSwitchCaseValues P) p"
  unfolding parseSwitchCaseValues_def by (auto simp: wp intro!: calls; arith)

lemma parseSwitchClauseBody [THEN moves_call, calls]: "remaining p < r \<Longrightarrow> moves (parseSwitchClauseBody P) p"
  unfolding parseSwitchClauseBody_def by (auto simp: wp split: if_splits intro!: calls; arith)

lemma switch_clause [THEN eats_call, calls]: "remaining p < r \<Longrightarrow> eats (switch_clause P) p"
  unfolding switch_clause_def by (auto simp: wp intro!: calls; arith)

lemma parseSwitchClauses [THEN moves_call, calls]: "remaining p < r \<Longrightarrow> moves (parseSwitchClauses P) p"
  unfolding parseSwitchClauses_def by (auto simp: wp intro!: calls; arith)

lemma parseSwitchStatement [THEN eats_call, calls]: "remaining p \<le> r \<Longrightarrow> tok p \<noteq> TokenEOF \<Longrightarrow> eats (parseSwitchStatement P) p"
  unfolding parseSwitchStatement_def using live [of p] by (auto simp: wp split: prod.splits intro!: calls; arith)

lemma tryParseTypeThenAssignOp [THEN moves_call, calls]: "remaining p < r \<Longrightarrow> moves (tryParseTypeThenAssignOp P) p"
  unfolding tryParseTypeThenAssignOp_def by (auto simp: wp intro!: runs_recovered [OF type_ok])

lemma looksLikeLabeledStatement:
  "remaining p \<le> r \<Longrightarrow> runs (looksLikeLabeledStatement P) p (\<lambda>_ q. q = p)"
  unfolding looksLikeLabeledStatement_def by (auto simp: wp split: prod.splits intro!: calls)

lemma parseGotoStatement [THEN eats_call, calls]: "tok p \<noteq> TokenEOF \<Longrightarrow> eats (parseGotoStatement) p"
  unfolding parseGotoStatement_def using live [of p] by (auto simp: wp intro!: calls; arith)

lemma parseLabeledStatement [THEN eats_call, calls]: "remaining p \<le> r \<Longrightarrow> eats (parseLabeledStatement P) p"
  unfolding parseLabeledStatement_def by (auto simp: wp split: list.splits intro!: calls; arith)

lemma assignment_target:
  "remaining p \<le> r \<Longrightarrow>
   runs (assignment_target P) p (\<lambda>x q. case x of None \<Rightarrow> q = p | Some _ \<Rightarrow> remaining q < remaining p)"
  unfolding assignment_target_def by (auto simp: wp intro!: calls split: option.splits)

lemma deref_target:
  "remaining p \<le> r \<Longrightarrow> tok p = TokenStar \<Longrightarrow>
   runs (deref_target P) p (\<lambda>x q. case x of None \<Rightarrow> q = p | Some _ \<Rightarrow> remaining q < remaining p)"
  unfolding deref_target_def parseDerefAssignableExpr_def
  by (auto simp: wp intro!: stars_eats [THEN eats_call] identifier_moves parseIndexSuffixChain split: option.splits)

lemma assign_or_expression:
  assumes "remaining p \<le> r" "\<And>a b. eats (rec_expr P a b) p"
    and "runs target p (\<lambda>x q. case x of None \<Rightarrow> q = p | Some _ \<Rightarrow> remaining q < remaining p)"
  shows "eats (assign_or_expression P target) p"
  unfolding assign_or_expression_def runs_bindp
proof (rule runs_mono [OF assms(3)], goal_cases)
  case (1 lhs q)
  then show ?case using assms(1)
    by (auto simp: wp expression_stmt_def parseExpression_def split: option.splits
          intro!: assms(2) [THEN eats_call] finishAssignment)
qed

lemma identifier_statement:
  assumes "remaining p \<le> r" "\<And>a b. eats (rec_expr P a b) p"
  shows "eats (identifier_statement P) p"
  unfolding identifier_statement_def outside_guard_def using assms(1)
  by (auto simp: wp split: prod.splits intro!: looksLikeLabeledStatement [THEN runs_mono] parseLabeledStatement
        parseMultipleAssignment parseIncDecStmt parseSendStmt assign_or_expression assms(2) assignment_target)

lemma outside_guard: "eats m p \<Longrightarrow> eats (outside_guard code m) p"
  unfolding outside_guard_def by (auto simp: wp)

lemma stmt_ret: "eats m p \<Longrightarrow> eats (bindp m (\<lambda>x. ret (f x))) p"
  by (simp add: wp)

lemma block_statement:
  assumes "remaining p \<le> r" "\<And>a b. eats (rec_expr P a b) p"
  shows "eats (block_statement P) p"
  unfolding block_statement_def parseBreakStatement_def parseContinueStatement_def using assms(1)
  by (auto simp: runs_look runs_if expression_stmt_def parseExpression_def intro!: outside_guard stmt_ret parseVarStatement
        parseEnsureStatement parseUseStatement parseWithStatement parseReturnStatement parseGotoStatement
        identifier_statement parseIfStatement parseSwitchStatement parseForStatement label_after parseDeferStatement
        parseGoStatement assign_or_expression deref_target assms(2))

lemma parseBlockStatement [THEN eats_call]:
  "remaining p \<le> r \<Longrightarrow> (\<And>a b. eats (rec_expr P a b) p) \<Longrightarrow> eats (parseBlockStatement P) p"
  unfolding parseBlockStatement_def by (intro stmt_ret block_statement)

lemma block_comments [THEN moves_call, calls]: "moves (block_comments body) p"
  unfolding block_comments_def by (auto simp: wp intro!: calls; arith)

lemma block_step:
  assumes "remaining p < r" "tok p \<noteq> TokenRBrace" "tok p \<noteq> TokenEOF"
  shows "eats (block_step P body) p"
proof (cases "tok p = TokenComment")
  case True
  then have "eats (block_comments body) p"
    unfolding block_comments_def by (intro loop_until_eats) (auto simp: wp)
  then show ?thesis unfolding block_step_def using assms(1)
    by (auto simp: wp intro!: statement_ok [THEN eats_call] elim!: eats_call)
next
  case False
  then have "block_comments body p = Inr (body, p)" by (simp add: block_comments_def loop_until_def)
  then have "runs (block_comments body) p (\<lambda>_ q. q = p)" by (simp add: runs_def)
  then show ?thesis unfolding block_step_def using assms
    by (auto simp: wp intro!: statement_ok [THEN eats_call] elim!: runs_mono)
qed

lemma parseBlockWithClose [THEN eats_call]: "remaining p \<le> r \<Longrightarrow> eats (parseBlockWithClose P) p"
  unfolding parseBlockWithClose_def by (auto simp: wp intro!: loop_until_moves block_step)

lemma parsePackage [THEN eats_call, calls]: "eats (parsePackage) p"
  unfolding parsePackage_def by (auto simp: wp intro!: calls; arith)

lemma import_alias [THEN moves_call, calls]: "moves (import_alias) p"
  unfolding import_alias_def by (auto simp: wp intro!: calls; arith)

lemma import_marker [THEN moves_call, calls]: "moves (import_marker path g) p"
  unfolding import_marker_def by (auto simp: wp intro!: calls; arith)

lemma parseImport [THEN eats_call, calls]: "eats (parseImport P g) p"
  unfolding parseImport_def by (auto simp: wp simp: Let_def intro!: calls; arith)

lemma parseImportGroup [THEN moves_call, calls]: "moves (parseImportGroup P) p"
  unfolding parseImportGroup_def by (auto simp: wp intro!: calls; arith)

lemma parseImports [THEN eats_call, calls]: "remaining p \<le> r \<Longrightarrow> tok p \<noteq> TokenEOF \<Longrightarrow> eats (parseImports P) p"
  unfolding parseImports_def using live [of p] by (auto simp: wp intro!: calls; arith)

lemma tryParseTypeDefLiteralMember:
  "remaining p \<le> r \<Longrightarrow>
   runs (tryParseTypeDefLiteralMember P) p (\<lambda>x q. case x of None \<Rightarrow> q = p | Some _ \<Rightarrow> remaining q < remaining p)"
  unfolding tryParseTypeDefLiteralMember_def by (auto simp: wp split: prod.splits intro!: calls)

lemma shape_typedef:
  assumes "remaining p \<le> r" "\<And>b. eats (rec_shape_type P b) p"
  shows "moves (shape_typedef P) p"
  unfolding shape_typedef_def using assms(1)
  by (auto simp: wp intro!: assms(2) [THEN eats_call] parseDotConstraintChain)

lemma meet_chain_here:
  assumes "remaining p \<le> r" "\<And>b. eats (rec_type P b) p" "Type (peek 1 p) \<noteq> TokenLParen"
  shows "moves (parseAssertionMeetChain P b) p"
  unfolding parseAssertionMeetChain_def using assms(1,3)
  by (auto simp: wp split: prod.splits intro!: assms(2) [THEN eats_call] parseDotConstraintChain resolveQualifiedType)

lemma typedef_operand [THEN moves_call, calls]:
  assumes "remaining p \<le> r" "\<And>b. eats (rec_type P b) p"
  shows "moves (typedef_operand P) p"
  unfolding typedef_operand_def parseAssertionChain_def runs_bindp
proof (rule runs_mono [OF tryParseTypeDefLiteralMember [OF assms(1)]], goal_cases)
  case (1 lit q)
  then show ?case using assms(1)
    by (auto simp: wp split: option.splits intro!: meet_chain_here [THEN moves_call] assms(2) assms(2) [THEN eats_call])
qed

lemma parseTypeDefExpr [THEN moves_call]:
  assumes "remaining p \<le> r" "\<And>b. eats (rec_type P b) p" "\<And>b. eats (rec_shape_type P b) p"
  shows "moves (parseTypeDefExpr P) p"
  unfolding parseTypeDefExpr_def using assms(1)
  by (auto simp: wp intro!: shape_typedef assms typedef_operand typedef_ok [THEN moves_call]; arith)

lemma parseTypeDef [THEN eats_call, calls]: "remaining p \<le> r \<Longrightarrow> eats (parseTypeDef P) p"
  unfolding parseTypeDef_def by (auto simp: wp intro!: calls; arith)

lemma parseErrorTypeDef [THEN eats_call, calls]: "remaining p \<le> r \<Longrightarrow> eats (parseErrorTypeDef P) p"
  unfolding parseErrorTypeDef_def by (auto simp: wp intro!: calls; arith)

lemma parseConstSpec [THEN eats_call, calls]: "remaining p < r \<Longrightarrow> eats (parseConstSpec P b) p"
  unfolding parseConstSpec_def by (auto simp: wp intro!: calls; arith)

lemma parseConstSpecList [THEN moves_call, calls]: "remaining p < r \<Longrightarrow> moves (parseConstSpecList P) p"
  unfolding parseConstSpecList_def by (auto simp: wp intro!: calls; arith)

lemma parseConstDeclaration [THEN eats_call, calls]: "remaining p \<le> r \<Longrightarrow> tok p \<noteq> TokenEOF \<Longrightarrow> eats (parseConstDeclaration P) p"
  unfolding parseConstDeclaration_def using live [of p] by (auto simp: wp intro!: calls; arith)

lemma parseFunctionName [THEN eats_call, calls]: "eats (parseFunctionName) p"
  unfolding parseFunctionName_def by (auto simp: wp split: prod.splits intro!: calls; arith)

lemma parseReceiver [THEN eats_call, calls]: "remaining p < r \<Longrightarrow> eats (parseReceiver P) p"
  unfolding parseReceiver_def by (auto simp: wp split: if_splits intro!: calls; arith)

lemma type_param [THEN eats_call, calls]: "remaining p < r \<Longrightarrow> eats (type_param P) p"
  unfolding type_param_def by (auto simp: wp intro!: calls; arith)

lemma parseTypeParamList [THEN moves_call, calls]: "remaining p < r \<Longrightarrow> moves (parseTypeParamList P) p"
  unfolding parseTypeParamList_def by (auto simp: wp intro!: calls; arith)

lemma set_function_name [THEN moves_call, calls]: "moves (set_function_name n) p"
  unfolding set_function_name_def by (auto simp: wp intro!: calls; arith)

lemma parseFunctionDefinition [THEN eats_call, calls]: "remaining p \<le> r \<Longrightarrow> eats (parseFunctionDefinition P) p"
  unfolding parseFunctionDefinition_def parseFunctionBody_def parseBlock_def by (auto simp: wp intro!: calls; arith)

lemma parseInlineTypeGuardBody [THEN moves_call, calls]: "remaining p < r \<Longrightarrow> moves (parseInlineTypeGuardBody P s) p"
  unfolding parseInlineTypeGuardBody_def parseEnsureStatement_def by (auto simp: wp split: prod.splits intro!: calls; arith)

lemma guard_params [THEN moves_call, calls]: "remaining p < r \<Longrightarrow> moves (guard_params P) p"
  unfolding guard_params_def by (auto simp: wp intro!: calls; arith)

lemma parseTypeGuardBody [THEN moves_call, calls]: "remaining p < r \<Longrightarrow> moves (parseTypeGuardBody P s) p"
  unfolding parseTypeGuardBody_def parseBlock_def by (auto simp: wp intro!: calls; arith)

lemma parseTypeGuard [THEN eats_call, calls]: "remaining p \<le> r \<Longrightarrow> eats (parseTypeGuard P) p"
  unfolding parseTypeGuard_def by (auto simp: wp intro!: calls; arith)

lemma scoped:
  assumes "\<And>q. remaining q = remaining p \<Longrightarrow> eats m q"
  shows "eats (scoped g m name) p"
  unfolding scoped_def PushScope_def NewScope_def
  by (auto simp: wp intro!: assms [THEN eats_call] set_function_name)

lemma parse_decl:
  assumes "remaining p \<le> r"
  shows "eats (parse_decl P) p"
  unfolding parse_decl_def using assms
  by (auto simp: wp intro!: parsePackage parseImports parseTypeDef parseErrorTypeDef parsePackageVarDeclaration
        parseConstDeclaration scoped [THEN eats_call] parseFunctionDefinition parseTypeGuard)

lemma parse_decls: "remaining p \<le> r \<Longrightarrow> moves (parse_decls P) p"
  unfolding parse_decls_def by (auto simp: wp intro!: loop_until_moves parse_decl [THEN eats_call])

end

section \<open>Enough fuel\<close>

text \<open>What holds of the parsers with \<open>n\<close> levels of calls left: each is fine where its bound is below \<open>n\<close>.\<close>

definition fuelled :: "parsers \<Rightarrow> nat \<Rightarrow> Parser \<Rightarrow> bool" where
  "fuelled P n p \<longleftrightarrow>
     (5 * remaining p < n \<longrightarrow>
        (\<forall>base b. eats (rec_shape_literal P base b) p) \<and> (\<forall>b. eats (rec_shape_type P b) p) \<and>
        (\<forall>ty. eats (rec_composite P ty) p) \<and> eats (rec_block P) p) \<and>
     (5 * remaining p + 1 < n \<longrightarrow> eats (rec_value P) p \<and> (\<forall>b. eats (rec_type P b) p)) \<and>
     (5 * remaining p + 2 < n \<longrightarrow> (\<forall>d. eats (rec_unary P d) p) \<and> moves (rec_typedef P) p) \<and>
     (5 * remaining p + 3 < n \<longrightarrow> (\<forall>a b. eats (rec_expr P a b) p)) \<and>
     (5 * remaining p + 4 < n \<longrightarrow> eats (rec_statement P) p)"

lemma fuelled_ready: "(\<And>p. fuelled P n p) \<Longrightarrow> 5 * r \<le> n \<Longrightarrow> ready_parsers P r"
  by unfold_locales (simp_all add: fuelled_def)

lemma parsers_fuelled: "fuelled (parsers_at E n) n p"
proof (induction n arbitrary: p)
  case 0
  show ?case by (simp add: fuelled_def)
next
  case (Suc n)
  let ?P = "parsers_at E n"
  show ?case
  proof (cases "5 * remaining p \<le> n")
    case True
    have ready: "ready_parsers ?P (remaining p)" using fuelled_ready Suc True by blast
    have here: "fuelled ?P n p" by (rule Suc)
    have zero: "eats (parseShapeLiteral ?P base b) p" "eats (parseShapeTypeInternal ?P b) p"
      "eats (parseBraceCompositeArrayLiteral ?P ty) p" "eats (parseBlockWithClose ?P) p" for base b ty
      by (rule ready_parsers.parseShapeLiteral [OF ready] ready_parsers.parseShapeTypeInternal [OF ready]
               ready_parsers.parseBraceCompositeArrayLiteral [OF ready] ready_parsers.parseBlockWithClose [OF ready]; simp)+
    have one: "eats (parseValue ?P) p" "eats (parseType ?P b) p" if "5 * remaining p + 1 \<le> n" for b
      using here that
      by (auto simp: fuelled_def intro!: ready_parsers.parseValue [OF ready] ready_parsers.parseType [OF ready])
    have two: "eats (parseUnaryOrPrimary ?P d) p" "moves (parseTypeDefExpr ?P) p" if "5 * remaining p + 2 \<le> n" for d
      using here that
      by (auto simp: fuelled_def intro!: ready_parsers.parseUnaryOrPrimary [OF ready] ready_parsers.parseTypeDefExpr [OF ready])
    have three: "eats (parseExpr ?P a d) p" if "5 * remaining p + 3 \<le> n" for a d
      using here that by (auto simp: fuelled_def intro!: ready_parsers.parseExpr [OF ready])
    have four: "eats (parseBlockStatement ?P) p" if "5 * remaining p + 4 \<le> n"
      using here that by (auto simp: fuelled_def intro!: ready_parsers.parseBlockStatement [OF ready])
    show ?thesis using zero one two three four by (simp add: fuelled_def Let_def)
  next
    case False
    then show ?thesis by (simp add: fuelled_def)
  qed
qed

interpretation fuel: ready_parsers "parsers_at E (5 * r + k)" r for E r k
  by (rule fuelled_ready [OF parsers_fuelled]) simp

end
