(* ===== verification/Parser_Fuel.thy ===== *)
theory Parser_Fuel
  imports Parser_Props
begin

text \<open>
  The result of the parser does not depend on the fuel: a parser that did not run out of fuel gives
  the same result with more. \<open>m below m'\<close> orders parsers by definedness, as the option domain of
  \<open>partial_function\<close> does; every operation of the parser is monotone in the recursive calls it makes.
\<close>

section \<open>Definedness\<close>

definition below :: "'a parser \<Rightarrow> 'a parser \<Rightarrow> bool" where
  "below m m' \<longleftrightarrow> (\<forall>p. m p = Inl OutOfFuel \<or> m p = m' p)"

lemma belowD: "below m m' \<Longrightarrow> m p \<noteq> Inl OutOfFuel \<Longrightarrow> m' p = m p"
  by (metis below_def)

lemma below_cases: "below m m' \<Longrightarrow> m p = Inl OutOfFuel \<or> m p = m' p"
  by (simp add: below_def)

lemma below_pointwise:
  "below m m' \<Longrightarrow> (\<And>p. m p = Inl OutOfFuel \<Longrightarrow> g m p = Inl OutOfFuel) \<Longrightarrow> (\<And>p. m p = m' p \<Longrightarrow> g m p = g m' p) \<Longrightarrow>
   below (g m) (g m')"
  by (metis below_def)

lemma below_refl [below_intros]: "below m m"
  by (simp add: below_def)

lemma below_bindp [below_intros]:
  assumes "below m m'" "\<And>x. below (f x) (f' x)"
  shows "below (bindp m f) (bindp m' f')"
  unfolding below_def
proof
  fix p
  show "bindp m f p = Inl OutOfFuel \<or> bindp m f p = bindp m' f' p"
  proof (cases "m p")
    case (Inl e)
    then show ?thesis using below_cases [OF assms(1), of p] by (cases "m' p") (auto simp: bindp_def)
  next
    case (Inr xq)
    then obtain x q where xq: "m p = Inr (x, q)" by (cases xq) auto
    then have "m' p = Inr (x, q)" using below_cases [OF assms(1), of p] by simp
    then show ?thesis using xq below_cases [OF assms(2), of x q] by (simp add: bindp_def)
  qed
qed

lemma below_look [below_intros]: "(\<And>x. below (f x) (f' x)) \<Longrightarrow> below (look g f) (look g f')"
  by (simp add: below_def look_def)

lemma below_if [below_intros]: "below m m' \<Longrightarrow> below n n' \<Longrightarrow> below (if b then m else n) (if b then m' else n')"
  by simp

lemma below_option [below_intros]:
  "below m m' \<Longrightarrow> (\<And>x. below (f x) (f' x)) \<Longrightarrow>
   below (case v of None \<Rightarrow> m | Some x \<Rightarrow> f x) (case v of None \<Rightarrow> m' | Some x \<Rightarrow> f' x)"
  by (simp split: option.splits)

lemma below_prod [below_intros]:
  "(\<And>x y. below (f x y) (f' x y)) \<Longrightarrow> below (case v of (x, y) \<Rightarrow> f x y) (case v of (x, y) \<Rightarrow> f' x y)"
  by (simp split: prod.splits)

lemma below_sum [below_intros]:
  "(\<And>x. below (f x) (f' x)) \<Longrightarrow> (\<And>y. below (g y) (g' y)) \<Longrightarrow>
   below (case v of Inl x \<Rightarrow> f x | Inr y \<Rightarrow> g y) (case v of Inl x \<Rightarrow> f' x | Inr y \<Rightarrow> g' y)"
  by (simp split: sum.splits)

lemma below_header [below_intros]:
  "below a a' \<Longrightarrow> below b b' \<Longrightarrow> below c c' \<Longrightarrow>
   below (case v of forHeaderCond \<Rightarrow> a | forHeaderThree \<Rightarrow> b | forHeaderRange \<Rightarrow> c)
         (case v of forHeaderCond \<Rightarrow> a' | forHeaderThree \<Rightarrow> b' | forHeaderRange \<Rightarrow> c')"
  by (simp split: forHeaderKind.splits)

lemma below_attempt [below_intros]: "below m m' \<Longrightarrow> below (attempt m) (attempt m')"
  by (erule below_pointwise) (simp_all add: attempt_def)

lemma below_peeking [below_intros]: "below m m' \<Longrightarrow> below (peeking m) (peeking m')"
  by (erule below_pointwise) (simp_all add: peeking_def)

lemma below_recovered [below_intros]: "below m m' \<Longrightarrow> below (recovered m) (recovered m')"
  by (erule below_pointwise) (simp_all add: recovered_def)

lemma loop_below:
  assumes "\<And>s. below (body s) (body' s)"
  shows "loop n stop body s p = Inl OutOfFuel \<or> loop n stop body s p = loop n stop body' s p"
proof (induction n arbitrary: s p)
  case 0
  show ?case by simp
next
  case (Suc n)
  from assms have "body s p = Inl OutOfFuel \<or> body s p = body' s p" by (simp add: below_def)
  moreover have "\<forall>s p. loop n stop body s p = Inl OutOfFuel \<or> loop n stop body s p = loop n stop body' s p"
    using Suc by blast
  ultimately show ?case by (auto split: sum.split; metis)
qed

lemma below_loop_until [below_intros]:
  "(\<And>s. below (body s) (body' s)) \<Longrightarrow> below (loop_until stop body s) (loop_until stop body' s)"
  unfolding below_def [of "loop_until stop body s"] loop_until_def by (intro allI loop_below)

lemma below_items_until [below_intros]: "below m m' \<Longrightarrow> below (items_until close m) (items_until close m')"
  unfolding items_until_def by (intro below_intros)

lemma below_comma_separated [below_intros]: "below m m' \<Longrightarrow> below (comma_separated m) (comma_separated m')"
  unfolding comma_separated_def by (intro below_intros)

lemma below_semicolon_after [below_intros]: "below m m' \<Longrightarrow> below (semicolon_after what m) (semicolon_after what m')"
  unfolding semicolon_after_def by (intro below_intros)

lemma below_unless [below_intros]: "below m m' \<Longrightarrow> below (unless stop m) (unless stop m')"
  unfolding unless_def by (intro below_intros)

lemma below_outside_guard [below_intros]: "below m m' \<Longrightarrow> below (outside_guard code m) (outside_guard code m')"
  unfolding outside_guard_def by (intro below_intros)

lemma below_minus_before [below_intros]: "below m m' \<Longrightarrow> below (minus_before t w b m) (minus_before t w b m')"
  unfolding minus_before_def by (intro below_intros)

lemma below_shape_members [below_intros]: "(\<And>n. below (f n) (f' n)) \<Longrightarrow> below (shape_members f) (shape_members f')"
  unfolding shape_members_def by (intro below_intros)

lemma below_scoped [below_intros]: "below m m' \<Longrightarrow> below (scoped g m name) (scoped g m' name)"
  unfolding scoped_def by (intro below_intros)

section \<open>Every parser is monotone\<close>

locale better_parsers =
  fixes P P' :: parsers
  assumes conversions: "ParseFloat P = ParseFloat P'" "Unquote P = Unquote P'" "UnquoteChar P = UnquoteChar P'"
    and rec_below [below_intros]: "below (rec_expr P minPrec depth) (rec_expr P' minPrec depth)"
    "below (rec_unary P depth) (rec_unary P' depth)" "below (rec_value P) (rec_value P')"
    "below (rec_type P opts) (rec_type P' opts)" "below (rec_shape_literal P base b) (rec_shape_literal P' base b)"
    "below (rec_shape_type P b) (rec_shape_type P' b)" "below (rec_composite P ty) (rec_composite P' ty)"
    "below (rec_typedef P) (rec_typedef P')" "below (rec_statement P) (rec_statement P')"
    "below (rec_block P) (rec_block P')"
begin

lemma conversions_same [below_intros]:
  "below (float_literal P neg t s) (float_literal P' neg t s)" "below (string_literal P t) (string_literal P' t)"
  "below (rune_literal P t) (rune_literal P' t)" "below (attachOptionalStructTag P fld) (attachOptionalStructTag P' fld)"
  "below (parseImport P inGroup) (parseImport P' inGroup)"
  unfolding float_literal_def [abs_def] string_literal_def [abs_def] rune_literal_def [abs_def]
    attachOptionalStructTag_def parseStructTagLiteral_def [abs_def] parseImport_def unquoteImportPath_def [abs_def] conversions
  by (rule below_refl)+

lemma below_parseConstraintArgument [below_intros]: "below (parseConstraintArgument P) (parseConstraintArgument P')"
  unfolding parseConstraintArgument_def Let_def by (intro below_intros)

lemma below_parseConstraint [below_intros]: "below (parseConstraint P) (parseConstraint P')"
  unfolding parseConstraint_def Let_def by (intro below_intros)

lemma below_parseDotConstraintChain [below_intros]: "below (parseDotConstraintChain P) (parseDotConstraintChain P')"
  unfolding parseDotConstraintChain_def Let_def by (intro below_intros)

lemma below_resolveQualifiedType [below_intros]: "below (resolveQualifiedType P baseType) (resolveQualifiedType P' baseType)"
  unfolding resolveQualifiedType_def Let_def by (intro below_intros)

lemma below_parseAssertionMeetChain [below_intros]: "below (parseAssertionMeetChain P requireBaseType) (parseAssertionMeetChain P' requireBaseType)"
  unfolding parseAssertionMeetChain_def Let_def by (intro below_intros)

lemma below_parseAssertionChain [below_intros]: "below (parseAssertionChain P requireBaseType) (parseAssertionChain P' requireBaseType)"
  unfolding parseAssertionChain_def Let_def by (intro below_intros)

lemma below_or_alternative [below_intros]: "below (or_alternative P first) (or_alternative P' first)"
  unfolding or_alternative_def Let_def by (intro below_intros)

lemma below_parseAssertionOrJoin [below_intros]: "below (parseAssertionOrJoin P first) (parseAssertionOrJoin P' first)"
  unfolding parseAssertionOrJoin_def Let_def by (intro below_intros)

lemma below_joined_target [below_intros]: "below (joined_target P a) (joined_target P' a)"
  unfolding joined_target_def Let_def by (intro below_intros)

lemma below_handleShapeRefinementTarget [below_intros]: "below (handleShapeRefinementTarget P) (handleShapeRefinementTarget P')"
  unfolding handleShapeRefinementTarget_def Let_def by (intro below_intros)

lemma below_handleShapeSugar [below_intros]: "below (handleShapeSugar P) (handleShapeSugar P')"
  unfolding handleShapeSugar_def Let_def by (intro below_intros)

lemma below_handleDotConstraintChain [below_intros]:
  "below m m' \<Longrightarrow> below (handleDotConstraintChain P b m) (handleDotConstraintChain P' b m')"
  unfolding handleDotConstraintChain_def by (intro below_intros)

lemma below_parseRefinementTarget [below_intros]: "below (parseRefinementTarget P) (parseRefinementTarget P')"
  unfolding parseRefinementTarget_def Let_def by (intro below_intros)

lemma below_parseReturnTypeSingle [below_intros]: "below (parseReturnTypeSingle P) (parseReturnTypeSingle P')"
  unfolding parseReturnTypeSingle_def Let_def by (intro below_intros)

lemma below_parseReturnType [below_intros]: "below (parseReturnType P) (parseReturnType P')"
  unfolding parseReturnType_def Let_def by (intro below_intros)

lemma below_array_type_suffix [below_intros]: "below (array_type_suffix P) (array_type_suffix P')"
  unfolding array_type_suffix_def Let_def by (intro below_intros)

lemma below_func_type [below_intros]: "below (func_type P) (func_type P')"
  unfolding func_type_def Let_def by (intro below_intros)

lemma below_interface_param [below_intros]: "below (interface_param P) (interface_param P')"
  unfolding interface_param_def Let_def by (intro below_intros)

lemma below_interface_member [below_intros]: "below (interface_member P) (interface_member P')"
  unfolding interface_member_def Let_def by (intro below_intros)

lemma below_interface_type [below_intros]: "below (interface_type P) (interface_type P')"
  unfolding interface_type_def Let_def by (intro below_intros)

lemma below_tuple_type [below_intros]: "below (tuple_type P opts) (tuple_type P' opts)"
  unfolding tuple_type_def Let_def by (intro below_intros)

lemma below_assertion_type [below_intros]: "below (assertion_type P) (assertion_type P')"
  unfolding assertion_type_def Let_def by (intro below_intros)

lemma below_named_type [below_intros]: "below (named_type P opts) (named_type P' opts)"
  unfolding named_type_def Let_def by (intro below_intros)

lemma below_parseType [below_intros]: "below (parseType P opts) (parseType P' opts)"
  unfolding parseType_def Let_def by (intro below_intros)

lemma below_assertion_param_type [below_intros]: "below (assertion_param_type P) (assertion_param_type P')"
  unfolding assertion_param_type_def Let_def by (intro below_intros)

lemma below_parseParameterType [below_intros]: "below (parseParameterType P) (parseParameterType P')"
  unfolding parseParameterType_def Let_def by (intro below_intros)

lemma below_parseDestructuredParameter [below_intros]: "below (parseDestructuredParameter P) (parseDestructuredParameter P')"
  unfolding parseDestructuredParameter_def Let_def by (intro below_intros)

lemma below_simple_parameter_type [below_intros]: "below (simple_parameter_type P) (simple_parameter_type P')"
  unfolding simple_parameter_type_def Let_def by (intro below_intros)

lemma below_parseSimpleParameter [below_intros]: "below (parseSimpleParameter P) (parseSimpleParameter P')"
  unfolding parseSimpleParameter_def Let_def by (intro below_intros)

lemma below_parseParameter [below_intros]: "below (parseParameter P) (parseParameter P')"
  unfolding parseParameter_def Let_def by (intro below_intros)

lemma below_parseFunctionSignature [below_intros]: "below (parseFunctionSignature P) (parseFunctionSignature P')"
  unfolding parseFunctionSignature_def Let_def by (intro below_intros)

lemma below_parseFunctionLiteral [below_intros]: "below (parseFunctionLiteral P) (parseFunctionLiteral P')"
  unfolding parseFunctionLiteral_def Let_def by (intro below_intros)

lemma below_parseShapeMethodSignature [below_intros]: "below (parseShapeMethodSignature P) (parseShapeMethodSignature P')"
  unfolding parseShapeMethodSignature_def Let_def by (intro below_intros)

lemma below_parseShapeFieldTypeAfterColon [below_intros]: "below (parseShapeFieldTypeAfterColon P inShapeLiteral) (parseShapeFieldTypeAfterColon P' inShapeLiteral)"
  unfolding parseShapeFieldTypeAfterColon_def Let_def by (intro below_intros)

lemma below_parseShapeTypeField [below_intros]: "below (parseShapeTypeField P name) (parseShapeTypeField P' name)"
  unfolding parseShapeTypeField_def Let_def by (intro below_intros)

lemma below_parseShapeTypeInternal [below_intros]: "below (parseShapeTypeInternal P allowEmpty) (parseShapeTypeInternal P' allowEmpty)"
  unfolding parseShapeTypeInternal_def Let_def by (intro below_intros)

lemma below_parseShapeTypeForError [below_intros]: "below (parseShapeTypeForError P) (parseShapeTypeForError P')"
  unfolding parseShapeTypeForError_def Let_def by (intro below_intros)

lemma below_shape_literal_field [below_intros]: "below (shape_literal_field P parseAsTypes name) (shape_literal_field P' parseAsTypes name)"
  unfolding shape_literal_field_def Let_def by (intro below_intros)

lemma below_parseShapeLiteral [below_intros]: "below (parseShapeLiteral P baseType parseAsTypes) (parseShapeLiteral P' baseType parseAsTypes)"
  unfolding parseShapeLiteral_def Let_def by (intro below_intros)

lemma below_parseOptionalArrayElementTypeSuffix [below_intros]: "below (parseOptionalArrayElementTypeSuffix P rbrack) (parseOptionalArrayElementTypeSuffix P' rbrack)"
  unfolding parseOptionalArrayElementTypeSuffix_def Let_def by (intro below_intros)

lemma below_parseBraceCompositeArrayLiteral [below_intros]: "below (parseBraceCompositeArrayLiteral P elemType) (parseBraceCompositeArrayLiteral P' elemType)"
  unfolding parseBraceCompositeArrayLiteral_def Let_def by (intro below_intros)

lemma below_array_literal [below_intros]: "below (array_literal P) (array_literal P')"
  unfolding array_literal_def Let_def by (intro below_intros)

lemma below_literal_from [below_intros]: "below (literal_from P neg t) (literal_from P' neg t)"
  unfolding literal_from_def Let_def by (intro below_intros)

lemma below_parseLiteral [below_intros]: "below (parseLiteral P) (parseLiteral P')"
  unfolding parseLiteral_def Let_def by (intro below_intros)

lemma below_variable_or_shape [below_intros]: "below (variable_or_shape P x) (variable_or_shape P' x)"
  unfolding variable_or_shape_def Let_def by (intro below_intros)

lemma below_map_entry [below_intros]: "below (map_entry P) (map_entry P')"
  unfolding map_entry_def Let_def by (intro below_intros)

lemma below_map_literal [below_intros]: "below (map_literal P) (map_literal P')"
  unfolding map_literal_def Let_def by (intro below_intros)

lemma below_reference_value [below_intros]: "below (reference_value P) (reference_value P')"
  unfolding reference_value_def Let_def by (intro below_intros)

lemma below_parseValue [below_intros]: "below (parseValue P) (parseValue P')"
  unfolding parseValue_def Let_def by (intro below_intros)

lemma below_parseExpression [below_intros]: "below (parseExpression P) (parseExpression P')"
  unfolding parseExpression_def Let_def by (intro below_intros)

lemma below_call_argument [below_intros]: "below (call_argument P) (call_argument P')"
  unfolding call_argument_def Let_def by (intro below_intros)

lemma below_parseCallArguments [below_intros]: "below (parseCallArguments P) (parseCallArguments P')"
  unfolding parseCallArguments_def Let_def by (intro below_intros)

lemma below_binary_step [below_intros]: "below (binary_step P depth lhs) (binary_step P' depth lhs)"
  unfolding binary_step_def Let_def by (intro below_intros)

lemma below_parseExpr [below_intros]: "below (parseExpr P minPrec depth) (parseExpr P' minPrec depth)"
  unfolding parseExpr_def Let_def by (intro below_intros)

lemma below_index_high [below_intros]: "below (index_high P base low) (index_high P' base low)"
  unfolding index_high_def Let_def by (intro below_intros)

lemma below_index_suffix [below_intros]: "below (index_suffix P base) (index_suffix P' base)"
  unfolding index_suffix_def Let_def by (intro below_intros)

lemma below_parseIndexSuffixChain [below_intros]: "below (parseIndexSuffixChain P base) (parseIndexSuffixChain P' base)"
  unfolding parseIndexSuffixChain_def Let_def by (intro below_intros)

lemma below_tryParseTypeArgList [below_intros]: "below (tryParseTypeArgList P) (tryParseTypeArgList P')"
  unfolding tryParseTypeArgList_def Let_def by (intro below_intros)

lemma below_tryParseGenericTypeArgSuffix [below_intros]: "below (tryParseGenericTypeArgSuffix P) (tryParseGenericTypeArgSuffix P')"
  unfolding tryParseGenericTypeArgSuffix_def Let_def by (intro below_intros)

lemma below_call_suffix [below_intros]: "below (call_suffix P mk) (call_suffix P' mk)"
  unfolding call_suffix_def Let_def by (intro below_intros)

lemma below_selector_suffix [below_intros]: "below (selector_suffix P base) (selector_suffix P' base)"
  unfolding selector_suffix_def Let_def by (intro below_intros)

lemma below_postfix_step [below_intros]: "below (postfix_step P base) (postfix_step P' base)"
  unfolding postfix_step_def Let_def by (intro below_intros)

lemma below_parsePostfixSuffixChain [below_intros]: "below (parsePostfixSuffixChain P base) (parsePostfixSuffixChain P' base)"
  unfolding parsePostfixSuffixChain_def Let_def by (intro below_intros)

lemma below_parseMakeNewCallArguments [below_intros]: "below (parseMakeNewCallArguments P) (parseMakeNewCallArguments P')"
  unfolding parseMakeNewCallArguments_def Let_def by (intro below_intros)

lemma below_parseIdentifierPrimary [below_intros]: "below (parseIdentifierPrimary P) (parseIdentifierPrimary P')"
  unfolding parseIdentifierPrimary_def Let_def by (intro below_intros)

lemma below_tryParseSliceConversion [below_intros]: "below (tryParseSliceConversion P) (tryParseSliceConversion P')"
  unfolding tryParseSliceConversion_def Let_def by (intro below_intros)

lemma below_dereference_primary [below_intros]: "below (dereference_primary P depth) (dereference_primary P' depth)"
  unfolding dereference_primary_def Let_def by (intro below_intros)

lemma below_primary [below_intros]: "below (primary P depth) (primary P' depth)"
  unfolding primary_def Let_def by (intro below_intros)

lemma below_parseUnaryOrPrimary [below_intros]: "below (parseUnaryOrPrimary P depth) (parseUnaryOrPrimary P' depth)"
  unfolding parseUnaryOrPrimary_def Let_def by (intro below_intros)

lemma below_optional_init [below_intros]: "below (optional_init P) (optional_init P')"
  unfolding optional_init_def Let_def by (intro below_intros)

lemma below_typed_var [below_intros]: "below (typed_var P ident) (typed_var P' ident)"
  unfolding typed_var_def Let_def by (intro below_intros)

lemma below_parseVarStatement [below_intros]: "below (parseVarStatement P) (parseVarStatement P')"
  unfolding parseVarStatement_def Let_def by (intro below_intros)

lemma below_parsePackageVarDeclaration [below_intros]: "below (parsePackageVarDeclaration P) (parsePackageVarDeclaration P')"
  unfolding parsePackageVarDeclaration_def Let_def by (intro below_intros)

lemma below_parseVarDeclaration [below_intros]: "below (parseVarDeclaration P) (parseVarDeclaration P')"
  unfolding parseVarDeclaration_def Let_def by (intro below_intros)

lemma below_parseAssignableExpr [below_intros]: "below (parseAssignableExpr P) (parseAssignableExpr P')"
  unfolding parseAssignableExpr_def Let_def by (intro below_intros)

lemma below_annotated_target [below_intros]: "below (annotated_target P lhs) (annotated_target P' lhs)"
  unfolding annotated_target_def Let_def by (auto split: ExpressionNode.splits intro!: below_intros)

lemma below_finishAssignment [below_intros]: "below (finishAssignment P lhs) (finishAssignment P' lhs)"
  unfolding finishAssignment_def Let_def by (intro below_intros)

lemma below_parseAssignment [below_intros]: "below (parseAssignment P) (parseAssignment P')"
  unfolding parseAssignment_def Let_def by (intro below_intros)

lemma below_parseMultipleAssignment [below_intros]: "below (parseMultipleAssignment P) (parseMultipleAssignment P')"
  unfolding parseMultipleAssignment_def Let_def by (intro below_intros)

lemma below_parseDerefAssignableExpr [below_intros]: "below (parseDerefAssignableExpr P) (parseDerefAssignableExpr P')"
  unfolding parseDerefAssignableExpr_def Let_def by (intro below_intros)

lemma below_parseUseStatement [below_intros]: "below (parseUseStatement P) (parseUseStatement P')"
  unfolding parseUseStatement_def Let_def by (intro below_intros)

lemma below_with_wiring [below_intros]: "below (with_wiring P) (with_wiring P')"
  unfolding with_wiring_def Let_def by (intro below_intros)

lemma below_parseWithStatement [below_intros]: "below (parseWithStatement P) (parseWithStatement P')"
  unfolding parseWithStatement_def Let_def by (intro below_intros)

lemma below_parseReturnStatement [below_intros]: "below (parseReturnStatement P) (parseReturnStatement P')"
  unfolding parseReturnStatement_def Let_def by (intro below_intros)

lemma below_parseEnsureBlock [below_intros]: "below (parseEnsureBlock P) (parseEnsureBlock P')"
  unfolding parseEnsureBlock_def Let_def by (intro below_intros)

lemma below_parseEnsureError [below_intros]: "below (parseEnsureError P) (parseEnsureError P')"
  unfolding parseEnsureError_def Let_def by (intro below_intros)

lemma below_subject_step [below_intros]: "below (subject_step P s) (subject_step P' s)"
  unfolding subject_step_def Let_def by (intro below_intros)

lemma below_parseEnsureSubject [below_intros]: "below (parseEnsureSubject P) (parseEnsureSubject P')"
  unfolding parseEnsureSubject_def Let_def by (intro below_intros)

lemma below_ensure_is [below_intros]: "below (ensure_is P subject) (ensure_is P' subject)"
  unfolding ensure_is_def Let_def by (intro below_intros)

lemma below_ensure_place [below_intros]: "below (ensure_place P) (ensure_place P')"
  unfolding ensure_place_def Let_def by (intro below_intros)

lemma below_ensure_failure [below_intros]: "below (ensure_failure P) (ensure_failure P')"
  unfolding ensure_failure_def Let_def by (intro below_intros)

lemma below_parseEnsureStatement [below_intros]: "below (parseEnsureStatement P) (parseEnsureStatement P')"
  unfolding parseEnsureStatement_def Let_def by (intro below_intros)

lemma below_parseSendStmt [below_intros]: "below (parseSendStmt P) (parseSendStmt P')"
  unfolding parseSendStmt_def Let_def by (intro below_intros)

lemma below_expression_stmt [below_intros]: "below (expression_stmt P) (expression_stmt P')"
  unfolding expression_stmt_def Let_def by (intro below_intros)

lemma below_parseSimpleStatement [below_intros]: "below (parseSimpleStatement P) (parseSimpleStatement P')"
  unfolding parseSimpleStatement_def Let_def by (intro below_intros)

lemma below_call_statement [below_intros]: "below (call_statement P mk code) (call_statement P' mk code)"
  unfolding call_statement_def Let_def by (intro below_intros)

lemma below_parseDeferStatement [below_intros]: "below (parseDeferStatement P) (parseDeferStatement P')"
  unfolding parseDeferStatement_def Let_def by (intro below_intros)

lemma below_parseGoStatement [below_intros]: "below (parseGoStatement P) (parseGoStatement P')"
  unfolding parseGoStatement_def Let_def by (intro below_intros)

lemma below_if_init [below_intros]: "below (if_init P) (if_init P')"
  unfolding if_init_def Let_def by (intro below_intros)

lemma below_condition_and_block [below_intros]: "below (condition_and_block P msg) (condition_and_block P' msg)"
  unfolding condition_and_block_def Let_def by (intro below_intros)

lemma below_else_step [below_intros]: "below (else_step P s) (else_step P' s)"
  unfolding else_step_def Let_def by (intro below_intros)

lemma below_parseIfStatement [below_intros]: "below (parseIfStatement P) (parseIfStatement P')"
  unfolding parseIfStatement_def Let_def by (intro below_intros)

lemma below_parseForConditionExpression [below_intros]: "below (parseForConditionExpression P) (parseForConditionExpression P')"
  unfolding parseForConditionExpression_def Let_def by (intro below_intros)

lemma below_parseRangeExpression [below_intros]: "below (parseRangeExpression P) (parseRangeExpression P')"
  unfolding parseRangeExpression_def Let_def by (intro below_intros)

lemma below_parseForThreeClause [below_intros]: "below (parseForThreeClause P) (parseForThreeClause P')"
  unfolding parseForThreeClause_def Let_def by (intro below_intros)

lemma below_parseForRangeClause [below_intros]: "below (parseForRangeClause P) (parseForRangeClause P')"
  unfolding parseForRangeClause_def Let_def by (intro below_intros)

lemma below_parseForStatement [below_intros]: "below (parseForStatement P) (parseForStatement P')"
  unfolding parseForStatement_def Let_def by (intro below_intros)

lemma below_switch_init [below_intros]: "below (switch_init P) (switch_init P')"
  unfolding switch_init_def Let_def by (intro below_intros)

lemma below_parseSwitchCaseValues [below_intros]: "below (parseSwitchCaseValues P) (parseSwitchCaseValues P')"
  unfolding parseSwitchCaseValues_def Let_def by (intro below_intros)

lemma below_parseSwitchClauseBody [below_intros]: "below (parseSwitchClauseBody P) (parseSwitchClauseBody P')"
  unfolding parseSwitchClauseBody_def Let_def by (intro below_intros)

lemma below_switch_clause [below_intros]: "below (switch_clause P) (switch_clause P')"
  unfolding switch_clause_def Let_def by (intro below_intros)

lemma below_parseSwitchClauses [below_intros]: "below (parseSwitchClauses P) (parseSwitchClauses P')"
  unfolding parseSwitchClauses_def Let_def by (intro below_intros)

lemma below_parseSwitchStatement [below_intros]: "below (parseSwitchStatement P) (parseSwitchStatement P')"
  unfolding parseSwitchStatement_def Let_def by (intro below_intros)

lemma below_tryParseTypeThenAssignOp [below_intros]: "below (tryParseTypeThenAssignOp P) (tryParseTypeThenAssignOp P')"
  unfolding tryParseTypeThenAssignOp_def Let_def by (intro below_intros)

lemma below_looksLikeLabeledStatement [below_intros]: "below (looksLikeLabeledStatement P) (looksLikeLabeledStatement P')"
  unfolding looksLikeLabeledStatement_def Let_def by (intro below_intros)

lemma below_parseLabeledStatement [below_intros]: "below (parseLabeledStatement P) (parseLabeledStatement P')"
  unfolding parseLabeledStatement_def Let_def by (intro below_intros)

lemma below_assignment_target [below_intros]: "below (assignment_target P) (assignment_target P')"
  unfolding assignment_target_def Let_def by (intro below_intros)

lemma below_deref_target [below_intros]: "below (deref_target P) (deref_target P')"
  unfolding deref_target_def Let_def by (intro below_intros)

lemma below_assign_or_expression [below_intros]:
  "below m m' \<Longrightarrow> below (assign_or_expression P m) (assign_or_expression P' m')"
  unfolding assign_or_expression_def by (intro below_intros)

lemma below_identifier_statement [below_intros]: "below (identifier_statement P) (identifier_statement P')"
  unfolding identifier_statement_def Let_def by (intro below_intros)

lemma below_block_statement [below_intros]: "below (block_statement P) (block_statement P')"
  unfolding block_statement_def Let_def by (intro below_intros)

lemma below_parseBlockStatement [below_intros]: "below (parseBlockStatement P) (parseBlockStatement P')"
  unfolding parseBlockStatement_def Let_def by (intro below_intros)

lemma below_block_step [below_intros]: "below (block_step P body) (block_step P' body)"
  unfolding block_step_def Let_def by (intro below_intros)

lemma below_parseBlockWithClose [below_intros]: "below (parseBlockWithClose P) (parseBlockWithClose P')"
  unfolding parseBlockWithClose_def Let_def by (intro below_intros)

lemma below_parseBlock [below_intros]: "below (parseBlock P) (parseBlock P')"
  unfolding parseBlock_def Let_def by (intro below_intros)

lemma below_parseImportGroup [below_intros]: "below (parseImportGroup P) (parseImportGroup P')"
  unfolding parseImportGroup_def Let_def by (intro below_intros)

lemma below_parseImports [below_intros]: "below (parseImports P) (parseImports P')"
  unfolding parseImports_def Let_def by (intro below_intros)

lemma below_tryParseTypeDefLiteralMember [below_intros]: "below (tryParseTypeDefLiteralMember P) (tryParseTypeDefLiteralMember P')"
  unfolding tryParseTypeDefLiteralMember_def Let_def by (intro below_intros)

lemma below_shape_typedef [below_intros]: "below (shape_typedef P) (shape_typedef P')"
  unfolding shape_typedef_def Let_def by (intro below_intros)

lemma below_typedef_operand [below_intros]: "below (typedef_operand P) (typedef_operand P')"
  unfolding typedef_operand_def Let_def by (intro below_intros)

lemma below_parseTypeDefExpr [below_intros]: "below (parseTypeDefExpr P) (parseTypeDefExpr P')"
  unfolding parseTypeDefExpr_def Let_def by (intro below_intros)

lemma below_parseTypeDef [below_intros]: "below (parseTypeDef P) (parseTypeDef P')"
  unfolding parseTypeDef_def Let_def by (intro below_intros)

lemma below_parseErrorTypeDef [below_intros]: "below (parseErrorTypeDef P) (parseErrorTypeDef P')"
  unfolding parseErrorTypeDef_def Let_def by (intro below_intros)

lemma below_parseConstSpec [below_intros]: "below (parseConstSpec P requireValue) (parseConstSpec P' requireValue)"
  unfolding parseConstSpec_def Let_def by (intro below_intros)

lemma below_parseConstSpecList [below_intros]: "below (parseConstSpecList P) (parseConstSpecList P')"
  unfolding parseConstSpecList_def Let_def by (intro below_intros)

lemma below_parseConstDeclaration [below_intros]: "below (parseConstDeclaration P) (parseConstDeclaration P')"
  unfolding parseConstDeclaration_def Let_def by (intro below_intros)

lemma below_parseReceiver [below_intros]: "below (parseReceiver P) (parseReceiver P')"
  unfolding parseReceiver_def Let_def by (intro below_intros)

lemma below_type_param [below_intros]: "below (type_param P) (type_param P')"
  unfolding type_param_def Let_def by (intro below_intros)

lemma below_parseTypeParamList [below_intros]: "below (parseTypeParamList P) (parseTypeParamList P')"
  unfolding parseTypeParamList_def Let_def by (intro below_intros)

lemma below_parseFunctionBody [below_intros]: "below (parseFunctionBody P) (parseFunctionBody P')"
  unfolding parseFunctionBody_def Let_def by (intro below_intros)

lemma below_parseFunctionDefinition [below_intros]: "below (parseFunctionDefinition P) (parseFunctionDefinition P')"
  unfolding parseFunctionDefinition_def Let_def by (intro below_intros)

lemma below_parseInlineTypeGuardBody [below_intros]: "below (parseInlineTypeGuardBody P subjectParam) (parseInlineTypeGuardBody P' subjectParam)"
  unfolding parseInlineTypeGuardBody_def Let_def by (intro below_intros)

lemma below_parseTypeGuardBody [below_intros]: "below (parseTypeGuardBody P subjectParam) (parseTypeGuardBody P' subjectParam)"
  unfolding parseTypeGuardBody_def Let_def by (intro below_intros)

lemma below_guard_params [below_intros]: "below (guard_params P) (guard_params P')"
  unfolding guard_params_def Let_def by (intro below_intros)

lemma below_parseTypeGuard [below_intros]: "below (parseTypeGuard P) (parseTypeGuard P')"
  unfolding parseTypeGuard_def Let_def by (intro below_intros)

lemma below_parse_decl [below_intros]: "below (parse_decl P) (parse_decl P')"
  unfolding parse_decl_def Let_def by (intro below_intros)

lemma below_parse_decls [below_intros]: "below (parse_decls P) (parse_decls P')"
  unfolding parse_decls_def Let_def by (intro below_intros)

end

lemma parsers_at_better: "better_parsers (parsers_at E n) (parsers_at E (n + k))"
proof (induction n)
  case 0
  show ?case by unfold_locales (cases k; simp add: Let_def below_def fail_with_def)+
next
  case (Suc n)
  note mono = better_parsers.below_parseExpr [OF Suc] better_parsers.below_parseUnaryOrPrimary [OF Suc]
    better_parsers.below_parseValue [OF Suc] better_parsers.below_parseType [OF Suc]
    better_parsers.below_parseShapeLiteral [OF Suc] better_parsers.below_parseShapeTypeInternal [OF Suc]
    better_parsers.below_parseBraceCompositeArrayLiteral [OF Suc] better_parsers.below_parseTypeDefExpr [OF Suc]
    better_parsers.below_parseBlockStatement [OF Suc] better_parsers.below_parseBlockWithClose [OF Suc]
  show ?case by unfold_locales (simp_all add: Let_def mono)
qed

interpretation more: better_parsers "parsers_at E n" "parsers_at E (n + k)" for E n k
  by (rule parsers_at_better)

section \<open>Files\<close>

lemma parse_decls_returns: "parse_decls (parsers_at E (enough_fuel p + k)) p \<noteq> Inl OutOfFuel"
  using fuel.parse_decls [of p "remaining p" E "5 + k"]
  by (auto simp: enough_fuel_def runs_def add.assoc split: sum.splits)

lemma parse_decls_fuel:
  "parse_decls (parsers_at E (enough_fuel p + k)) p = parse_decls (parsers_at E (enough_fuel p)) p"
  using belowD [OF more.below_parse_decls] parse_decls_returns [of E p 0] by simp

text \<open>
  C2. Parsing ends on every token list, whatever \<open>strconv\<close> answers: the parser returns the
  declarations of the file or a parse error, and the levels of calls allowed for do not matter,
  any larger number gives the same result.
\<close>

theorem ParseFile_returns:
  "ParseFile E ts \<noteq> Inl OutOfFuel \<and> parse_with E (enough_fuel (New_Parser ts) + k) ts = ParseFile E ts"
  using parse_decls_returns [of E "New_Parser ts" 0]
  by (auto simp: ParseFile_def parse_with_def parse_decls_fuel split: sum.splits prod.splits)

end
