(* ===== verification/Parser_Round.thy ===== *)
theory Parser_Round
  imports Parser_Fuel
begin

text \<open>
  Precedence and associativity. \<open>emit\<close> writes an expression as the kinds and texts of its tokens, with
  parentheses only where the precedence table asks for them; the parser reads it back.
\<close>

section \<open>Writing expressions\<close>

definition operator_texts :: "(TokenIdent \<times> go_string) list" where
  "operator_texts =
     [(TokenPlus, ''+''), (TokenMinus, ''-''), (TokenStar, ''*''), (TokenDivide, ''/''), (TokenModulo, ''%''),
      (TokenEquals, ''==''), (TokenNotEquals, ''!=''), (TokenGreater, ''>''), (TokenLess, ''<''),
      (TokenGreaterEqual, ''>=''), (TokenLessEqual, ''<=''), (TokenLogicalAnd, ''&&''), (TokenLogicalOr, ''||''),
      (TokenBitwiseAnd, ''&''), (TokenBitwiseOr, ''|''), (TokenXor, ''^''), (TokenLShift, ''<<''), (TokenRShift, ''>>''),
      (TokenAndNot, ''&^''), (TokenLogicalNot, ''!'')]"

definition operator_text :: "TokenIdent \<Rightarrow> go_string" where
  "operator_text op = (case map_of operator_texts op of Some s \<Rightarrow> s | None \<Rightarrow> op)"

lemma equality_text: "operator_text TokenEquals = ''==''"
  by code_simp

text \<open>Operands of a unary operator bind tighter than every binary operator.\<close>

definition unary_level :: nat where
  "unary_level = 51"

fun emit :: "nat \<Rightarrow> ExpressionNode \<Rightarrow> (TokenIdent \<times> go_string) list" where
  "emit prec (VariableNode x ty) = [(TokenIdentifier, x)]"
| "emit prec (IntLiteralNode n raw ty) = [(TokenIntLiteral, raw)]"
| "emit prec (BoolLiteralNode b ty) = [if b then (TokenTrue, ''true'') else (TokenFalse, ''false'')]"
| "emit prec NilLiteralNode = [(TokenNil, ''nil'')]"
| "emit prec (UnaryExpressionNode op e) = (op, operator_text op) # emit unary_level e"
| "emit prec (BinaryExpressionNode l op r) =
     (let body = emit (binaryPrecedence op) l @ (op, operator_text op) # emit (Suc (binaryPrecedence op)) r
      in if binaryPrecedence op < prec then (TokenLParen, ''('') # body @ [(TokenRParen, '')'')] else body)"
| "emit prec e = []"

text \<open>How deep the parser nests on it.\<close>

fun nesting :: "nat \<Rightarrow> ExpressionNode \<Rightarrow> nat" where
  "nesting prec (UnaryExpressionNode op e) = Suc (nesting unary_level e)"
| "nesting prec (BinaryExpressionNode l op r) =
     max (nesting (binaryPrecedence op) l) (Suc (nesting (Suc (binaryPrecedence op)) r)) +
     (if binaryPrecedence op < prec then 1 else 0)"
| "nesting prec e = 0"

definition binary_operators :: "TokenIdent set" where
  "binary_operators = {TokenLogicalOr, TokenLogicalAnd, TokenEquals, TokenNotEquals, TokenGreater, TokenLess, TokenGreaterEqual,
     TokenLessEqual, TokenPlus, TokenMinus, TokenBitwiseOr, TokenXor, TokenStar, TokenDivide, TokenModulo, TokenLShift,
     TokenRShift, TokenBitwiseAnd, TokenAndNot}"

fun printable :: "ExpressionNode \<Rightarrow> bool" where
  "printable (VariableNode x ty) \<longleftrightarrow> ty = plain_type []"
| "printable (IntLiteralNode n raw ty) \<longleftrightarrow> ParseInt 0 raw = Some n \<and> ty = plain_type []"
| "printable (BoolLiteralNode b ty) \<longleftrightarrow> ty = plain_type []"
| "printable NilLiteralNode \<longleftrightarrow> True"
| "printable (UnaryExpressionNode op e) \<longleftrightarrow> op \<in> {TokenLogicalNot, TokenMinus} \<and> printable e"
| "printable (BinaryExpressionNode l op r) \<longleftrightarrow> op \<in> binary_operators \<and> printable l \<and> printable r"
| "printable e \<longleftrightarrow> False"

section \<open>What is ahead of the parser\<close>

definition ahead :: "Parser \<Rightarrow> (TokenIdent \<times> go_string) list" where
  "ahead p = map (\<lambda>t. (Type t, Value t)) (drop (currentIndex p) (ptokens p))"

definition jump :: "nat \<Rightarrow> Parser \<Rightarrow> Parser" where
  "jump k p = p\<lparr>currentIndex := currentIndex p + k\<rparr>"

lemma remaining_ahead: "remaining p = length (ahead p)"
  by (simp add: remaining_def ahead_def)

lemma advance_jump: "advance p = jump 1 p"
  by (simp add: advance_def jump_def)

lemma jump_jump [simp]: "jump j (jump k p) = jump (k + j) p"
  by (simp add: jump_def add.assoc)

lemma ahead_jump [simp]: "ahead (jump k p) = drop k (ahead p)"
  by (simp add: ahead_def jump_def drop_map add.commute)

lemma current_ahead: "ahead p = (ty, v) # rest \<Longrightarrow> tok p = ty \<and> Value (current_token p) = v"
  by (cases "drop (currentIndex p) (ptokens p)")
    (auto simp: ahead_def current_token_def nth_via_drop hd_drop_conv_nth split: if_splits)

lemma peek_ahead: "peek k p = current_token (jump k p)"
  by (simp add: peek_def current_token_def jump_def)

lemma ahead_advance: "ahead p = x # rest \<Longrightarrow> ahead (advance p) = rest"
  by (simp add: advance_jump)

section \<open>Loops\<close>

lemma loop_same:
  assumes "\<And>s q. remaining q \<le> remaining p \<Longrightarrow> \<not> stop s q \<Longrightarrow> eats (body s) q" "remaining p < a" "remaining p < b"
  shows "loop a stop body s p = loop b stop body s p"
  using assms
proof (induction a arbitrary: b s p)
  case 0
  then show ?case by simp
next
  case (Suc a)
  then obtain b' where b: "b = Suc b'" by (cases b) auto
  show ?case
  proof (cases "stop s p \<or> (\<exists>e. body s p = Inl e)")
    case True
    then show ?thesis using b by auto
  next
    case False
    then obtain s' q where step: "body s p = Inr (s', q)" "\<not> stop s p" by (metis surj_pair old.sum.exhaust)
    then have q: "remaining q < remaining p" using Suc.prems(1) [of p s] by (simp add: runs_def)
    have "loop a stop body s' q = loop b' stop body s' q" using Suc.prems q b by (intro Suc.IH) auto
    then show ?thesis using step b by simp
  qed
qed

lemma loop_until_step:
  assumes "\<And>s q. remaining q \<le> remaining p \<Longrightarrow> \<not> stop s q \<Longrightarrow> eats (body s) q" "\<not> stop s p" "body s p = Inr (s', q)"
  shows "loop_until stop body s p = loop_until stop body s' q"
proof -
  have q: "remaining q < remaining p" using assms(1) [of p s] assms(2,3) by (simp add: runs_def)
  have "loop (remaining p) stop body s' q = loop (Suc (remaining q)) stop body s' q"
    using assms(1) q by (intro loop_same) auto
  then show ?thesis using assms(2,3) by (simp add: loop_until_def)
qed

section \<open>Operands\<close>

lemma rec_parsers:
  "rec_unary (parsers_at E (Suc n)) = parseUnaryOrPrimary (parsers_at E n)"
  "rec_expr (parsers_at E (Suc n)) = parseExpr (parsers_at E n)"
  "rec_value (parsers_at E (Suc n)) = parseValue (parsers_at E n)"
  by (simp_all add: Let_def)

declare parsers_at.simps [simp del] rec_parsers [simp]

definition follows :: "Parser \<Rightarrow> bool" where
  "follows p \<longleftrightarrow> tok p \<notin> {TokenLBracket, TokenLParen, TokenDot, TokenLBrace}"

lemma postfix_stops: "follows p \<Longrightarrow> parsePostfixSuffixChain P e p = Inr (e, p)"
  by (auto simp: follows_def parsePostfixSuffixChain_def loop_until_def)

lemma unary_of_primary:
  "depth \<le> 20 \<Longrightarrow> primary (parsers_at E n) depth p = Inr (e, q) \<Longrightarrow> follows q \<Longrightarrow>
   rec_unary (parsers_at E (Suc n)) depth p = Inr (e, q)"
  by (simp add: Let_def parseUnaryOrPrimary_def MaxExpressionDepth_def bindp_def postfix_stops)

lemma parse_name:
  assumes "ahead p = (TokenIdentifier, x) # rest" "follows (jump 1 p)"
  shows "parseIdentifierPrimary P p = Inr (variable x, jump 1 p)"
  using assms current_ahead [OF assms(1)]
  by (auto simp: parseIdentifierPrimary_def parseIdentifier_def variable_or_shape_def typed_shape_follows_def bindp_def
        next_token_def look_def loop_until_def ret_def follows_def advance_jump)

lemma parse_literal_token:
  assumes "ahead p = (ty, v) # rest" "ty \<noteq> TokenMinus"
  shows "parseLiteral P p = literal_from P False (current_token p) (jump 1 p)"
  using current_ahead [OF assms(1)] assms(2) by (simp add: parseLiteral_def look_def bindp_def next_token_def advance_jump)

lemma value_literal:
  assumes "ahead p = (ty, v) # rest" "ty \<in> {TokenIntLiteral, TokenTrue, TokenFalse}"
    and "literal_from (parsers_at E n) False (current_token p) (jump 1 p) = r"
  shows "primary (parsers_at E (Suc n)) depth p = r"
  using current_ahead [OF assms(1)] assms parse_literal_token [OF assms(1)]
  by (auto simp: primary_def parseValue_def look_def Let_def)

definition atom :: "ExpressionNode \<Rightarrow> bool" where
  "atom e = (case e of VariableNode _ _ \<Rightarrow> True | IntLiteralNode _ _ _ \<Rightarrow> True | BoolLiteralNode _ _ \<Rightarrow> True | NilLiteralNode \<Rightarrow> True
     | _ \<Rightarrow> False)"

lemma parse_atom:
  assumes "printable e" "atom e" "ahead p = emit prec e @ rest" "follows (jump 1 p)"
  shows "primary (parsers_at E (Suc n)) depth p = Inr (e, jump 1 p)"
proof (cases e)
  case (VariableNode x ty)
  then show ?thesis
    using assms current_ahead [of p TokenIdentifier x rest] parse_name [of p x rest]
    by (simp add: primary_def look_def variable_def)
next
  case (IntLiteralNode v raw ty)
  then show ?thesis
    using assms current_ahead [of p TokenIntLiteral raw rest]
    by (intro value_literal [of p TokenIntLiteral raw rest])
      (auto simp: literal_from_def look_def int_literal_def ret_def follows_def)
next
  case (BoolLiteralNode b ty)
  have "emit prec e = [(if b then TokenTrue else TokenFalse, if b then ''true'' else ''false'')]" using BoolLiteralNode by simp
  then have a: "ahead p = (if b then TokenTrue else TokenFalse, if b then ''true'' else ''false'') # rest" using assms(3) by simp
  show ?thesis
    using BoolLiteralNode assms current_ahead [OF a]
    by (intro value_literal [OF a]) (auto simp: literal_from_def minus_before_def ret_def)
next
  case NilLiteralNode
  then show ?thesis
    using assms current_ahead [of p TokenNil "''nil''" rest]
    by (simp add: primary_def look_def bindp_def next_token_def ret_def advance_jump)
qed (use assms in \<open>auto simp: atom_def\<close>)

text \<open>No expression starts with a star, and none is empty.\<close>

lemma emit_start:
  "printable e \<Longrightarrow> \<exists>ty v rest. emit prec e = (ty, v) # rest \<and> ty \<noteq> TokenStar"
proof (induction e arbitrary: prec rule: printable.induct)
  case (6 l op r)
  obtain ty v rest where "emit (binaryPrecedence op) l = (ty, v) # rest" "ty \<noteq> TokenStar" using 6 by fastforce
  then show ?case by (simp add: Let_def)
qed auto

definition climb :: "parsers \<Rightarrow> nat \<Rightarrow> nat \<Rightarrow> nat \<Rightarrow> ExpressionNode \<Rightarrow> ExpressionNode parser" where
  "climb E n m depth = loop_until (\<lambda>_. binary_stop m) (binary_step (parsers_at E n) depth)"

lemma expr_of_unary:
  "depth \<le> 20 \<Longrightarrow> rec_unary (parsers_at E n) depth p = Inr (e, q) \<Longrightarrow>
   parseExpr (parsers_at E n) m depth p = climb E n m depth e q"
  by (simp add: parseExpr_def MaxExpressionDepth_def bindp_def climb_def)

lemma climb_stop: "binary_stop m p \<Longrightarrow> climb E n m depth e p = Inr (e, p)"
  by (simp add: climb_def loop_until_def)

lemma binary_stop_mono: "binary_stop m p \<Longrightarrow> m \<le> m' \<Longrightarrow> binary_stop m' p"
  by (auto simp: binary_stop_def)

lemma climb_step:
  assumes "5 * r + k = n" "remaining q < r" "\<not> binary_stop m q" "binary_step (parsers_at E n) depth e q = Inr (e', q')"
  shows "climb E n m depth e q = climb E n m depth e' q'"
  unfolding climb_def using assms fuel.binary_step [of _ r m E k depth]
  by (intro loop_until_step) auto

section \<open>Reading back\<close>

definition single :: "nat \<Rightarrow> ExpressionNode \<Rightarrow> bool" where
  "single prec e = (case e of BinaryExpressionNode _ op _ \<Rightarrow> binaryPrecedence op < prec | _ \<Rightarrow> True)"

lemma binop_facts:
  assumes "op \<in> binary_operators"
  shows "IsBinaryOperator op" "op \<noteq> TokenIs" "op \<notin> {TokenLBracket, TokenLParen, TokenDot, TokenLBrace}"
  using assms by (auto simp: binary_operators_def IsBinaryOperator_def)

lemma precedence_bound: "binaryPrecedence op \<le> 50"
  by (simp add: binaryPrecedence_def)

lemma unary_level_single: "single unary_level e"
  using precedence_bound by (auto simp: single_def unary_level_def less_Suc_eq_le numeral_eq_Suc split: ExpressionNode.splits)

lemma unary_level_stops: "binary_stop (Suc unary_level) p"
  using precedence_bound [of "tok p"] by (simp add: binary_stop_def unary_level_def)

lemma printable_not_call: "printable e \<Longrightarrow> \<not> is_call e"
  by (cases e) (auto simp: is_call_def)

text \<open>The parser reads \<open>e\<close> written at level \<open>prec\<close>, as an operand or with the loop over operators going on after it.\<close>

definition reads :: "parsers \<Rightarrow> nat \<Rightarrow> nat \<Rightarrow> nat \<Rightarrow> Parser \<Rightarrow> ExpressionNode \<Rightarrow> Parser \<Rightarrow> bool" where
  "reads E prec n depth p e q \<longleftrightarrow>
     (single prec e \<longrightarrow> rec_unary (parsers_at E n) depth p = Inr (e, q)) \<and>
     (\<forall>m \<le> prec. parseExpr (parsers_at E n) m depth p = climb E n m depth e q)"

definition written :: "nat \<Rightarrow> ExpressionNode \<Rightarrow> nat \<Rightarrow> nat \<Rightarrow> Parser \<Rightarrow> bool" where
  "written prec e n depth p \<longleftrightarrow>
     (\<exists>rest. ahead p = emit prec e @ rest) \<and> depth + nesting prec e \<le> 20 \<and> 5 * remaining p + 3 < n \<and>
     follows (jump (length (emit prec e)) p) \<and> binary_stop (Suc prec) (jump (length (emit prec e)) p)"

lemma reads_single:
  "rec_unary (parsers_at E n) depth p = Inr (e, q) \<Longrightarrow> depth \<le> 20 \<Longrightarrow> reads E prec n depth p e q"
  by (simp add: reads_def expr_of_unary)

lemma reads_atom:
  assumes "printable e" "atom e" "written prec e n depth p"
  shows "reads E prec n depth p e (jump (length (emit prec e)) p)"
proof -
  have one: "length (emit prec e) = 1" using assms(2) by (auto simp: atom_def split: ExpressionNode.splits)
  obtain n' where n: "n = Suc (Suc n')" using assms(3) by (auto simp: written_def numeral_eq_Suc dest!: Suc_less_eq2 [THEN iffD1])
  have "primary (parsers_at E (Suc n')) depth p = Inr (e, jump 1 p)"
    using assms one parse_atom [of e p prec] by (auto simp: written_def)
  then show ?thesis
    using assms(3) one unfolding n by (intro reads_single unary_of_primary) (auto simp: written_def)
qed

lemma reads_unary:
  assumes "op \<in> {TokenLogicalNot, TokenMinus}" "written prec (UnaryExpressionNode op e) n depth p"
    and IH: "\<And>n depth p. written unary_level e n depth p \<Longrightarrow>
      reads E unary_level n depth p e (jump (length (emit unary_level e)) p)"
  shows "reads E prec n depth p (UnaryExpressionNode op e) (jump (length (emit prec (UnaryExpressionNode op e))) p)"
proof -
  let ?q = "jump (Suc (length (emit unary_level e))) p"
  obtain n' where n: "n = Suc n'" using assms(2) by (cases n) (auto simp: written_def)
  obtain rest where a: "ahead p = (op, operator_text op) # emit unary_level e @ rest"
    using assms(2) by (auto simp: written_def)
  have "written unary_level e n' (Suc depth) (jump 1 p)"
    using assms(2) a unfolding n by (auto simp: written_def remaining_ahead unary_level_stops)
  from IH [OF this] have "rec_unary (parsers_at E n') (Suc depth) (jump 1 p) = Inr (e, ?q)"
    by (simp add: reads_def unary_level_single)
  then have "primary (parsers_at E n') depth p = Inr (UnaryExpressionNode op e, ?q)"
    using assms(1) current_ahead [OF a]
    by (auto simp: primary_def look_def bindp_def next_token_def ret_def advance_jump)
  then show ?thesis using assms(2) unfolding n by (intro reads_single unary_of_primary) (auto simp: written_def)
qed

lemma stop_at_RParen: "tok p = TokenRParen \<Longrightarrow> binary_stop m p \<and> follows p"
  by (simp add: binary_stop_def IsBinaryOperator_def follows_def)

lemma expect_ahead: "ahead p = (ty, v) # rest \<Longrightarrow> expect ty p = Inr (current_token p, jump 1 p)"
  using current_ahead [of p ty v rest] by (simp add: expect_def look_def bindp_def next_token_def ret_def advance_jump)

lemma no_stop:
  assumes op: "op \<in> binary_operators" and r: "printable r"
    and a: "ahead q = (op, operator_text op) # emit prec r @ rest" and m: "m \<le> binaryPrecedence op"
  shows "\<not> binary_stop m q"
proof -
  obtain ty v more where "emit prec r = (ty, v) # more" "ty \<noteq> TokenStar" using emit_start [OF r] by blast
  then have "Type (peek 1 q) \<noteq> TokenStar" using a current_ahead [of "jump 1 q" ty v "more @ rest"] by (simp add: peek_ahead)
  then show ?thesis
    using current_ahead [OF a] m binop_facts(1) [OF op] by (auto simp: binary_stop_def equality_text)
qed

lemma reads_infix:
  assumes w: "written prec (BinaryExpressionNode l op r) n depth p" and pr: "prec \<le> binaryPrecedence op"
    and op: "op \<in> binary_operators" and l: "printable l" and r: "printable r"
    and IHl: "\<And>n depth p. written (binaryPrecedence op) l n depth p \<Longrightarrow>
      reads E (binaryPrecedence op) n depth p l (jump (length (emit (binaryPrecedence op) l)) p)"
    and IHr: "\<And>n depth p. written (Suc (binaryPrecedence op)) r n depth p \<Longrightarrow>
      reads E (Suc (binaryPrecedence op)) n depth p r (jump (length (emit (Suc (binaryPrecedence op)) r)) p)"
  shows "reads E prec n depth p (BinaryExpressionNode l op r) (jump (length (emit prec (BinaryExpressionNode l op r))) p)"
proof -
  let ?pr = "binaryPrecedence op"
  define q1 where "q1 = jump (length (emit ?pr l)) p"
  define q3 where "q3 = jump (length (emit (Suc ?pr) r)) (jump 1 q1)"
  obtain rest where a: "ahead p = emit ?pr l @ (op, operator_text op) # emit (Suc ?pr) r @ rest"
    using w pr by (auto simp: written_def)
  have a1: "ahead q1 = (op, operator_text op) # emit (Suc ?pr) r @ rest" using a by (simp add: q1_def)
  have op1: "tok q1 = op" using current_ahead [OF a1] by simp
  have q3: "q3 = jump (length (emit prec (BinaryExpressionNode l op r))) p" using pr by (simp add: q3_def q1_def)
  obtain n' where n: "n = Suc n'" using w by (cases n) (auto simp: written_def)
  have q3': "jump (Suc (length (emit (Suc ?pr) r))) q1 = q3" by (simp add: q3_def)
  have rem: "remaining q1 < remaining p" using emit_start [OF l, of ?pr] a by (auto simp: q1_def remaining_ahead)
  have wl: "written ?pr l n depth p"
    using w a pr op1 binop_facts [OF op] by (auto simp: written_def follows_def binary_stop_def q1_def [symmetric])
  have stop: "binary_stop (Suc ?pr) q3" "follows q3"
    using w pr q3 binary_stop_mono [of "Suc prec" q3 "Suc ?pr"] by (auto simp: written_def)
  have "written (Suc ?pr) r n' (Suc depth) (jump 1 q1)"
    using w pr a1 stop binary_stop_mono [of "Suc ?pr" q3 "Suc (Suc ?pr)"] rem unfolding n
    by (auto simp: written_def q3' remaining_ahead)
  from IHr [OF this] stop have "parseExpr (parsers_at E n') (Suc ?pr) (Suc depth) (jump 1 q1) = Inr (r, q3)"
    by (simp add: reads_def climb_stop q3_def)
  then have step: "binary_step (parsers_at E n) depth l q1 = Inr (BinaryExpressionNode l op r, q3)"
    using op1 printable_not_call [OF l] binop_facts [OF op] unfolding n
    by (simp add: binary_step_def look_def bindp_def next_token_def ret_def advance_jump)
  have "parseExpr (parsers_at E n) m depth p = climb E n m depth (BinaryExpressionNode l op r) q3" if "m \<le> prec" for m
  proof -
    have "parseExpr (parsers_at E n) m depth p = climb E n m depth l q1"
      using IHl [OF wl] that pr by (simp add: reads_def q1_def)
    moreover have "\<not> binary_stop m q1" using no_stop [OF op r a1] that pr by simp
    moreover have "5 * remaining p + (n - 5 * remaining p) = n" using w by (simp add: written_def)
    ultimately show ?thesis using climb_step [OF _ rem _ step] by simp
  qed
  then show ?thesis using pr by (simp add: reads_def single_def q3)
qed

lemma reads_parenthesised:
  assumes w: "written prec (BinaryExpressionNode l op r) n depth p" and pr: "binaryPrecedence op < prec"
    and inner: "\<And>n depth p. written 0 (BinaryExpressionNode l op r) n depth p \<Longrightarrow>
      reads E 0 n depth p (BinaryExpressionNode l op r) (jump (length (emit 0 (BinaryExpressionNode l op r))) p)"
  shows "reads E prec n depth p (BinaryExpressionNode l op r) (jump (length (emit prec (BinaryExpressionNode l op r))) p)"
proof -
  let ?e = "BinaryExpressionNode l op r"
  define q where "q = jump (Suc (length (emit 0 ?e))) p"
  obtain n' where n: "n = Suc (Suc n')"
    using w by (auto simp: written_def numeral_eq_Suc dest!: Suc_less_eq2 [THEN iffD1])
  have emit: "emit prec ?e = (TokenLParen, ''('') # emit 0 ?e @ [(TokenRParen, '')'')]" using pr by (simp add: Let_def)
  then obtain rest where a: "ahead p = (TokenLParen, ''('') # emit 0 ?e @ (TokenRParen, '')'') # rest"
    using w by (auto simp: written_def)
  have aq: "ahead q = (TokenRParen, '')'') # rest" using a by (simp add: q_def)
  have deep: "nesting prec ?e = Suc (nesting 0 ?e)" using pr by simp
  have stop: "binary_stop 0 q" "binary_stop (Suc 0) q" "follows q" using current_ahead [OF aq] stop_at_RParen [of q] by auto
  have "written 0 ?e n' (Suc depth) (jump 1 p)"
    using w a stop deep unfolding n
    by (auto simp: written_def remaining_ahead q_def [symmetric] simp del: emit.simps nesting.simps)
  from inner [OF this] stop have "parseExpr (parsers_at E n') 0 (Suc depth) (jump 1 p) = Inr (?e, q)"
    by (simp add: reads_def climb_stop q_def del: emit.simps)
  then have "primary (parsers_at E (Suc n')) depth p = Inr (?e, jump 1 q)"
    using current_ahead [OF a] expect_ahead [OF aq]
    by (simp add: primary_def look_def bindp_def next_token_def ret_def advance_jump)
  then show ?thesis
    using w emit unfolding n
    by (intro reads_single unary_of_primary) (auto simp: written_def q_def simp del: emit.simps)
qed

lemma reads_back:
  "printable e \<Longrightarrow> written prec e n depth p \<Longrightarrow> reads E prec n depth p e (jump (length (emit prec e)) p)"
proof (induction e arbitrary: prec n depth p rule: printable.induct)
  case (5 op e)
  then show ?case by (intro reads_unary) auto
next
  case (6 l op r)
  then have flat: "reads E prec n depth p (BinaryExpressionNode l op r)
      (jump (length (emit prec (BinaryExpressionNode l op r))) p)"
    if "written prec (BinaryExpressionNode l op r) n depth p" "prec \<le> binaryPrecedence op" for prec n depth p
    using that by (intro reads_infix) auto
  show ?case
    using 6(4) flat reads_parenthesised by (cases "prec \<le> binaryPrecedence op") (auto simp del: emit.simps)
qed (auto intro!: reads_atom simp: atom_def simp del: emit.simps)


text \<open>The tokens of \<open>(a - 1) * -b == c\<close>.\<close>

definition sample_expression :: ExpressionNode where
  "sample_expression = BinaryExpressionNode
     (BinaryExpressionNode (BinaryExpressionNode (variable ''a'') TokenMinus (IntLiteralNode 1 ''1'' (plain_type []))) TokenStar
       (UnaryExpressionNode TokenMinus (variable ''b''))) TokenEquals (variable ''c'')"

definition sample_parser :: Parser where
  "sample_parser = New_Parser (map (\<lambda>(ty, v). \<lparr>Type = ty, Value = v, FileID = [], Line = 1, Column = 1\<rparr>) (emit 0 sample_expression))"

lemma end_of_input: "ahead q = [] \<Longrightarrow> tok q = TokenEOF"
  by (simp add: ahead_def current_token_def eof_token_def)


section \<open>Interface types\<close>

text \<open>The only interface type the parser accepts is the empty one: the branch for members is reached only when
  the next token is not an opening brace, and then asks for an opening brace.\<close>

theorem interface_type_only_empty:
  "(\<exists>r. interface_type P p = Inr r) \<longleftrightarrow> tok p = TokenLBrace \<and> Type (peek 1 p) = TokenRBrace"
proof -
  have "tok (advance p) = Type (peek 1 p)" by (simp add: peek_ahead advance_jump)
  then show ?thesis
    by (auto simp: interface_type_def look_def bindp_def next_token_def expect_def ret_def failure_def fail_with_def)
qed

end
