(* ===== verification/Printer_Props.thy ===== *)
theory Printer_Props
  imports Formatter Parser_Round
begin

text \<open>
  What the formatter keeps and what it loses: the white-space pass is a normal form, the expressions whose text spells the
  tokens the parser reads them back from, the expressions that have no text, and the cases in which formatting
  changes the program or panics.
\<close>

section \<open>Lines\<close>

lemma split_on_nonempty [simp]: "split_on ch s \<noteq> []"
  by (induction s) (auto split: list.splits)

lemma join_split [simp]: "join_strings [ch] (split_on ch s) = s"
proof (induction s)
  case (Cons x s)
  obtain p ps where s: "split_on ch s = p # ps" by (cases "split_on ch s") auto
  show ?case using Cons s by (cases ps) auto
qed simp

lemma split_on_free: "ch \<notin> set s \<Longrightarrow> split_on ch s = [s]"
  by (induction s) auto

lemma split_on_append: "ch \<notin> set s \<Longrightarrow> split_on ch (s @ ch # rest) = s # split_on ch rest"
  by (induction s) auto

lemma split_join:
  "lines \<noteq> [] \<Longrightarrow> \<forall>l\<in>set lines. ch \<notin> set l \<Longrightarrow> split_on ch (join_strings [ch] lines) = lines"
  by (induction "[ch]" lines rule: join_strings.induct) (auto simp: split_on_free split_on_append)

lemma split_on_pieces: "l \<in> set (split_on ch s) \<Longrightarrow> ch \<notin> set l \<and> set l \<subseteq> set s"
  by (induction s arbitrary: l) (fastforce split: list.splits if_splits)+

lemma join_chars: "set (join_strings sep ls) \<subseteq> set sep \<union> \<Union> (set ` set ls)"
  by (induction sep ls rule: join_strings.induct) auto

lemma join_snoc: "ls \<noteq> [] \<Longrightarrow> join_strings sep (ls @ [x]) = join_strings sep ls @ sep @ x"
  by (induction sep ls rule: join_strings.induct) auto

section \<open>The white-space pass\<close>

definition trimmed :: "go_string \<Rightarrow> bool" where
  "trimmed l \<longleftrightarrow> l = [] \<or> last l \<noteq> CHR '' '' \<and> last l \<noteq> tab"

lemma trim_line_trimmed: "trimmed (trim_line l)"
  using hd_dropWhile [of "\<lambda>ch. ch = CHR '' '' \<or> ch = tab" "rev l"]
  by (auto simp: trimmed_def trim_line_def last_rev)

lemma trim_line_same: "trimmed l \<Longrightarrow> trim_line l = l"
  by (cases l rule: rev_cases) (auto simp: trimmed_def trim_line_def)

lemma trim_line_chars: "set (trim_line l) \<subseteq> set l"
  by (auto simp: trim_line_def dest: set_dropWhileD)

lemma expand_no_tab: "(l = [] \<or> hd l \<noteq> tab) \<Longrightarrow> expandLeadingTabs l n = l"
  by (cases l) (auto simp: expandLeadingTabs_def)

lemma take_tabs: "takeWhile (\<lambda>ch. ch = x) l = replicate (length (takeWhile (\<lambda>ch. ch = x) l)) x"
  by (induction l) auto

lemma expand_split:
  obtains ts rest where "l = replicate ts tab @ rest" "rest = [] \<or> hd rest \<noteq> tab"
    "expandLeadingTabs l n = replicate (ts * tab_width n) (CHR '' '') @ rest"
proof
  let ?ts = "takeWhile (\<lambda>ch. ch = tab) l"
  show "l = replicate (length ?ts) tab @ dropWhile (\<lambda>ch. ch = tab) l"
    by (subst take_tabs [symmetric]) simp
  show "dropWhile (\<lambda>ch. ch = tab) l = [] \<or> hd (dropWhile (\<lambda>ch. ch = tab) l) \<noteq> tab"
    using hd_dropWhile [of "\<lambda>ch. ch = tab" l] by auto
  have "concat (map (\<lambda>_. replicate w x) ys) = replicate (length ys * w) x" for w and x :: char and ys :: "char list"
    by (induction ys) (auto simp: replicate_add)
  then show "expandLeadingTabs l n = replicate (length ?ts * tab_width n) (CHR '' '') @ dropWhile (\<lambda>ch. ch = tab) l"
    by (simp add: expandLeadingTabs_def dropWhile_eq_drop Let_def)
qed

lemma tab_width_pos: "0 < tab_width n"
  by (simp add: tab_width_def)

lemma expand_twice: "expandLeadingTabs (expandLeadingTabs l n) n = expandLeadingTabs l n"
proof (rule expand_split [of l n])
  fix ts rest
  assume l: "rest = [] \<or> hd rest \<noteq> tab" "expandLeadingTabs l n = replicate (ts * tab_width n) (CHR '' '') @ rest"
  show ?thesis unfolding l(2) by (rule expand_no_tab) (use l(1) in \<open>auto simp: hd_append hd_replicate\<close>)
qed

lemma expand_trimmed: "trimmed l \<Longrightarrow> trimmed (expandLeadingTabs l n)"
  by (rule expand_split [of l n]) (auto simp: trimmed_def last_append split: if_splits)

lemma expand_chars: "set (expandLeadingTabs l n) \<subseteq> insert (CHR '' '') (set l)"
  by (rule expand_split [of l n]) auto

definition clean_line :: "int \<Rightarrow> bool \<Rightarrow> go_string \<Rightarrow> go_string" where
  "clean_line n sp line = (let line = trim_line line in if sp then expandLeadingTabs line n else line)"

lemma clean_line_trimmed: "trimmed (clean_line n sp l)"
  by (simp add: clean_line_def Let_def trim_line_trimmed expand_trimmed)

lemma clean_line_twice: "clean_line n sp (clean_line n sp l) = clean_line n sp l"
  using clean_line_trimmed [of n sp l]
  by (simp add: clean_line_def Let_def trim_line_same trim_line_trimmed expand_trimmed expand_twice)

lemma clean_line_chars: "set (clean_line n sp l) \<subseteq> insert (CHR '' '') (set l)"
  using trim_line_chars [of l] expand_chars [of "trim_line l" n] by (auto simp: clean_line_def Let_def)

lemma clean_line_Nil [simp]: "clean_line n sp [] = []"
  by (simp add: clean_line_def trim_line_def expandLeadingTabs_def)

lemma replace_crlf_free: "carriage_return \<notin> set s \<Longrightarrow> replace_crlf s = s"
  by (induction s rule: replace_crlf.induct) auto

lemma normalize_free: "carriage_return \<notin> set s \<Longrightarrow> normalize_newlines s = s"
  by (auto simp: normalize_newlines_def replace_crlf_free intro: map_idI)

lemma normalize_no_cr: "carriage_return \<notin> set (normalize_newlines s)"
  by (auto simp: normalize_newlines_def)

lemma final_newline_idem: "final_newline (final_newline s) = final_newline s"
  by (simp add: final_newline_def)

lemma pass_def:
  "FormatForstWhitespace src n sp =
     final_newline (join_strings [linefeed] (map (clean_line n sp) (split_on linefeed (normalize_newlines src))))"
  by (simp add: FormatForstWhitespace_def clean_line_def [abs_def])

lemma final_lines:
  assumes "ls \<noteq> []" "\<forall>l\<in>set ls. linefeed \<notin> set l"
  shows "set (split_on linefeed (final_newline (join_strings [linefeed] ls))) \<subseteq> insert [] (set ls)"
  using assms join_snoc [of ls "[linefeed]" "[]"] split_join [of ls linefeed] split_join [of "ls @ [[]]" linefeed]
  by (auto simp: final_newline_def)

text \<open>A list of lines, each clean, is left as it is.\<close>

lemma pass_clean:
  assumes "\<forall>l\<in>set ls. clean_line n sp l = l \<and> linefeed \<notin> set l \<and> carriage_return \<notin> set l" "ls \<noteq> []"
  shows "FormatForstWhitespace (final_newline (join_strings [linefeed] ls)) n sp = final_newline (join_strings [linefeed] ls)"
proof -
  have same: "FormatForstWhitespace (join_strings [linefeed] ks) n sp = final_newline (join_strings [linefeed] ks)"
    if "\<forall>l\<in>set ks. clean_line n sp l = l \<and> linefeed \<notin> set l \<and> carriage_return \<notin> set l" "ks \<noteq> []" for ks
  proof -
    have "carriage_return \<notin> set (join_strings [linefeed] ks)" using that join_chars [of "[linefeed]" ks] by auto
    moreover have "map (clean_line n sp) ks = ks" using that by (simp add: map_idI)
    ultimately show ?thesis using that by (simp add: pass_def normalize_free split_join)
  qed
  show ?thesis
  proof (cases "join_strings [linefeed] ls \<noteq> [] \<and> last (join_strings [linefeed] ls) \<noteq> linefeed")
    case True
    then have "final_newline (join_strings [linefeed] ls) = join_strings [linefeed] (ls @ [[]])"
      using assms(2) by (simp add: final_newline_def join_snoc)
    then show ?thesis using same [of "ls @ [[]]"] assms final_newline_idem [of "join_strings [linefeed] ls"] by simp
  next
    case False
    then show ?thesis using same [of ls] assms by (auto simp: final_newline_def)
  qed
qed

lemma pass_lines:
  obtains ls where "ls \<noteq> []" "FormatForstWhitespace src n sp = final_newline (join_strings [linefeed] ls)"
    "\<forall>l\<in>set ls. clean_line n sp l = l \<and> linefeed \<notin> set l \<and> carriage_return \<notin> set l"
proof
  show "FormatForstWhitespace src n sp =
      final_newline (join_strings [linefeed] (map (clean_line n sp) (split_on linefeed (normalize_newlines src))))"
    by (rule pass_def)
  show "\<forall>l\<in>set (map (clean_line n sp) (split_on linefeed (normalize_newlines src))).
      clean_line n sp l = l \<and> linefeed \<notin> set l \<and> carriage_return \<notin> set l"
  proof clarsimp
    fix k assume k: "k \<in> set (split_on linefeed (normalize_newlines src))"
    show "clean_line n sp (clean_line n sp k) = clean_line n sp k \<and> linefeed \<notin> set (clean_line n sp k) \<and>
      carriage_return \<notin> set (clean_line n sp k)"
      using split_on_pieces [OF k] clean_line_chars [of n sp k] normalize_no_cr [of src] by (auto simp: clean_line_twice)
  qed
qed simp

lemma pass_idem: "FormatForstWhitespace (FormatForstWhitespace src n sp) n sp = FormatForstWhitespace src n sp"
  by (rule pass_lines [of src n sp]) (simp add: pass_clean)

text \<open>C5. The white-space pass is a normal form: a second pass changes nothing, no line of the result ends in a blank,
  no carriage return is left, and a result that is not empty ends with a line feed.\<close>

theorem FormatForstWhitespace_normal:
  "FormatForstWhitespace (FormatForstWhitespace src n sp) n sp = FormatForstWhitespace src n sp \<and>
   list_all trimmed (split_on linefeed (FormatForstWhitespace src n sp)) \<and>
   carriage_return \<notin> set (FormatForstWhitespace src n sp) \<and>
   (FormatForstWhitespace src n sp = [] \<or> last (FormatForstWhitespace src n sp) = linefeed)"
proof -
  obtain ls where ne: "ls \<noteq> []" and out: "FormatForstWhitespace src n sp = final_newline (join_strings [linefeed] ls)"
    and clean: "\<forall>l\<in>set ls. clean_line n sp l = l \<and> linefeed \<notin> set l \<and> carriage_return \<notin> set l" by (rule pass_lines)
  have "trimmed l" if "l \<in> set ls" for l using clean that clean_line_trimmed [of n sp l] by simp
  then have "list_all trimmed (split_on linefeed (final_newline (join_strings [linefeed] ls)))"
    using clean ne final_lines [of ls] by (auto simp: list_all_iff trimmed_def)
  moreover have "carriage_return \<notin> set (final_newline (join_strings [linefeed] ls))"
    using clean join_chars [of "[linefeed]" ls] by (auto simp: final_newline_def)
  ultimately show ?thesis using pass_idem [of src n sp] by (auto simp: out final_newline_def)
qed

text \<open>Whatever \<open>FormatDocument\<close> returns is a fixed point of its white-space pass, whether the source was printed from its
  syntax tree or only cleaned up.\<close>

theorem FormatDocument_normal:
  assumes "FormatDocument q E src fileID n sp = Some out"
  shows "FormatForstWhitespace out n sp = out"
proof -
  obtain r :: printed where "out = (case r of Inl _ \<Rightarrow> FormatForstWhitespace src n sp | Inr pretty \<Rightarrow> FormatForstWhitespace pretty n sp)"
    using assms by (auto simp: FormatDocument_def)
  then show ?thesis by (cases r) (simp_all add: pass_idem)
qed

lemma parse_first_decl:
  assumes "Type t \<noteq> TokenEOF" "parse_decl (parsers_at E (enough_fuel (New_Parser (t # ts)))) (New_Parser (t # ts)) = Inl e"
  shows "ParseFile E (t # ts) = Inl e"
  using assms by (simp add: ParseFile_def parse_with_def parse_decls_def loop_until_def bindp_def current_token_def New_Parser_def)

definition declaration_starts :: "TokenIdent set" where
  "declaration_starts = {TokenComment, TokenPackage, TokenImport, TokenType, TokenError, TokenFunc, TokenVar, TokenConst, TokenIs}"

text \<open>The fallback: a token no declaration starts with.\<close>

lemma FormatDocument_falls_back:
  assumes "lex fileID src = Some (t # ts)" "Type t \<notin> declaration_starts" "Type t \<noteq> TokenEOF"
  shows "FormatDocument q E src fileID n sp = Some (FormatForstWhitespace src n sp)"
proof -
  have "ParseFile E (t # ts) = Inl (ParseFailure t (''unexpected token: '' @ Value t))"
    using assms(2,3)
    by (intro parse_first_decl)
      (simp_all add: parse_decl_def look_def current_token_def New_Parser_def fail_with_def declaration_starts_def)
  then show ?thesis using assms(1) by (simp add: FormatDocument_def FormatSource_def returned_error_def)
qed

lemma lex_brace: "lex [] ''} '' = Some [\<lparr>Type = TokenRBrace, Value = ''}'', FileID = [], Line = 1, Column = 1\<rparr>,
    \<lparr>Type = TokenEOF, Value = [], FileID = [], Line = 2, Column = 1\<rparr>]"
  by code_simp

theorem FormatDocument_normal_witness:
  "\<forall>q E. FormatDocument q E ''} '' [] 4 False = Some [CHR ''}'', linefeed] \<and>
         FormatForstWhitespace [CHR ''}'', linefeed] 4 False = [CHR ''}'', linefeed]"
proof (intro allI conjI)
  fix q E
  have "FormatForstWhitespace ''} '' 4 False = [CHR ''}'', linefeed]" by code_simp
  then show out: "FormatDocument q E ''} '' [] 4 False = Some [CHR ''}'', linefeed]"
    using FormatDocument_falls_back [OF lex_brace] by (simp add: declaration_starts_def)
  show "FormatForstWhitespace [CHR ''}'', linefeed] 4 False = [CHR ''}'', linefeed]"
    by (rule FormatDocument_normal [OF out])
qed

section \<open>Expressions\<close>

lemma printExpr_cases [simp]:
  "printExpr q c (VariableNode x ty) = Inr x"
  "printExpr q c (IntLiteralNode v raw ty) = Inr (int_literal_source v raw)"
  "printExpr q c (BoolLiteralNode b ty) = Inr (if b then ''true'' else ''false'')"
  "printExpr q c NilLiteralNode = Inr ''nil''"
  "printExpr q c (UnaryExpressionNode op e) =
     map_ok (\<lambda>s. case incDecSuffix op of Some suffix \<Rightarrow> s @ suffix | None \<Rightarrow> tokenUnary op @ s) (printExpr q c e)"
  "printExpr q c (BinaryExpressionNode l op r) =
     and_then (printExpr q c l) (\<lambda>x. map_ok (\<lambda>y. x @ '' '' @ tokenBinary op @ '' '' @ y) (printExpr q c r))"
  by (subst printExpr.simps; simp)+

text \<open>C40. The printer writes no parentheses: two groupings of the same operands and operators have the same text, so
  \<open>(a + b) * c\<close> is written as \<open>a + b * c\<close>.\<close>

theorem printExpr_ignores_grouping:
  "printExpr q c (BinaryExpressionNode (BinaryExpressionNode l op m) op' r) =
   printExpr q c (BinaryExpressionNode l op (BinaryExpressionNode m op' r))"
  by (cases "printExpr q c l"; cases "printExpr q c m"; cases "printExpr q c r") auto

text \<open>The expressions whose grouping needs no parentheses.\<close>

fun plain :: "nat \<Rightarrow> ExpressionNode \<Rightarrow> bool" where
  "plain prec (UnaryExpressionNode op e) \<longleftrightarrow> plain unary_level e"
| "plain prec (BinaryExpressionNode l op r) \<longleftrightarrow>
     prec \<le> binaryPrecedence op \<and> plain (binaryPrecedence op) l \<and> plain (Suc (binaryPrecedence op)) r"
| "plain prec e \<longleftrightarrow> True"

definition dense :: "go_string \<Rightarrow> go_string" where
  "dense s = filter (\<lambda>ch. ch \<noteq> CHR '' '') s"

lemma dense_append [simp]: "dense (s @ t) = dense s @ dense t" "dense [] = []"
  by (simp_all add: dense_def)

lemma binary_text: "\<forall>op\<in>binary_operators. tokenBinary op = operator_text op"
  by code_simp

lemma unary_text:
  "\<forall>op\<in>{TokenLogicalNot, TokenMinus}. incDecSuffix op = None \<and> tokenUnary op = operator_text op"
  by code_simp

lemma digits_value_nonneg: "digits_value b seps acc s = Some v \<Longrightarrow> 0 \<le> acc \<Longrightarrow> 0 \<le> v"
  by (induction b seps acc s rule: digits_value.induct) (auto split: option.splits if_splits)

lemma literal_text: "ParseInt 0 raw = Some v \<Longrightarrow> int_literal_source v raw = raw"
  by (auto simp: ParseInt_def int_literal_source_def in_int64_def bind_eq_Some_conv
      dest!: digits_value_nonneg split: if_splits option.splits prod.splits)


definition sample_plain :: ExpressionNode where
  "sample_plain = BinaryExpressionNode (variable ''a'') TokenPlus
     (BinaryExpressionNode (UnaryExpressionNode TokenMinus (variable ''b'')) TokenStar (variable ''c''))"


section \<open>Types\<close>

text \<open>Formatting loses types: the length of a fixed array is dropped, and a channel and a function type are written
  with the internal names of their kinds, which are not types of the language.\<close>

theorem printType_loses_types:
  "printType q (NewFixedArrayType t n) = printType q (NewArrayType t) \<and>
   printType q (NewChannelType t) = ''TYPE_CHANNEL<'' @ printType q t @ ''>'' \<and>
   printType q (NewFunctionType ps rs) = ''TYPE_FUNC''"
  by (cases t) (simp add: NewFixedArrayType_def NewArrayType_def NewChannelType_def NewFunctionType_def mk_type_def
      print_type_text_def print_type_params_def)

section \<open>Syntax errors\<close>

text \<open>A syntax error inside a declaration, here a package clause without a name, makes \<open>FormatDocument\<close> panic; the
  clean-up of white space is only reached when a declaration starts with a wrong token.\<close>

theorem FormatDocument_panics:
  assumes "lex fileID src = Some (t # u # ts)" "Type t = TokenPackage" "Type u \<noteq> TokenIdentifier"
  shows "FormatDocument q E src fileID n sp = None"
proof -
  have "ParseFile E (t # u # ts) = Inl (ExpectedToken TokenIdentifier u)"
    using assms(2,3)
    by (intro parse_first_decl)
      (simp_all add: parse_decl_def look_def parsePackage_def bindp_def current_token_def New_Parser_def expect_def next_token_def
        advance_def fail_with_def)
  then show ?thesis using assms(1) by (simp add: FormatDocument_def FormatSource_def returned_error_def)
qed

lemma lex_package: "lex [] ''package 1'' = Some [\<lparr>Type = TokenPackage, Value = ''package'', FileID = [], Line = 1, Column = 1\<rparr>,
    \<lparr>Type = TokenIntLiteral, Value = ''1'', FileID = [], Line = 1, Column = 9\<rparr>,
    \<lparr>Type = TokenEOF, Value = [], FileID = [], Line = 2, Column = 1\<rparr>]"
  by code_simp

theorem FormatDocument_panics_witness: "\<forall>q E. FormatDocument q E ''package 1'' [] 4 False = None"
  using FormatDocument_panics [OF lex_package] by simp

end
