(* ===== verification/Labels.thy ===== *)
theory Labels
  imports Statements "HOL-Library.Sublist"
begin

text \<open>
  \<open>internal/typechecker/infer_goto.go\<close>: labels, goto, and labelled break and continue of one function body. The code
  compares blocks and statement slices by address; here a block is the path that leads to it from the body of the
  function, a list of pairs of the index of a statement in its block and the number of the block among those the
  statement opens. The table of labels is the list of labels in the order they are declared. Source spans and the
  bindings stored for the language server are left out.
\<close>

section \<open>State\<close>

type_synonym block = "(nat \<times> nat) list"

record labelObj =
  labelName :: Identifier
  labelUsed :: bool
  labelBlock :: block
  labelIndex :: nat
  labelIsFor :: bool

record gotoPending =
  gotoName :: Identifier
  gotoBlock :: block
  gotoIndex :: nat

record labelChecker =
  labelAll :: "labelObj list"
  labelGotos :: "gotoPending list"
  labelBreaks :: "Identifier list"

datatype label_error =
    LabelAlreadyDefined Identifier
  | LabelNotDeclared Identifier
  | JumpsIntoBlock Identifier
  | JumpsOverDeclaration Identifier Identifier
  | BreakLabelUndefined Identifier
  | BreakLabelNotFor Identifier
  | LabelNotUsed Identifier

definition find_label :: "labelObj list \<Rightarrow> Identifier \<Rightarrow> labelObj option" where
  "find_label objs name = find (\<lambda>obj. labelName obj = name) objs"

definition mark_used :: "Identifier \<Rightarrow> labelObj list \<Rightarrow> labelObj list" where
  "mark_used name objs = map (\<lambda>obj. if labelName obj = name then obj\<lparr>labelUsed := True\<rparr> else obj) objs"

section \<open>Walking the body\<close>

text \<open>The blocks a statement opens, in the order they are walked; a label opens none of its own.\<close>

fun opened :: "Node \<Rightarrow> Node list list" where
  "opened (LabeledStmtNode l s) = opened s"
| "opened (ForStmt n) = [ForBody n]"
| "opened (IfStmt n) = IBody n # map snd (IElseIfs n) @ (case IElse n of Some b \<Rightarrow> [b] | None \<Rightarrow> [])"
| "opened (SwitchNode init tag clauses) = map SwitchBody clauses"
| "opened (EnsureStmt e) = (case EBlock e of Some b \<Rightarrow> [b] | None \<Rightarrow> [])"
| "opened (WithNode w body) = [body]"
| "opened _ = []"

definition opened_weight :: "Node list list \<Rightarrow> nat" where
  "opened_weight bs = sum_list (map (\<lambda>b. Suc (size_list size b)) bs)"

lemma else_if_weight:
  "opened_weight (map snd eis) \<le> size_list (size_prod size (size_list size)) (eis :: (Node \<times> Node list) list)"
  by (induction eis) (auto simp: opened_weight_def)

lemma clause_weight: "opened_weight (map SwitchBody cs) \<le> size_list size cs"
proof (induction cs)
  case (Cons cl cs)
  then show ?case by (cases cl) (auto simp: opened_weight_def)
qed (simp add: opened_weight_def)

lemma opened_smaller: "opened_weight (opened s) \<le> size s"
proof (induction s rule: opened.induct)
  case (2 n)
  then show ?case by (cases n) (auto simp: opened_weight_def)
next
  case (3 n)
  then show ?case
    using else_if_weight [of "IElseIfs n"] by (cases n) (auto simp: opened_weight_def split: option.splits)
next
  case (4 init tag clauses)
  then show ?case using clause_weight [of clauses] by simp
next
  case (5 e)
  then show ?case by (cases e) (auto simp: opened_weight_def split: option.splits)
qed (auto simp: opened_weight_def)

lemma opened_measures:
  "2 * opened_weight (opened (ForStmt n)) < Suc (2 * size (ForStmt n))"
  "2 * opened_weight (opened (IfStmt f)) < Suc (2 * size (IfStmt f))"
  "2 * opened_weight (opened (SwitchNode init tag cs)) < Suc (2 * size (SwitchNode init tag cs))"
  "2 * opened_weight (opened (EnsureStmt e)) < Suc (2 * size (EnsureStmt e))"
  "2 * opened_weight (opened (WithNode w body)) < Suc (2 * size (WithNode w body))"
  by (simp_all only: less_Suc_eq_le mult_le_mono2 opened_smaller)

lemma opened_weight_simps [simp]:
  "opened_weight [] = 0" "opened_weight (b # bs) = Suc (size_list size b) + opened_weight bs"
  by (simp_all add: opened_weight_def)

definition isForStmt :: "Node \<Rightarrow> bool" where
  "isForStmt s = (case s of ForStmt _ \<Rightarrow> True | _ \<Rightarrow> False)"

definition declareLabel :: "block \<Rightarrow> nat \<Rightarrow> Identifier option \<Rightarrow> bool \<Rightarrow> labelChecker \<Rightarrow> label_error + labelChecker" where
  "declareLabel b index label isFor lc =
     (case label of
        None \<Rightarrow> Inr lc
      | Some name \<Rightarrow>
        if find_label (labelAll lc) name \<noteq> None then Inl (LabelAlreadyDefined name)
        else Inr (lc\<lparr>labelAll := labelAll lc @
               [\<lparr>labelName = name, labelUsed = False, labelBlock = b, labelIndex = index, labelIsFor = isFor\<rparr>]\<rparr>))"

definition add_break :: "Identifier option \<Rightarrow> labelChecker \<Rightarrow> labelChecker" where
  "add_break label lc = (case label of Some l \<Rightarrow> lc\<lparr>labelBreaks := labelBreaks lc @ [l]\<rparr> | None \<Rightarrow> lc)"

function walkBlock :: "block \<Rightarrow> nat \<Rightarrow> Node list \<Rightarrow> labelChecker \<Rightarrow> label_error + labelChecker"
  and walkStmt :: "block \<Rightarrow> nat \<Rightarrow> Node \<Rightarrow> labelChecker \<Rightarrow> label_error + labelChecker"
  and walk_opened :: "block \<Rightarrow> nat \<Rightarrow> nat \<Rightarrow> Node list list \<Rightarrow> labelChecker \<Rightarrow> label_error + labelChecker" where
  "walkBlock b index stmts lc =
     (case stmts of
        [] \<Rightarrow> Inr lc
      | s # rest \<Rightarrow> and_then (walkStmt b index s lc) (walkBlock b (Suc index) rest))"
| "walkStmt b index stmt lc =
     (case stmt of
        LabeledStmtNode l s \<Rightarrow> and_then (declareLabel b index (Some l) (isForStmt s) lc) (walkStmt b index s)
      | ForStmt n \<Rightarrow> and_then (declareLabel b index (ForLabel n) True lc) (walk_opened b index 0 (opened stmt))
      | GotoNode l \<Rightarrow> Inr (lc\<lparr>labelGotos := labelGotos lc @ [\<lparr>gotoName = l, gotoBlock = b, gotoIndex = index\<rparr>]\<rparr>)
      | BreakNode l \<Rightarrow> Inr (add_break l lc)
      | ContinueNode l \<Rightarrow> Inr (add_break l lc)
      | _ \<Rightarrow> walk_opened b index 0 (opened stmt) lc)"
| "walk_opened b index k blocks lc =
     (case blocks of
        [] \<Rightarrow> Inr lc
      | stmts # rest \<Rightarrow> and_then (walkBlock (b @ [(index, k)]) 0 stmts lc) (walk_opened b index (Suc k) rest))"
  by pat_completeness auto
termination
  using opened_measures
  by (relation "measure (case_sum (\<lambda>(b, i, ss, lc). 2 * size_list size ss) (case_sum (\<lambda>(b, i, s, lc). 2 * size s + 1)
        (\<lambda>(b, i, k, bs, lc). 2 * opened_weight bs)))")
    (auto simp del: opened.simps(2-6))

text \<open>The statements of a block.\<close>

fun stmts_at :: "Node list \<Rightarrow> block \<Rightarrow> Node list" where
  "stmts_at stmts [] = stmts"
| "stmts_at stmts ((i, k) # b) =
     (if i < length stmts \<and> k < length (opened (stmts ! i)) then stmts_at (opened (stmts ! i) ! k) b else [])"

section \<open>Resolving jumps\<close>

definition block_parent :: "block \<Rightarrow> block option" where
  "block_parent b = (if b = [] then None else Some (butlast b))"

text \<open>Whether a loop from \<open>b\<close> over the parents meets \<open>x\<close>.\<close>

function chain_meets :: "block option \<Rightarrow> block \<Rightarrow> bool" where
  "chain_meets b x = (case b of None \<Rightarrow> False | Some c \<Rightarrow> c = x \<or> chain_meets (block_parent c) x)"
  by pat_completeness auto
termination
  by (relation "measure (\<lambda>(b, x). case b of None \<Rightarrow> 0 | Some c \<Rightarrow> Suc (length c))")
    (auto simp: block_parent_def split: option.splits)

definition jumpsIntoBlock :: "block \<Rightarrow> block \<Rightarrow> bool" where
  "jumpsIntoBlock source target =
     (if source = target then False
      else if chain_meets (block_parent target) source then True
      else if chain_meets (block_parent source) target then False
      else True)"

function blockDepth :: "block option \<Rightarrow> nat" where
  "blockDepth b = (case b of None \<Rightarrow> 0 | Some c \<Rightarrow> Suc (blockDepth (block_parent c)))"
  by pat_completeness auto
termination
  by (relation "measure (\<lambda>b. case b of None \<Rightarrow> 0 | Some c \<Rightarrow> Suc (length c))")
    (auto simp: block_parent_def split: option.splits)

declare chain_meets.simps [simp del] blockDepth.simps [simp del]

text \<open>The loops of \<open>checkGotoOverDecl\<close>: the deeper block climbs to the depth of the other, then both climb until they meet.\<close>

definition climb_to :: "nat \<Rightarrow> nat \<Rightarrow> block \<Rightarrow> block" where
  "climb_to depth target b = (butlast ^^ (depth - target)) b"

function meet_blocks :: "block \<Rightarrow> block \<Rightarrow> block" where
  "meet_blocks a b = (if a = b \<or> a = [] then a else meet_blocks (butlast a) (butlast b))"
  by pat_completeness auto
termination
  by (relation "measure (\<lambda>(a, b). length a)") auto

declare meet_blocks.simps [simp del]

definition common_block :: "block \<Rightarrow> block \<Rightarrow> block" where
  "common_block a b =
     (let da = blockDepth (Some a); db = blockDepth (Some b)
      in meet_blocks (climb_to da db a) (climb_to db da b))"

fun assignmentDeclNames :: "AssignmentNode \<Rightarrow> Identifier list" where
  "assignmentDeclNames a =
     (if \<not> IsShort a \<and> (ExplicitTypes a = [] \<or> hd (ExplicitTypes a) = None) then []
      else concat (map (\<lambda>lv. case lv of VariableNode x _ \<Rightarrow> [x] | _ \<Rightarrow> []) (LValues a)))"

fun declNamesIntroduced :: "Node \<Rightarrow> Identifier list" where
  "declNamesIntroduced (LabeledStmtNode l s) = declNamesIntroduced s"
| "declNamesIntroduced (AssignStmt a) = assignmentDeclNames a"
| "declNamesIntroduced _ = []"

text \<open>The blocks \<open>statementContainsBlock\<close> looks into: it has a case for a pointer to an ensure statement, but the parser
  stores ensure statements by value.\<close>

fun searched :: "Node \<Rightarrow> Node list list" where
  "searched (LabeledStmtNode l s) = searched s"
| "searched (EnsureStmt e) = []"
| "searched s = opened s"

definition statementContainsBlock :: "block \<Rightarrow> nat \<Rightarrow> Node \<Rightarrow> block \<Rightarrow> bool" where
  "statementContainsBlock ancestor i stmt b \<longleftrightarrow> b \<in> set (map (\<lambda>k. ancestor @ [(i, k)]) [0..<length (searched stmt)])"

function child_below :: "block \<Rightarrow> block \<Rightarrow> block option" where
  "child_below b ancestor =
     (case block_parent b of
        None \<Rightarrow> None
      | Some p \<Rightarrow> if p = ancestor then Some b else child_below p ancestor)"
  by pat_completeness auto
termination
  by (relation "measure (\<lambda>(b, a). length b)") (auto simp: block_parent_def split: if_splits)

declare child_below.simps [simp del]

definition indexInAncestor :: "Node list \<Rightarrow> block \<Rightarrow> nat \<Rightarrow> block \<Rightarrow> nat option" where
  "indexInAncestor body b index ancestor =
     (if b = ancestor then Some index
      else case child_below b ancestor of
             None \<Rightarrow> None
           | Some child \<Rightarrow>
             find (\<lambda>i. statementContainsBlock ancestor i (stmts_at body ancestor ! i) child) [0..<length (stmts_at body ancestor)])"

definition checkGotoOverDecl :: "Node list \<Rightarrow> gotoPending \<Rightarrow> labelObj \<Rightarrow> label_error + unit" where
  "checkGotoOverDecl body g obj =
     (let common = common_block (gotoBlock g) (labelBlock obj); stmts = stmts_at body common
      in case (indexInAncestor body (gotoBlock g) (gotoIndex g) common, indexInAncestor body (labelBlock obj) (labelIndex obj) common) of
           (Some gIdx, Some lIdx) \<Rightarrow>
             if gIdx \<ge> lIdx then Inr ()
             else (case concat (map (\<lambda>i. declNamesIntroduced (stmts ! i)) [Suc gIdx..<min (Suc lIdx) (length stmts)]) of
                     [] \<Rightarrow> Inr ()
                   | name # _ \<Rightarrow> Inl (JumpsOverDeclaration (gotoName g) name))
         | _ \<Rightarrow> Inr ())"

fun resolve_gotos :: "Node list \<Rightarrow> gotoPending list \<Rightarrow> labelObj list \<Rightarrow> label_error + labelObj list" where
  "resolve_gotos body [] objs = Inr objs"
| "resolve_gotos body (g # gs) objs =
     (case find_label objs (gotoName g) of
        None \<Rightarrow> Inl (LabelNotDeclared (gotoName g))
      | Some obj \<Rightarrow>
        if jumpsIntoBlock (gotoBlock g) (labelBlock obj) then Inl (JumpsIntoBlock (gotoName g))
        else and_then (checkGotoOverDecl body g obj) (\<lambda>_. resolve_gotos body gs (mark_used (gotoName g) objs)))"

fun resolve_breaks :: "Identifier list \<Rightarrow> labelObj list \<Rightarrow> label_error + labelObj list" where
  "resolve_breaks [] objs = Inr objs"
| "resolve_breaks (name # names) objs =
     (case find_label objs name of
        None \<Rightarrow> Inl (BreakLabelUndefined name)
      | Some obj \<Rightarrow> if \<not> labelIsFor obj then Inl (BreakLabelNotFor name) else resolve_breaks names (mark_used name objs))"

definition resolve :: "Node list \<Rightarrow> labelChecker \<Rightarrow> label_error + labelObj list" where
  "resolve body lc =
     and_then (resolve_gotos body (labelGotos lc) (labelAll lc)) (\<lambda>objs.
       and_then (resolve_breaks (labelBreaks lc) objs) (\<lambda>objs.
         case find (\<lambda>obj. \<not> labelUsed obj) objs of Some obj \<Rightarrow> Inl (LabelNotUsed (labelName obj)) | None \<Rightarrow> Inr objs))"

definition empty_checker :: labelChecker where
  "empty_checker = \<lparr>labelAll = [], labelGotos = [], labelBreaks = []\<rparr>"

definition checkFunctionLabels :: "Node list \<Rightarrow> label_error + labelObj list" where
  "checkFunctionLabels body = and_then (walkBlock [] 0 body empty_checker) (resolve body)"

end
