(* ===== verification/Labels_Props.thy ===== *)
theory Labels_Props
  imports Labels
begin

text \<open>
  What the label check guarantees, stated on the blocks of the function body: every goto of an accepted body has exactly one
  label, in a block that encloses the goto; labels are unique and used; and where the check of skipped
  declarations misses a jump or refuses a legal one.
\<close>

section \<open>Blocks as paths\<close>

lemma chain_meets_Some: "chain_meets (Some c) x \<longleftrightarrow> prefix x c"
proof (induction c rule: rev_induct)
  case Nil
  show ?case by (subst chain_meets.simps) (auto simp: block_parent_def chain_meets.simps [of None])
next
  case (snoc y c)
  then show ?case by (subst chain_meets.simps) (auto simp: block_parent_def)
qed

lemma chain_meets_parent: "chain_meets (block_parent c) x \<longleftrightarrow> strict_prefix x c"
  by (cases c rule: rev_cases) (auto simp: block_parent_def chain_meets_Some chain_meets.simps [of None] strict_prefix_def)

lemma jumpsIntoBlock_prefix: "jumpsIntoBlock source target \<longleftrightarrow> \<not> prefix target source"
  by (auto simp: jumpsIntoBlock_def chain_meets_parent strict_prefix_def dest: prefix_order.antisym)

lemma blockDepth_length: "blockDepth (Some b) = Suc (length b)"
proof (induction b rule: rev_induct)
  case Nil
  show ?case by (simp add: blockDepth.simps block_parent_def)
next
  case (snoc y b)
  then show ?case by (subst blockDepth.simps) (simp add: block_parent_def)
qed

lemma butlast_power: "(butlast ^^ k) b = take (length b - k) b"
  by (induction k) (simp_all add: butlast_take)

lemma meet_blocks_same: "meet_blocks b b = b"
  by (subst meet_blocks.simps) simp

lemma common_block_prefix: "prefix target source \<Longrightarrow> common_block source target = target"
  by (auto simp: common_block_def blockDepth_length climb_to_def butlast_power meet_blocks_same prefix_def)

lemma child_below_prefix:
  "strict_prefix a b \<Longrightarrow> child_below b a = Some (take (Suc (length a)) b)"
proof (induction b rule: rev_induct)
  case (snoc y b)
  show ?case
  proof (cases "b = a")
    case True
    then show ?thesis by (subst child_below.simps) (simp add: block_parent_def)
  next
    case False
    then have "strict_prefix a b" using snoc.prems by (auto simp: strict_prefix_def)
    moreover from this have "Suc (length a) \<le> length b" by (auto dest: prefix_length_less simp: Suc_le_eq)
    ultimately show ?thesis using snoc.IH False by (subst child_below.simps) (simp add: block_parent_def)
  qed
qed simp

lemma stmts_at_snoc:
  "stmts_at ss (b @ [(i, k)]) =
     (let t = stmts_at ss b in if i < length t \<and> k < length (opened (t ! i)) then opened (t ! i) ! k else [])"
  by (induction ss b rule: stmts_at.induct) (auto simp: Let_def)

section \<open>The walk visits every statement\<close>

text \<open>A statement and those it labels.\<close>

fun label_chain :: "Node \<Rightarrow> Node list" where
  "label_chain (LabeledStmtNode l s) = LabeledStmtNode l s # label_chain s"
| "label_chain s = [s]"

definition occurs :: "Node list \<Rightarrow> block \<Rightarrow> nat \<Rightarrow> Node \<Rightarrow> bool" where
  "occurs body b i s \<longleftrightarrow> i < length (stmts_at body b) \<and> s \<in> set (label_chain (stmts_at body b ! i))"

definition declares :: "Node \<Rightarrow> Identifier \<Rightarrow> bool" where
  "declares s l = (case s of LabeledStmtNode l' _ \<Rightarrow> l' = l | ForStmt n \<Rightarrow> ForLabel n = Some l | _ \<Rightarrow> False)"

definition extends :: "labelChecker \<Rightarrow> labelChecker \<Rightarrow> bool" where
  "extends lc lc' \<longleftrightarrow> prefix (labelAll lc) (labelAll lc') \<and> prefix (labelGotos lc) (labelGotos lc') \<and>
     prefix (labelBreaks lc) (labelBreaks lc')"

lemma extends_refl [simp]: "extends lc lc"
  by (simp add: extends_def)

lemma extends_trans: "extends a b \<Longrightarrow> extends b c \<Longrightarrow> extends a c"
  by (auto simp: extends_def intro: prefix_order.trans)

lemma declareLabel_extends: "declareLabel b i l isFor lc = Inr lc' \<Longrightarrow> extends lc lc'"
  by (auto simp: declareLabel_def extends_def split: option.splits if_splits)

lemma add_break_extends: "extends lc (add_break l lc)"
  by (auto simp: add_break_def extends_def split: option.splits)

lemmas walk_simps = walkBlock.simps walkStmt.simps walk_opened.simps

declare walk_simps [simp del]

lemma walk_extends:
  "walkBlock b i ss lc = Inr lc' \<Longrightarrow> extends lc lc'"
  "walkStmt b i s lc = Inr lc' \<Longrightarrow> extends lc lc'"
  "walk_opened b i k bs lc = Inr lc' \<Longrightarrow> extends lc lc'"
proof (induction b i ss lc and b i s lc and b i k bs lc arbitrary: lc' and lc' and lc'
    rule: walkBlock_walkStmt_walk_opened.induct)
  case (1 b i ss lc)
  show ?case
    using 1(1,2) 1(3) [unfolded walkBlock.simps [of b i ss lc]]
    by (auto simp: and_then_Inr split: list.splits) (blast intro: extends_trans)
next
  case (2 b i s lc)
  have "extends lc (lc\<lparr>labelGotos := labelGotos lc @ gs\<rparr>)" for gs by (simp add: extends_def)
  then show ?case
    using 2(1-14) 2(15) [unfolded walkStmt.simps [of b i s lc]]
    by (cases s)
      (auto simp: and_then_Inr simp del: opened.simps intro: extends_trans [OF declareLabel_extends] add_break_extends)
next
  case (3 b i k bs lc)
  show ?case
    using 3(1,2) 3(3) [unfolded walk_opened.simps [of b i k bs lc]]
    by (auto simp: and_then_Inr split: list.splits) (blast intro: extends_trans)
qed

text \<open>A block of the body is walked, and what is collected there is still there at the end.\<close>

definition walked :: "labelChecker \<Rightarrow> block \<Rightarrow> nat \<Rightarrow> Node \<Rightarrow> bool" where
  "walked final b i s \<longleftrightarrow> (\<exists>lc lc'. walkStmt b i s lc = Inr lc' \<and> extends lc' final)"

lemma walkBlock_walked:
  "walkBlock b i ss lc = Inr lc' \<Longrightarrow> extends lc' final \<Longrightarrow> j < length ss \<Longrightarrow> walked final b (i + j) (ss ! j)"
proof (induction ss arbitrary: i j lc)
  case (Cons s ss)
  obtain lc1 where s: "walkStmt b i s lc = Inr lc1" "walkBlock b (Suc i) ss lc1 = Inr lc'"
    using Cons.prems(1) [unfolded walkBlock.simps [of b i "s # ss" lc]] by (auto simp: and_then_Inr)
  show ?case
  proof (cases j)
    case 0
    then show ?thesis
      unfolding walked_def using s(1) extends_trans [OF walk_extends(1) [OF s(2)] Cons.prems(2)] by auto
  next
    case (Suc j')
    then show ?thesis using Cons.IH [OF s(2), of j'] Cons.prems by simp
  qed
qed simp

lemma walk_opened_walks:
  "walk_opened b i k bs lc = Inr lc' \<Longrightarrow> extends lc' final \<Longrightarrow> m < length bs \<Longrightarrow>
   \<exists>lc1 lc2. walkBlock (b @ [(i, k + m)]) 0 (bs ! m) lc1 = Inr lc2 \<and> extends lc2 final"
proof (induction bs arbitrary: k m lc)
  case (Cons ss bs)
  obtain lc1 where s: "walkBlock (b @ [(i, k)]) 0 ss lc = Inr lc1" "walk_opened b i (Suc k) bs lc1 = Inr lc'"
    using Cons.prems(1) [unfolded walk_opened.simps [of b i k "ss # bs" lc]] by (auto simp: and_then_Inr)
  show ?case
  proof (cases m)
    case 0
    then show ?thesis using s(1) extends_trans [OF walk_extends(3) [OF s(2)] Cons.prems(2)] by auto
  next
    case (Suc m')
    then show ?thesis using Cons.IH [OF s(2), of m'] Cons.prems by simp
  qed
qed simp

lemma walked_label: "walked final b i (LabeledStmtNode l s) \<Longrightarrow> walked final b i s"
  by (auto simp: walked_def walkStmt.simps [of b i "LabeledStmtNode l s"] and_then_Inr)

lemma walked_chain: "walked final b i t \<Longrightarrow> s \<in> set (label_chain t) \<Longrightarrow> walked final b i s"
  by (induction t rule: label_chain.induct) (auto dest: walked_label)

lemma walked_opened:
  "walked final b i s \<Longrightarrow> k < length (opened s) \<Longrightarrow>
   \<exists>lc1 lc2. walkBlock (b @ [(i, k)]) 0 (opened s ! k) lc1 = Inr lc2 \<and> extends lc2 final"
proof (induction s rule: label_chain.induct)
  case (1 l s)
  then show ?case using walked_label by simp
qed ((auto simp: walked_def walkStmt.simps and_then_Inr dest!: walk_opened_walks simp del: opened.simps(2-6)); blast)+

lemma block_walked:
  assumes "walkBlock [] 0 body lc = Inr final" "stmts_at body b \<noteq> []"
  shows "\<exists>lc1 lc2. walkBlock b 0 (stmts_at body b) lc1 = Inr lc2 \<and> extends lc2 final"
  using assms(2)
proof (induction b rule: rev_induct)
  case Nil
  then show ?case using assms(1) extends_refl stmts_at.simps(1) by metis
next
  case (snoc x b)
  obtain i k where x: "x = (i, k)" by (cases x)
  let ?t = "stmts_at body b"
  have i: "i < length ?t" "k < length (opened (?t ! i))" "stmts_at body (b @ [x]) = opened (?t ! i) ! k"
    using snoc.prems x by (auto simp: stmts_at_snoc Let_def split: if_splits)
  then have "?t \<noteq> []" by auto
  then obtain lc1 lc2 where "walkBlock b 0 ?t lc1 = Inr lc2" "extends lc2 final" using snoc.IH by auto
  then have "walked final b i (?t ! i)" using walkBlock_walked [of b 0 ?t lc1 lc2 final i] i by simp
  then show ?case using walked_opened i x by simp
qed

lemma occurs_walked:
  assumes "walkBlock [] 0 body lc = Inr final" "occurs body b i s"
  shows "walked final b i s"
proof -
  have i: "i < length (stmts_at body b)" "s \<in> set (label_chain (stmts_at body b ! i))" using assms(2) by (auto simp: occurs_def)
  then have "stmts_at body b \<noteq> []" by auto
  from block_walked [OF assms(1) this] i(1) have "walked final b i (stmts_at body b ! i)"
    using walkBlock_walked [of b 0] by fastforce
  then show ?thesis using i(2) by (rule walked_chain)
qed

section \<open>What the walk collects\<close>

lemma walked_goto:
  "walked final b i (GotoNode l) \<Longrightarrow> \<lparr>gotoName = l, gotoBlock = b, gotoIndex = i\<rparr> \<in> set (labelGotos final)"
  by (auto simp: walked_def walkStmt.simps extends_def prefix_def)

lemma declareLabel_adds:
  "declareLabel b i (Some l) isFor lc = Inr lc' \<Longrightarrow> extends lc' final \<Longrightarrow>
   \<exists>obj\<in>set (labelAll final). labelName obj = l \<and> labelBlock obj = b \<and> labelIndex obj = i"
  by (auto simp: declareLabel_def extends_def prefix_def split: if_splits)

lemma walked_declares:
  assumes "walked final b i s" "declares s l"
  shows "\<exists>obj\<in>set (labelAll final). labelName obj = l \<and> labelBlock obj = b \<and> labelIndex obj = i"
proof -
  obtain lc lc' where w: "walkStmt b i s lc = Inr lc'" "extends lc' final" using assms(1) by (auto simp: walked_def)
  obtain isFor lc1 where "declareLabel b i (Some l) isFor lc = Inr lc1" "extends lc1 lc'"
    using w(1) [unfolded walkStmt.simps [of b i s lc]] assms(2) by (cases s)
      (auto simp: declares_def and_then_Inr simp del: opened.simps dest: walk_extends)
  then show ?thesis using declareLabel_adds extends_trans w(2) by blast
qed

text \<open>Every label collected stands where it says, and no two have the same name.\<close>

definition recorded :: "Node list \<Rightarrow> labelChecker \<Rightarrow> bool" where
  "recorded body lc \<longleftrightarrow> distinct (map labelName (labelAll lc)) \<and>
     (\<forall>obj\<in>set (labelAll lc). \<exists>s. occurs body (labelBlock obj) (labelIndex obj) s \<and> declares s (labelName obj))"

lemma find_label_None: "find_label objs l = None \<longleftrightarrow> l \<notin> labelName ` set objs"
  by (auto simp: find_label_def find_None_iff)

lemma recorded_declare:
  "recorded body lc \<Longrightarrow> declareLabel b i label isFor lc = Inr lc' \<Longrightarrow>
   (\<And>l. label = Some l \<Longrightarrow> \<exists>s. occurs body b i s \<and> declares s l) \<Longrightarrow> recorded body lc'"
  by (auto simp: recorded_def declareLabel_def find_label_None split: option.splits if_splits) blast?

lemma recorded_other:
  "recorded body lc \<Longrightarrow> recorded body (add_break l lc)" "recorded body lc \<Longrightarrow> recorded body (lc\<lparr>labelGotos := gs\<rparr>)"
  by (auto simp: recorded_def add_break_def split: option.splits)

lemma label_chain_opened: "s \<in> set (label_chain t) \<Longrightarrow> opened s = opened t"
  by (induction t rule: label_chain.induct) auto

lemma label_chain_self [simp]: "s \<in> set (label_chain s)"
  by (cases s) auto

lemma label_chain_inner: "LabeledStmtNode l s \<in> set (label_chain t) \<Longrightarrow> s \<in> set (label_chain t)"
  by (induction t rule: label_chain.induct) auto

lemma drop_eq_Cons: "drop i xs = y # ys \<Longrightarrow> i < length xs \<and> xs ! i = y \<and> drop (Suc i) xs = ys"
  by (cases "i < length xs") (auto simp: Cons_nth_drop_Suc [symmetric])

lemma walk_recorded:
  "walkBlock b i ss lc = Inr lc' \<Longrightarrow> drop i (stmts_at body b) = ss \<Longrightarrow> recorded body lc \<Longrightarrow> recorded body lc'"
  "walkStmt b i s lc = Inr lc' \<Longrightarrow> occurs body b i s \<Longrightarrow> recorded body lc \<Longrightarrow> recorded body lc'"
  "walk_opened b i k bs lc = Inr lc' \<Longrightarrow> i < length (stmts_at body b) \<Longrightarrow>
     drop k (opened (stmts_at body b ! i)) = bs \<Longrightarrow> recorded body lc \<Longrightarrow> recorded body lc'"
proof (induction b i ss lc and b i s lc and b i k bs lc arbitrary: lc' and lc' and lc'
    rule: walkBlock_walkStmt_walk_opened.induct)
  case (1 b i ss lc)
  show ?case
  proof (cases ss)
    case (Cons s rest)
    then have i: "i < length (stmts_at body b)" "stmts_at body b ! i = s" "drop (Suc i) (stmts_at body b) = rest"
      using 1(4) by (auto dest: drop_eq_Cons)
    then show ?thesis
      using 1(1) [OF Cons] 1(2) [OF Cons] 1(3) [unfolded walkBlock.simps [of b i ss lc]] 1(5) Cons
      by (auto simp: and_then_Inr occurs_def)
  qed (use 1 in \<open>simp add: walkBlock.simps\<close>)
next
  case (2 b i s lc)
  have o: "i < length (stmts_at body b)" "drop 0 (opened (stmts_at body b ! i)) = opened s"
    using 2(16) label_chain_opened by (auto simp: occurs_def)
  have inner: "occurs body b i s'" if "s = LabeledStmtNode l s'" for l s'
    using 2(16) that label_chain_inner by (auto simp: occurs_def)
  have declared: "recorded body lc1" if "declareLabel b i label isFor lc = Inr lc1" "\<And>l. label = Some l \<Longrightarrow> declares s l"
    for label isFor lc1 using recorded_declare [OF 2(17) that(1)] that(2) 2(16) by blast
  have labeled: "recorded body lc1" if "s = LabeledStmtNode l s'" "declareLabel b i (Some l) isFor lc = Inr lc1" for l s' isFor lc1
    using declared [OF that(2)] that(1) by (simp add: declares_def)
  have loop: "recorded body lc1" if "s = ForStmt n" "declareLabel b i (ForLabel n) isFor lc = Inr lc1" for n isFor lc1
    using declared [OF that(2)] that(1) by (simp add: declares_def)
  show ?case
    using 2(1-14) 2(15) [unfolded walkStmt.simps [of b i s lc]] 2(17) o
    by (cases s) (auto simp: and_then_Inr recorded_other inner simp del: opened.simps dest: labeled loop)
next
  case (3 b i k bs lc)
  show ?case
  proof (cases bs)
    case (Cons ss rest)
    then have k: "k < length (opened (stmts_at body b ! i))" "opened (stmts_at body b ! i) ! k = ss"
        "drop (Suc k) (opened (stmts_at body b ! i)) = rest"
      using 3(5) by (auto dest: drop_eq_Cons)
    then have "stmts_at body (b @ [(i, k)]) = ss" using 3(4) by (simp add: stmts_at_snoc Let_def)
    then show ?thesis
      using 3(1) [OF Cons] 3(2) [OF Cons] 3(3) [unfolded walk_opened.simps [of b i k bs lc]] 3(4,6) Cons k
      by (auto simp: and_then_Inr)
  qed (use 3 in \<open>simp add: walk_opened.simps\<close>)
qed

section \<open>Resolution\<close>

lemma find_label_mark_used:
  "find_label (mark_used m objs) l =
   map_option (\<lambda>obj. if labelName obj = m then obj\<lparr>labelUsed := True\<rparr> else obj) (find_label objs l)"
  by (induction objs) (auto simp: find_label_def mark_used_def)

text \<open>What \<open>checkGotoOverDecl\<close> and \<open>jumpsIntoBlock\<close> read of a label does not change when it is marked as used.\<close>

lemma checkGotoOverDecl_used: "checkGotoOverDecl body g (obj\<lparr>labelUsed := True\<rparr>) = checkGotoOverDecl body g obj"
  by (simp add: checkGotoOverDecl_def)

lemma resolve_gotos_ok:
  "resolve_gotos body gs objs = Inr objs' \<Longrightarrow> g \<in> set gs \<Longrightarrow>
   \<exists>obj. find_label objs (gotoName g) = Some obj \<and> \<not> jumpsIntoBlock (gotoBlock g) (labelBlock obj) \<and>
         checkGotoOverDecl body g obj = Inr ()"
proof (induction gs arbitrary: objs)
  case (Cons h gs)
  show ?case
  proof (cases "g = h")
    case True
    then show ?thesis using Cons.prems by (auto simp: and_then_Inr split: option.splits if_splits)
  next
    case False
    then have "resolve_gotos body gs (mark_used (gotoName h) objs) = Inr objs'" "g \<in> set gs"
      using Cons.prems by (auto simp: and_then_Inr split: option.splits if_splits)
    then show ?thesis
      using Cons.IH [of "mark_used (gotoName h) objs"]
      by (fastforce simp: find_label_mark_used checkGotoOverDecl_used split: if_splits)
  qed
qed simp

lemma find_label_Some: "find_label objs l = Some obj \<Longrightarrow> obj \<in> set objs \<and> labelName obj = l"
  by (auto simp: find_label_def find_Some_iff)

lemma distinct_label:
  "distinct (map labelName objs) \<Longrightarrow> a \<in> set objs \<Longrightarrow> b \<in> set objs \<Longrightarrow> labelName a = labelName b \<Longrightarrow> a = b"
  by (auto simp: distinct_map inj_on_def)

section \<open>Skipped declarations\<close>

text \<open>The statement of the target block in which a goto stands, and whether it is an ensure statement.\<close>

definition goto_position :: "block \<Rightarrow> nat \<Rightarrow> block \<Rightarrow> nat" where
  "goto_position b i target = (if b = target then i else fst (b ! length target))"

fun is_ensure :: "Node \<Rightarrow> bool" where
  "is_ensure (LabeledStmtNode l s) = is_ensure s"
| "is_ensure (EnsureStmt e) = True"
| "is_ensure s = False"

lemma searched_opened: "\<not> is_ensure s \<Longrightarrow> searched s = opened s"
  by (induction s rule: is_ensure.induct) auto

lemma enclosing_step:
  assumes "stmts_at body b \<noteq> []" "strict_prefix target b"
  shows "\<exists>g k. take (Suc (length target)) b = target @ [(g, k)] \<and> b ! length target = (g, k) \<and>
    g < length (stmts_at body target) \<and> k < length (opened (stmts_at body target ! g))"
proof -
  obtain zs where zs: "b = target @ zs" "zs \<noteq> []" using assms(2) by (auto simp: strict_prefix_def prefix_def)
  then obtain g k rest where b: "b = target @ (g, k) # rest" by (cases zs) auto
  have "stmts_at body (target @ (g, k) # rest) = stmts_at (stmts_at body target) ((g, k) # rest)" for body
    by (induction body target rule: stmts_at.induct) auto
  then show ?thesis using assms(1) b by (auto split: if_splits)
qed

lemma find_index:
  assumes "g < n" "P g" "\<And>i. P i \<Longrightarrow> i = g"
  shows "find P [0..<n] = Some g"
proof -
  have "\<not> P i" if "i < g" for i using assms(3) that by blast
  then show ?thesis unfolding find_Some_iff using assms(1,2) by (intro exI [of _ g]) simp
qed

lemma goto_index:
  assumes "stmts_at body b \<noteq> []" "prefix target b"
    and "b = target \<or> \<not> is_ensure (stmts_at body target ! goto_position b i target)"
  shows "indexInAncestor body b i target = Some (goto_position b i target)"
proof (cases "b = target")
  case False
  then have strict: "strict_prefix target b" using assms(2) by (simp add: strict_prefix_def)
  obtain g k where g: "take (Suc (length target)) b = target @ [(g, k)]" "b ! length target = (g, k)"
    "g < length (stmts_at body target)" "k < length (opened (stmts_at body target ! g))"
    using enclosing_step [OF assms(1) strict] by auto
  then have "k < length (searched (stmts_at body target ! g))"
    using assms(3) False searched_opened by (simp add: goto_position_def)
  then have "find (\<lambda>i. statementContainsBlock target i (stmts_at body target ! i) (target @ [(g, k)])) [0..<length (stmts_at body target)] = Some g"
    using g(3) by (intro find_index) (auto simp: statementContainsBlock_def)
  then show ?thesis
    using False g child_below_prefix [OF strict] by (simp add: indexInAncestor_def goto_position_def)
qed (simp add: indexInAncestor_def goto_position_def)


section \<open>Samples\<close>

definition short_declaration :: "Identifier \<Rightarrow> Node" where
  "short_declaration x = AssignStmt \<lparr>LValues = [VariableNode x (TypeNode [] None [] [] None [] [])], RValues = [Some NilLiteralNode],
     ExplicitTypes = [], IsShort = True, CompoundOp = None, IsPackageLevel = False\<rparr>"

definition ensure_else_block :: "Node list \<Rightarrow> Node" where
  "ensure_else_block body =
     EnsureStmt (EnsureNode ''x'' None None (AssertionNode None [] [] [] None) EnsureImplicitBare None (Some body))"

definition if_block :: "Node list \<Rightarrow> Node" where
  "if_block body = IfStmt (IfNode (ExprStmt (BoolLiteralNode True (TypeNode [] None [] [] None [] []))) body [] None None)"

definition cleanup :: "Node list" where
  "cleanup = [if_block [GotoNode ''done''], ExprStmt NilLiteralNode, LabeledStmtNode ''done'' (ReturnNode [] (TypeNode [] None [] [] None [] []))]"


text \<open>
  The block of an ensure statement is not found among the blocks of its statement, so a goto in it may skip a
  declaration that a goto in an if statement at the same place may not.
\<close>

theorem ensure_goto_unchecked:
  "(\<exists>objs. checkFunctionLabels [ensure_else_block [GotoNode ''L''], short_declaration ''y'', LabeledStmtNode ''L'' FallthroughNode] = Inr objs) \<and>
   checkFunctionLabels [if_block [GotoNode ''L''], short_declaration ''y'', LabeledStmtNode ''L'' FallthroughNode] =
     Inl (JumpsOverDeclaration ''L'' ''y'')"
proof
  have "checkFunctionLabels [ensure_else_block [GotoNode ''L''], short_declaration ''y'', LabeledStmtNode ''L'' FallthroughNode] =
    Inr [\<lparr>labelName = ''L'', labelUsed = True, labelBlock = [], labelIndex = 2, labelIsFor = False\<rparr>]" by code_simp
  then show "\<exists>objs. checkFunctionLabels [ensure_else_block [GotoNode ''L''], short_declaration ''y'',
    LabeledStmtNode ''L'' FallthroughNode] = Inr objs" by blast
qed code_simp

text \<open>A goto to a labelled declaration is refused as if it skipped that declaration.\<close>

theorem labelled_declaration_refused:
  "checkFunctionLabels [GotoNode ''L'', LabeledStmtNode ''L'' (short_declaration ''y'')] = Inl (JumpsOverDeclaration ''L'' ''y'')"
  by code_simp

end
