(* ===== verification/Compat.thy ===== *)
theory Compat
  imports LiteralUnion
begin

text \<open>
  \<open>internal/typechecker\<close>: assignability of types. \<open>IsTypeCompatible\<close> with its memo (\<open>compat_memo.go\<close>), the rules in the order
  they are tried (\<open>go_builtins_compat.go\<close>), function types (\<open>infer_funclit.go\<close>), structural comparison of shapes
  (\<open>infer_shape.go\<close>), method contracts (\<open>receiver_methods.go\<close>) and types of sibling packages (\<open>go_builtins.go\<close>,
  \<open>providers_engine.go\<close>). The memo is passed along; the depth of the recursion is fuel, and \<open>None\<close> means it did not
  suffice. The iteration over a Go map follows the list of its entries.
\<close>

section \<open>State\<close>

type_synonym compatKey = "go_string \<times> go_string"
type_synonym compat_memo = "compatKey \<rightharpoonup> bool"
type_synonym 'a compat = "compat_memo \<Rightarrow> ('a \<times> compat_memo) option"
type_synonym compatible = "TypeNode \<Rightarrow> TypeNode \<Rightarrow> bool compat"

text \<open>
  What the rules read besides the type definitions: whether a name is defined at all, the expected shapes, the methods of
  types with the types of their parameters and results, the definitions of sibling packages, and the type inferred for the
  assertion of a field.
\<close>

record compat_env = TypeChecker +
  anyDef :: "TypeIdent \<Rightarrow> bool"
  shapeExpectations :: "TypeIdent \<rightharpoonup> ShapeNode"
  TypeMethods :: "TypeIdent \<Rightarrow> go_string \<Rightarrow> (TypeNode list \<times> TypeNode list) option"
  siblingTypeDef :: "TypeIdent \<rightharpoonup> TypeDefExpr"
  assertionType :: "AssertionNode \<Rightarrow> go_string \<Rightarrow> TypeNode option"

definition cret :: "'a \<Rightarrow> 'a compat" where
  "cret x m = Some (x, m)"

definition cbind :: "'a compat \<Rightarrow> ('a \<Rightarrow> 'b compat) \<Rightarrow> 'b compat" where
  "cbind p f m = (case p m of None \<Rightarrow> None | Some (x, m') \<Rightarrow> f x m')"

text \<open>\<open>&&\<close> and \<open>||\<close>, which do not evaluate their right operand when the left one decides.\<close>

definition cand :: "bool compat \<Rightarrow> bool compat \<Rightarrow> bool compat" where
  "cand p q = cbind p (\<lambda>b. if b then q else cret False)"

definition cor :: "bool compat \<Rightarrow> bool compat \<Rightarrow> bool compat" where
  "cor p q = cbind p (\<lambda>b. if b then cret True else q)"

definition all_compat :: "bool compat list \<Rightarrow> bool compat" where
  "all_compat ps = foldr cand ps (cret True)"

definition any_compat :: "bool compat list \<Rightarrow> bool compat" where
  "any_compat ps = foldr cor ps (cret False)"

section \<open>Keys of the memo (compat\_memo.go)\<close>

definition assertion_key :: "AssertionNode option \<Rightarrow> go_string" where
  "assertion_key asrt =
     (case asrt of
        None \<Rightarrow> []
      | Some a \<Rightarrow>
        (case BaseType a of Some b \<Rightarrow> ''@'' @ b | None \<Rightarrow> []) @
        (case literalValueFromAssertion asrt of
           Some v \<Rightarrow> ''='' @ Expression_String v
         | None \<Rightarrow> if Constraints a \<noteq> [] then ''#'' @ Assertion_String a else []))"

primrec typeNodeCompatKey :: "TypeNode \<Rightarrow> go_string" where
  "typeNodeCompatKey (TypeNode ident asrt params kind arrayLen fps frs) =
     ident @ '':'' @ kind @ assertion_key asrt @ concat (map (\<lambda>k. ''['' @ k @ '']'') (map typeNodeCompatKey params)) @
     (case arrayLen of Some n \<Rightarrow> ''#len='' @ dec_int n | None \<Rightarrow> [])"

definition compatKeyFor :: "TypeNode \<Rightarrow> TypeNode \<Rightarrow> compatKey" where
  "compatKeyFor actual expected = (typeNodeCompatKey actual, typeNodeCompatKey expected)"

section \<open>Idents\<close>

definition isIntFamilyIdent :: "TypeIdent \<Rightarrow> bool" where
  "isIntFamilyIdent x \<longleftrightarrow> x \<in> {TypeInt, ''byte'', ''rune''}"

definition isScalarTypeIdent :: "TypeIdent \<Rightarrow> bool" where
  "isScalarTypeIdent x \<longleftrightarrow> x \<in> {TypeString, TypeInt, TypeFloat, TypeBool, ''byte'', ''rune''}"

definition arrayLengthsCompatible :: "TypeNode \<Rightarrow> TypeNode \<Rightarrow> bool" where
  "arrayLengthsCompatible a b =
     (case (ArrayLen a, ArrayLen b) of
        (None, None) \<Rightarrow> True
      | (Some n, Some k) \<Rightarrow> n = k
      | _ \<Rightarrow> False)"

definition bare_type :: "TypeIdent \<Rightarrow> TypeNode" where
  "bare_type ident = TypeNode ident None [] [] None [] []"

definition parseForstSiblingTypeRef :: "TypeIdent \<Rightarrow> (go_string \<times> go_string) option" where
  "parseForstSiblingTypeRef name =
     (let i = length (takeWhile (\<lambda>ch. ch \<noteq> CHR ''.'') name)
      in if i = 0 \<or> i + 1 \<ge> length name \<or> CHR ''.'' \<in> set (drop (i + 1) name) then None
         else Some (take i name, drop (i + 1) name))"

section \<open>Shapes and methods\<close>

definition either_way :: "compatible \<Rightarrow> TypeNode \<Rightarrow> TypeNode \<Rightarrow> bool compat" where
  "either_way rec a b = cor (rec a b) (rec b a)"

definition both_ways :: "compatible \<Rightarrow> TypeNode \<Rightarrow> TypeNode \<Rightarrow> bool compat" where
  "both_ways rec a b = cand (rec a b) (rec b a)"

definition simple_param :: "ParamNode \<Rightarrow> TypeNode option" where
  "simple_param p = (case p of SimpleParamNode _ ty _ \<Rightarrow> Some ty | DestructuredParamNode _ _ \<Rightarrow> None)"

text \<open>Two parameters of a function or method, compared with \<open>test\<close>; a destructured parameter never matches.\<close>

definition param_test :: "(TypeNode \<Rightarrow> TypeNode \<Rightarrow> bool compat) \<Rightarrow> ParamNode \<Rightarrow> ParamNode \<Rightarrow> bool compat" where
  "param_test test p q =
     (case (simple_param p, simple_param q) of
        (Some a, Some b) \<Rightarrow> test a b
      | _ \<Rightarrow> cret False)"

definition methods_match :: "compatible \<Rightarrow> ShapeFieldNode \<Rightarrow> ShapeFieldNode \<Rightarrow> bool compat" where
  "methods_match rec f g =
     (if length (MethodParams f) \<noteq> length (MethodParams g) then cret False
      else cand (all_compat (map2 (param_test (either_way rec)) (MethodParams f) (MethodParams g)))
        (if length (MethodReturnTypes f) \<noteq> length (MethodReturnTypes g) then cret False
         else all_compat (map2 (either_way rec) (MethodReturnTypes f) (MethodReturnTypes g))))"

definition field_type :: "compat_env \<Rightarrow> go_string \<Rightarrow> ShapeFieldNode \<Rightarrow> TypeNode option" where
  "field_type E name f =
     (case FType f of
        Some t \<Rightarrow> Some t
      | None \<Rightarrow> (case FAssertion f of Some a \<Rightarrow> assertionType E a name | None \<Rightarrow> None))"

definition field_types_match :: "compat_env \<Rightarrow> compatible \<Rightarrow> go_string \<Rightarrow> ShapeFieldNode \<Rightarrow> ShapeFieldNode \<Rightarrow> bool compat" where
  "field_types_match E rec name f g =
     (case (field_type E name f, field_type E name g) of
        (Some a, Some b) \<Rightarrow> cbind (rec a b) (\<lambda>ok. cret (TIdent a = TIdent b \<or> ok))
      | (None, None) \<Rightarrow> cret True
      | _ \<Rightarrow> cret False)"

fun shapesHaveSameStructure :: "compat_env \<Rightarrow> compatible \<Rightarrow> ShapeNode \<Rightarrow> ShapeNode \<Rightarrow> bool compat"
  and fields_match :: "compat_env \<Rightarrow> compatible \<Rightarrow> (go_string \<times> ShapeFieldNode) list \<Rightarrow> (go_string \<times> ShapeFieldNode) list \<Rightarrow> bool compat"
  and nested_match :: "compat_env \<Rightarrow> compatible \<Rightarrow> ShapeNode option \<Rightarrow> ShapeNode option \<Rightarrow> bool compat" where
  "shapesHaveSameStructure E rec (ShapeNode fs order base) s2 =
     (if length fs \<noteq> length (Fields s2) then cret False else fields_match E rec fs (Fields s2))"
| "fields_match E rec [] gs = cret True"
| "fields_match E rec ((name, ShapeFieldNode nd a shp ty isM mps mrs emb tag exp) # fs) gs =
     (let f = ShapeFieldNode nd a shp ty isM mps mrs emb tag exp in
      case map_of gs name of
        None \<Rightarrow> cret False
      | Some g \<Rightarrow>
        if isM \<and> IsMethod g then cand (methods_match rec f g) (fields_match E rec fs gs)
        else if isM \<noteq> IsMethod g then cret False
        else cand (field_types_match E rec name f g) (cand (nested_match E rec shp (FShape g)) (fields_match E rec fs gs)))"
| "nested_match E rec (Some s) t =
     (case t of Some s' \<Rightarrow> shapesHaveSameStructure E rec s s' | None \<Rightarrow> cret True)"
| "nested_match E rec None t = cret True"

definition contract_method :: "compat_env \<Rightarrow> compatible \<Rightarrow> TypeIdent \<Rightarrow> go_string \<Rightarrow> ShapeFieldNode \<Rightarrow> bool compat" where
  "contract_method E rec typeIdent name f =
     (if \<not> IsMethod f then cret False
      else case TypeMethods E typeIdent name of
             None \<Rightarrow> cret False
           | Some (params, returns) \<Rightarrow>
             if length (MethodParams f) \<noteq> length params then cret False
             else cand (all_compat (map2 (\<lambda>p t. case simple_param p of Some a \<Rightarrow> either_way rec a t | None \<Rightarrow> cret False) (MethodParams f) params))
               (if length (MethodReturnTypes f) \<noteq> length returns then cret False
                else all_compat (map2 (either_way rec) returns (MethodReturnTypes f))))"

definition typeMethodsSatisfyContract :: "compat_env \<Rightarrow> compatible \<Rightarrow> TypeIdent \<Rightarrow> ShapeNode \<Rightarrow> bool compat" where
  "typeMethodsSatisfyContract E rec typeIdent contract =
     all_compat (map (\<lambda>(name, f). contract_method E rec typeIdent name f) (Fields contract))"

text \<open>\<open>getShapeFromTypeDef\<close> of the definition of a name.\<close>

definition shape_of :: "compat_env \<Rightarrow> TypeIdent \<Rightarrow> ShapeNode option" where
  "shape_of E x = (case Defs E x of Some e \<Rightarrow> PayloadShape e | None \<Rightarrow> None)"

definition shapeExpectationMatches :: "compat_env \<Rightarrow> compatible \<Rightarrow> TypeNode \<Rightarrow> TypeNode \<Rightarrow> bool compat" where
  "shapeExpectationMatches E rec actual expected =
     (if TIdent expected = [] then cret False
      else case (shapeExpectations E (TIdent expected), shape_of E (TIdent actual)) of
             (Some expShape, Some actualShape) \<Rightarrow> shapesHaveSameStructure E rec actualShape expShape
           | _ \<Rightarrow> cret False)"

definition siblingShapeTypeMatches :: "compat_env \<Rightarrow> compatible \<Rightarrow> TypeNode \<Rightarrow> TypeIdent \<Rightarrow> bool compat" where
  "siblingShapeTypeMatches E rec actual siblingType =
     (case (Option.bind (siblingTypeDef E siblingType) PayloadShape, shape_of E (TIdent actual)) of
        (Some expectedShape, Some actualShape) \<Rightarrow> shapesHaveSameStructure E rec actualShape expectedShape
      | _ \<Rightarrow> cret False)"

section \<open>Rules (go\_builtins\_compat.go)\<close>

definition checkFunctionTypeCompatible :: "compatible \<Rightarrow> TypeNode \<Rightarrow> TypeNode \<Rightarrow> bool compat" where
  "checkFunctionTypeCompatible rec actual expected =
     (if TIdent actual \<noteq> TypeFunc \<or> TIdent expected \<noteq> TypeFunc then cret False
      else if length (FuncParams actual) \<noteq> length (FuncParams expected) then cret False
      else cand (all_compat (map2 (param_test (both_ways rec)) (FuncParams actual) (FuncParams expected)))
        (if length (FuncReturns actual) \<noteq> length (FuncReturns expected) then cret False
         else all_compat (map2 (both_ways rec) (FuncReturns actual) (FuncReturns expected))))"

definition compatSameIdentResult :: "compatible \<Rightarrow> TypeNode \<Rightarrow> TypeNode \<Rightarrow> bool compat" where
  "compatSameIdentResult rec actual expected =
     (case (TypeParams actual, TypeParams expected) of
        ([s, f], [s', f']) \<Rightarrow> cand (rec s s') (rec f f')
      | _ \<Rightarrow> cret False)"

definition compatSameIdentTuple :: "compatible \<Rightarrow> TypeNode \<Rightarrow> TypeNode \<Rightarrow> bool compat" where
  "compatSameIdentTuple rec actual expected =
     (if length (TypeParams actual) \<noteq> length (TypeParams expected) then cret False
      else all_compat (map2 rec (TypeParams actual) (TypeParams expected)))"

definition compatSameIdentArray :: "compatible \<Rightarrow> TypeNode \<Rightarrow> TypeNode \<Rightarrow> bool compat" where
  "compatSameIdentArray rec actual expected =
     (case (TypeParams actual, TypeParams expected) of
        ([t], [t']) \<Rightarrow> if arrayLengthsCompatible actual expected then rec t t' else cret False
      | _ \<Rightarrow> cret False)"

text \<open>\<open>None\<close> when the rule does not handle the types.\<close>

definition compatSameIdentTypes :: "compatible \<Rightarrow> TypeNode \<Rightarrow> TypeNode \<Rightarrow> bool compat option" where
  "compatSameIdentTypes rec actual expected =
     (let x = TIdent actual in
      if x = TypeResult then Some (compatSameIdentResult rec actual expected)
      else if x = TypeTuple then Some (compatSameIdentTuple rec actual expected)
      else if x = TypeArray then Some (compatSameIdentArray rec actual expected)
      else if x = TypeUnion \<or> x = TypeIntersection then None
      else if x = TypeAssertion then Some (cret (assertionTypesCompatible (TAssertion actual) (TAssertion expected)))
      else if x = TypeFunc then Some (checkFunctionTypeCompatible rec actual expected)
      else Some (cret True))"

definition compatUnionIntersectionRules :: "compatible \<Rightarrow> TypeNode \<Rightarrow> TypeNode \<Rightarrow> bool compat" where
  "compatUnionIntersectionRules rec actual expected =
     (if TIdent actual = TypeUnion \<and> TypeParams actual \<noteq> [] then all_compat (map (\<lambda>t. rec t expected) (TypeParams actual))
      else if TIdent expected = TypeIntersection \<and> TypeParams expected \<noteq> [] then all_compat (map (rec actual) (TypeParams expected))
      else if TIdent actual = TypeIntersection \<and> TypeParams actual \<noteq> [] then all_compat (map (\<lambda>t. rec t expected) (TypeParams actual))
      else if TIdent expected = TypeUnion \<and> TypeParams expected \<noteq> [] then any_compat (map (rec actual) (TypeParams expected))
      else cret False)"

definition compatBuiltinAssignmentRules :: "compat_env \<Rightarrow> compatible \<Rightarrow> TypeNode \<Rightarrow> TypeNode \<Rightarrow> bool compat" where
  "compatBuiltinAssignmentRules E rec actual expected =
     (if TIdent expected = TypeError \<and> (case Defs E (TIdent actual) of Some (TypeDefErrorExpr _) \<Rightarrow> True | _ \<Rightarrow> False) then cret True
      else if TIdent expected = TypeObject \<and> TIdent actual \<noteq> TypeVoid then cret True
      else case TypeParams expected of
             [inner] \<Rightarrow>
               if TIdent expected = TypePointer \<and> \<not> isScalarTypeIdent (TIdent inner) then rec actual inner else cret False
           | _ \<Rightarrow> cret False)"

definition base_of :: "TypeNode \<Rightarrow> TypeIdent option" where
  "base_of t = Option.bind (TAssertion t) BaseType"

definition peel_actual :: "compatible \<Rightarrow> TypeNode \<Rightarrow> TypeNode \<Rightarrow> bool compat" where
  "peel_actual rec actual expected = (case base_of actual of Some b \<Rightarrow> rec (bare_type b) expected | None \<Rightarrow> cret False)"

definition peel_expected :: "compatible \<Rightarrow> TypeNode \<Rightarrow> TypeNode \<Rightarrow> bool compat" where
  "peel_expected rec actual expected = (case base_of expected of Some b \<Rightarrow> rec actual (bare_type b) | None \<Rightarrow> cret False)"

definition compatAssertionPeeling :: "compatible \<Rightarrow> TypeNode \<Rightarrow> TypeNode \<Rightarrow> bool compat" where
  "compatAssertionPeeling rec actual expected =
     any_compat [if TIdent actual = TypeAssertion then peel_actual rec actual expected else cret False,
           if TIdent expected = TypeAssertion then peel_expected rec actual expected else cret False,
           peel_actual rec actual expected, peel_expected rec actual expected]"

definition alias_of :: "compat_env \<Rightarrow> TypeIdent \<Rightarrow> TypeNode option" where
  "alias_of E x = (case Defs E x of Some (TypeDefAssertionExpr (Some a)) \<Rightarrow> ToTypeNode a | _ \<Rightarrow> None)"

definition compatTypeDefAlias :: "compat_env \<Rightarrow> compatible \<Rightarrow> TypeNode \<Rightarrow> TypeNode \<Rightarrow> bool compat" where
  "compatTypeDefAlias E rec actual expected =
     cor (case alias_of E (TIdent actual) of Some t \<Rightarrow> rec t expected | None \<Rightarrow> cret False)
         (case alias_of E (TIdent expected) of Some t \<Rightarrow> rec actual t | None \<Rightarrow> cret False)"

definition compatStructuralShapes :: "compat_env \<Rightarrow> compatible \<Rightarrow> TypeNode \<Rightarrow> TypeNode \<Rightarrow> bool compat" where
  "compatStructuralShapes E rec actual expected =
     cor (shapeExpectationMatches E rec actual expected)
       (if \<not> anyDef E (TIdent actual) \<or> \<not> anyDef E (TIdent expected) then cret False
        else case (shape_of E (TIdent actual), shape_of E (TIdent expected)) of
               (Some s, Some s') \<Rightarrow>
                 cor (shapesHaveSameStructure E rec s s')
                   (if IsMethodOnlyContract s' then typeMethodsSatisfyContract E rec (TIdent actual) s' else cret False)
             | (None, Some s') \<Rightarrow>
                 if IsMethodOnlyContract s' then typeMethodsSatisfyContract E rec (TIdent actual) s' else cret False
             | _ \<Rightarrow> cret False)"

definition sibling_match :: "compat_env \<Rightarrow> compatible \<Rightarrow> TypeNode \<Rightarrow> TypeIdent \<Rightarrow> bool compat" where
  "sibling_match E rec t x = (if parseForstSiblingTypeRef x \<noteq> None then siblingShapeTypeMatches E rec t x else cret False)"

definition compatSiblingTypeRefs :: "compat_env \<Rightarrow> compatible \<Rightarrow> TypeNode \<Rightarrow> TypeNode \<Rightarrow> bool compat" where
  "compatSiblingTypeRefs E rec actual expected =
     any_compat [sibling_match E rec actual (TIdent expected), sibling_match E rec expected (TIdent actual),
           case base_of expected of Some b \<Rightarrow> sibling_match E rec actual b | None \<Rightarrow> cret False]"

definition isTypeCompatibleImpl :: "compat_env \<Rightarrow> compatible \<Rightarrow> TypeNode \<Rightarrow> TypeNode \<Rightarrow> bool compat" where
  "isTypeCompatibleImpl E rec actual expected =
     (case (if TIdent actual = TIdent expected then compatSameIdentTypes rec actual expected else None) of
        Some handled \<Rightarrow> handled
      | None \<Rightarrow>
        any_compat [compatUnionIntersectionRules rec actual expected,
              cret (isIntFamilyIdent (TIdent actual) \<and> isIntFamilyIdent (TIdent expected)),
              compatBuiltinAssignmentRules E rec actual expected,
              compatAssertionPeeling rec actual expected,
              compatTypeDefAlias E rec actual expected,
              compatStructuralShapes E rec actual expected,
              compatSiblingTypeRefs E rec actual expected])"

text \<open>The expansion of a defined name at the entry of \<open>IsTypeCompatible\<close>.\<close>

definition expanded :: "compat_env \<Rightarrow> TypeNode \<Rightarrow> TypeNode" where
  "expanded E t = (case expandTypeDefBinaryIfNeeded (TypeChecker.truncate E) t of Some c \<Rightarrow> c | None \<Rightarrow> t)"

primrec isTypeCompatible :: "nat \<Rightarrow> compat_env \<Rightarrow> compatible" where
  "isTypeCompatible 0 E actual expected m = None"
| "isTypeCompatible (Suc n) E actual expected m =
     (let a = expanded E actual; e = expanded E expected; key = compatKeyFor a e
      in case m key of
           Some v \<Rightarrow> Some (v, m)
         | None \<Rightarrow> map_option (\<lambda>(v, m'). (v, m'(key \<mapsto> v))) (isTypeCompatibleImpl E (isTypeCompatible n E) a e m))"

end
