(* ===== verification/Compat_Props.thy ===== *)
theory Compat_Props
  imports Compat
begin

text \<open>
  What assignability decides: every well-formed type without unions is compatible with itself, and the cases in which
  incompatible types are accepted or the test does not end.
\<close>

section \<open>Combinators\<close>

lemma cand_Some: "cand p q m = (case p m of None \<Rightarrow> None | Some (b, m') \<Rightarrow> if b then q m' else Some (False, m'))"
  by (auto simp: cand_def cbind_def cret_def split: option.splits prod.splits)

lemma cor_Some: "cor p q m = (case p m of None \<Rightarrow> None | Some (b, m') \<Rightarrow> if b then Some (True, m') else q m')"
  by (auto simp: cor_def cbind_def cret_def split: option.splits prod.splits)

lemma all_compat_simps [simp]:
  "all_compat [] = cret True" "all_compat (p # ps) = cand p (all_compat ps)"
  "any_compat [] = cret False" "any_compat (p # ps) = cor p (any_compat ps)"
  by (simp_all add: all_compat_def any_compat_def)

section \<open>Environments without further knowledge\<close>

definition plain_env :: "(TypeIdent \<rightharpoonup> TypeDefExpr) \<Rightarrow> compat_env" where
  "plain_env defs = \<lparr>Defs = defs, IsTypeCompatible = \<lambda>_ _. False, HashShape = \<lambda>_. Inl [], anyDef = \<lambda>x. defs x \<noteq> None,
     shapeExpectations = Map.empty, TypeMethods = \<lambda>_ _. None, siblingTypeDef = Map.empty, assertionType = \<lambda>_ _. None\<rparr>"

lemma expanded_undefined: "Defs E (TIdent t) = None \<Longrightarrow> expanded E t = t"
  by (simp add: expanded_def expandTypeDefBinaryIfNeeded_def TypeChecker.truncate_def)

lemma plain_env_defs: "Defs (plain_env defs) = defs"
  by (simp add: plain_env_def)

lemma expanded_empty [simp]: "expanded (plain_env Map.empty) t = t"
  by (simp add: expanded_undefined plain_env_defs)

section \<open>Reflexivity\<close>

text \<open>A memo without a negative entry.\<close>

definition positive :: "compat_memo \<Rightarrow> bool" where
  "positive m \<longleftrightarrow> (\<forall>k. m k \<noteq> Some False)"

definition accepts :: "bool compat \<Rightarrow> bool" where
  "accepts p \<longleftrightarrow> (\<forall>m. positive m \<longrightarrow> (\<exists>m'. p m = Some (True, m') \<and> positive m'))"

lemma accepts_ret [simp]: "accepts (cret True)"
  by (simp add: accepts_def cret_def)

lemma accepts_cand: "accepts p \<Longrightarrow> accepts q \<Longrightarrow> accepts (cand p q)"
  by (fastforce simp: accepts_def cand_Some)

lemma accepts_all: "(\<And>p. p \<in> set ps \<Longrightarrow> accepts p) \<Longrightarrow> accepts (all_compat ps)"
  by (induction ps) (auto intro: accepts_cand)

text \<open>Types as the parser builds them, without unions and intersections, whose names are not expanded.\<close>

fun plain_types :: "compat_env \<Rightarrow> TypeNode \<Rightarrow> bool" where
  "plain_types E (TypeNode ident asrt params kind len fps frs) \<longleftrightarrow>
     ident \<noteq> TypeUnion \<and> ident \<noteq> TypeIntersection \<and> expanded E (TypeNode ident asrt params kind len fps frs) = TypeNode ident asrt params kind len fps frs \<and>
     (ident = TypeResult \<longrightarrow> length params = 2) \<and> (ident = TypeArray \<longrightarrow> length params = 1) \<and>
     (ident \<in> {TypeResult, TypeTuple, TypeArray} \<longrightarrow> list_all (plain_types E) params) \<and>
     (ident = TypeFunc \<longrightarrow>
        list_all (\<lambda>p. case p of SimpleParamNode x t v \<Rightarrow> plain_types E t | DestructuredParamNode fs t \<Rightarrow> False) fps \<and> list_all (plain_types E) frs)"

lemma literal_reflexive: "expressionLiteralValue e = Some v \<Longrightarrow> literalValuesEqual v v"
  by (cases e) (auto simp: expressionLiteralValue_def literalValuesEqual_def)

lemma assertion_reflexive: "assertionTypesCompatible a a"
proof (cases "literalValueFromAssertion a")
  case (Some v)
  then have "literalValuesEqual v v"
    by (auto simp: literalValueFromAssertion_def intro: literal_reflexive split: option.splits if_splits list.splits)
  then show ?thesis using Some by (cases a) (auto simp: assertionTypesCompatible_def)
qed (cases a, auto simp: assertionTypesCompatible_def)

lemma accepts_map2: "(\<And>x. x \<in> set xs \<Longrightarrow> accepts (f x x)) \<Longrightarrow> accepts (all_compat (map2 f xs xs))"
  by (induction xs) (auto intro: accepts_cand)

lemma accepts_param:
  assumes "list_all (\<lambda>p. case p of SimpleParamNode x t v \<Rightarrow> ok t | DestructuredParamNode fs t \<Rightarrow> False) ps" "p \<in> set ps"
    "\<And>t. ok t \<Longrightarrow> size t < size p \<Longrightarrow> accepts (test t t)"
  shows "accepts (param_test test p p)"
proof (cases p)
  case (SimpleParamNode x ty v)
  then have "ok ty" using assms(1,2) by (auto simp: list_all_iff dest: bspec)
  then show ?thesis using assms(3) SimpleParamNode by (simp add: param_test_def simple_param_def)
next
  case (DestructuredParamNode fs ty)
  then show ?thesis using assms(1,2) by (auto simp: list_all_iff dest: bspec)
qed

text \<open>What a plain type is made of.\<close>

lemma plain_facts:
  assumes "plain_types E (TypeNode ident asrt params kind len fps frs)"
  shows "ident \<noteq> TypeUnion" "ident \<noteq> TypeIntersection"
    "expanded E (TypeNode ident asrt params kind len fps frs) = TypeNode ident asrt params kind len fps frs"
    "ident = TypeResult \<Longrightarrow> length params = 2" "ident = TypeArray \<Longrightarrow> length params = 1"
    "ident \<in> {TypeResult, TypeTuple, TypeArray} \<Longrightarrow> x \<in> set params \<Longrightarrow> plain_types E x"
    "ident = TypeFunc \<Longrightarrow> list_all (\<lambda>p. case p of SimpleParamNode x t v \<Rightarrow> plain_types E t | DestructuredParamNode fs t \<Rightarrow> False) fps"
    "ident = TypeFunc \<Longrightarrow> y \<in> set frs \<Longrightarrow> plain_types E y"
proof -
  note p = assms [unfolded plain_types.simps list_all_iff]
  note p3 = p [THEN conjunct2, THEN conjunct2]
  note p5 = p3 [THEN conjunct2, THEN conjunct2]
  show "ident \<noteq> TypeUnion" by (rule p [THEN conjunct1])
  show "ident \<noteq> TypeIntersection" by (rule p [THEN conjunct2, THEN conjunct1])
  show "expanded E (TypeNode ident asrt params kind len fps frs) = TypeNode ident asrt params kind len fps frs"
    by (rule p3 [THEN conjunct1])
  show "length params = 2" if "ident = TypeResult" by (rule p3 [THEN conjunct2, THEN conjunct1, THEN mp, OF that])
  show "length params = 1" if "ident = TypeArray" by (rule p5 [THEN conjunct1, THEN mp, OF that])
  show "plain_types E x" if "ident \<in> {TypeResult, TypeTuple, TypeArray}" "x \<in> set params"
    by (rule bspec [OF p5 [THEN conjunct2, THEN conjunct1, THEN mp, OF that(1)] that(2)])
  note fn = p5 [THEN conjunct2, THEN conjunct2, THEN mp]
  show "list_all (\<lambda>p. case p of SimpleParamNode x t v \<Rightarrow> plain_types E t | DestructuredParamNode fs t \<Rightarrow> False) fps" if "ident = TypeFunc"
    unfolding list_all_iff by (rule fn [OF that, THEN conjunct1])
  show "plain_types E y" if "ident = TypeFunc" "y \<in> set frs" by (rule bspec [OF fn [OF that(1), THEN conjunct2] that(2)])
qed

declare plain_types.simps [simp del]

lemma same_function_accepted:
  assumes t: "plain_types E (TypeNode TypeFunc asrt params kind len fps frs)"
    and ok: "\<And>x. plain_types E x \<Longrightarrow> size x < size (TypeNode TypeFunc asrt params kind len fps frs) \<Longrightarrow> accepts (rec x x)"
  shows "accepts (checkFunctionTypeCompatible rec (TypeNode TypeFunc asrt params kind len fps frs) (TypeNode TypeFunc asrt params kind len fps frs))"
proof -
  let ?t = "TypeNode TypeFunc asrt params kind len fps frs"
  have both: "accepts (both_ways rec x x)" if "plain_types E x" "size x < size ?t" for x
    using ok [OF that] by (simp add: both_ways_def accepts_cand)
  have "accepts (param_test (both_ways rec) p p)" if p: "p \<in> set fps" for p
  proof (rule accepts_param [OF plain_facts(7) [OF t refl] p])
    fix x assume "plain_types E x" "size x < size p"
    moreover have "size p < size ?t" using p by (auto dest!: split_list)
    ultimately show "accepts (both_ways rec x x)" by (intro both) auto
  qed
  moreover have "accepts (both_ways rec y y)" if y: "y \<in> set frs" for y
    using y plain_facts(8) [OF t refl y] by (intro both) (auto dest!: split_list)
  ultimately show ?thesis by (auto simp: checkFunctionTypeCompatible_def intro!: accepts_cand accepts_map2)
qed

lemma same_type_accepted:
  assumes t: "plain_types E t" and ok: "\<And>x. plain_types E x \<Longrightarrow> size x < size t \<Longrightarrow> accepts (rec x x)"
  shows "\<exists>p. compatSameIdentTypes rec t t = Some p \<and> accepts p"
proof -
  obtain ident asrt params kind len fps frs where n: "t = TypeNode ident asrt params kind len fps frs" by (cases t)
  note facts = plain_facts [OF t [unfolded n]]
  have params: "accepts (rec x x)" if "x \<in> set params" "ident \<in> {TypeResult, TypeTuple, TypeArray}" for x
    using facts(6) [OF that(2,1)] that(1) n by (intro ok) (auto dest!: split_list)
  consider (func) "ident = TypeFunc" | (tuple) "ident = TypeTuple" | (array) "ident = TypeArray" | (result) "ident = TypeResult"
    | (other) "ident \<notin> {TypeFunc, TypeTuple, TypeArray, TypeResult}" by blast
  then show ?thesis
  proof cases
    case func
    then show ?thesis using same_function_accepted [of E asrt params kind len fps frs rec] t ok n by (simp add: compatSameIdentTypes_def Let_def)
  next
    case tuple
    then show ?thesis using params n by (auto simp: compatSameIdentTypes_def compatSameIdentTuple_def intro!: accepts_map2)
  next
    case array
    then obtain x where "params = [x]" using facts(5) by (auto simp: length_Suc_conv)
    then show ?thesis using array params n
      by (auto simp: compatSameIdentTypes_def compatSameIdentArray_def arrayLengthsCompatible_def split: option.splits)
  next
    case result
    then obtain x y where "params = [x, y]" using facts(4) by (auto simp: length_Suc_conv numeral_2_eq_2)
    then show ?thesis using result params n
      by (auto simp: compatSameIdentTypes_def compatSameIdentResult_def intro!: accepts_cand)
  next
    case other
    then show ?thesis using facts(1,2) n assertion_reflexive by (auto simp: compatSameIdentTypes_def Let_def)
  qed
qed

lemma accepts_memo:
  assumes "expanded E t = t" "accepts (isTypeCompatibleImpl E (isTypeCompatible n E) t t)"
  shows "accepts (isTypeCompatible (Suc n) E t t)"
  unfolding accepts_def
proof (intro allI impI)
  fix m assume m: "positive m"
  obtain m' where m': "isTypeCompatibleImpl E (isTypeCompatible n E) t t m = Some (True, m')" "positive m'"
    using assms(2) m by (auto simp: accepts_def)
  show "\<exists>m'. isTypeCompatible (Suc n) E t t m = Some (True, m') \<and> positive m'"
  proof (cases "m (compatKeyFor t t)")
    case None
    then show ?thesis using assms(1) m' by (simp add: Let_def positive_def)
  next
    case (Some v)
    moreover have "v" using Some m unfolding positive_def by (cases v) auto
    ultimately show ?thesis using assms(1) m by (simp add: Let_def)
  qed
qed

lemma accepts_isTypeCompatible: "plain_types E t \<Longrightarrow> size t < n \<Longrightarrow> accepts (isTypeCompatible n E t t)"
proof (induction n arbitrary: t)
  case (Suc n)
  have "expanded E t = t" using Suc.prems(1) plain_facts(3) by (cases t) auto
  moreover obtain p where "compatSameIdentTypes (isTypeCompatible n E) t t = Some p" "accepts p"
    using same_type_accepted [OF Suc.prems(1)] Suc by (metis less_Suc_eq_le less_le_trans)
  ultimately show ?case by (intro accepts_memo) (simp_all add: isTypeCompatibleImpl_def)
qed simp



section \<open>Accepted although the types differ\<close>

text \<open>Maps are compatible whatever their keys and values, and pointers whatever they point to: types with the
  same identifier match unless they are results, tuples, arrays, assertions or functions.\<close>

theorem element_types_ignored:
  "map_option fst (isTypeCompatible (Suc n) (plain_env Map.empty) (NewMapType k v) (NewMapType k' v') Map.empty) = Some True \<and>
   map_option fst (isTypeCompatible (Suc n) (plain_env Map.empty) (NewPointerType s) (NewPointerType t) Map.empty) = Some True"
  by (simp add: Let_def isTypeCompatibleImpl_def compatSameIdentTypes_def NewMapType_def NewPointerType_def mk_type_def cret_def)

lemma function_key: "typeNodeCompatKey (NewFunctionType ps rs) = typeNodeCompatKey (NewFunctionType qs us)"
  by (simp add: NewFunctionType_def)

text \<open>C39. The key of a function type has neither its parameters nor its results, so the verdict on the first pair of function
  types that is compared is the verdict on every later pair.\<close>

theorem function_verdict_shared:
  assumes "Defs E TypeFunc = None" "isTypeCompatible n E (NewFunctionType ps rs) (NewFunctionType ps' rs') m = Some (v, m')"
  shows "isTypeCompatible (Suc k) E (NewFunctionType qs us) (NewFunctionType qs' us') m' = Some (v, m')"
proof -
  have same: "expanded E (NewFunctionType ps rs) = NewFunctionType ps rs" for ps rs
    using assms(1) by (intro expanded_undefined) (simp add: NewFunctionType_def)
  let ?key = "compatKeyFor (NewFunctionType ps rs) (NewFunctionType ps' rs')"
  obtain n' where "n = Suc n'" using assms(2) by (cases n) auto
  then have "m' ?key = Some v"
    using assms(2) same by (auto simp: Let_def split: option.splits)
  then show ?thesis
    using same function_key [of qs us ps rs] function_key [of qs' us' ps' rs'] by (simp add: Let_def compatKeyFor_def)
qed

definition int_function :: TypeNode where
  "int_function = NewFunctionType [SimpleParamNode [] (NewBuiltinType TypeInt) False] []"

definition string_function :: TypeNode where
  "string_function = NewFunctionType [SimpleParamNode [] (NewBuiltinType TypeString) False] []"

lemma int_function_accepted:
  "map_option fst (isTypeCompatible 2 (plain_env Map.empty) int_function int_function Map.empty) = Some True"
  by code_simp

lemma string_function_refused:
  "map_option fst (isTypeCompatible 2 (plain_env Map.empty) string_function int_function Map.empty) = Some False"
  by code_simp

theorem function_verdict_shared_witness:
  "\<exists>m. isTypeCompatible 2 (plain_env Map.empty) int_function int_function Map.empty = Some (True, m) \<and>
       isTypeCompatible 2 (plain_env Map.empty) string_function int_function m = Some (True, m) \<and>
       map_option fst (isTypeCompatible 2 (plain_env Map.empty) string_function int_function Map.empty) = Some False"
proof -
  obtain m where m: "isTypeCompatible 2 (plain_env Map.empty) int_function int_function Map.empty = Some (True, m)"
    using int_function_accepted by (auto simp del: isTypeCompatible.simps)
  have "isTypeCompatible (Suc 1) (plain_env Map.empty) string_function int_function m = Some (True, m)"
    unfolding string_function_def int_function_def
    by (rule function_verdict_shared [OF _ m [unfolded int_function_def]]) (simp add: plain_env_def)
  then show ?thesis using m string_function_refused
    by (simp only: numeral_2_eq_2 One_nat_def) blast
qed

section \<open>Shapes\<close>

definition list_shape :: "TypeIdent \<Rightarrow> TypeDefExpr" where
  "list_shape el = TypeDefShapeExpr (ShapeNode
     [(''xs'', ShapeFieldNode None None None (Some (NewArrayType (NewBuiltinType el))) False [] [] False [] False)] [''xs''] None)"

definition list_defs :: "TypeIdent \<rightharpoonup> TypeDefExpr" where
  "list_defs = [''A'' \<mapsto> list_shape TypeInt, ''B'' \<mapsto> list_shape TypeString]"

text \<open>Shapes whose fields have the same identifier are compatible even where the fields are not: a shape with a list of
  integers passes for one with a list of strings.\<close>

theorem shape_fields_by_ident:
  "map_option fst (isTypeCompatible 3 (plain_env list_defs) (NewUserDefinedType ''A'') (NewUserDefinedType ''B'') Map.empty) = Some True \<and>
   map_option fst (isTypeCompatible 3 (plain_env list_defs) (NewArrayType (NewBuiltinType TypeInt)) (NewArrayType (NewBuiltinType TypeString)) Map.empty) =
     Some False"
proof (rule conjI)
  show "map_option fst (isTypeCompatible 3 (plain_env list_defs) (NewUserDefinedType ''A'') (NewUserDefinedType ''B'') Map.empty) = Some True"
    by code_simp
  show "map_option fst (isTypeCompatible 3 (plain_env list_defs) (NewArrayType (NewBuiltinType TypeInt))
      (NewArrayType (NewBuiltinType TypeString)) Map.empty) = Some False"
    by code_simp
qed

section \<open>Cyclic aliases\<close>

definition alias_cycle :: "TypeIdent \<rightharpoonup> TypeDefExpr" where
  "alias_cycle = [''A'' \<mapsto> TypeDefAssertionExpr (Some (AssertionNode (Some ''B'') [] [] [] None)),
     ''B'' \<mapsto> TypeDefAssertionExpr (Some (AssertionNode (Some ''A'') [] [] [] None))]"

lemma alias_step:
  assumes "alias_of E x = Some t" "expanded E (bare_type x) = bare_type x"
    "x \<notin> {TypeInt, TypeUnion, TypeIntersection, ''byte'', ''rune''}"
    "expanded E (NewBuiltinType TypeInt) = NewBuiltinType TypeInt"
    "isTypeCompatible n E t (NewBuiltinType TypeInt) m = None" "m (compatKeyFor (bare_type x) (NewBuiltinType TypeInt)) = None"
  shows "isTypeCompatible (Suc n) E (bare_type x) (NewBuiltinType TypeInt) m = None"
proof -
  have "any_compat (cret False # ps) m = any_compat ps m" for ps by (simp add: cor_Some cret_def)
  moreover have "any_compat (p # ps) m = None" if "p m = None" for p ps using that by (simp add: cor_Some)
  moreover have "compatTypeDefAlias E (isTypeCompatible n E) (bare_type x) (NewBuiltinType TypeInt) m = None"
    using assms(1,5) by (simp add: compatTypeDefAlias_def bare_type_def mk_type_def cor_Some)
  moreover have "compatUnionIntersectionRules (isTypeCompatible n E) (bare_type x) (NewBuiltinType TypeInt) = cret False"
    "\<not> isIntFamilyIdent (TIdent (bare_type x))" "TIdent (bare_type x) \<noteq> TIdent (NewBuiltinType TypeInt)"
    "compatBuiltinAssignmentRules E (isTypeCompatible n E) (bare_type x) (NewBuiltinType TypeInt) = cret False"
    using assms(3) by (simp_all add: compatUnionIntersectionRules_def bare_type_def NewBuiltinType_def mk_type_def
        isIntFamilyIdent_def compatBuiltinAssignmentRules_def)
  moreover have "compatAssertionPeeling (isTypeCompatible n E) (bare_type x) (NewBuiltinType TypeInt) m = cret False m"
    by (simp add: compatAssertionPeeling_def peel_actual_def peel_expected_def base_of_def bare_type_def
        NewBuiltinType_def mk_type_def cor_Some cret_def)
  ultimately have "isTypeCompatibleImpl E (isTypeCompatible n E) (bare_type x) (NewBuiltinType TypeInt) m = None"
    by (simp add: isTypeCompatibleImpl_def cor_Some cret_def)
  then show ?thesis using assms(2,4,6) by (simp add: Let_def)
qed

lemma alias_cycle_steps:
  "alias_of (plain_env alias_cycle) ''A'' = Some (bare_type ''B'')"
  "alias_of (plain_env alias_cycle) ''B'' = Some (bare_type ''A'')"
  by code_simp+

lemma alias_cycle_unexpanded:
  "expanded (plain_env alias_cycle) (bare_type ''A'') = bare_type ''A''"
  "expanded (plain_env alias_cycle) (bare_type ''B'') = bare_type ''B''"
  "expanded (plain_env alias_cycle) (NewBuiltinType TypeInt) = NewBuiltinType TypeInt"
  by code_simp+

lemma alias_cycle_loops:
  "isTypeCompatible n (plain_env alias_cycle) (bare_type ''A'') (NewBuiltinType TypeInt) Map.empty = None \<and>
   isTypeCompatible n (plain_env alias_cycle) (bare_type ''B'') (NewBuiltinType TypeInt) Map.empty = None"
proof (induction n)
  case (Suc n)
  then show ?case
    by (intro conjI alias_step [OF alias_cycle_steps(1) alias_cycle_unexpanded(1)]
        alias_step [OF alias_cycle_steps(2) alias_cycle_unexpanded(2)] alias_cycle_unexpanded(3)) (auto simp del: isTypeCompatible.simps)
qed simp

text \<open>With two names that are aliases of each other the test does not end.\<close>

theorem alias_cycle_diverges:
  "isTypeCompatible n (plain_env alias_cycle) (bare_type ''A'') (NewBuiltinType TypeInt) Map.empty = None"
  using alias_cycle_loops [of n] by simp

end
