(* ===== verification/Hasher.thy ===== *)
theory Hasher
  imports AssertionIR "HOL-Library.Word"
begin

unbundle bit_operations_syntax

text \<open>
  \<open>internal/hasher\<close>: structural hashes of syntax trees (\<open>hasher.go\<close>), scope keys (\<open>scope_key.go\<close>) and the names made from
  hashes. A hash is the 64-bit FNV-1a sum of the bytes written for a node; each case of \<open>hashUncached\<close> is a definition over
  the hashes of the parts, and the recursion over the tree puts them together. The memo of a walk, keyed by the address of
  a node, is left out: it returns what the recursion computes as long as an address stands for one node.
  \<open>sort.Slice\<close> is a stable sort here, which is what it does on up to twelve elements, and on distinct keys. Arguments stand
  for \<open>math.Float64bits\<close> on the text of a float literal and for the hash of the body of a function literal, which the tree
  does not have.
\<close>

section \<open>Writing (hasher.go)\<close>

type_synonym NodeHash = "64 word"
type_synonym byte = "8 word"

definition NilHash :: NodeHash where
  "NilHash = 14695981039346656037"

definition fnv_prime :: NodeHash where
  "fnv_prime = 1099511628211"

text \<open>\<open>hash/fnv\<close>: \<open>New64a\<close>, \<open>Write\<close> and \<open>Sum64\<close>.\<close>

definition fnv_step :: "byte \<Rightarrow> NodeHash \<Rightarrow> NodeHash" where
  "fnv_step b h = (h XOR ucast b) * fnv_prime"

definition Sum64 :: "byte list \<Rightarrow> NodeHash" where
  "Sum64 bs = fold fnv_step bs NilHash"

definition PutUint64 :: "64 word \<Rightarrow> byte list" where
  "PutUint64 w = map (\<lambda>i. ucast (drop_bit (8 * i) w)) [0..<8]"

definition string_bytes :: "go_string \<Rightarrow> byte list" where
  "string_bytes s = map of_char s"

text \<open>The values that are written, by their Go type. \<open>binary.Write\<close> refuses a \<open>string\<close>, which has no fixed size.\<close>

datatype hash_value = HUint8 byte | HBool bool | HInt64 int | HHash NodeHash | HFloat64 "64 word" | HBytes go_string
  | HString go_string

fun writeHash :: "hash_value \<Rightarrow> byte list option" where
  "writeHash (HUint8 v) = Some [v]"
| "writeHash (HBool v) = Some [if v then 1 else 0]"
| "writeHash (HInt64 v) = Some (PutUint64 (of_int v))"
| "writeHash (HHash v) = Some (PutUint64 v)"
| "writeHash (HFloat64 bits) = Some (PutUint64 bits)"
| "writeHash (HBytes s) = Some (string_bytes s)"
| "writeHash (HString s) = None"

text \<open>What reaches the hash: the values before the first one that is refused.\<close>

fun writeHashes :: "hash_value list \<Rightarrow> byte list" where
  "writeHashes [] = []"
| "writeHashes (v # vs) = (case writeHash v of Some bs \<Rightarrow> bs @ writeHashes vs | None \<Rightarrow> [])"

text \<open>The sum after a sequence of calls of \<open>writeHashes\<close>.\<close>

definition hashed :: "hash_value list list \<Rightarrow> NodeHash" where
  "hashed calls = Sum64 (concat (map writeHashes calls))"

definition node_kinds :: "(go_string \<times> byte) list" where
  "node_kinds =
     [(''BinaryExpression'', 1), (''IntLiteral'', 2), (''FloatLiteral'', 3), (''StringLiteral'', 4), (''RuneLiteral'', 36),
      (''Variable'', 5), (''UnaryExpression'', 6), (''FunctionCall'', 7), (''BoolLiteral'', 8), (''Function'', 9),
      (''Ensure'', 10), (''TypeGuard'', 11), (''TypeDefAssertion'', 12), (''If'', 13), (''Reference'', 14), (''MapLiteral'', 15),
      (''NilLiteral'', 16), (''For'', 17), (''Break'', 18), (''Continue'', 19), (''Goto'', 43), (''LabeledStmt'', 44),
      (''ElseIf'', 20), (''ElseBlock'', 21), (''Comment'', 22), (''Defer'', 23), (''GoStmt'', 24), (''IndexExpression'', 25),
      (''OkExpr'', 26), (''ErrExpr'', 27), (''TypeDefErrorExpr'', 28), (''Use'', 29), (''With'', 30), (''MethodCall'', 31),
      (''SliceExpression'', 32), (''SpreadExpression'', 33), (''FieldAccess'', 34), (''Switch'', 37), (''Fallthrough'', 38),
      (''TypeExpression'', 39), (''ConstGroup'', 40), (''IotaLiteral'', 41), (''FunctionLiteral'', 42)]"

text \<open>A kind that is missing in the map is zero.\<close>

definition NodeKind :: "go_string \<Rightarrow> byte" where
  "NodeKind name = (case map_of node_kinds name of Some k \<Rightarrow> k | None \<Rightarrow> 0)"

definition kind :: "go_string \<Rightarrow> hash_value list" where
  "kind name = [HUint8 (NodeKind name)]"

definition one :: "NodeHash \<Rightarrow> hash_value list" where
  "one h = [HHash h]"

text \<open>\<open>hash\<close> and \<open>hashOptional\<close> of a node that may be nil.\<close>

definition hash_opt :: "NodeHash option \<Rightarrow> NodeHash" where
  "hash_opt h = (case h of Some v \<Rightarrow> v | None \<Rightarrow> NilHash)"

definition hashNodes :: "NodeHash list \<Rightarrow> NodeHash" where
  "hashNodes hs = hashed (map one hs)"

definition HashTokenType :: "TokenIdent \<Rightarrow> NodeHash" where
  "HashTokenType op = Sum64 (string_bytes op)"

section \<open>Types, assertions and shapes\<close>

definition hash_type :: "TypeIdent \<Rightarrow> int option \<Rightarrow> NodeHash list \<Rightarrow> NodeHash" where
  "hash_type ident arrayLen params =
     hashed ([kind ''Type'', [HBytes ident]] @
       (case arrayLen of Some n \<Rightarrow> if ident = TypeArray then [[HBytes (dec_int n)]] else [] | None \<Rightarrow> []) @
       map one params)"

definition hash_assertion :: "TypeIdent option \<Rightarrow> (go_string \<times> NodeHash) list \<Rightarrow> NodeHash list \<Rightarrow> NodeHash list \<Rightarrow> int option \<Rightarrow> NodeHash" where
  "hash_assertion base constraints orChains params arrayLen =
     hashed ([kind ''Assertion''] @ (case base of Some b \<Rightarrow> [[HBytes b]] | None \<Rightarrow> []) @ map one params @
       (case arrayLen of Some n \<Rightarrow> [[HBytes (dec_int n)]] | None \<Rightarrow> []) @
       map (\<lambda>(name, h). one h) (sort_key fst constraints) @ map one orChains)"

definition hash_constraint :: "go_string \<Rightarrow> NodeHash list \<Rightarrow> NodeHash" where
  "hash_constraint name args = hashed [kind ''Constraint'', [HBytes name], one (hashNodes args)]"

definition hash_constraint_argument :: "NodeHash option \<Rightarrow> NodeHash option \<Rightarrow> NodeHash" where
  "hash_constraint_argument v shape =
     hashed ([kind ''ConstraintArgument''] @ map one (case v of Some h \<Rightarrow> [h] | None \<Rightarrow> []) @
       map one (case shape of Some h \<Rightarrow> [h] | None \<Rightarrow> []))"

definition hash_shape :: "(go_string \<times> NodeHash) list \<Rightarrow> NodeHash" where
  "hash_shape fs =
     hashed ([kind ''Shape''] @ concat (map (\<lambda>(name, h). [[HBytes name], one h]) (sort_key fst fs)))"

definition hash_shape_field :: "bool \<Rightarrow> go_string \<Rightarrow> NodeHash option \<Rightarrow> NodeHash option \<Rightarrow> NodeHash" where
  "hash_shape_field embedded tag asrt shape =
     hashed ([kind ''ShapeField''] @ (if embedded then [[HUint8 1]] else []) @ (if tag \<noteq> [] then [[HBytes tag]] else []) @
       map one (case asrt of Some h \<Rightarrow> [h] | None \<Rightarrow> []) @ map one (case shape of Some h \<Rightarrow> [h] | None \<Rightarrow> []))"

definition hash_simple_param :: "Identifier \<Rightarrow> NodeHash \<Rightarrow> NodeHash" where
  "hash_simple_param ident ty = hashed [kind ''SimpleParam'', [HBytes ident], one ty]"

definition hash_destructured_param :: "go_string list \<Rightarrow> NodeHash \<Rightarrow> NodeHash" where
  "hash_destructured_param fs ty =
     hashed ([kind ''DestructuredParam''] @ map (\<lambda>f. [HBytes f]) (sort fs) @ [one ty])"

section \<open>Expressions\<close>

definition hash_binary :: "TokenIdent \<Rightarrow> NodeHash \<Rightarrow> NodeHash \<Rightarrow> NodeHash" where
  "hash_binary op l r = hashed [kind ''BinaryExpression'' @ one (HashTokenType op), one l @ one r]"

definition hash_unary :: "TokenIdent \<Rightarrow> NodeHash \<Rightarrow> NodeHash" where
  "hash_unary op e = hashed [kind ''UnaryExpression'' @ one (HashTokenType op), one e]"

definition hash_int :: "int \<Rightarrow> NodeHash" where
  "hash_int v = hashed [kind ''IntLiteral'' @ [HInt64 v]]"

definition hash_bool :: "bool \<Rightarrow> NodeHash" where
  "hash_bool v = hashed [kind ''BoolLiteral'' @ [HBool v]]"

definition hash_float :: "64 word \<Rightarrow> NodeHash" where
  "hash_float bits = hashed [kind ''FloatLiteral'' @ [HFloat64 bits]]"

definition hash_string :: "go_string \<Rightarrow> NodeHash" where
  "hash_string s = hashed [kind ''StringLiteral'' @ [HBytes s]]"

definition hash_rune :: "int \<Rightarrow> NodeHash" where
  "hash_rune v = hashed [kind ''RuneLiteral'' @ [HInt64 v]]"

definition hash_variable :: "Identifier \<Rightarrow> NodeHash" where
  "hash_variable ident = hashed [kind ''Variable'' @ [HBytes ident]]"

definition hash_function_literal :: "NodeHash list \<Rightarrow> NodeHash list \<Rightarrow> NodeHash \<Rightarrow> NodeHash" where
  "hash_function_literal params returns body =
     hashed ([kind ''FunctionLiteral'', one (hashNodes params)] @ map one returns @ [one body])"

definition hash_call :: "Identifier \<Rightarrow> NodeHash option \<Rightarrow> NodeHash list \<Rightarrow> NodeHash" where
  "hash_call fn callee args =
     hashed ((case callee of Some h \<Rightarrow> [kind ''FunctionCall'', one h] | None \<Rightarrow> [kind ''FunctionCall'' @ [HBytes fn]]) @
       [one (hashNodes args)])"

definition hash_method_call :: "NodeHash \<Rightarrow> Identifier \<Rightarrow> NodeHash list \<Rightarrow> NodeHash" where
  "hash_method_call recv m args = hashed [kind ''MethodCall'' @ [HBytes m], one recv, one (hashNodes args)]"

definition hash_index :: "NodeHash \<Rightarrow> NodeHash \<Rightarrow> NodeHash" where
  "hash_index target index = hashed [kind ''IndexExpression'', one target @ one index]"

definition hash_slice :: "NodeHash \<Rightarrow> NodeHash option \<Rightarrow> NodeHash option \<Rightarrow> NodeHash" where
  "hash_slice target low high = hashed [kind ''SliceExpression'', one target, one (hash_opt low), one (hash_opt high)]"

definition hash_spread :: "NodeHash \<Rightarrow> NodeHash" where
  "hash_spread e = hashed [kind ''SpreadExpression'', one e]"

definition hash_field_access :: "NodeHash \<Rightarrow> Identifier \<Rightarrow> NodeHash" where
  "hash_field_access target field = hashed [kind ''FieldAccess'' @ [HBytes field], one target]"

definition hash_type_expression :: "NodeHash \<Rightarrow> NodeHash" where
  "hash_type_expression ty = hashed [kind ''TypeExpression'', one ty]"

definition hash_iota :: NodeHash where
  "hash_iota = hashed [kind ''IotaLiteral'']"

definition hash_reference :: "NodeHash \<Rightarrow> NodeHash" where
  "hash_reference e = hashed [kind ''Reference'', one e]"

definition hash_dereference :: "NodeHash \<Rightarrow> NodeHash" where
  "hash_dereference e = hashed [kind ''Dereference'', one e]"

text \<open>The entries carry the text of their key, by which they are sorted.\<close>

definition hash_map_literal :: "NodeHash \<Rightarrow> (go_string \<times> NodeHash \<times> NodeHash) list \<Rightarrow> NodeHash" where
  "hash_map_literal ty entries =
     hashed ([kind ''MapLiteral'', one ty] @ concat (map (\<lambda>(txt, k, v). [one k, one v]) (sort_key fst entries)))"

definition hash_array_literal :: "NodeHash \<Rightarrow> NodeHash list \<Rightarrow> NodeHash" where
  "hash_array_literal ty items = hashed ([kind ''ArrayLiteral'', one ty] @ map one items)"

definition hash_ok :: "NodeHash option \<Rightarrow> NodeHash" where
  "hash_ok v = hashed [kind ''OkExpr'', one (hash_opt v)]"

definition hash_err :: "NodeHash option \<Rightarrow> NodeHash" where
  "hash_err v = hashed [kind ''ErrExpr'', one (hash_opt v)]"

definition hash_nil :: NodeHash where
  "hash_nil = hashed [kind ''NilLiteral'']"

text \<open>What is not in the repository or the tree.\<close>

record hash_params =
  Float64bits :: "go_string \<Rightarrow> 64 word"
  LiteralBody :: "ParamNode list \<Rightarrow> TypeNode list \<Rightarrow> NodeHash"

primrec hashType :: "hash_params \<Rightarrow> TypeNode \<Rightarrow> NodeHash"
  and hashAssertion :: "hash_params \<Rightarrow> AssertionNode \<Rightarrow> NodeHash"
  and hashConstraint :: "hash_params \<Rightarrow> ConstraintNode \<Rightarrow> NodeHash"
  and hashConstraintArgument :: "hash_params \<Rightarrow> ConstraintArgumentNode \<Rightarrow> NodeHash"
  and hashShape :: "hash_params \<Rightarrow> ShapeNode \<Rightarrow> NodeHash"
  and hashShapeField :: "hash_params \<Rightarrow> ShapeFieldNode \<Rightarrow> NodeHash"
  and hashParam :: "hash_params \<Rightarrow> ParamNode \<Rightarrow> NodeHash"
  and hashExpr :: "hash_params \<Rightarrow> ExpressionNode \<Rightarrow> NodeHash" where
  "hashType H (TypeNode ident asrt params knd arrayLen fps frs) = hash_type ident arrayLen (map (hashType H) params)"
| "hashAssertion H (AssertionNode base cs alts params arrayLen) =
     hash_assertion base (zip (map CName cs) (map (hashConstraint H) cs)) (map (hashAssertion H) alts) (map (hashType H) params) arrayLen"
| "hashConstraint H (ConstraintNode name args) = hash_constraint name (map (hashConstraintArgument H) args)"
| "hashConstraintArgument H (ConstraintArgumentNode v s t) =
     hash_constraint_argument (map_option (hashExpr H) v) (map_option (hashShape H) s)"
| "hashShape H (ShapeNode fs order base) = hash_shape (map (map_prod (\<lambda>n. n) (hashShapeField H)) fs)"
| "hashShapeField H (ShapeFieldNode nd asrt shape ty isM mps mrs emb tag exp) =
     hash_shape_field emb tag (map_option (hashAssertion H) asrt) (map_option (hashShape H) shape)"
| "hashParam H (SimpleParamNode ident ty variadic) = hash_simple_param ident (hashType H ty)"
| "hashParam H (DestructuredParamNode fs ty) = hash_destructured_param fs (hashType H ty)"
| "hashExpr H (IntLiteralNode v raw ty) = hash_int v"
| "hashExpr H (FloatLiteralNode txt ty) = hash_float (Float64bits H txt)"
| "hashExpr H (StringLiteralNode s ty) = hash_string s"
| "hashExpr H (RuneLiteralNode v ty) = hash_rune v"
| "hashExpr H (BoolLiteralNode b ty) = hash_bool b"
| "hashExpr H (ArrayLiteralNode items ty) = hash_array_literal (hashType H ty) (map (hashExpr H) items)"
| "hashExpr H (MapLiteralNode entries kt vt) =
     hash_map_literal (hash_type TypeMap None [hashType H kt, hashType H vt])
       (zip (map (Expression_String \<circ> fst) entries) (map (map_prod (hashExpr H) (hashExpr H)) entries))"
| "hashExpr H NilLiteralNode = hash_nil"
| "hashExpr H IotaLiteralNode = hash_iota"
| "hashExpr H (VariableNode ident ty) = hash_variable ident"
| "hashExpr H (ReferenceNode e) = hash_reference (hashExpr H e)"
| "hashExpr H (DereferenceNode e) = hash_dereference (hashExpr H e)"
| "hashExpr H (UnaryExpressionNode op e) = hash_unary op (hashExpr H e)"
| "hashExpr H (BinaryExpressionNode l op r) = hash_binary op (hashExpr H l) (hashExpr H r)"
| "hashExpr H (FunctionCallNode fn callee targs args) = hash_call fn (map_option (hashExpr H) callee) (map (hashExpr H) args)"
| "hashExpr H (MethodCallNode recv m args) = hash_method_call (hashExpr H recv) m (map (hashExpr H) args)"
| "hashExpr H (IndexExpressionNode target index) = hash_index (hashExpr H target) (hashExpr H index)"
| "hashExpr H (SliceExpressionNode target low high) =
     hash_slice (hashExpr H target) (map_option (hashExpr H) low) (map_option (hashExpr H) high)"
| "hashExpr H (SpreadExpressionNode e) = hash_spread (hashExpr H e)"
| "hashExpr H (TypeExpressionNode ty) = hash_type_expression (hashType H ty)"
| "hashExpr H (FieldAccessNode target field) = hash_field_access (hashExpr H target) field"
| "hashExpr H (FunctionLiteralNode params returns) =
     hash_function_literal (map (hashParam H) params) (map (hashType H) returns) (LiteralBody H params returns)"
| "hashExpr H (ShapeExpr s) = hashShape H s"
| "hashExpr H (AssertionExpr a) = hashAssertion H a"
| "hashExpr H (OkExprNode v) = hash_ok (map_option (hashExpr H) v)"
| "hashExpr H (ErrExprNode v) = hash_err (map_option (hashExpr H) v)"

section \<open>Statements\<close>

definition implicit_byte :: "EnsureImplicitKind \<Rightarrow> byte" where
  "implicit_byte k = (case k of EnsureImplicitNone \<Rightarrow> 0 | EnsureImplicitBare \<Rightarrow> 1 | EnsureImplicitBang \<Rightarrow> 2)"

text \<open>The head of an ensure statement, which is also its scope key, and the block that follows it.\<close>

definition ensure_head :: "hash_params \<Rightarrow> Identifier \<Rightarrow> ExpressionNode option \<Rightarrow> EnsureImplicitKind \<Rightarrow> AssertionNode \<Rightarrow>
    EnsureErrorNode option \<Rightarrow> hash_value list list" where
  "ensure_head H var subject implicit asrt err =
     [kind ''Ensure'', one (case subject of Some e \<Rightarrow> hashExpr H e | None \<Rightarrow> hash_variable var),
      [HUint8 (implicit_byte implicit)], one (hashAssertion H asrt)] @
     (case err of Some e \<Rightarrow> [[HBytes (EnsureError_String e)]] | None \<Rightarrow> [])"

definition hash_ensure :: "hash_value list list \<Rightarrow> NodeHash list option \<Rightarrow> NodeHash" where
  "hash_ensure head body = hashed (head @ (case body of Some hs \<Rightarrow> [one (hashNodes hs)] | None \<Rightarrow> []))"

text \<open>The compound operator is written as a \<open>string\<close>, so nothing is written.\<close>

definition hash_assignment :: "hash_params \<Rightarrow> AssignmentNode \<Rightarrow> NodeHash" where
  "hash_assignment H a =
     hashed ([kind ''Assignment'', [HString (case CompoundOp a of Some op \<Rightarrow> op | None \<Rightarrow> [])]] @
       map (\<lambda>e. one (hashExpr H e)) (LValues a) @ map (\<lambda>e. one (hash_opt (map_option (hashExpr H) e))) (RValues a))"

definition hash_return :: "NodeHash list \<Rightarrow> NodeHash" where
  "hash_return vals = hashed ([kind ''Return''] @ map one vals)"

definition hash_use :: "Identifier option \<Rightarrow> TypeIdent \<Rightarrow> NodeHash" where
  "hash_use ident contract =
     hashed ([kind ''Use''] @ (case ident of Some x \<Rightarrow> [[HBytes x]] | None \<Rightarrow> []) @ [[HBytes contract]])"

definition hash_with :: "NodeHash \<Rightarrow> NodeHash list \<Rightarrow> NodeHash" where
  "hash_with wiring body = hashed [kind ''With'', one wiring, one (hashNodes body)]"

text \<open>The label of a jump, written as a \<open>string\<close>.\<close>

definition label_value :: "Identifier option \<Rightarrow> hash_value list list" where
  "label_value label = (case label of Some x \<Rightarrow> [[HString x]] | None \<Rightarrow> [])"

definition hash_goto :: "Identifier \<Rightarrow> NodeHash" where
  "hash_goto label = hashed ([kind ''Goto''] @ label_value (Some label))"

definition hash_labeled :: "Identifier \<Rightarrow> NodeHash \<Rightarrow> NodeHash" where
  "hash_labeled label stmt = hashed ([kind ''LabeledStmt''] @ label_value (Some label) @ [one stmt])"

definition hash_break :: "Identifier option \<Rightarrow> NodeHash" where
  "hash_break label = hashed ([kind ''Break''] @ label_value label)"

definition hash_continue :: "Identifier option \<Rightarrow> NodeHash" where
  "hash_continue label = hashed ([kind ''Continue''] @ label_value label)"

definition hash_if :: "NodeHash option \<Rightarrow> NodeHash \<Rightarrow> NodeHash list \<Rightarrow> (NodeHash \<times> NodeHash list) list \<Rightarrow> NodeHash list option \<Rightarrow> NodeHash" where
  "hash_if init cond body elseIfs els =
     hashed ([kind ''If''] @ (case init of Some h \<Rightarrow> [one h] | None \<Rightarrow> []) @ [one cond, one (hashNodes body)] @
       concat (map (\<lambda>(c, b). [one c, one (hashNodes b)]) elseIfs) @
       (case els of Some b \<Rightarrow> [one (hashNodes b)] | None \<Rightarrow> []))"

definition range_values :: "NodeHash option \<Rightarrow> Identifier option \<Rightarrow> Identifier option \<Rightarrow> bool \<Rightarrow> hash_value list list" where
  "range_values x key val short =
     [[HUint8 1]] @ (case x of Some h \<Rightarrow> [one h] | None \<Rightarrow> []) @ label_value key @ label_value val @
     [[HUint8 (if short then 1 else 0)]]"

definition hash_for :: "NodeHash option \<Rightarrow> NodeHash option \<Rightarrow> NodeHash option \<Rightarrow> hash_value list list \<Rightarrow> NodeHash list \<Rightarrow> NodeHash" where
  "hash_for init cond post rng body =
     hashed ([kind ''For'', one (hash_opt init)] @ (case cond of Some h \<Rightarrow> [one h] | None \<Rightarrow> []) @ [one (hash_opt post)] @
       rng @ [one (hashNodes body)])"

definition hash_switch :: "NodeHash option \<Rightarrow> NodeHash option \<Rightarrow> hash_value list list list \<Rightarrow> NodeHash" where
  "hash_switch init tag clauses =
     hashed ([kind ''Switch'', one (hash_opt init)] @ (case tag of Some h \<Rightarrow> [one h] | None \<Rightarrow> []) @ concat clauses)"

definition switch_clause :: "NodeHash list \<Rightarrow> NodeHash list \<Rightarrow> hash_value list list" where
  "switch_clause vals body = map one vals @ [one (hashNodes body)]"

definition hash_defer :: "NodeHash \<Rightarrow> NodeHash" where
  "hash_defer call = hashed [kind ''Defer'', one call]"

definition hash_go :: "NodeHash \<Rightarrow> NodeHash" where
  "hash_go call = hashed [kind ''GoStmt'', one call]"

definition hash_comment :: "go_string \<Rightarrow> NodeHash" where
  "hash_comment txt = hashed [kind ''Comment'', [HBytes txt]]"

primrec hashNode :: "hash_params \<Rightarrow> Node \<Rightarrow> NodeHash"
  and hashEnsure :: "hash_params \<Rightarrow> EnsureNode \<Rightarrow> NodeHash"
  and hashIf :: "hash_params \<Rightarrow> IfNode \<Rightarrow> NodeHash"
  and hashFor :: "hash_params \<Rightarrow> ForNode \<Rightarrow> NodeHash"
  and hashClause :: "hash_params \<Rightarrow> SwitchClauseNode \<Rightarrow> hash_value list list" where
  "hashNode H (CommentNode txt) = hash_comment txt"
| "hashNode H (EnsureStmt e) = hashEnsure H e"
| "hashNode H (IfStmt i) = hashIf H i"
| "hashNode H (ExprStmt e) = hashExpr H e"
| "hashNode H (AssignStmt a) = hash_assignment H a"
| "hashNode H (ReturnNode vals ty) = hash_return (map (hashExpr H) vals)"
| "hashNode H (UseNode ident contract) = hash_use ident (TIdent contract)"
| "hashNode H (WithNode wiring body) = hash_with (hashExpr H wiring) (map (hashNode H) body)"
| "hashNode H (GotoNode label) = hash_goto label"
| "hashNode H (LabeledStmtNode label stmt) = hash_labeled label (hashNode H stmt)"
| "hashNode H (ForStmt f) = hashFor H f"
| "hashNode H (SwitchNode init tag clauses) =
     hash_switch (map_option (hashNode H) init) (map_option (hashExpr H) tag) (map (hashClause H) clauses)"
| "hashNode H FallthroughNode = hashed [kind ''Fallthrough'']"
| "hashNode H (BreakNode label) = hash_break label"
| "hashNode H (ContinueNode label) = hash_continue label"
| "hashNode H (DeferNode call) = hash_defer (hashExpr H call)"
| "hashNode H (GoStmtNode call) = hash_go (hashExpr H call)"
| "hashEnsure H (EnsureNode var subject target asrt implicit err body) =
     hash_ensure (ensure_head H var subject implicit asrt err) (map_option (map (hashNode H)) body)"
| "hashIf H (IfNode cond body elseIfs els init) =
     hash_if (map_option (hashNode H) init) (hashNode H cond) (map (hashNode H) body)
       (map (map_prod (hashNode H) (map (hashNode H))) elseIfs) (map_option (map (hashNode H)) els)"
| "hashFor H (ForNode label init cond post isRange x key val short body) =
     hash_for (map_option (hashNode H) init) (map_option (hashExpr H) cond) (map_option (hashNode H) post)
       (if isRange then range_values (map_option (hashExpr H) x) key val short else [[HUint8 0]]) (map (hashNode H) body)"
| "hashClause H (SwitchClauseNode isDefault vals body) = switch_clause (map (hashExpr H) vals) (map (hashNode H) body)"

text \<open>The blocks of an if statement as nodes of their own.\<close>

definition hash_else_if :: "hash_params \<Rightarrow> Node option \<Rightarrow> Node list \<Rightarrow> NodeHash" where
  "hash_else_if H cond body =
     hashed [kind ''ElseIf'', one (hash_opt (map_option (hashNode H) cond)), one (hashNodes (map (hashNode H) body))]"

definition hash_else_block :: "hash_params \<Rightarrow> Node list \<Rightarrow> NodeHash" where
  "hash_else_block H body = hashed [kind ''ElseBlock'', one (hashNodes (map (hashNode H) body))]"

definition hash_ensure_block :: "hash_params \<Rightarrow> Node list \<Rightarrow> NodeHash" where
  "hash_ensure_block H body = hashed ([kind ''EnsureBlock''] @ map (\<lambda>n. one (hashNode H n)) body)"

section \<open>Declarations\<close>

primrec TypeDefExpr_String :: "TypeDefExpr \<Rightarrow> go_string" where
  "TypeDefExpr_String (TypeDefAssertionExpr a) =
     ''TypeDefAssertionExpr('' @ (case a of Some x \<Rightarrow> Assertion_String x | None \<Rightarrow> ''?'') @ '')''"
| "TypeDefExpr_String (TypeDefShapeExpr s) = ''TypeDefShapeExpr('' @ Shape_String s @ '')''"
| "TypeDefExpr_String (TypeDefErrorExpr s) = ''TypeDefErrorExpr('' @ Shape_String s @ '')''"
| "TypeDefExpr_String (TypeDefBinaryExpr l op r) =
     ''TypeDefBinaryExpr('' @ TypeDefExpr_String l @ '' '' @ TokenIdent_String op @ '' '' @ TypeDefExpr_String r @ '')''"

primrec hashTypeDefExpr :: "hash_params \<Rightarrow> TypeDefExpr \<Rightarrow> NodeHash" where
  "hashTypeDefExpr H (TypeDefAssertionExpr a) = hashed [kind ''TypeDefAssertion'', one (hash_opt (map_option (hashAssertion H) a))]"
| "hashTypeDefExpr H (TypeDefShapeExpr s) = hashed [kind ''TypeDefShapeExpr'', one (hashShape H s)]"
| "hashTypeDefExpr H (TypeDefErrorExpr s) = hashed [kind ''TypeDefErrorExpr'', one (hashShape H s)]"
| "hashTypeDefExpr H (TypeDefBinaryExpr l op r) =
     hashed [kind ''TypeDefBinaryExpr'' @ one (HashTokenType op), one (hashTypeDefExpr H l) @ one (hashTypeDefExpr H r)]"

definition hash_import :: "ImportNode \<Rightarrow> NodeHash" where
  "hash_import i =
     hashed ([kind ''Import'', [HBytes (ImportPath i)]] @ (case ImportAlias i of Some x \<Rightarrow> [[HBytes x]] | None \<Rightarrow> []))"

definition hash_import_group :: "ImportNode list \<Rightarrow> NodeHash" where
  "hash_import_group is = hashed ([kind ''ImportGroup''] @ map (\<lambda>i. one (hash_import i)) (sort_key ImportPath is))"

definition hash_typedef :: "TypeIdent \<Rightarrow> TypeDefExpr \<Rightarrow> NodeHash" where
  "hash_typedef ident e =
     (if ident \<noteq> [] then hashed [kind ''TypeDef'', [HBytes ident]]
      else hashed [kind ''TypeDef'', [HBytes (TypeDefExpr_String e)], [HBytes ident]])"

definition hash_function :: "hash_params \<Rightarrow> FunctionNode \<Rightarrow> NodeHash" where
  "hash_function H f = hashed [kind ''Function'', one (hashNodes (map (hashNode H) (FunctionBody f)))]"

definition const_values :: "hash_params \<Rightarrow> ConstSpec \<Rightarrow> hash_value list list" where
  "const_values H spec =
     [[HBytes (ConstName spec)]] @ (case ConstType spec of Some t \<Rightarrow> [one (hashType H t)] | None \<Rightarrow> []) @
     (case ConstValue spec of Some e \<Rightarrow> [one (hashExpr H e)] | None \<Rightarrow> [])"

definition hash_const_group :: "hash_params \<Rightarrow> ConstSpec list \<Rightarrow> NodeHash" where
  "hash_const_group H specs = hashed ([kind ''ConstGroup''] @ concat (map (const_values H) specs))"

text \<open>
  The name by which parameters of a type guard are sorted. \<open>None\<close> is the panic of \<open>Fields[0]\<close> on a destructured parameter
  without fields, which happens as soon as there are two parameters to compare.
\<close>

definition sort_name :: "ParamNode \<Rightarrow> go_string option" where
  "sort_name p =
     (case p of
        SimpleParamNode ident _ _ \<Rightarrow> Some ident
      | DestructuredParamNode fs _ \<Rightarrow> (case fs of f # _ \<Rightarrow> Some f | [] \<Rightarrow> None))"

definition Parameters :: "TypeGuardNode \<Rightarrow> ParamNode list" where
  "Parameters g = GuardSubject g # GuardParams g"

definition name_or_empty :: "ParamNode \<Rightarrow> go_string" where
  "name_or_empty p = (case sort_name p of Some x \<Rightarrow> x | None \<Rightarrow> [])"

definition sorted_params :: "ParamNode list \<Rightarrow> ParamNode list option" where
  "sorted_params ps =
     (if length ps \<ge> 2 \<and> \<not> list_all (\<lambda>p. sort_name p \<noteq> None) ps then None
      else Some (sort_key name_or_empty ps))"

definition hash_typeguard :: "hash_params \<Rightarrow> TypeGuardNode \<Rightarrow> NodeHash option" where
  "hash_typeguard H g =
     map_option (\<lambda>ps. hashed ([kind ''TypeGuard'', [HBytes (GuardIdent g)]] @ map (\<lambda>p. one (hashParam H p)) ps @
         [one (hashNodes (map (hashNode H) (GuardBody g)))]))
       (sorted_params (Parameters g))"

definition hashDecl :: "hash_params \<Rightarrow> Decl \<Rightarrow> NodeHash option" where
  "hashDecl H d =
     (case d of
        CommentDecl txt \<Rightarrow> Some (hash_comment txt)
      | PackageNode ident \<Rightarrow> Some (hashed [kind ''Package'', [HBytes ident]])
      | ImportDecl i \<Rightarrow> Some (hash_import i)
      | ImportGroupNode is \<Rightarrow> Some (hash_import_group is)
      | TypeDefNode ident e \<Rightarrow> Some (hash_typedef ident e)
      | FunctionDecl f \<Rightarrow> Some (hash_function H f)
      | VarDecl a \<Rightarrow> Some (hash_assignment H a)
      | ConstGroupNode specs \<Rightarrow> Some (hash_const_group H specs)
      | TypeGuardDecl g \<Rightarrow> hash_typeguard H g)"

section \<open>Names\<close>

definition alphabet :: go_string where
  "alphabet = ''123456789ABCDEFGHJKLMNPQRSTUVWXYZabcdefghijkmnopqrstuvwxyz''"

function base58_loop :: "64 word \<Rightarrow> go_string \<Rightarrow> go_string" where
  "base58_loop num b58 =
     (if num = 0 then b58 else base58_loop (num div 58) (alphabet ! unat (num mod 58) # b58))"
  by auto
termination
  by (relation "measure (\<lambda>(num, b58). unat num)") (auto simp: unat_div unat_eq_0 intro!: div_less_dividend simp flip: unat_eq_0)

declare base58_loop.simps [simp del]

definition toBase58 :: "NodeHash \<Rightarrow> go_string" where
  "toBase58 h = (let b58 = base58_loop h [] in if b58 = [] then [alphabet ! 0] else b58)"

definition ToTypeIdent :: "NodeHash \<Rightarrow> TypeIdent" where
  "ToTypeIdent h = (if h = NilHash then ''T_Invalid'' else ''T_'' @ toBase58 h)"

definition ToGuardIdent :: "NodeHash \<Rightarrow> TypeIdent" where
  "ToGuardIdent h = (if h = NilHash then ''G_Invalid'' else ''G_'' @ toBase58 h)"

definition ToProvidersIdent :: "NodeHash \<Rightarrow> go_string" where
  "ToProvidersIdent h = ''Providers_'' @ toBase58 h"

definition HashSortedStrings :: "go_string list \<Rightarrow> NodeHash" where
  "HashSortedStrings parts = Sum64 (concat (map (\<lambda>p. string_bytes p @ [0]) (sort parts)))"

section \<open>Scope keys (scope\_key.go)\<close>

text \<open>The identity of a node, the addresses of its type and its data, is an argument; nil data has none.\<close>

type_synonym NodeIdentity = "(64 word \<times> 64 word) option"

definition identity_values :: "NodeIdentity \<Rightarrow> hash_value list list" where
  "identity_values key = (case key of Some (typ, data) \<Rightarrow> [[HHash typ, HHash data]] | None \<Rightarrow> [])"

definition HashScopeKeyDisambiguated :: "NodeIdentity \<Rightarrow> NodeHash \<Rightarrow> NodeHash" where
  "HashScopeKeyDisambiguated key base = hashed ([one base] @ identity_values key)"

definition hashScopeFunction :: "hash_params \<Rightarrow> FunctionNode \<Rightarrow> NodeHash" where
  "hashScopeFunction H f =
     hashed ([kind ''Function'' @ [HBytes (FunctionIdent f)]] @
       (case Receiver f of Some p \<Rightarrow> [one (hashParam H p)] | None \<Rightarrow> []) @
       [one (hashNodes (map (hashParam H) (FunctionParams f)))] @ map (\<lambda>t. one (hashType H t)) (FunctionReturnTypes f))"

definition hashScopeEnsure :: "hash_params \<Rightarrow> EnsureNode \<Rightarrow> NodeHash" where
  "hashScopeEnsure H e = hashed (ensure_head H (EVariable e) (ESubject e) (EImplicit e) (EAssertion e) (EError e))"

definition hashScopeEnsureBlock :: "NodeIdentity \<Rightarrow> NodeHash" where
  "hashScopeEnsureBlock key = hashed ([kind ''EnsureBlock''] @ identity_values key)"

definition hashScopeTypeGuard :: "hash_params \<Rightarrow> TypeGuardNode \<Rightarrow> NodeHash" where
  "hashScopeTypeGuard H g =
     hashed [kind ''TypeGuard'' @ [HBytes (GuardIdent g)], one (hashParam H (GuardSubject g)),
       one (hashNodes (map (hashParam H) (sort_key name_or_empty (Parameters g))))]"

definition hashScopeFunctionLiteral :: "hash_params \<Rightarrow> ParamNode list \<Rightarrow> TypeNode list \<Rightarrow> NodeHash" where
  "hashScopeFunctionLiteral H params returns =
     hashed ([kind ''FunctionLiteral'', one (hashNodes (map (hashParam H) params))] @
       map (\<lambda>t. one (hashType H t)) returns @ [one (LiteralBody H params returns)])"

text \<open>The nodes that open scopes: those with a key of their own, the block of an ensure statement, and all others.\<close>

datatype scope_node = ScopeFunction FunctionNode | ScopeEnsure EnsureNode | ScopeEnsureBlock
  | ScopeTypeGuard TypeGuardNode | ScopeFunctionLiteral "ParamNode list" "TypeNode list" | ScopeOther Node

definition HashScopeKey :: "hash_params \<Rightarrow> NodeIdentity \<Rightarrow> scope_node option \<Rightarrow> NodeHash" where
  "HashScopeKey H key node =
     (case node of
        None \<Rightarrow> NilHash
      | Some (ScopeFunction f) \<Rightarrow> hashScopeFunction H f
      | Some (ScopeEnsure e) \<Rightarrow> hashScopeEnsure H e
      | Some ScopeEnsureBlock \<Rightarrow> hashScopeEnsureBlock key
      | Some (ScopeTypeGuard g) \<Rightarrow> hashScopeTypeGuard H g
      | Some (ScopeFunctionLiteral ps rs) \<Rightarrow> hashScopeFunctionLiteral H ps rs
      | Some (ScopeOther n) \<Rightarrow> hashNode H n)"

end
