(* ===== verification/Hasher_Props.thy ===== *)
theory Hasher_Props
  imports Hasher "HOL-Library.Multiset"
begin

unbundle bit_operations_syntax

text \<open>
  What structural hashes and the names made from them guarantee: the order of fields does not matter, nodes of different
  kinds around the same parts are told apart, names are in one-to-one correspondence with hashes; and what is not part of
  the hash.
\<close>

section \<open>The sum\<close>

text \<open>The prime is odd, so a step can be undone.\<close>

lemma fnv_prime_inverse: "fnv_prime * 14886173955864302971 = 1"
  by (simp add: fnv_prime_def)

lemma times_prime_inject: "x * fnv_prime = y * fnv_prime \<longleftrightarrow> x = y"
proof
  assume "x * fnv_prime = y * fnv_prime"
  then have "(x * fnv_prime) * 14886173955864302971 = (y * fnv_prime) * 14886173955864302971" by (rule arg_cong)
  then show "x = y" by (simp only: mult.assoc fnv_prime_inverse mult_1_right)
qed simp

lemma xor_right_inject: "x XOR w = y XOR w \<longleftrightarrow> x = (y :: 'a :: len word)"
proof
  assume "x XOR w = y XOR w"
  then have "(x XOR w) XOR w = (y XOR w) XOR w" by (rule arg_cong)
  then show "x = y" by (simp only: xor.assoc xor_self_eq xor.right_neutral)
qed simp

lemma fnv_step_inject: "fnv_step b h = fnv_step b h' \<longleftrightarrow> h = h'"
  by (simp only: fnv_step_def times_prime_inject xor_right_inject)

lemma fnv_step_byte_inject: "fnv_step b h = fnv_step b' h \<longleftrightarrow> b = b'"
proof
  assume "fnv_step b h = fnv_step b' h"
  then have "ucast b XOR h = ucast b' XOR h" by (simp only: fnv_step_def times_prime_inject xor.commute)
  then have "(ucast b :: 64 word) = ucast b'" by (simp only: xor_right_inject)
  then show "b = b'" by (auto simp: bit_eq_iff bit_unsigned_iff)
qed simp

lemma fnv_fold_inject: "fold fnv_step bs h = fold fnv_step bs h' \<longleftrightarrow> h = h'"
  by (induction bs arbitrary: h h') (simp_all add: fnv_step_inject)

lemma Sum64_first: "Sum64 (b # bs) = Sum64 (b' # bs) \<longleftrightarrow> b = b'"
  by (simp add: Sum64_def fnv_fold_inject fnv_step_byte_inject)

lemma hashed_kind: "hashed ((HUint8 b # vs) # calls) = Sum64 (b # writeHashes vs @ concat (map writeHashes calls))"
  by (simp add: hashed_def)

lemma hashed_kinds: "hashed ((HUint8 b # vs) # calls) = hashed ((HUint8 b' # vs) # calls) \<longleftrightarrow> b = b'"
  by (simp add: hashed_kind Sum64_first)

text \<open>Nodes of different kinds around the same operand have different hashes: a reference, a spread, a result
  constructor, a type expression, a deferred or concurrent call and a dereference of one operand never collide.\<close>

theorem wrappers_told_apart:
  "distinct [hash_dereference h, hash_reference h, hash_spread h, hash_ok (Some h), hash_err (Some h), hash_type_expression h,
     hash_defer h, hash_go h]"
  by (simp add: hash_dereference_def hash_reference_def hash_spread_def hash_ok_def hash_err_def hash_opt_def hash_type_expression_def
      hash_defer_def hash_go_def kind_def hashed_kinds NodeKind_def node_kinds_def)

section \<open>Order\<close>

lemma sort_key_distinct:
  assumes "distinct (map f xs)" "mset xs = mset ys"
  shows "sort_key f xs = sort_key f ys"
proof (rule sort_key_inj_key_eq)
  show "mset xs = mset (sort_key f ys)" using assms(2) by simp
  show "inj_on f (set xs)" using assms(1) by (simp add: distinct_map)
qed simp

text \<open>C20. The hash of a shape does not depend on the order in which its map of fields is visited, nor on the declared
  order.\<close>

theorem shape_hash_order:
  assumes "distinct (map fst fs)" "mset fs = mset gs"
  shows "hashShape H (ShapeNode fs order base) = hashShape H (ShapeNode gs order' base')"
proof -
  let ?h = "map (map_prod (\<lambda>n. n) (hashShapeField H))"
  have "distinct (map fst (?h fs))" using assms(1) by (simp add: comp_def)
  moreover have "mset (?h fs) = mset (?h gs)" using assms(2) by simp
  ultimately have "sort_key fst (?h fs) = sort_key fst (?h gs)" by (rule sort_key_distinct)
  then show ?thesis by (simp only: hashShape.simps hash_shape_def)
qed

definition int_field :: ShapeFieldNode where
  "int_field = ShapeFieldNode None (Some (AssertionNode (Some TypeInt) [] [] [] None)) None None False [] [] False [] False"

definition named_field :: ShapeFieldNode where
  "named_field = ShapeFieldNode None (Some (AssertionNode (Some ''Name'') [] [] [] None)) None None False [] [] False [] False"

definition no_params :: hash_params where
  "no_params = \<lparr>Float64bits = \<lambda>_. 0, LiteralBody = \<lambda>_ _. 0\<rparr>"

theorem shape_hash_order_witness:
  "hashShape no_params (ShapeNode [(''a'', int_field), (''b'', named_field)] [] None) =
   hashShape no_params (ShapeNode [(''b'', named_field), (''a'', int_field)] [''b'', ''a''] None)"
  by (rule shape_hash_order) simp_all

section \<open>Names\<close>

definition base58_digit :: "char \<Rightarrow> 64 word" where
  "base58_digit c = of_nat (length (takeWhile (\<lambda>x. x \<noteq> c) alphabet))"

definition fromBase58 :: "go_string \<Rightarrow> NodeHash" where
  "fromBase58 s = foldl (\<lambda>n c. n * 58 + base58_digit c) 0 s"

lemma length_alphabet: "length alphabet = 58"
  by (simp add: alphabet_def)

lemma distinct_alphabet: "distinct alphabet"
  by (simp add: alphabet_def)

lemma takeWhile_nth: "distinct xs \<Longrightarrow> i < length xs \<Longrightarrow> length (takeWhile (\<lambda>x. x \<noteq> xs ! i) xs) = i"
proof (induction xs arbitrary: i)
  case (Cons x xs)
  then show ?case by (cases i) auto
qed simp

lemma base58_digit_nth: "i < 58 \<Longrightarrow> base58_digit (alphabet ! i) = of_nat i"
  by (simp add: base58_digit_def takeWhile_nth distinct_alphabet length_alphabet)

lemma mod_58: "unat (num mod 58 :: 64 word) < 58"
  by (simp add: unat_mod)

lemma base58_step: "(num div 58) * 58 + base58_digit (alphabet ! unat (num mod 58)) = (num :: 64 word)"
  by (simp add: base58_digit_nth mod_58 div_mult_mod_eq)

lemma base58_loop_zero [simp]: "base58_loop 0 s = s"
  by (simp add: base58_loop.simps)

lemma base58_loop_append: "base58_loop num s = base58_loop num [] @ s"
proof (induction "unat num" arbitrary: num s rule: less_induct)
  case less
  show ?case
  proof (cases "num = 0")
    case False
    then have "unat (num div 58) < unat num" by (simp add: unat_div div_less_dividend unat_gt_0)
    from less [OF this] show ?thesis using False
      by (metis append.assoc append_Cons append_Nil base58_loop.simps)
  qed simp
qed

lemma base58_loop_digit: "num \<noteq> 0 \<Longrightarrow> base58_loop num [] = base58_loop (num div 58) [] @ [alphabet ! unat (num mod 58)]"
  using base58_loop_append [of "num div 58" "[alphabet ! unat (num mod 58)]"] by (simp add: base58_loop.simps [of num])

lemma base58_induct [case_names zero digit]:
  assumes "P 0" "\<And>num. num \<noteq> 0 \<Longrightarrow> P (num div 58) \<Longrightarrow> P num"
  shows "P (num :: 64 word)"
proof (induction "unat num" arbitrary: num rule: less_induct)
  case less
  show ?case
  proof (cases "num = 0")
    case False
    then have "unat (num div 58) < unat num" by (simp add: unat_div div_less_dividend unat_gt_0)
    then show ?thesis using less assms(2) False by blast
  qed (simp add: assms(1))
qed

lemma fromBase58_loop: "fromBase58 (base58_loop num []) = num"
proof (induction num rule: base58_induct)
  case zero
  then show ?case by (simp add: fromBase58_def)
next
  case (digit num)
  have "fromBase58 (base58_loop num []) = fromBase58 (base58_loop (num div 58) []) * 58 + base58_digit (alphabet ! unat (num mod 58))"
    using digit(1) by (simp add: base58_loop_digit fromBase58_def)
  then show ?case by (simp only: digit(2) base58_step)
qed

lemma base58_loop_alphabet: "set (base58_loop num []) \<subseteq> set alphabet"
  by (induction num rule: base58_induct) (auto simp: base58_loop_digit length_alphabet mod_58)

lemma base58_loop_length: "unat num < 58 ^ n \<Longrightarrow> length (base58_loop num []) \<le> n"
proof (induction n arbitrary: num)
  case 0
  then show ?case by (simp add: unat_eq_0)
next
  case (Suc n)
  show ?case
  proof (cases "num = 0")
    case False
    have "unat (num div 58) < 58 ^ n" using Suc.prems by (simp add: unat_div less_mult_imp_div_less mult.commute)
    then show ?thesis using Suc.IH False by (simp add: base58_loop_digit)
  qed simp
qed

lemma base58_loop_empty: "base58_loop num [] = [] \<longleftrightarrow> num = 0"
  by (cases "num = 0") (simp_all add: base58_loop_digit)

lemma first_letter: "fromBase58 [alphabet ! 0] = 0"
  using base58_digit_nth [of 0] by (simp add: fromBase58_def)

lemma fromBase58_toBase58: "fromBase58 (toBase58 h) = h"
  by (auto simp: toBase58_def Let_def base58_loop_empty fromBase58_loop first_letter)

lemma toBase58_letters: "set (toBase58 h) \<subseteq> set alphabet"
  using base58_loop_alphabet [of h] by (auto simp: toBase58_def Let_def length_alphabet)

text \<open>C21. The base-58 text of a hash has between one and eleven letters of the alphabet and reads back as the hash.\<close>

theorem base58_round_trip:
  "fromBase58 (toBase58 h) = h \<and> set (toBase58 h) \<subseteq> set alphabet \<and> length (toBase58 h) \<in> {1..11}"
proof (intro conjI)
  have "unat h < 2 ^ 64" using unsigned_less [of h] by simp
  also have "\<dots> \<le> 58 ^ 11" by simp
  finally have "length (base58_loop h []) \<le> 11" by (rule base58_loop_length)
  then show "length (toBase58 h) \<in> {1..11}"
    by (auto simp: toBase58_def Let_def Suc_le_eq)
qed (rule fromBase58_toBase58, rule toBase58_letters)

lemma invalid_no_name: "''Invalid'' \<noteq> toBase58 h"
proof
  assume eq: "''Invalid'' = toBase58 h"
  have "CHR ''I'' \<in> set (toBase58 h)" by (simp flip: eq)
  then have "CHR ''I'' \<in> set alphabet" using toBase58_letters by blast
  then show False by (simp add: alphabet_def)
qed

lemma toBase58_inject [simp]: "toBase58 a = toBase58 b \<longleftrightarrow> a = b"
  by (metis fromBase58_toBase58)

text \<open>C22. Different hashes give different names of types, guards and provider structs: the name for the nil hash is no
  base-58 text.\<close>

theorem names_injective: "inj ToTypeIdent \<and> inj ToGuardIdent \<and> inj ToProvidersIdent"
  using invalid_no_name
  by (auto simp: inj_def ToTypeIdent_def ToGuardIdent_def ToProvidersIdent_def split: if_splits)
    (metis invalid_no_name)+

section \<open>Sets of strings\<close>

text \<open>The hash of a set of provider slots does not depend on the order in which they are listed.\<close>

theorem HashSortedStrings_order:
  assumes "mset ps = mset qs"
  shows "HashSortedStrings ps = HashSortedStrings qs"
proof -
  have "sort ps = sort qs" using assms by (simp add: properties_for_sort)
  then show ?thesis by (simp add: HashSortedStrings_def)
qed

theorem HashSortedStrings_order_witness:
  "HashSortedStrings [''db'', ''clock''] = HashSortedStrings [''clock'', ''db'']"
  by (rule HashSortedStrings_order) simp

section \<open>What is not hashed\<close>

text \<open>The type of a field is not part of the hash of a shape: shapes that differ only in the types or the method
  signatures of a field get the same type name.\<close>

theorem field_types_not_hashed:
  "ToTypeIdent (hashShape H (ShapeNode [(x, ShapeFieldNode None None None (Some s) False [] [] False tag False)] order base)) =
   ToTypeIdent (hashShape H (ShapeNode [(x, ShapeFieldNode None None None (Some t) False [] [] False tag False)] order base)) \<and>
   ToTypeIdent (hashShape H (ShapeNode [(x, ShapeFieldNode None None None None True ps rs False tag False)] order base)) =
   ToTypeIdent (hashShape H (ShapeNode [(x, ShapeFieldNode None None None None True qs us False tag False)] order base))"
  by simp

text \<open>C38. Names written as Go strings do not reach the hash: jumps to different labels, compound assignments with different
  operators, and loops over the same range with different variables have the same hash.\<close>

theorem strings_not_hashed:
  "hashNode H (GotoNode l) = hashNode H (GotoNode l') \<and>
   hashNode H (BreakNode (Some l)) = hashNode H (BreakNode None) \<and>
   hashNode H (ContinueNode (Some l)) = hashNode H (ContinueNode None) \<and>
   hashNode H (AssignStmt a) = hashNode H (AssignStmt (a\<lparr>CompoundOp := Some op\<rparr>)) \<and>
   hashNode H (ForStmt (ForNode lb init cond post r x (Some k) (Some v) short body)) =
   hashNode H (ForStmt (ForNode lb' init cond post r x None None short body))"
  by (simp add: hash_goto_def hash_break_def hash_continue_def hash_assignment_def label_value_def range_values_def hash_for_def hashed_def)

text \<open>Hashing a type guard panics when it has at least two parameters and one of them is destructured into nothing, and
  only then.\<close>

theorem hash_typeguard_panics:
  "hash_typeguard H g = None \<longleftrightarrow> GuardParams g \<noteq> [] \<and> (\<exists>t. DestructuredParamNode [] t \<in> set (Parameters g))"
proof -
  have no_name: "sort_name p = None \<longleftrightarrow> (\<exists>t. p = DestructuredParamNode [] t)" for p
    by (auto simp: sort_name_def split: ParamNode.splits list.splits)
  have two: "length (Parameters g) \<ge> 2 \<longleftrightarrow> GuardParams g \<noteq> []"
    by (cases "GuardParams g") (auto simp: Parameters_def)
  show ?thesis unfolding hash_typeguard_def sorted_params_def two by (auto simp: list_all_iff no_name)
qed

end
