(* ===== verification/TypeRegistry.thy ===== *)
theory TypeRegistry
  imports Compat Hasher "HOL-Library.AList" "HOL-Library.Multiset"
begin

text \<open>
  \<open>internal/typechecker\<close>: the table of definitions and what is derived from it. Registration (\<open>register.go\<close>,
  \<open>type_registry.go\<close>, \<open>RegisterHashBasedType\<close> of \<open>utils.go\<close>), the index from hashes of shapes to names
  (\<open>shape_alias_index.go\<close>), chains of aliases (\<open>lookup_alias_chain.go\<close>), names of Go types (\<open>receiver_methods.go\<close>) and the choice
  of a named type for a shape literal (\<open>infer_shape.go\<close>). A Go map is a list of entries in the order in which a loop visits
  them.
\<close>

section \<open>State\<close>

datatype def_node = NamedDef TypeIdent TypeDefExpr | GuardNode TypeGuardNode | BareShape ShapeNode

record shapeAliasIndex =
  byShapeHash :: "NodeHash \<rightharpoonup> TypeIdent"
  byAssertionTypeIdent :: "TypeIdent \<rightharpoonup> TypeIdent"

record registry =
  Definitions :: "(TypeIdent \<times> def_node) list"
  hashBasedIdents :: "TypeIdent list"
  aliasIndex :: "shapeAliasIndex option"
  goQualifiedTypeAliases :: "TypeIdent \<rightharpoonup> go_string"
  InferredTypes :: "(NodeHash \<times> TypeNode list) list"

definition def_of :: "registry \<Rightarrow> TypeIdent \<Rightarrow> def_node option" where
  "def_of st = map_of (Definitions st)"

section \<open>The index of shapes (shape\_alias\_index.go)\<close>

definition invalidateShapeAliasIndex :: "registry \<Rightarrow> registry" where
  "invalidateShapeAliasIndex st = st\<lparr>aliasIndex := None\<rparr>"

definition markHashBasedIdent :: "TypeIdent \<Rightarrow> registry \<Rightarrow> registry" where
  "markHashBasedIdent ident st = st\<lparr>hashBasedIdents := ident # hashBasedIdents st\<rparr>"

definition IsHashBasedIdent :: "registry \<Rightarrow> TypeIdent \<Rightarrow> bool" where
  "IsHashBasedIdent st ident \<longleftrightarrow> ident \<in> set (hashBasedIdents st)"

definition setDef :: "TypeIdent \<Rightarrow> def_node \<Rightarrow> registry \<Rightarrow> registry" where
  "setDef ident d st =
     (let st' = st\<lparr>Definitions := AList.update ident d (Definitions st)\<rparr>
      in if \<not> IsHashBasedIdent st ident then invalidateShapeAliasIndex st' else st')"

text \<open>The definitions of the user: neither nameless nor made from a hash.\<close>

definition user_def :: "registry \<Rightarrow> def_node \<Rightarrow> (TypeIdent \<times> TypeDefExpr) option" where
  "user_def st d =
     (case d of
        NamedDef ident e \<Rightarrow> if ident = [] \<or> IsHashBasedIdent st ident then None else Some (ident, e)
      | _ \<Rightarrow> None)"

definition shapeCandidates :: "hash_params \<Rightarrow> registry \<Rightarrow> NodeHash \<Rightarrow> TypeIdent list" where
  "shapeCandidates H st h =
     concat (map (\<lambda>(k, d). case user_def st d of
         Some (ident, e) \<Rightarrow> (case PayloadShape e of Some s \<Rightarrow> if hashShape H s = h then [ident] else [] | None \<Rightarrow> [])
       | None \<Rightarrow> []) (Definitions st))"

definition is_assertion_def :: "TypeDefExpr \<Rightarrow> bool" where
  "is_assertion_def e = (case e of TypeDefAssertionExpr _ \<Rightarrow> True | _ \<Rightarrow> False)"

definition assertionCandidates :: "hash_params \<Rightarrow> registry \<Rightarrow> TypeIdent \<Rightarrow> TypeIdent list" where
  "assertionCandidates H st key =
     concat (map (\<lambda>(k, d). case user_def st d of
         Some (ident, e) \<Rightarrow>
           if is_assertion_def e \<and> ToTypeIdent (hashAssertion H (AssertionNode (Some ident) [] [] [] None)) = key then [ident] else []
       | None \<Rightarrow> []) (Definitions st))"

definition stableTypeIdentWinner :: "TypeIdent list \<Rightarrow> TypeIdent" where
  "stableTypeIdentWinner idents = (case sort idents of [] \<Rightarrow> [] | x # _ \<Rightarrow> x)"

definition winner_of :: "TypeIdent list \<Rightarrow> TypeIdent option" where
  "winner_of idents = (if idents = [] then None else Some (stableTypeIdentWinner idents))"

definition build_index :: "hash_params \<Rightarrow> registry \<Rightarrow> shapeAliasIndex" where
  "build_index H st =
     \<lparr>byShapeHash = \<lambda>h. winner_of (shapeCandidates H st h),
      byAssertionTypeIdent = \<lambda>key. winner_of (assertionCandidates H st key)\<rparr>"

definition shapeAliasIndexOrBuild :: "hash_params \<Rightarrow> registry \<Rightarrow> shapeAliasIndex \<times> registry" where
  "shapeAliasIndexOrBuild H st =
     (case aliasIndex st of
        Some idx \<Rightarrow> (idx, st)
      | None \<Rightarrow> let idx = build_index H st in (idx, st\<lparr>aliasIndex := Some idx\<rparr>))"

definition lookupShapeAliasForHashType :: "hash_params \<Rightarrow> TypeNode \<Rightarrow> registry \<Rightarrow> TypeIdent option \<times> registry" where
  "lookupShapeAliasForHashType H t st =
     (case def_of st (TIdent t) of
        Some (NamedDef _ (TypeDefShapeExpr s)) \<Rightarrow>
          (let (idx, st') = shapeAliasIndexOrBuild H st
           in (case byShapeHash idx (hashShape H s) of
                 Some alias \<Rightarrow> if alias = TIdent t then None else Some alias
               | None \<Rightarrow> None, st'))
      | _ \<Rightarrow> (None, st))"

definition lookupAssertionAliasForHashIdent :: "hash_params \<Rightarrow> TypeIdent \<Rightarrow> registry \<Rightarrow> TypeIdent option \<times> registry" where
  "lookupAssertionAliasForHashIdent H ident st =
     (let (idx, st') = shapeAliasIndexOrBuild H st in (byAssertionTypeIdent idx ident, st'))"

section \<open>Structural identity (type\_registry.go, go\_builtins.go)\<close>

text \<open>The Go functions return the empty name when there is none.\<close>

definition name_or_none :: "TypeIdent option \<Rightarrow> TypeIdent" where
  "name_or_none x = (case x of Some n \<Rightarrow> n | None \<Rightarrow> [])"

definition FindStructurallyIdenticalNamedType :: "hash_params \<Rightarrow> TypeNode \<Rightarrow> registry \<Rightarrow> TypeIdent \<times> registry" where
  "FindStructurallyIdenticalNamedType H t st =
     (if TKind t \<noteq> TypeKindHashBased then ([], st)
      else let (alias, st') = lookupShapeAliasForHashType H t st in (name_or_none alias, st'))"

definition FindAnyStructurallyIdenticalNamedType :: "hash_params \<Rightarrow> ShapeNode \<Rightarrow> registry \<Rightarrow> TypeIdent \<times> registry" where
  "FindAnyStructurallyIdenticalNamedType H s st =
     (let (idx, st') = shapeAliasIndexOrBuild H st in (name_or_none (byShapeHash idx (hashShape H s)), st'))"

fun shapesAreStructurallyIdentical :: "compatible \<Rightarrow> ShapeNode \<Rightarrow> ShapeNode \<Rightarrow> bool compat"
  and fields_identical :: "compatible \<Rightarrow> (go_string \<times> ShapeFieldNode) list \<Rightarrow> (go_string \<times> ShapeFieldNode) list \<Rightarrow> bool compat"
  and field_identical :: "compatible \<Rightarrow> ShapeFieldNode \<Rightarrow> ShapeFieldNode \<Rightarrow> bool compat" where
  "shapesAreStructurallyIdentical rec (ShapeNode fs order base) b =
     (if length fs \<noteq> length (Fields b) then cret False else fields_identical rec fs (Fields b))"
| "fields_identical rec [] gs = cret True"
| "fields_identical rec ((name, f) # fs) gs =
     (case map_of gs name of
        None \<Rightarrow> cret False
      | Some g \<Rightarrow> cand (field_identical rec f g) (fields_identical rec fs gs))"
| "field_identical rec (ShapeFieldNode nd a (Some s) None isM mps mrs emb tag exp) g =
     (case FShape g of Some s' \<Rightarrow> shapesAreStructurallyIdentical rec s s' | None \<Rightarrow> cret False)"
| "field_identical rec (ShapeFieldNode nd a shp (Some t) isM mps mrs emb tag exp) g =
     (case FType g of
        Some t' \<Rightarrow>
          if TIdent t = ''?'' \<or> TIdent t' = ''?'' \<or> TIdent t = TIdent t' then cret True else rec t t'
      | None \<Rightarrow>
          (case (shp, FShape g) of (Some s, Some s') \<Rightarrow> shapesAreStructurallyIdentical rec s s' | _ \<Rightarrow> cret False))"
| "field_identical rec (ShapeFieldNode nd a None None isM mps mrs emb tag exp) g =
     cret (FType g = None \<and> FShape g = None)"

definition UserNamedTypeMatchesShape :: "compatible \<Rightarrow> registry \<Rightarrow> TypeIdent \<Rightarrow> ShapeNode \<Rightarrow> bool compat" where
  "UserNamedTypeMatchesShape rec st ident s =
     (if ident = [] \<or> IsHashBasedIdent st ident then cret False
      else case def_of st ident of
             Some (NamedDef _ e) \<Rightarrow> (case PayloadShape e of Some p \<Rightarrow> shapesAreStructurallyIdentical rec s p | None \<Rightarrow> cret False)
           | _ \<Rightarrow> cret False)"

section \<open>Registration (register.go)\<close>

definition isBuiltinType :: "TypeIdent \<Rightarrow> bool" where
  "isBuiltinType x \<longleftrightarrow> x \<in> {TypeString, TypeInt, TypeFloat, TypeBool, TypeError, TypeVoid, TypePointer, TypeShape, TypeArray, TypeMap,
     TypeObject, TypeResult, TypeTuple, TypeFunc}"

definition ensureTypeKind :: "TypeNode \<Rightarrow> TypeKind \<Rightarrow> TypeNode" where
  "ensureTypeKind t k = (case t of TypeNode ident a ps kd len fps frs \<Rightarrow> TypeNode ident a ps k len fps frs)"

definition normalize_field :: "ShapeFieldNode \<Rightarrow> ShapeFieldNode" where
  "normalize_field f =
     (case f of
        ShapeFieldNode nd a shp (Some t) isM mps mrs emb tag exp \<Rightarrow>
          if TKind t \<noteq> TypeKindHashBased \<and> \<not> isBuiltinType (TIdent t)
          then ShapeFieldNode nd a shp (Some (ensureTypeKind t TypeKindUserDefined)) isM mps mrs emb tag exp else f
      | _ \<Rightarrow> f)"

definition normalizeShapeFieldKinds :: "ShapeNode \<Rightarrow> ShapeNode" where
  "normalizeShapeFieldKinds s = (case s of ShapeNode fs order base \<Rightarrow> ShapeNode (map (map_prod id normalize_field) fs) order base)"

definition registerShapeType :: "TypeIdent \<Rightarrow> ShapeNode \<Rightarrow> registry \<Rightarrow> registry" where
  "registerShapeType ident s st = setDef ident (NamedDef ident (TypeDefShapeExpr (normalizeShapeFieldKinds s))) st"

definition registerErrorNominalType :: "TypeIdent \<Rightarrow> ShapeNode \<Rightarrow> registry \<Rightarrow> registry" where
  "registerErrorNominalType ident payload st = setDef ident (NamedDef ident (TypeDefErrorExpr (normalizeShapeFieldKinds payload))) st"

definition registerGoQualifiedTypeAlias :: "TypeIdent \<Rightarrow> TypeIdent \<Rightarrow> registry \<Rightarrow> registry" where
  "registerGoQualifiedTypeAlias ident base st =
     (if CHR ''.'' \<notin> set base then st else st\<lparr>goQualifiedTypeAliases := (goQualifiedTypeAliases st)(ident \<mapsto> base)\<rparr>)"

text \<open>The shapes in the constraints of an alias of \<open>Shape\<close>, each registered in turn.\<close>

definition constraint_shapes :: "AssertionNode \<Rightarrow> ShapeNode list" where
  "constraint_shapes a =
     concat (map (\<lambda>c. concat (map (\<lambda>arg. case ArgShape arg of Some s \<Rightarrow> [s] | None \<Rightarrow> []) (CArgs c))) (Constraints a))"

definition register_payload :: "TypeIdent \<Rightarrow> TypeDefExpr \<Rightarrow> registry \<Rightarrow> registry" where
  "register_payload ident e st =
     (case e of
        TypeDefAssertionExpr (Some a) \<Rightarrow>
          if BaseType a = Some TypeShape then fold (registerShapeType ident) (constraint_shapes a) st else st
      | TypeDefErrorExpr payload \<Rightarrow> registerErrorNominalType ident payload st
      | TypeDefShapeExpr s \<Rightarrow> registerShapeType ident s st
      | _ \<Rightarrow> st)"

definition register_go_alias :: "TypeIdent \<Rightarrow> TypeDefExpr \<Rightarrow> registry \<Rightarrow> registry" where
  "register_go_alias ident e st =
     (case e of
        TypeDefAssertionExpr (Some a) \<Rightarrow>
          (case BaseType a of
             Some base \<Rightarrow> if Constraints a = [] then registerGoQualifiedTypeAlias ident base st else st
           | None \<Rightarrow> st)
      | _ \<Rightarrow> st)"

definition registerType :: "TypeIdent \<Rightarrow> TypeDefExpr \<Rightarrow> registry \<Rightarrow> registry" where
  "registerType ident e st =
     (if def_of st ident \<noteq> None then st
      else register_go_alias ident e (register_payload ident e (setDef ident (NamedDef ident e) st)))"

definition RegisterTypeIfMissing :: "TypeIdent \<Rightarrow> def_node \<Rightarrow> registry \<Rightarrow> registry" where
  "RegisterTypeIfMissing ident d st = (if def_of st ident \<noteq> None then st else setDef ident d st)"

definition register_guard_def :: "TypeGuardNode \<Rightarrow> registry \<Rightarrow> registry" where
  "register_guard_def g st = (if def_of st (GuardIdent g) \<noteq> None then st else setDef (GuardIdent g) (GuardNode g) st)"

definition RegisterHashBasedType :: "TypeIdent \<Rightarrow> (go_string \<times> ShapeFieldNode) list \<Rightarrow> registry \<Rightarrow> registry" where
  "RegisterHashBasedType ident fs st =
     (if def_of st ident \<noteq> None then st
      else setDef ident (NamedDef ident (TypeDefShapeExpr (ShapeNode fs [] None))) (markHashBasedIdent ident st))"

text \<open>The end of \<open>inferShapeType\<close>: a shape that no named type matches is registered under the name of its hash.\<close>

definition register_inferred_shape :: "hash_params \<Rightarrow> ShapeNode \<Rightarrow> registry \<Rightarrow> TypeNode \<times> registry" where
  "register_inferred_shape H s st =
     (let ident = ToTypeIdent (hashShape H s)
      in (bare_type ident, registerType ident (TypeDefShapeExpr s) (markHashBasedIdent ident st)))"

definition resolveGoQualifiedTypeName :: "registry \<Rightarrow> TypeIdent \<Rightarrow> go_string option" where
  "resolveGoQualifiedTypeName st ident =
     (case goQualifiedTypeAliases st ident of
        Some q \<Rightarrow> Some q
      | None \<Rightarrow>
        if CHR ''.'' \<in> set ident then Some ident
        else case def_of st ident of
               Some (NamedDef _ (TypeDefAssertionExpr (Some a))) \<Rightarrow>
                 (case BaseType a of
                    Some base \<Rightarrow> if Constraints a = [] \<and> CHR ''.'' \<in> set base then Some base else None
                  | None \<Rightarrow> None)
             | _ \<Rightarrow> None)"

definition ProviderContractKey :: "registry \<Rightarrow> TypeNode \<Rightarrow> go_string" where
  "ProviderContractKey st t = (case resolveGoQualifiedTypeName st (TIdent t) of Some q \<Rightarrow> q | None \<Rightarrow> TIdent t)"

section \<open>Named types for shape literals (infer\_shape.go)\<close>

definition is_shape_def :: "TypeDefExpr \<Rightarrow> ShapeNode option" where
  "is_shape_def e = (case e of TypeDefShapeExpr s \<Rightarrow> Some s | _ \<Rightarrow> None)"

definition is_error_def :: "TypeDefExpr \<Rightarrow> ShapeNode option" where
  "is_error_def e = (case e of TypeDefErrorExpr s \<Rightarrow> Some s | _ \<Rightarrow> None)"

fun first_matching :: "compat_env \<Rightarrow> compatible \<Rightarrow> (TypeDefExpr \<Rightarrow> ShapeNode option) \<Rightarrow> ShapeNode \<Rightarrow> (TypeIdent \<times> def_node) list \<Rightarrow>
    TypeIdent option compat" where
  "first_matching E rec payload s [] = cret None"
| "first_matching E rec payload s ((x, d) # ds) =
     (case d of
        NamedDef _ e \<Rightarrow>
          (case payload e of
             Some p \<Rightarrow> cbind (shapesHaveSameStructure E rec s p) (\<lambda>ok. if ok then cret (Some x) else first_matching E rec payload s ds)
           | None \<Rightarrow> first_matching E rec payload s ds)
      | _ \<Rightarrow> first_matching E rec payload s ds)"

definition matchingTypeDefForShapeLiteral :: "compat_env \<Rightarrow> compatible \<Rightarrow> registry \<Rightarrow> ShapeNode \<Rightarrow> TypeIdent compat" where
  "matchingTypeDefForShapeLiteral E rec st s =
     cbind (first_matching E rec is_shape_def s (Definitions st)) (\<lambda>r.
       case r of
         Some x \<Rightarrow> cret x
       | None \<Rightarrow> cbind (first_matching E rec is_error_def s (Definitions st)) (\<lambda>r'. cret (name_or_none r')))"

section \<open>Chains of aliases (lookup\_alias\_chain.go)\<close>

definition alias_base :: "def_node \<Rightarrow> TypeIdent option" where
  "alias_base d = (case d of NamedDef _ (TypeDefAssertionExpr (Some a)) \<Rightarrow> BaseType a | _ \<Rightarrow> None)"

text \<open>The type that follows in the chain, before the test for a cycle.\<close>

definition next_alias :: "hash_params \<Rightarrow> registry \<Rightarrow> TypeNode \<Rightarrow> TypeNode option" where
  "next_alias H st t =
     (case def_of st (TIdent t) of
        None \<Rightarrow> (case map_of (InferredTypes st) (hashType H t) of Some (u # _) \<Rightarrow> Some u | _ \<Rightarrow> None)
      | Some d \<Rightarrow> map_option bare_type (alias_base d))"

text \<open>The names a chain can reach; there are finitely many.\<close>

definition alias_targets :: "registry \<Rightarrow> TypeIdent list" where
  "alias_targets st =
     List.map_filter (alias_base \<circ> snd) (Definitions st) @ concat (map (map TIdent \<circ> snd) (InferredTypes st))"

lemma next_alias_target: "next_alias H st t = Some u \<Longrightarrow> TIdent u \<in> set (alias_targets st)"
  unfolding next_alias_def alias_targets_def def_of_def
  by (force split: option.splits list.splits dest!: map_of_SomeD simp: bare_type_def map_filter_def)

function chain_loop :: "hash_params \<Rightarrow> registry \<Rightarrow> TypeNode \<Rightarrow> TypeNode list \<Rightarrow> TypeNode list" where
  "chain_loop H st current chain =
     (case next_alias H st current of
        None \<Rightarrow> chain
      | Some t \<Rightarrow> if TIdent t \<in> TIdent ` set chain then chain else chain_loop H st t (chain @ [t]))"
  by pat_completeness auto
termination
proof (relation "measure (\<lambda>(H, st, current, chain). card (set (alias_targets st) - TIdent ` set chain))")
  fix H st current chain t
  assume *: "next_alias H st current = Some t" "TIdent t \<notin> TIdent ` set chain"
  have "set (alias_targets st) - TIdent ` set (chain @ [t]) \<subset> set (alias_targets st) - TIdent ` set chain"
    using next_alias_target [OF *(1)] *(2) by auto
  moreover have "finite (set (alias_targets st) - TIdent ` set chain)" by simp
  ultimately show "((H, st, t, chain @ [t]), H, st, current, chain) \<in> measure (\<lambda>(H, st, current, chain). card (set (alias_targets st) - TIdent ` set chain))"
    by (simp add: psubset_card_mono)
qed simp

declare chain_loop.simps [simp del]

definition GetTypeAliasChain :: "hash_params \<Rightarrow> registry \<Rightarrow> TypeNode \<Rightarrow> TypeNode list" where
  "GetTypeAliasChain H st t = chain_loop H st t [t]"

definition GetMostSpecificNonHashAlias :: "hash_params \<Rightarrow> registry \<Rightarrow> TypeNode \<Rightarrow> TypeNode" where
  "GetMostSpecificNonHashAlias H st t =
     (let chain = GetTypeAliasChain H st t
      in case filter (\<lambda>u. TKind u \<noteq> TypeKindHashBased) chain of u # _ \<Rightarrow> u | [] \<Rightarrow> hd chain)"

end
