(* ===== verification/TypeRegistry_Props.thy ===== *)
theory TypeRegistry_Props
  imports TypeRegistry Compat_Props
begin

text \<open>
  What the table of definitions guarantees: the cached index always agrees with the definitions, so that a lookup returns the
  least user name with the hash of the shape; alias chains end; and where names of structural types are confused.
\<close>

section \<open>Runs\<close>

inductive registry_step :: "hash_params \<Rightarrow> registry \<Rightarrow> registry \<Rightarrow> bool" for H where
  register: "registry_step H st (registerType ident e st)"
| missing: "d \<in> {NamedDef ident e, BareShape s} \<Longrightarrow> registry_step H st (RegisterTypeIfMissing ident d st)"
| guard: "registry_step H st (register_guard_def g st)"
| hash_based: "registry_step H st (RegisterHashBasedType ident fs st)"
| inferred: "def_of st (ToTypeIdent (hashShape H s)) = None \<or> IsHashBasedIdent st (ToTypeIdent (hashShape H s)) \<Longrightarrow>
    registry_step H st (snd (register_inferred_shape H s st))"
| find_any: "registry_step H st (snd (FindAnyStructurallyIdenticalNamedType H s st))"
| find: "registry_step H st (snd (FindStructurallyIdenticalNamedType H t st))"
| assertion: "registry_step H st (snd (lookupAssertionAliasForHashIdent H ident st))"

definition new_registry :: registry where
  "new_registry = \<lparr>Definitions = [], hashBasedIdents = [], aliasIndex = None, goQualifiedTypeAliases = Map.empty, InferredTypes = []\<rparr>"

inductive registry_reachable :: "hash_params \<Rightarrow> registry \<Rightarrow> bool" for H where
  start: "registry_reachable H new_registry"
| step: "registry_reachable H st \<Longrightarrow> registry_step H st st' \<Longrightarrow> registry_reachable H st'"

text \<open>Every definition carries the name it is stored under, once, and the index is absent or that of the definitions.\<close>

definition named_right :: "TypeIdent \<times> def_node \<Rightarrow> bool" where
  "named_right kd \<longleftrightarrow> (case snd kd of NamedDef ident e \<Rightarrow> ident = fst kd | _ \<Rightarrow> True)"

definition registry_ok :: "hash_params \<Rightarrow> registry \<Rightarrow> bool" where
  "registry_ok H st \<longleftrightarrow> distinct (map fst (Definitions st)) \<and> list_all named_right (Definitions st) \<and>
     (case aliasIndex st of Some idx \<Rightarrow> idx = build_index H st | None \<Rightarrow> True)"

named_theorems registry_ok_intros

section \<open>The invariant\<close>

lemma user_def_hash_based: "named_right (k, d) \<Longrightarrow> IsHashBasedIdent st k \<Longrightarrow> user_def st d = None"
  by (auto simp: named_right_def user_def_def split: def_node.splits)

lemma user_def_update [simp]: "user_def (st\<lparr>Definitions := ds\<rparr>) = user_def st" "user_def (st\<lparr>aliasIndex := i\<rparr>) = user_def st"
  by (auto simp: user_def_def IsHashBasedIdent_def fun_eq_iff split: def_node.splits)

text \<open>The candidates depend only on the user's definitions, in their order.\<close>

definition user_defs :: "registry \<Rightarrow> (TypeIdent \<times> TypeDefExpr) list" where
  "user_defs st = List.map_filter (user_def st \<circ> snd) (Definitions st)"

lemma candidates_map_filter:
  "concat (map (\<lambda>(k, d). case f d of Some (ident, e) \<Rightarrow> if P ident e then [ident] else [] | None \<Rightarrow> []) ds) =
   map fst (filter (\<lambda>(ident, e). P ident e) (List.map_filter (f \<circ> snd) ds))"
  by (induction ds) (auto simp: map_filter_def split: option.splits)

lemma shapeCandidates_user_defs:
  "shapeCandidates H st h = map fst (filter (\<lambda>(ident, e). case PayloadShape e of Some s \<Rightarrow> hashShape H s = h | None \<Rightarrow> False) (user_defs st))"
proof -
  have *: "(case PayloadShape e of Some s \<Rightarrow> if hashShape H s = h then [ident] else [] | None \<Rightarrow> []) =
      (if (case PayloadShape e of Some s \<Rightarrow> hashShape H s = h | None \<Rightarrow> False) then [ident] else [])" for ident :: TypeIdent and e
    by (simp split: option.split)
  show ?thesis unfolding shapeCandidates_def * user_defs_def by (rule candidates_map_filter)
qed

lemma assertionCandidates_user_defs:
  "assertionCandidates H st key =
   map fst (filter (\<lambda>(ident, e). is_assertion_def e \<and> ToTypeIdent (hashAssertion H (AssertionNode (Some ident) [] [] [] None)) = key) (user_defs st))"
  unfolding assertionCandidates_def user_defs_def by (rule candidates_map_filter)

lemma build_index_user_defs: "user_defs st = user_defs st' \<Longrightarrow> build_index H st = build_index H st'"
  by (simp add: build_index_def shapeCandidates_user_defs assertionCandidates_user_defs)

lemma map_filter_update:
  assumes "f d = None" "list_all (\<lambda>(k', d'). k' = k \<longrightarrow> f d' = None) ds"
  shows "List.map_filter (f \<circ> snd) (AList.update k d ds) = List.map_filter (f \<circ> snd) ds"
  using assms(2) by (induction ds) (use assms(1) in \<open>auto simp: map_filter_def\<close>)

lemma map_filter_cong: "(\<And>x. x \<in> set xs \<Longrightarrow> f x = g x) \<Longrightarrow> List.map_filter f xs = List.map_filter g xs"
  by (induction xs) (auto simp: map_filter_def)

lemma list_all_update: "list_all P ds \<Longrightarrow> P (k, d) \<Longrightarrow> list_all P (AList.update k d ds)"
  by (induction ds) auto

lemma user_defs_setDef:
  assumes "registry_ok H st" "named_right (ident, d)" "IsHashBasedIdent st ident"
  shows "user_defs (st\<lparr>Definitions := AList.update ident d (Definitions st)\<rparr>) = user_defs st"
proof -
  have "list_all (\<lambda>(k', d'). k' = ident \<longrightarrow> user_def st d' = None) (Definitions st)"
    using assms(1,3) user_def_hash_based by (fastforce simp: registry_ok_def list_all_iff)
  then show ?thesis
    using map_filter_update [of "user_def st" d ident] user_def_hash_based [OF assms(2,3)] by (simp add: user_defs_def)
qed

lemma ok_setDef [registry_ok_intros]:
  assumes ok: "registry_ok H st" and d: "named_right (ident, d)"
  shows "registry_ok H (setDef ident d st)"
proof -
  let ?st = "st\<lparr>Definitions := AList.update ident d (Definitions st)\<rparr>"
  have "distinct (map fst (Definitions ?st))" "list_all named_right (Definitions ?st)"
    using ok d by (simp_all add: registry_ok_def distinct_update list_all_update)
  moreover have "build_index H ?st = build_index H st" if "IsHashBasedIdent st ident"
    using user_defs_setDef [OF ok d that] by (rule build_index_user_defs)
  ultimately show ?thesis
    using ok by (auto simp: setDef_def Let_def registry_ok_def invalidateShapeAliasIndex_def split: option.splits)
qed

lemma ok_mark:
  assumes ok: "registry_ok H st" and free: "def_of st ident = None \<or> IsHashBasedIdent st ident"
  shows "registry_ok H (markHashBasedIdent ident st)"
proof -
  have "user_def (markHashBasedIdent ident st) d = user_def st d" if kd: "(k, d) \<in> set (Definitions st)" for k d
  proof (cases d)
    case (NamedDef x e)
    have "x = k" using kd ok NamedDef by (auto simp: registry_ok_def list_all_iff named_right_def)
    moreover have "k \<noteq> ident \<or> IsHashBasedIdent st ident" using kd free by (force simp: def_of_def map_of_eq_None_iff)
    ultimately show ?thesis using NamedDef by (auto simp: user_def_def markHashBasedIdent_def IsHashBasedIdent_def)
  qed (simp_all add: user_def_def)
  then have "user_defs (markHashBasedIdent ident st) = user_defs st"
    unfolding user_defs_def by (auto simp: markHashBasedIdent_def intro!: map_filter_cong)
  then have "build_index H (markHashBasedIdent ident st) = build_index H st" by (rule build_index_user_defs)
  then show ?thesis using ok by (auto simp: registry_ok_def markHashBasedIdent_def split: option.splits)
qed

lemma ok_shape [registry_ok_intros]: "registry_ok H st \<Longrightarrow> registry_ok H (registerShapeType ident s st)"
  by (simp add: registerShapeType_def ok_setDef named_right_def)

lemma ok_shapes [registry_ok_intros]: "registry_ok H st \<Longrightarrow> registry_ok H (fold (registerShapeType ident) ss st)"
  by (induction ss arbitrary: st) (simp_all add: ok_shape)

lemma ok_go_name: "registry_ok H st \<Longrightarrow> registry_ok H (st\<lparr>goQualifiedTypeAliases := m\<rparr>)"
proof -
  have "user_defs (st\<lparr>goQualifiedTypeAliases := m\<rparr>) = user_defs st"
    by (auto simp: user_defs_def user_def_def IsHashBasedIdent_def split: def_node.splits intro!: map_filter_cong)
  then have "build_index H (st\<lparr>goQualifiedTypeAliases := m\<rparr>) = build_index H st" by (rule build_index_user_defs)
  then show "registry_ok H st \<Longrightarrow> ?thesis" by (auto simp: registry_ok_def split: option.splits)
qed

lemma ok_registerType [registry_ok_intros]: "registry_ok H st \<Longrightarrow> registry_ok H (registerType ident e st)"
  by (auto simp: registerType_def register_go_alias_def register_payload_def registerErrorNominalType_def registerGoQualifiedTypeAlias_def
      named_right_def intro!: registry_ok_intros ok_go_name split: TypeDefExpr.splits option.splits)

lemma shapeAliasIndexOrBuild_ok:
  assumes "registry_ok H st"
  shows "fst (shapeAliasIndexOrBuild H st) = build_index H st" "registry_ok H (snd (shapeAliasIndexOrBuild H st))"
proof -
  show "fst (shapeAliasIndexOrBuild H st) = build_index H st"
    using assms by (auto simp: shapeAliasIndexOrBuild_def registry_ok_def Let_def split: option.splits)
  have "user_defs (st\<lparr>aliasIndex := i\<rparr>) = user_defs st" for i by (simp add: user_defs_def)
  then have "build_index H (st\<lparr>aliasIndex := i\<rparr>) = build_index H st" for i by (rule build_index_user_defs)
  then show "registry_ok H (snd (shapeAliasIndexOrBuild H st))"
    using assms by (auto simp: shapeAliasIndexOrBuild_def registry_ok_def Let_def split: option.splits)
qed

lemma ok_step: "registry_step H st st' \<Longrightarrow> registry_ok H st \<Longrightarrow> registry_ok H st'"
proof (induction rule: registry_step.induct)
  case (hash_based st ident fs)
  then show ?case by (auto simp: RegisterHashBasedType_def named_right_def intro!: ok_setDef ok_mark)
next
  case (inferred st s)
  then show ?case by (simp add: register_inferred_shape_def Let_def ok_registerType ok_mark)
next
  case (missing d ident e s st)
  then show ?case by (auto simp: RegisterTypeIfMissing_def named_right_def intro!: ok_setDef)
qed (auto simp: register_guard_def_def FindAnyStructurallyIdenticalNamedType_def FindStructurallyIdenticalNamedType_def lookupShapeAliasForHashType_def
    lookupAssertionAliasForHashIdent_def named_right_def case_prod_unfold Let_def shapeAliasIndexOrBuild_ok
    intro!: registry_ok_intros split: option.splits def_node.splits TypeDefExpr.splits)

lemma ok_reachable: "registry_reachable H st \<Longrightarrow> registry_ok H st"
  by (induction rule: registry_reachable.induct) (auto simp: new_registry_def registry_ok_def dest: ok_step)

section \<open>Lookups\<close>

text \<open>The names of the user's definitions whose shape has a given hash.\<close>

definition names_with_hash :: "hash_params \<Rightarrow> registry \<Rightarrow> NodeHash \<Rightarrow> TypeIdent set" where
  "names_with_hash H st h =
     {x. x \<noteq> [] \<and> \<not> IsHashBasedIdent st x \<and>
         (\<exists>e s. def_of st x = Some (NamedDef x e) \<and> PayloadShape e = Some s \<and> hashShape H s = h)}"

lemma def_of_mem: "registry_ok H st \<Longrightarrow> def_of st x = Some d \<longleftrightarrow> (x, d) \<in> set (Definitions st)"
  by (simp add: def_of_def registry_ok_def map_of_eq_Some_iff)

lemma user_def_Some: "user_def st d = Some (x, e) \<longleftrightarrow> d = NamedDef x e \<and> x \<noteq> [] \<and> \<not> IsHashBasedIdent st x"
  by (cases d) (auto simp: user_def_def)

lemma set_user_defs:
  assumes "registry_ok H st"
  shows "(x, e) \<in> set (user_defs st) \<longleftrightarrow> x \<noteq> [] \<and> \<not> IsHashBasedIdent st x \<and> def_of st x = Some (NamedDef x e)"
proof -
  have named: "ident = k" if "(k, NamedDef ident e) \<in> set (Definitions st)" for k ident e
    using assms that by (auto simp: registry_ok_def list_all_iff named_right_def)
  have "(x, e) \<in> set (user_defs st) \<longleftrightarrow> (\<exists>k d. (k, d) \<in> set (Definitions st) \<and> user_def st d = Some (x, e))"
    by (force simp: user_defs_def map_filter_def)
  also have "\<dots> \<longleftrightarrow> (\<exists>k. (k, NamedDef x e) \<in> set (Definitions st)) \<and> x \<noteq> [] \<and> \<not> IsHashBasedIdent st x"
    by (auto simp: user_def_Some)
  also have "\<dots> \<longleftrightarrow> x \<noteq> [] \<and> \<not> IsHashBasedIdent st x \<and> def_of st x = Some (NamedDef x e)"
    unfolding def_of_mem [OF assms] by (blast dest: named)
  finally show ?thesis .
qed

lemma set_shapeCandidates:
  assumes "registry_ok H st"
  shows "set (shapeCandidates H st h) = names_with_hash H st h"
proof -
  have "x \<in> set (shapeCandidates H st h) \<longleftrightarrow> x \<in> names_with_hash H st h" for x
  proof -
    have "x \<in> set (shapeCandidates H st h) \<longleftrightarrow> (\<exists>e s. (x, e) \<in> set (user_defs st) \<and> PayloadShape e = Some s \<and> hashShape H s = h)"
      by (force simp: shapeCandidates_user_defs split: option.splits)
    then show ?thesis unfolding set_user_defs [OF assms] names_with_hash_def mem_Collect_eq by blast
  qed
  then show ?thesis by blast
qed

lemma winner_Min: "xs \<noteq> [] \<Longrightarrow> stableTypeIdentWinner xs = Min (set xs)"
proof -
  assume "xs \<noteq> []"
  then obtain y ys where ys: "sort xs = y # ys" by (metis list.exhaust set_empty set_sort)
  have "sorted (y # ys)" by (simp flip: ys)
  then have "y = Min (set (y # ys))" by (auto intro!: Min_eqI [symmetric])
  then show ?thesis by (metis list.simps(5) set_sort stableTypeIdentWinner_def ys)
qed

lemma FindAny_of_ok:
  assumes "registry_ok H st"
  shows "fst (FindAnyStructurallyIdenticalNamedType H s st) =
    (let names = names_with_hash H st (hashShape H s) in if names = {} then [] else Min names)"
  using shapeAliasIndexOrBuild_ok(1) [OF assms] set_shapeCandidates [OF assms, of "hashShape H s"]
  by (auto simp: FindAnyStructurallyIdenticalNamedType_def case_prod_unfold build_index_def winner_of_def name_or_none_def Let_def winner_Min
      simp flip: set_empty)


definition typed_shape :: "go_string \<Rightarrow> TypeIdent \<Rightarrow> ShapeNode" where
  "typed_shape field ty = ShapeNode [(field, ShapeFieldNode None None None (Some (NewBuiltinType ty)) False [] [] False [] False)] [field] None"

definition no_floats :: hash_params where
  "no_floats = \<lparr>Float64bits = \<lambda>_. 0, LiteralBody = \<lambda>_ _. 0\<rparr>"

definition one_type :: "TypeIdent \<Rightarrow> ShapeNode \<Rightarrow> registry" where
  "one_type x s = registerType x (TypeDefShapeExpr s) new_registry"

lemma one_type_reachable: "registry_reachable H (one_type x s)"
  unfolding one_type_def by (rule registry_reachable.step [OF registry_reachable.start registry_step.register])

lemma typed_shape_hash: "hashShape H (normalizeShapeFieldKinds (typed_shape f ty)) = hashShape H (typed_shape f ty')"
  by (simp add: normalizeShapeFieldKinds_def typed_shape_def normalize_field_def)

lemma one_type_names:
  "x \<noteq> [] \<Longrightarrow> names_with_hash H (one_type x (typed_shape f ty)) (hashShape H (typed_shape f ty')) = {x}"
  by (auto simp: names_with_hash_def one_type_def registerType_def register_go_alias_def register_payload_def registerShapeType_def
      setDef_def invalidateShapeAliasIndex_def IsHashBasedIdent_def def_of_def new_registry_def Let_def PayloadShape_def typed_shape_hash)


lemma confused_name:
  "fst (FindAnyStructurallyIdenticalNamedType H (typed_shape f ty') (one_type ''P'' (typed_shape f ty))) = ''P''"
  using ok_reachable [OF one_type_reachable] by (simp add: FindAny_of_ok one_type_names)

text \<open>C35. A shape is taken for a named type with the same field names but other field types, although the structural comparison
  refuses it: types of fields are not part of the hash.\<close>

theorem FindAny_confuses_field_types:
  "fst (FindAnyStructurallyIdenticalNamedType H (typed_shape ''a'' TypeString) (one_type ''P'' (typed_shape ''a'' TypeInt))) = ''P'' \<and>
   map_option fst (shapesAreStructurallyIdentical (isTypeCompatible 1 (plain_env Map.empty)) (typed_shape ''a'' TypeString)
     (typed_shape ''a'' TypeInt) Map.empty) = Some False"
proof (rule conjI [OF confused_name])
  show "map_option fst (shapesAreStructurallyIdentical (isTypeCompatible 1 (plain_env Map.empty)) (typed_shape ''a'' TypeString)
     (typed_shape ''a'' TypeInt) Map.empty) = Some False"
    by code_simp
qed

section \<open>Alias chains\<close>

lemma chain_loop_ok:
  "chain \<noteq> [] \<Longrightarrow> last chain = current \<Longrightarrow> distinct (map TIdent chain) \<Longrightarrow> successively (\<lambda>a b. next_alias H st a = Some b) chain \<Longrightarrow>
   (let r = chain_loop H st current chain in
    distinct (map TIdent r) \<and> successively (\<lambda>a b. next_alias H st a = Some b) r \<and> r \<noteq> [] \<and> hd r = hd chain \<and>
    (case next_alias H st (last r) of None \<Rightarrow> True | Some u \<Rightarrow> TIdent u \<in> set (map TIdent r)))"
proof (induction H st current chain rule: chain_loop.induct)
  case (1 H st current chain)
  show ?case
  proof (cases "\<exists>t. next_alias H st current = Some t \<and> TIdent t \<notin> TIdent ` set chain")
    case True
    then obtain t where t: "next_alias H st current = Some t" "TIdent t \<notin> TIdent ` set chain" by blast
    then have "chain_loop H st current chain = chain_loop H st t (chain @ [t])" by (simp add: chain_loop.simps [of H st current])
    moreover have "distinct (map TIdent (chain @ [t]))" "successively (\<lambda>a b. next_alias H st a = Some b) (chain @ [t])"
      using 1(2-5) t by (auto simp: successively_append_iff)
    ultimately show ?thesis using 1(1) [OF t] 1(2) by simp
  next
    case False
    then have "chain_loop H st current chain = chain"
      by (auto simp: chain_loop.simps [of H st current] split: option.splits)
    then show ?thesis using 1(2-5) False by (auto split: option.splits)
  qed
qed

text \<open>C25. The chain of aliases of a type starts with the type, follows definitions and inferred types step by step, has no
  name twice and is complete: it ends where there is no further alias or the next name is already in the chain.\<close>

theorem GetTypeAliasChain_complete:
  "let chain = GetTypeAliasChain H st t in
   chain \<noteq> [] \<and> hd chain = t \<and> distinct (map TIdent chain) \<and> successively (\<lambda>a b. next_alias H st a = Some b) chain \<and>
   (case next_alias H st (last chain) of None \<Rightarrow> True | Some u \<Rightarrow> TIdent u \<in> set (map TIdent chain))"
  using chain_loop_ok [of "[t]" t H st] by (simp add: GetTypeAliasChain_def Let_def)

section \<open>Named types for literals\<close>

definition with_defs :: "(TypeIdent \<times> def_node) list \<Rightarrow> registry" where
  "with_defs ds = new_registry\<lparr>Definitions := ds\<rparr>"


end
