(* ===== verification/Reload.thy ===== *)
theory Reload
  imports Prelude "HOL-Library.Word"
begin

text \<open>
  Reloading a running program: the coordinator of \<open>internal/reload\<close> that drains invocations before code is regenerated, the
  gate of \<open>invokeserver/middleware.go\<close> in front of every invocation, the coalescer of \<open>devserver/reload_coalescer.go\<close> that runs
  reloads one after the other, and the cache of emitted functions of \<open>compileplan/cache.go\<close>. Code between a lock and its unlock
  is one step; the steps of different goroutines interleave freely.
\<close>

section \<open>The coordinator (reload/coordinator.go)\<close>

datatype State = StateReady | StateDraining | StateRegenerating | StateDegraded

datatype wait_error = ErrNotReady | DegradedError go_string

record ReloadCoordinator =
  phase :: State
  generation :: "64 word"
  degraded :: "go_string option"
  inFlightN :: int

definition NewCoordinator :: ReloadCoordinator where
  "NewCoordinator = \<lparr>phase = StateReady, generation = 0, degraded = None, inFlightN = 0\<rparr>"

definition State_String :: "State \<Rightarrow> go_string" where
  "State_String s =
     (case s of StateReady \<Rightarrow> ''ready'' | StateDraining \<Rightarrow> ''draining'' | StateRegenerating \<Rightarrow> ''regenerating''
      | StateDegraded \<Rightarrow> ''degraded'')"

text \<open>\<open>BeginDrain\<close> up to the wait: an error, or the prior phase.\<close>

definition BeginDrain :: "ReloadCoordinator \<Rightarrow> go_string + State \<times> ReloadCoordinator" where
  "BeginDrain c =
     (if phase c \<noteq> StateReady \<and> phase c \<noteq> StateDegraded then Inl (''cannot drain: state '' @ State_String (phase c))
      else Inr (phase c, c\<lparr>phase := StateDraining\<rparr>))"

definition drain_done :: "ReloadCoordinator \<Rightarrow> bool" where
  "drain_done c \<longleftrightarrow> \<not> inFlightN c > 0"

definition drain_cancelled :: "State \<Rightarrow> ReloadCoordinator \<Rightarrow> ReloadCoordinator" where
  "drain_cancelled prior c = c\<lparr>phase := prior\<rparr>"

definition drain_finished :: "ReloadCoordinator \<Rightarrow> ReloadCoordinator" where
  "drain_finished c = c\<lparr>phase := StateRegenerating\<rparr>"

definition WaitReady :: "ReloadCoordinator \<Rightarrow> wait_error option" where
  "WaitReady c =
     (case phase c of
        StateReady \<Rightarrow> None
      | StateDegraded \<Rightarrow> map_option DegradedError (degraded c)
      | StateDraining \<Rightarrow> Some ErrNotReady
      | StateRegenerating \<Rightarrow> Some ErrNotReady)"

definition SetState :: "State \<Rightarrow> go_string option \<Rightarrow> ReloadCoordinator \<Rightarrow> ReloadCoordinator" where
  "SetState s err c =
     (let c1 = c\<lparr>phase := s\<rparr>;
          c2 = (if s = StateDegraded then c1\<lparr>degraded := err\<rparr> else c1)
      in if s = StateReady then c2\<lparr>generation := generation c2 + 1, degraded := None\<rparr> else c2)"

definition track_enter :: "ReloadCoordinator \<Rightarrow> ReloadCoordinator" where
  "track_enter c = c\<lparr>inFlightN := inFlightN c + 1\<rparr>"

definition track_exit :: "ReloadCoordinator \<Rightarrow> ReloadCoordinator" where
  "track_exit c = c\<lparr>inFlightN := inFlightN c - 1\<rparr>"

section \<open>Invocations behind the gate (invokeserver/middleware.go)\<close>

text \<open>A call of \<open>BeginDrain\<close> that waits for the invocations, or has seen none left and is about to finish.\<close>

datatype drain = Waiting State | Drained State

text \<open>\<open>admitted\<close> counts the invocations that \<open>WaitReady\<close> has let through and that \<open>TrackInFlight\<close> does not count yet; \<open>running\<close>
  those inside \<open>TrackInFlight\<close>.\<close>

record gate =
  coord :: ReloadCoordinator
  admitted :: nat
  running :: nat
  drains :: "drain list"

definition new_gate :: gate where
  "new_gate = \<lparr>coord = NewCoordinator, admitted = 0, running = 0, drains = []\<rparr>"

definition gate_enter :: "gate \<Rightarrow> gate" where
  "gate_enter g = g\<lparr>coord := track_enter (coord g), admitted := admitted g - 1, running := running g + 1\<rparr>"

definition gate_exit :: "gate \<Rightarrow> gate" where
  "gate_exit g = g\<lparr>coord := track_exit (coord g), running := running g - 1\<rparr>"

text \<open>The steps with which invocations end and drains proceed.\<close>

inductive settle_step :: "gate \<Rightarrow> gate \<Rightarrow> bool" where
  exit: "running g > 0 \<Longrightarrow> settle_step g (gate_exit g)"
| drained: "drains g = xs @ Waiting p # ys \<Longrightarrow> drain_done (coord g) \<Longrightarrow> settle_step g (g\<lparr>drains := xs @ Drained p # ys\<rparr>)"
| finish: "drains g = xs @ Drained p # ys \<Longrightarrow> settle_step g (g\<lparr>coord := drain_finished (coord g), drains := xs @ ys\<rparr>)"

text \<open>All steps: also new invocations, new drains, cancelled drains and changes of the phase from outside.\<close>

inductive gate_step :: "gate \<Rightarrow> gate \<Rightarrow> bool" where
  settle: "settle_step g g' \<Longrightarrow> gate_step g g'"
| admit: "WaitReady (coord g) = None \<Longrightarrow> gate_step g (g\<lparr>admitted := admitted g + 1\<rparr>)"
| enter: "admitted g > 0 \<Longrightarrow> gate_step g (gate_enter g)"
| drain: "BeginDrain (coord g) = Inr (prior, c) \<Longrightarrow> gate_step g (g\<lparr>coord := c, drains := drains g @ [Waiting prior]\<rparr>)"
| cancel: "drains g = xs @ d # ys \<Longrightarrow> d \<in> {Waiting p, Drained p} \<Longrightarrow>
    gate_step g (g\<lparr>coord := drain_cancelled p (coord g), drains := xs @ ys\<rparr>)"
| set_state: "gate_step g (g\<lparr>coord := SetState s err (coord g)\<rparr>)"

inductive gate_reachable :: "gate \<Rightarrow> bool" where
  start: "gate_reachable new_gate"
| step: "gate_reachable g \<Longrightarrow> gate_step g g' \<Longrightarrow> gate_reachable g'"

text \<open>The coordinator counts exactly the invocations that run.\<close>

definition counted :: "gate \<Rightarrow> bool" where
  "counted g \<longleftrightarrow> inFlightN (coord g) = int (running g)"

lemma settle_counted: "settle_step g g' \<Longrightarrow> counted g \<Longrightarrow> counted g'"
  by (induction rule: settle_step.induct) (auto simp: counted_def gate_exit_def track_exit_def drain_finished_def)

lemma gate_step_counted: "gate_step g g' \<Longrightarrow> counted g \<Longrightarrow> counted g'"
  by (induction rule: gate_step.induct)
    (auto simp: counted_def settle_counted [unfolded counted_def] gate_enter_def track_enter_def BeginDrain_def drain_cancelled_def SetState_def Let_def
      split: if_splits)

lemma reachable_counted: "gate_reachable g \<Longrightarrow> counted g"
proof (induction rule: gate_reachable.induct)
  case start
  then show ?case by (simp add: counted_def new_gate_def NewCoordinator_def)
qed (rule gate_step_counted)

text \<open>How many steps are left until every drain has finished.\<close>

definition drain_rank :: "drain \<Rightarrow> nat" where
  "drain_rank d = (case d of Waiting _ \<Rightarrow> 2 | Drained _ \<Rightarrow> 1)"

definition gate_rank :: "gate \<Rightarrow> nat" where
  "gate_rank g = running g + sum_list (map drain_rank (drains g))"

lemma settle_decreases: "settle_step g g' \<Longrightarrow> gate_rank g' < gate_rank g"
  by (induction rule: settle_step.induct) (auto simp: gate_rank_def gate_exit_def drain_rank_def)

lemma settle_enabled:
  assumes "counted g" "drains g \<noteq> []"
  shows "\<exists>g'. settle_step g g'"
proof (cases "running g > 0")
  case True
  then show ?thesis by (blast intro: settle_step.exit)
next
  case False
  then have "drain_done (coord g)" using assms(1) by (simp add: drain_done_def counted_def)
  moreover obtain d ds where "drains g = [] @ d # ds" using assms(2) by (cases "drains g") auto
  ultimately show ?thesis by (cases d) (blast intro: settle_step.drained settle_step.finish)+
qed

lemma settle_run: "(settle_step ^^ n) g g' \<Longrightarrow> gate_rank g' + n \<le> gate_rank g \<and> (counted g \<longrightarrow> counted g')"
proof (induction n arbitrary: g')
  case (Suc n)
  then obtain g1 where "(settle_step ^^ n) g g1" "settle_step g1 g'" by auto
  then show ?case using Suc.IH [of g1] settle_decreases [of g1 g'] settle_counted [of g1 g'] by auto
qed simp


definition draining_gate :: gate where
  "draining_gate = \<lparr>coord = NewCoordinator\<lparr>phase := StateDraining\<rparr>, admitted = 0, running = 0, drains = [Waiting StateReady]\<rparr>"

lemma draining_reachable: "gate_reachable draining_gate"
proof -
  have "gate_step new_gate (new_gate\<lparr>coord := NewCoordinator\<lparr>phase := StateDraining\<rparr>, drains := drains new_gate @ [Waiting StateReady]\<rparr>)"
    by (rule gate_step.drain) (simp add: BeginDrain_def new_gate_def NewCoordinator_def)
  then show ?thesis using gate_reachable.step [OF gate_reachable.start] by (simp add: draining_gate_def new_gate_def)
qed



section \<open>The coalescer (devserver/reload\_coalescer.go)\<close>

text \<open>
  Where a goroutine that reloads is: about to call \<open>fn\<close>, inside it, or about to take the lock after it. \<open>owed\<close> is a ghost: a call
  of \<open>schedule\<close> since \<open>fn\<close> was last started.
\<close>

datatype reloader = Starting | Inside | Deciding

record reloadCoalescer =
  busy :: bool
  pending :: bool
  reloaders :: "reloader list"
  owed :: bool

definition newReloadCoalescer :: reloadCoalescer where
  "newReloadCoalescer = \<lparr>busy = False, pending = False, reloaders = [], owed = False\<rparr>"

definition runSync :: "reloadCoalescer \<Rightarrow> reloadCoalescer" where
  "runSync c = c\<lparr>busy := True, reloaders := Starting # reloaders c\<rparr>"

definition schedule :: "reloadCoalescer \<Rightarrow> bool \<times> reloadCoalescer" where
  "schedule c =
     (if busy c then (False, c\<lparr>pending := True, owed := True\<rparr>)
      else (True, c\<lparr>busy := True, reloaders := Starting # reloaders c, owed := True\<rparr>))"

text \<open>What follows \<open>fn\<close>, in the loop and in the deferred function of \<open>runSync\<close> alike.\<close>

definition decide :: "reloader list \<Rightarrow> reloader list \<Rightarrow> reloadCoalescer \<Rightarrow> reloadCoalescer" where
  "decide xs ys c =
     (if \<not> pending c then c\<lparr>busy := False, reloaders := xs @ ys\<rparr>
      else c\<lparr>pending := False, reloaders := xs @ Starting # ys\<rparr>)"

inductive reload_step :: "reloadCoalescer \<Rightarrow> reloadCoalescer \<Rightarrow> bool" where
  begins: "reloaders c = xs @ Starting # ys \<Longrightarrow> reload_step c (c\<lparr>reloaders := xs @ Inside # ys, owed := False\<rparr>)"
| ends: "reloaders c = xs @ Inside # ys \<Longrightarrow> reload_step c (c\<lparr>reloaders := xs @ Deciding # ys\<rparr>)"
| decides: "reloaders c = xs @ Deciding # ys \<Longrightarrow> reload_step c (decide xs ys c)"

text \<open>The dev server calls \<open>runSync\<close> at startup, before anything is scheduled.\<close>

inductive coalescer_reachable :: "reloadCoalescer \<Rightarrow> bool" where
  new: "coalescer_reachable newReloadCoalescer"
| startup: "coalescer_reachable (runSync newReloadCoalescer)"
| schedules: "coalescer_reachable c \<Longrightarrow> coalescer_reachable (snd (schedule c))"
| reloads: "coalescer_reachable c \<Longrightarrow> reload_step c c' \<Longrightarrow> coalescer_reachable c'"

definition serial :: "reloadCoalescer \<Rightarrow> bool" where
  "serial c \<longleftrightarrow> length (reloaders c) = (if busy c then 1 else 0) \<and> (pending c \<longrightarrow> busy c) \<and> (owed c \<longrightarrow> pending c \<or> reloaders c = [Starting])"

lemma serial_step: "reload_step c c' \<Longrightarrow> serial c \<Longrightarrow> serial c'"
  by (induction rule: reload_step.induct) (auto simp: serial_def decide_def split: if_splits)

lemma reachable_serial: "coalescer_reachable c \<Longrightarrow> serial c"
proof (induction rule: coalescer_reachable.induct)
  case (schedules c)
  then show ?case by (auto simp: serial_def schedule_def split: if_splits)
next
  case (reloads c c')
  then show ?case by (blast intro: serial_step)
qed (simp_all add: serial_def newReloadCoalescer_def runSync_def)

text \<open>How many steps of the goroutine are left before \<open>fn\<close> starts again.\<close>

definition reload_rank :: "reloadCoalescer \<Rightarrow> nat" where
  "reload_rank c = (case reloaders c of Starting # _ \<Rightarrow> 1 | Deciding # _ \<Rightarrow> 2 | Inside # _ \<Rightarrow> 3 | [] \<Rightarrow> 0)"

lemma serial_progress:
  assumes "serial c" "owed c"
  shows "\<exists>c'. reload_step c c'" "reload_step c c' \<Longrightarrow> \<not> owed c' \<or> reload_rank c' < reload_rank c"
proof -
  have "reloaders c \<noteq> []" using assms by (auto simp: serial_def split: if_splits)
  then obtain r rs where "reloaders c = [] @ r # rs" by (cases "reloaders c") auto
  then show "\<exists>c'. reload_step c c'" by (cases r) (blast intro: reload_step.intros)+
  show "\<not> owed c' \<or> reload_rank c' < reload_rank c" if "reload_step c c'"
    using that assms
    by (cases rule: reload_step.cases) (auto simp: serial_def reload_rank_def decide_def Cons_eq_append_conv append_eq_Cons_conv split: if_splits)
qed

lemma reload_run: "(reload_step ^^ n) c c' \<Longrightarrow> serial c \<Longrightarrow> serial c'"
  by (induction n arbitrary: c') (auto simp: serial_step)



text \<open>Called while a reload runs, \<open>runSync\<close> starts a second one beside it.\<close>

theorem runSync_not_serial:
  "reloaders (runSync (snd (schedule newReloadCoalescer))) = [Starting, Starting]"
  by (simp add: runSync_def schedule_def newReloadCoalescer_def)

section \<open>Emitted functions (compileplan/cache.go)\<close>

record MemoryFunctionCache =
  items :: "64 word \<times> go_string \<times> go_string \<rightharpoonup> go_string"
  cacheGen :: "64 word"

definition NewMemoryFunctionCache :: MemoryFunctionCache where
  "NewMemoryFunctionCache = \<lparr>items = Map.empty, cacheGen = 0\<rparr>"

definition Get :: "MemoryFunctionCache \<Rightarrow> 64 word \<Rightarrow> go_string \<Rightarrow> go_string \<Rightarrow> go_string option" where
  "Get c gen pkg fn = (if gen < cacheGen c then None else items c (gen, pkg, fn))"

definition Put :: "64 word \<Rightarrow> go_string \<Rightarrow> go_string \<Rightarrow> go_string \<Rightarrow> MemoryFunctionCache \<Rightarrow> MemoryFunctionCache" where
  "Put gen pkg fn code c = (if gen < cacheGen c then c else c\<lparr>items := (items c)((gen, pkg, fn) \<mapsto> code)\<rparr>)"

definition Invalidate_cache :: "64 word \<Rightarrow> MemoryFunctionCache \<Rightarrow> MemoryFunctionCache" where
  "Invalidate_cache g c = (if g \<le> cacheGen c then c else c\<lparr>cacheGen := g, items := Map.empty\<rparr>)"

text \<open>An interface that \<open>CompiledFunctionCache\<close> describes: what is put is found until the cache moves on to a later generation,
  and nothing of an earlier generation is ever found.\<close>

locale function_cache =
  fixes get :: "'c \<Rightarrow> 64 word \<Rightarrow> go_string \<Rightarrow> go_string \<Rightarrow> go_string option"
    and put :: "64 word \<Rightarrow> go_string \<Rightarrow> go_string \<Rightarrow> go_string \<Rightarrow> 'c \<Rightarrow> 'c"
    and drop_until :: "64 word \<Rightarrow> 'c \<Rightarrow> 'c"
    and current :: "'c \<Rightarrow> 64 word"
  assumes get_put: "get (put gen pkg fn code c) gen' pkg' fn' =
      (if current c \<le> gen \<and> (gen', pkg', fn') = (gen, pkg, fn) then Some code else get c gen' pkg' fn')"
    and get_drop: "get (drop_until g c) gen pkg fn = (if g \<le> current c then get c gen pkg fn else None)"
    and current_put: "current (put gen pkg fn code c) = current c"
    and current_drop: "current (drop_until g c) = max (current c) g"
    and get_stale: "gen < current c \<Longrightarrow> get c gen pkg fn = None"
begin

definition run :: "(64 word \<times> (go_string \<times> go_string \<times> go_string) option) list \<Rightarrow> 'c \<Rightarrow> 'c" where
  "run = fold (\<lambda>(g, p). case p of Some (pkg, fn, code) \<Rightarrow> put g pkg fn code | None \<Rightarrow> drop_until g)"

lemma current_run: "current (run ops c) = fold (\<lambda>(g, p) m. if p = None then max m g else m) ops (current c)"
  unfolding run_def by (induction ops arbitrary: c) (auto simp: current_put current_drop split: option.splits)

lemma fold_max_ge: "m \<le> fold (\<lambda>(g, p) m. if p = None then max m g else m) ops (m :: 64 word)"
proof (induction ops arbitrary: m)
  case (Cons op ops)
  obtain g p where "op = (g, p)" by (cases op)
  then show ?case using Cons [of "if p = None then max m g else m"] by (auto split: if_splits intro: order.trans)
qed simp

lemma stale_after_run: "current c \<le> g \<Longrightarrow> gen < g \<Longrightarrow> get (run ops (drop_until g c)) gen pkg fn = None"
  using fold_max_ge [of "max (current c) g" ops] by (intro get_stale) (auto simp: current_run current_drop max_def split: if_splits)

end

interpretation memory_cache: function_cache Get Put Invalidate_cache cacheGen
  by unfold_locales (auto simp: Get_def Put_def Invalidate_cache_def max_def not_le)

text \<open>C26. After the cache is invalidated up to a generation, no code of an earlier generation is returned any more, whatever is
  stored or invalidated later.\<close>

theorem stale_code_never_returned:
  assumes "cacheGen c \<le> g" "gen < g"
  shows "Get (fold (\<lambda>(g, p). case p of Some (pkg, fn, code) \<Rightarrow> Put g pkg fn code | None \<Rightarrow> Invalidate_cache g) ops (Invalidate_cache g c)) gen pkg fn = None"
  using memory_cache.stale_after_run [OF assms] by (simp add: memory_cache.run_def)

theorem stale_code_never_returned_witness:
  "Get (fold (\<lambda>(g, p). case p of Some (pkg, fn, code) \<Rightarrow> Put g pkg fn code | None \<Rightarrow> Invalidate_cache g)
     [(1, Some (''auth'', ''Expire'', ''late''))] (Invalidate_cache 2 (Put 1 ''auth'' ''Expire'' ''v1'' NewMemoryFunctionCache))) 1 ''auth'' ''Expire'' = None"
  by (rule stale_code_never_returned) (simp_all add: Put_def NewMemoryFunctionCache_def)

end
