(* ===== verification/InvokeAuth.thy ===== *)
theory InvokeAuth
  imports Prelude "HOL-Library.Word" "HOL-Library.AList"
begin

text \<open>
  \<open>internal/invokeserver\<close>: who may invoke functions of a running program. Single-use nonces (\<open>nonce_store.go\<close>), backoff after failed
  attempts (\<open>failed_auth_backoff.go\<close>), the secret and its generation (\<open>auth_state.go\<close>), proofs (\<open>invoke_proof.go\<close>), the check in
  front of every request (\<open>auth_middleware.go\<close>), challenges (\<open>server.go\<close>), the limit of concurrent invocations
  (\<open>rate_limit.go\<close>) and the clean-up of error texts (\<open>error_sanitize.go\<close>). Times are nanoseconds, byte strings are strings.
  Arguments stand for HMAC-SHA256, base64 and random bytes; what the operating system says about the peer comes with the
  request.
\<close>

section \<open>Nonces (nonce\_store.go)\<close>

type_synonym time = int

definition second :: time where
  "second = 1000000000"

definition millisecond :: time where
  "millisecond = 1000000"

definition maxOutstandingNonces :: nat where
  "maxOutstandingNonces = 1024"

record nonceStore =
  entries :: "(go_string \<times> time) list"
  ttl :: time

definition newNonceStore :: "time \<Rightarrow> nonceStore" where
  "newNonceStore t = \<lparr>entries = [], ttl = (if t \<le> 0 then 30 * second else t)\<rparr>"

definition sweepExpiredLocked :: "time \<Rightarrow> nonceStore \<Rightarrow> nonceStore" where
  "sweepExpiredLocked now s = s\<lparr>entries := filter (\<lambda>(n, expiresAt). \<not> now > expiresAt) (entries s)\<rparr>"

text \<open>\<open>rnd\<close> is the encoded random text, \<open>None\<close> when no random bytes could be read.\<close>

definition issue :: "go_string option \<Rightarrow> time \<Rightarrow> nonceStore \<Rightarrow> (go_string + go_string \<times> time) \<times> nonceStore" where
  "issue rnd now s =
     (let s1 = sweepExpiredLocked now s
      in if length (entries s1) \<ge> maxOutstandingNonces then (Inl ''too many outstanding invoke nonces'', s1)
         else case rnd of
                None \<Rightarrow> (Inl ''issue invoke nonce'', s1)
              | Some nonce \<Rightarrow> (Inr (nonce, now + ttl s1), s1\<lparr>entries := AList.update nonce (now + ttl s1) (entries s1)\<rparr>))"

definition consume :: "go_string \<Rightarrow> time \<Rightarrow> nonceStore \<Rightarrow> bool \<times> nonceStore" where
  "consume nonce now s =
     (let s1 = sweepExpiredLocked now s
      in case map_of (entries s1) nonce of
           None \<Rightarrow> (False, s1)
         | Some expiresAt \<Rightarrow> (\<not> now > expiresAt, s1\<lparr>entries := AList.delete nonce (entries s1)\<rparr>))"

section \<open>Backoff (failed\_auth\_backoff.go)\<close>

text \<open>The zero time of a peer that is not blocked yet is \<open>None\<close>.\<close>

record peerBackoffState =
  failures :: int
  blockedUntil :: "time option"

type_synonym failedAuthLimiter = "go_string \<rightharpoonup> peerBackoffState"

definition Allow :: "failedAuthLimiter \<Rightarrow> go_string \<Rightarrow> time \<Rightarrow> bool" where
  "Allow l peer now =
     (case l peer of
        None \<Rightarrow> True
      | Some st \<Rightarrow> (case blockedUntil st of Some t \<Rightarrow> \<not> now < t | None \<Rightarrow> True))"

definition backoff_time :: "int \<Rightarrow> time" where
  "backoff_time shift = min (100 * millisecond * 2 ^ nat (min shift 10)) (30 * second)"

definition RecordFailure :: "go_string \<Rightarrow> time \<Rightarrow> failedAuthLimiter \<Rightarrow> failedAuthLimiter" where
  "RecordFailure peer now l =
     (let st = (case l peer of Some st \<Rightarrow> st | None \<Rightarrow> \<lparr>failures = 0, blockedUntil = None\<rparr>);
          st1 = st\<lparr>failures := failures st + 1\<rparr>;
          shift = failures st1 - 5
      in if shift < 0 then l(peer \<mapsto> st1)
         else l(peer \<mapsto> st1\<lparr>blockedUntil := Some (now + backoff_time shift)\<rparr>))"

definition Reset :: "go_string \<Rightarrow> failedAuthLimiter \<Rightarrow> failedAuthLimiter" where
  "Reset peer l = l(peer := None)"

section \<open>The secret (auth\_state.go)\<close>

record authState =
  authGeneration :: "64 word"
  token :: go_string

definition newAuthState :: authState where
  "newAuthState = \<lparr>authGeneration = 0, token = []\<rparr>"

definition rotate :: "go_string \<Rightarrow> authState \<Rightarrow> 64 word \<times> authState" where
  "rotate newToken a = (let a' = a\<lparr>token := newToken, authGeneration := authGeneration a + 1\<rparr> in (authGeneration a', a'))"

definition initToken :: "go_string option \<Rightarrow> authState \<Rightarrow> go_string + authState" where
  "initToken rnd a = (case rnd of Some t \<Rightarrow> Inr (snd (rotate t a)) | None \<Rightarrow> Inl ''generate invoke token'')"

definition install :: "64 word \<Rightarrow> go_string \<Rightarrow> authState \<Rightarrow> authState" where
  "install gen newToken a =
     a\<lparr>token := newToken, authGeneration := (if gen = 0 then authGeneration a + 1 else gen)\<rparr>"

definition snapshot :: "authState \<Rightarrow> 64 word \<times> go_string" where
  "snapshot a = (authGeneration a, token a)"

section \<open>Proofs (invoke\_proof.go)\<close>

text \<open>The HMAC of a message under a key, and decoding of unpadded base64 text.\<close>

record crypto =
  hmac :: "go_string \<Rightarrow> go_string \<Rightarrow> go_string"
  b64decode :: "go_string \<Rightarrow> go_string option"

definition invokeProofMessage :: "64 word \<Rightarrow> go_string \<Rightarrow> go_string" where
  "invokeProofMessage gen nonce = ''forst-invoke-v1'' @ ''|'' @ dec_nat (unat gen) @ ''|'' @ nonce"

definition computeInvokeProof :: "crypto \<Rightarrow> go_string \<Rightarrow> 64 word \<Rightarrow> go_string \<Rightarrow> go_string" where
  "computeInvokeProof C key gen nonce = hmac C key (invokeProofMessage gen nonce)"

text \<open>\<open>copy\<close> into a buffer of \<open>n\<close> zero bytes.\<close>

definition padded :: "nat \<Rightarrow> go_string \<Rightarrow> go_string" where
  "padded n s = take n s @ replicate (n - length s) (CHR 0x00)"

definition verifyInvokeProof :: "crypto \<Rightarrow> go_string \<Rightarrow> 64 word \<Rightarrow> go_string \<Rightarrow> go_string \<Rightarrow> bool" where
  "verifyInvokeProof C key gen nonce candidate64 \<longleftrightarrow>
     (let expected = computeInvokeProof C key gen nonce;
          candidate = (case b64decode C candidate64 of Some s \<Rightarrow> s | None \<Rightarrow> padded (length expected) []);
          candidate' = (if length candidate \<noteq> length expected then padded (length expected) candidate else candidate)
      in expected = candidate')"

section \<open>Error texts (error\_sanitize.go)\<close>

definition path_chars :: "char set" where
  "path_chars = {CHR ''/'', CHR 0x5C}"

text \<open>An absolute path contains a slash, so the first test of the source adds nothing.\<close>

definition looksLikePathToken :: "go_string \<Rightarrow> bool" where
  "looksLikePathToken part \<longleftrightarrow> set part \<inter> path_chars \<noteq> {}"

definition flushWord :: "go_string \<Rightarrow> go_string" where
  "flushWord part = (if part = [] then [] else if looksLikePathToken part then ''[path]'' else part)"

definition is_separator :: "char \<Rightarrow> bool" where
  "is_separator ch \<longleftrightarrow> ch \<in> {CHR '' '', CHR 0x09, CHR 0x0A, CHR 0x0D}"

fun sanitize_words :: "go_string \<Rightarrow> go_string \<Rightarrow> go_string" where
  "sanitize_words word [] = flushWord word"
| "sanitize_words word (ch # s) =
     (if is_separator ch then flushWord word @ ch # sanitize_words [] s else sanitize_words (word @ [ch]) s)"

definition safeErrorMessage :: "go_string \<Rightarrow> go_string" where
  "safeErrorMessage msg = (if set msg \<inter> path_chars = {} then msg else sanitize_words [] msg)"

section \<open>The server (server.go, auth\_middleware.go)\<close>

record Server =
  cfgAuth :: bool
  unixTransport :: bool
  auth :: "authState option"
  nonces :: "nonceStore option"
  backoff :: failedAuthLimiter

record http_request =
  req_method :: go_string
  req_path :: go_string
  peer_name :: go_string
  peer_ok :: bool
  loopback :: bool
  hdr_nonce :: go_string
  hdr_generation :: go_string
  hdr_proof :: go_string
  hdr_token :: go_string

definition is_blank :: "char \<Rightarrow> bool" where
  "is_blank ch \<longleftrightarrow> ch \<in> {CHR '' '', CHR 0x09, CHR 0x0A, CHR 0x0B, CHR 0x0C, CHR 0x0D}"

definition TrimSpace :: "go_string \<Rightarrow> go_string" where
  "TrimSpace s = rev (dropWhile is_blank (rev (dropWhile is_blank s)))"

text \<open>\<open>strconv.ParseUint\<close> in base 10 with 64 bits.\<close>

definition ParseUint :: "go_string \<Rightarrow> 64 word option" where
  "ParseUint s =
     (if s = [] \<or> \<not> list_all digit_char s then None
      else let n = foldl (\<lambda>n ch. n * 10 + (of_char ch - 48)) 0 s :: int
           in if n < 2 ^ 64 then Some (of_int n) else None)"

definition authEnabled :: "Server \<Rightarrow> bool" where
  "authEnabled s \<longleftrightarrow> auth s \<noteq> None \<and> nonces s \<noteq> None"

definition recordAuthFailure :: "go_string \<Rightarrow> time \<Rightarrow> Server \<Rightarrow> Server" where
  "recordAuthFailure peer now s = s\<lparr>backoff := RecordFailure peer now (backoff s)\<rparr>"

text \<open>The checks of \<open>verifyProof\<close> once the nonce is consumed, in their order.\<close>

definition proof_ok :: "crypto \<Rightarrow> authState \<Rightarrow> http_request \<Rightarrow> bool" where
  "proof_ok C a r \<longleftrightarrow>
     (case ParseUint (TrimSpace (hdr_generation r)) of
        None \<Rightarrow> False
      | Some clientGen \<Rightarrow>
        clientGen = authGeneration a \<and> TrimSpace (hdr_proof r) \<noteq> [] \<and> TrimSpace (hdr_token r) = [] \<and>
        verifyInvokeProof C (snd (snapshot a)) (authGeneration a) (TrimSpace (hdr_nonce r)) (TrimSpace (hdr_proof r)))"

definition verifyProof :: "crypto \<Rightarrow> http_request \<Rightarrow> time \<Rightarrow> Server \<Rightarrow> bool \<times> Server" where
  "verifyProof C r now s =
     (case (auth s, nonces s) of
        (Some a, Some ns) \<Rightarrow>
          (let nonce = TrimSpace (hdr_nonce r)
           in if nonce = [] then (False, recordAuthFailure (peer_name r) now s)
              else let (ok, ns') = consume nonce now ns; s' = s\<lparr>nonces := Some ns'\<rparr>
                   in if ok \<and> proof_ok C a r then (True, s') else (False, recordAuthFailure (peer_name r) now s'))
      | _ \<Rightarrow> (False, s))"

datatype verdict = Serve | Unauthorized

definition authMiddleware :: "crypto \<Rightarrow> http_request \<Rightarrow> time \<Rightarrow> Server \<Rightarrow> verdict \<times> Server" where
  "authMiddleware C r now s =
     (if \<not> authEnabled s \<or> req_path r = ''/health'' then (Serve, s)
      else if \<not> Allow (backoff s) (peer_name r) now then (Unauthorized, s)
      else if (if unixTransport s then \<not> peer_ok r else \<not> loopback r) then (Unauthorized, recordAuthFailure (peer_name r) now s)
      else if req_path r = ''/invoke/challenge'' then (Serve, s)
      else let (ok, s') = verifyProof C r now s
           in if ok then (Serve, s'\<lparr>backoff := Reset (peer_name r) (backoff s')\<rparr>) else (Unauthorized, s'))"

datatype challenge = Challenge go_string time "64 word" | Refused nat go_string

definition handleChallenge :: "go_string option \<Rightarrow> http_request \<Rightarrow> time \<Rightarrow> Server \<Rightarrow> challenge \<times> Server" where
  "handleChallenge rnd r now s =
     (if req_method r \<noteq> ''GET'' then (Refused 405 ''Method not allowed'', s)
      else case (auth s, nonces s) of
             (Some a, Some ns) \<Rightarrow>
               (let (res, ns') = issue rnd now ns; s' = s\<lparr>nonces := Some ns'\<rparr>
                in case res of
                     Inl err \<Rightarrow> (Refused 500 (safeErrorMessage err), s')
                   | Inr (nonce, expiresAt) \<Rightarrow> (Challenge nonce expiresAt (authGeneration a), s'))
           | _ \<Rightarrow> (Refused 401 ''unauthorized'', s))"

definition InstallAuth :: "64 word \<Rightarrow> go_string \<Rightarrow> Server \<Rightarrow> Server" where
  "InstallAuth gen tok s =
     s\<lparr>auth := Some (install gen tok (case auth s of Some a \<Rightarrow> a | None \<Rightarrow> newAuthState)),
       nonces := (if nonces s = None \<and> cfgAuth s then Some (newNonceStore (30 * second)) else nonces s)\<rparr>"

definition New_Server :: "bool \<Rightarrow> bool \<Rightarrow> go_string option \<Rightarrow> Server" where
  "New_Server authOn unix rnd =
     \<lparr>cfgAuth = authOn, unixTransport = unix,
      auth = (if authOn then Some (case initToken rnd newAuthState of Inr a \<Rightarrow> a | Inl _ \<Rightarrow> newAuthState) else None),
      nonces = (if authOn then Some (newNonceStore (30 * second)) else None), backoff = Map.empty\<rparr>"

section \<open>Concurrent invocations (rate\_limit.go)\<close>

record concurrencyLimiter =
  capacity :: nat
  held :: nat

definition newConcurrencyLimiter :: "int \<Rightarrow> concurrencyLimiter" where
  "newConcurrencyLimiter n = \<lparr>capacity = (if n \<le> 0 then 64 else nat n), held = 0\<rparr>"

text \<open>\<open>None\<close> while \<open>Acquire\<close> has to wait.\<close>

definition Acquire :: "concurrencyLimiter \<Rightarrow> concurrencyLimiter option" where
  "Acquire l = (if held l < capacity l then Some (l\<lparr>held := held l + 1\<rparr>) else None)"

definition release :: "concurrencyLimiter \<Rightarrow> concurrencyLimiter" where
  "release l = l\<lparr>held := held l - 1\<rparr>"

end
