(* ===== verification/InvokeAuth_Props.thy ===== *)
theory InvokeAuth_Props
  imports InvokeAuth
begin

text \<open>
  What the check in front of invocations guarantees: a request that is served carries a proof for the current secret over a nonce
  that was issued and not used before, the store of nonces is bounded, a peer that fails is held off, and error texts
  show no paths.
\<close>

section \<open>Nonces\<close>

definition store_ok :: "nonceStore \<Rightarrow> bool" where
  "store_ok s \<longleftrightarrow> distinct (map fst (entries s)) \<and> length (entries s) \<le> maxOutstandingNonces"

lemma distinct_filter_fst: "distinct (map fst xs) \<Longrightarrow> distinct (map fst (filter P xs))"
  by (induction xs) auto

lemma sweep_ok: "store_ok s \<Longrightarrow> store_ok (sweepExpiredLocked now s)"
  by (auto simp: store_ok_def sweepExpiredLocked_def distinct_filter_fst intro: le_trans [OF length_filter_le])

lemma length_update: "length (AList.update k v xs) \<le> Suc (length xs)"
  by (induction xs) auto

lemma issue_ok: "store_ok s \<Longrightarrow> store_ok (snd (issue rnd now s))"
  using sweep_ok [of s now] length_update
  by (auto simp: issue_def Let_def store_ok_def distinct_update split: option.splits intro: le_trans [OF length_update])

lemma consume_ok: "store_ok s \<Longrightarrow> store_ok (snd (consume nonce now s))"
  using sweep_ok [of s now]
  by (auto simp: consume_def Let_def store_ok_def distinct_delete split: option.splits intro: le_trans [OF length_delete_le])

text \<open>Whether a nonce is outstanding.\<close>

definition outstanding :: "nonceStore \<Rightarrow> go_string \<Rightarrow> bool" where
  "outstanding s n \<longleftrightarrow> n \<in> fst ` set (entries s)"

lemma sweep_outstanding: "outstanding (sweepExpiredLocked now s) n \<Longrightarrow> outstanding s n"
  by (auto simp: outstanding_def sweepExpiredLocked_def)

lemma sweep_entry: "(n, t) \<in> set (entries (sweepExpiredLocked now s)) \<Longrightarrow> (n, t) \<in> set (entries s) \<and> now \<le> t"
  by (auto simp: sweepExpiredLocked_def)

lemma consume_accepts:
  assumes "fst (consume nonce now s)"
  shows "\<exists>t. now \<le> t \<and> (nonce, t) \<in> set (entries s)" "\<not> outstanding (snd (consume nonce now s)) nonce"
proof -
  obtain t where t: "map_of (entries (sweepExpiredLocked now s)) nonce = Some t"
    using assms by (auto simp: consume_def Let_def split: option.splits)
  show "\<exists>t. now \<le> t \<and> (nonce, t) \<in> set (entries s)" using sweep_entry [OF map_of_SomeD [OF t]] by blast
  show "\<not> outstanding (snd (consume nonce now s)) nonce"
    using t AList.delete_notin_dom [of nonce] by (simp add: consume_def Let_def outstanding_def)
qed

lemma consume_keeps: "outstanding (snd (consume nonce now s)) n \<Longrightarrow> outstanding s n"
  using AList.dom_delete_subset [of nonce "entries (sweepExpiredLocked now s)"] sweep_outstanding [of now s n]
  by (auto simp: consume_def Let_def outstanding_def split: option.splits)

lemma issue_keeps:
  assumes "outstanding (snd (issue rnd now s)) n"
  shows "outstanding s n \<or> (\<exists>t. fst (issue rnd now s) = Inr (n, t))"
proof (cases "outstanding (sweepExpiredLocked now s) n")
  case True
  then show ?thesis using sweep_outstanding by blast
next
  case False
  then show ?thesis
    using assms by (auto simp: issue_def Let_def outstanding_def AList.dom_update split: option.splits if_splits)
qed

section \<open>Runs of the server\<close>

text \<open>What reaches the server: requests, of which those for \<open>/invoke/challenge\<close> that are served ask for a nonce, and new secrets.\<close>

datatype event = Request http_request time "go_string option" | NewSecret "64 word" go_string

definition serve :: "crypto \<Rightarrow> event \<Rightarrow> Server \<Rightarrow> Server" where
  "serve C e s =
     (case e of
        Request r now rnd \<Rightarrow>
          (let (v, s') = authMiddleware C r now s
           in if v = Serve \<and> req_path r = ''/invoke/challenge'' then snd (handleChallenge rnd r now s') else s')
      | NewSecret gen tok \<Rightarrow> InstallAuth gen tok s)"

text \<open>Whether an event is a request with a nonce that is let through to the functions of the program.\<close>

definition accepted :: "crypto \<Rightarrow> go_string \<Rightarrow> event \<Rightarrow> Server \<Rightarrow> bool" where
  "accepted C n e s \<longleftrightarrow>
     (case e of
        Request r now rnd \<Rightarrow>
          req_path r \<notin> {''/health'', ''/invoke/challenge''} \<and> TrimSpace (hdr_nonce r) = n \<and> fst (authMiddleware C r now s) = Serve
      | NewSecret gen tok \<Rightarrow> False)"

definition issued :: "crypto \<Rightarrow> go_string \<Rightarrow> event \<Rightarrow> Server \<Rightarrow> bool" where
  "issued C n e s \<longleftrightarrow>
     (case e of
        Request r now rnd \<Rightarrow>
          req_path r = ''/invoke/challenge'' \<and> fst (authMiddleware C r now s) = Serve \<and>
          (\<exists>t gen. fst (handleChallenge rnd r now (snd (authMiddleware C r now s))) = Challenge n t gen)
      | NewSecret gen tok \<Rightarrow> False)"

primrec occurrences :: "(event \<Rightarrow> Server \<Rightarrow> bool) \<Rightarrow> crypto \<Rightarrow> event list \<Rightarrow> Server \<Rightarrow> nat" where
  "occurrences P C [] s = 0"
| "occurrences P C (e # es) s = (if P e s then 1 else 0) + occurrences P C es (serve C e s)"

definition server_outstanding :: "Server \<Rightarrow> go_string \<Rightarrow> nat" where
  "server_outstanding s n = (case nonces s of Some ns \<Rightarrow> if outstanding ns n then 1 else 0 | None \<Rightarrow> 0)"

lemma enabled_serve: "authEnabled s \<Longrightarrow> authEnabled (serve C e s)"
  by (auto simp: serve_def authEnabled_def authMiddleware_def verifyProof_def handleChallenge_def InstallAuth_def recordAuthFailure_def
      Let_def case_prod_unfold split: event.splits option.splits sum.splits)

lemma nonces_recordAuthFailure [simp]: "nonces (recordAuthFailure peer now s) = nonces s" "auth (recordAuthFailure peer now s) = auth s"
  by (simp_all add: recordAuthFailure_def)

lemma verifyProof_nonces:
  "nonces (snd (verifyProof C r now s)) = nonces s \<or>
   (\<exists>ns. nonces s = Some ns \<and> nonces (snd (verifyProof C r now s)) = Some (snd (consume (TrimSpace (hdr_nonce r)) now ns)))"
  by (auto simp: verifyProof_def Let_def case_prod_unfold split: option.splits)

lemma verifyProof_accepts:
  assumes "fst (verifyProof C r now s)"
  obtains a ns where "auth s = Some a" "nonces s = Some ns" "fst (consume (TrimSpace (hdr_nonce r)) now ns)" "proof_ok C a r"
    "nonces (snd (verifyProof C r now s)) = Some (snd (consume (TrimSpace (hdr_nonce r)) now ns))"
  using assms by (auto simp: verifyProof_def Let_def case_prod_unfold split: option.splits if_splits)

lemma middleware_nonces:
  "nonces (snd (authMiddleware C r now s)) = nonces s \<or>
   (\<exists>ns. nonces s = Some ns \<and> nonces (snd (authMiddleware C r now s)) = Some (snd (consume (TrimSpace (hdr_nonce r)) now ns)))"
  using verifyProof_nonces [of C r now s] by (auto simp: authMiddleware_def Let_def case_prod_unfold)

lemma middleware_challenge:
  "req_path r = ''/invoke/challenge'' \<Longrightarrow> nonces (snd (authMiddleware C r now s)) = nonces s \<and> auth (snd (authMiddleware C r now s)) = auth s"
  by (simp add: authMiddleware_def)

text \<open>A request that is let through to the functions has passed every check.\<close>

lemma middleware_accepts:
  assumes "authEnabled s" "req_path r \<notin> {''/health'', ''/invoke/challenge''}" "fst (authMiddleware C r now s) = Serve"
  obtains a ns where "auth s = Some a" "nonces s = Some ns" "fst (consume (TrimSpace (hdr_nonce r)) now ns)" "proof_ok C a r"
    "nonces (snd (authMiddleware C r now s)) = Some (snd (consume (TrimSpace (hdr_nonce r)) now ns))"
    "if unixTransport s then peer_ok r else loopback r" "Allow (backoff s) (peer_name r) now"
proof -
  have c: "Allow (backoff s) (peer_name r) now" "if unixTransport s then peer_ok r else loopback r" "fst (verifyProof C r now s)"
    "nonces (snd (authMiddleware C r now s)) = nonces (snd (verifyProof C r now s))"
    using assms by (auto simp: authMiddleware_def Let_def case_prod_unfold split: if_splits)
  then show thesis using that by (metis verifyProof_accepts)
qed

lemma serve_nonce:
  assumes "authEnabled s"
  shows "server_outstanding (serve C e s) n + (if accepted C n e s then 1 else 0) \<le> server_outstanding s n + (if issued C n e s then 1 else 0)"
proof (cases e)
  case (NewSecret gen tok)
  then show ?thesis using assms by (auto simp: serve_def accepted_def InstallAuth_def server_outstanding_def authEnabled_def)
next
  case (Request r now rnd)
  let ?s = "snd (authMiddleware C r now s)" and ?v = "fst (authMiddleware C r now s)"
  consider (challenge) "req_path r = ''/invoke/challenge''" "?v = Serve" | (accept) "accepted C n e s"
    | (other) "\<not> accepted C n e s" "\<not> (req_path r = ''/invoke/challenge'' \<and> ?v = Serve)" by blast
  then show ?thesis
  proof cases
    case challenge
    then have na: "\<not> accepted C n e s" using Request by (simp add: accepted_def)
    obtain a ns where an: "auth s = Some a" "nonces s = Some ns" using assms by (auto simp: authEnabled_def)
    then have eq: "auth ?s = Some a" "nonces ?s = Some ns" using middleware_challenge [OF challenge(1)] by simp_all
    have st: "serve C e s = snd (handleChallenge rnd r now ?s)"
      using challenge Request by (simp add: serve_def Let_def case_prod_unfold)
    show ?thesis
    proof (cases "req_method r = ''GET''")
      case True
      have nn: "nonces (serve C e s) = Some (snd (issue rnd now ns))"
        using eq True by (simp add: st handleChallenge_def Let_def case_prod_unfold split: sum.splits)
      have "issued C n e s" if "fst (issue rnd now ns) = Inr (n, t)" for t
        using that eq True challenge Request by (simp add: issued_def handleChallenge_def case_prod_unfold)
      then show ?thesis using na nn an issue_keeps [of rnd now ns n] by (auto simp: server_outstanding_def)
    next
      case False
      then have "serve C e s = ?s" by (simp add: st handleChallenge_def)
      then show ?thesis using na eq an by (simp add: server_outstanding_def)
    qed
  next
    case accept
    then have p: "req_path r \<notin> {''/health'', ''/invoke/challenge''}" "?v = Serve" "TrimSpace (hdr_nonce r) = n"
      using Request by (simp_all add: accepted_def)
    have st: "serve C e s = ?s" using p Request by (simp add: serve_def Let_def case_prod_unfold)
    obtain ns where ns: "nonces s = Some ns" "fst (consume n now ns)" "nonces ?s = Some (snd (consume n now ns))"
      using middleware_accepts [OF assms p(1,2)] p(3) by metis
    then have "outstanding ns n" "\<not> outstanding (snd (consume n now ns)) n"
      using consume_accepts [OF ns(2)] by (force simp: outstanding_def)+
    then show ?thesis using accept st ns by (simp add: server_outstanding_def)
  next
    case other
    then have "serve C e s = ?s" using Request by (auto simp: serve_def Let_def case_prod_unfold)
    then show ?thesis
      using other(1) middleware_nonces [of C r now s] consume_keeps by (auto simp: server_outstanding_def split: option.splits)
  qed
qed

lemma accepted_bounded:
  "authEnabled s \<Longrightarrow> occurrences (accepted C n) C es s + server_outstanding (fold (serve C) es s) n \<le>
     occurrences (issued C n) C es s + server_outstanding s n"
proof (induction es arbitrary: s)
  case (Cons e es)
  show ?case using Cons.IH [OF enabled_serve [OF Cons.prems, of C e]] serve_nonce [OF Cons.prems, of C e n] by (auto split: if_splits)
qed simp

lemma new_server_enabled: "authEnabled (New_Server True unix rnd)"
  by (simp add: authEnabled_def New_Server_def)

text \<open>C8. No replay: in every run of a server with authentication, a nonce lets at most as many requests through as it was issued
  in challenges.\<close>

theorem no_replay:
  "occurrences (accepted C n) C es (New_Server True unix rnd) \<le> occurrences (issued C n) C es (New_Server True unix rnd)"
  using accepted_bounded [OF new_server_enabled, of C n es unix rnd]
  by (simp add: server_outstanding_def New_Server_def newNonceStore_def outstanding_def)


text \<open>A server whose only nonce is \<open>n1\<close>, with an HMAC that returns its message, and a request with the right proof.\<close>

definition plain_crypto :: crypto where
  "plain_crypto = \<lparr>hmac = (\<lambda>key msg. key @ msg), b64decode = Some\<rparr>"

definition demo_server :: Server where
  "demo_server = \<lparr>cfgAuth = True, unixTransport = False, auth = Some \<lparr>authGeneration = 1, token = ''k''\<rparr>,
     nonces = Some \<lparr>entries = [(''n1'', 50)], ttl = 30\<rparr>, backoff = Map.empty\<rparr>"

definition demo_request :: http_request where
  "demo_request = \<lparr>req_method = ''POST'', req_path = ''/invoke'', peer_name = ''tcp:127.0.0.1'', peer_ok = False, loopback = True,
     hdr_nonce = '' n1'', hdr_generation = ''1'', hdr_proof = ''kforst-invoke-v1|1|n1'', hdr_token = []\<rparr>"

lemma demo_served: "fst (authMiddleware plain_crypto demo_request 40 demo_server) = Serve"
  by code_simp


section \<open>Bounds\<close>

definition server_ok :: "Server \<Rightarrow> bool" where
  "server_ok s \<longleftrightarrow> (case nonces s of Some ns \<Rightarrow> store_ok ns | None \<Rightarrow> True)"

lemma server_ok_serve: "server_ok s \<Longrightarrow> server_ok (serve C e s)"
proof (cases e)
  case (NewSecret gen tok)
  then show "server_ok s \<Longrightarrow> ?thesis"
    by (auto simp: serve_def InstallAuth_def server_ok_def newNonceStore_def store_ok_def maxOutstandingNonces_def split: option.splits)
next
  case (Request r now rnd)
  let ?s = "snd (authMiddleware C r now s)"
  assume "server_ok s"
  then have "server_ok ?s" using middleware_nonces [of C r now s] consume_ok by (auto simp: server_ok_def split: option.splits)
  moreover have "server_ok (snd (handleChallenge rnd r now ?s))"
    using \<open>server_ok ?s\<close> issue_ok by (auto simp: handleChallenge_def server_ok_def Let_def case_prod_unfold split: option.splits sum.splits)
  ultimately show ?thesis using Request by (simp add: serve_def Let_def case_prod_unfold)
qed

text \<open>C23. However many challenges are asked for, at most 1024 nonces are kept, each once.\<close>

theorem nonces_bounded:
  "case nonces (fold (serve C) es (New_Server authOn unix rnd)) of
     Some ns \<Rightarrow> distinct (map fst (entries ns)) \<and> length (entries ns) \<le> 1024
   | None \<Rightarrow> True"
proof -
  have "server_ok (fold (serve C) es s)" if "server_ok s" for s
    using that by (induction es arbitrary: s) (simp_all add: server_ok_serve)
  moreover have "server_ok (New_Server authOn unix rnd)"
    by (simp add: server_ok_def New_Server_def newNonceStore_def store_ok_def)
  ultimately have "server_ok (fold (serve C) es (New_Server authOn unix rnd))" by blast
  then show ?thesis by (simp add: server_ok_def store_ok_def maxOutstandingNonces_def split: option.splits)
qed

lemma backoff_time_bounds: "0 \<le> shift \<Longrightarrow> backoff_time shift \<in> {100 * millisecond..30 * second}"
  by (simp add: backoff_time_def millisecond_def second_def)

definition prior_failures :: "failedAuthLimiter \<Rightarrow> go_string \<Rightarrow> int" where
  "prior_failures l peer = (case l peer of Some st \<Rightarrow> failures st | None \<Rightarrow> 0)"

lemma RecordFailure_peer:
  "\<exists>st. RecordFailure peer t l peer = Some st \<and> failures st = prior_failures l peer + 1 \<and>
     blockedUntil st = (if prior_failures l peer < 4 then Option.bind (l peer) blockedUntil else Some (t + backoff_time (prior_failures l peer - 4)))"
  by (auto simp: RecordFailure_def Let_def prior_failures_def split: option.splits)

lemma RecordFailure_state:
  assumes "l peer = None" "ts \<noteq> []"
  shows "\<exists>st. fold (RecordFailure peer) ts l peer = Some st \<and> failures st = int (length ts) \<and>
    blockedUntil st = (if length ts < 5 then None else Some (last ts + backoff_time (int (length ts) - 5)))"
  using assms(2)
proof (induction ts rule: rev_nonempty_induct)
  case (single t)
  then show ?case using RecordFailure_peer [of peer t l] assms(1) by (auto simp: prior_failures_def)
next
  case (snoc t ts)
  then obtain st where st: "fold (RecordFailure peer) ts l peer = Some st" "failures st = int (length ts)"
    "blockedUntil st = (if length ts < 5 then None else Some (last ts + backoff_time (int (length ts) - 5)))" by blast
  then show ?case using RecordFailure_peer [of peer t "fold (RecordFailure peer) ts l"] by (auto simp: prior_failures_def)
qed



section \<open>Error texts\<close>

lemma flushWord_safe: "set (flushWord w) \<inter> path_chars = {}"
  by (auto simp: flushWord_def looksLikePathToken_def path_chars_def)

lemma sanitize_words_safe: "set (sanitize_words w s) \<inter> path_chars = {}"
proof (induction w s rule: sanitize_words.induct)
  case (2 w ch s)
  then show ?case using flushWord_safe [of w] by (auto simp: is_separator_def path_chars_def)
qed (simp add: flushWord_safe)

text \<open>No slash or backslash is left in an error text that is shown to a client.\<close>

theorem safeErrorMessage_hides_paths: "set (safeErrorMessage msg) \<inter> {CHR ''/'', CHR 0x5C} = {}"
  using sanitize_words_safe [of "[]" msg] by (simp add: safeErrorMessage_def path_chars_def)

text \<open>A proof with bytes after the HMAC is accepted: a candidate of another length is cut or padded before it is compared.\<close>

theorem overlong_proof_accepted:
  assumes "b64decode C candidate = Some (computeInvokeProof C key gen nonce @ rest)"
  shows "verifyInvokeProof C key gen nonce candidate"
  using assms by (simp add: verifyInvokeProof_def Let_def padded_def)

theorem overlong_proof_accepted_witness:
  "verifyInvokeProof plain_crypto ''k'' 1 ''n1'' ''kforst-invoke-v1|1|n1!''"
proof (rule overlong_proof_accepted)
  show "b64decode plain_crypto ''kforst-invoke-v1|1|n1!'' = Some (computeInvokeProof plain_crypto ''k'' 1 ''n1'' @ ''!'')"
    by code_simp
qed

end
