(* ===== verification/Spec2Isabelle.thy ===== *)
theory Spec2Isabelle
  imports Lexer_Thms LiteralUnion ProvidersProps FactProps Printer_Props Labels_Props Compat_Props
    Hasher_Props TypeRegistry_Props Reload InvokeAuth_Props
begin

text \<open>
  Verification of the Forst compiler.

  Forst is a language that compiles to Go. A source file goes through a lexer (\<open>internal/lexer\<close>) and a
  recursive-descent parser (\<open>internal/parser\<close>) into the syntax tree of \<open>internal/ast\<close>; the type checker
  (\<open>internal/typechecker\<close>) infers types and keeps facts about values that hold at a program point; the printer
  (\<open>internal/printer\<close>) writes a tree back as source text; the providers graph (\<open>internal/providersgraph\<close>) computes which
  providers every function needs. The theories follow these packages, with the names of the source.

  \<^bold>\<open>The theories.\<close>

  \<^item> \<open>Prelude\<close>: strings as byte lists, slices with Go's bounds checks, decimal and UTF-8 text, results with errors, and the
    collections of rules the components share.
  \<^item> \<open>Tokens\<close>, \<open>Lexer_Scan\<close>, \<open>Lexer\<close> model \<open>ast/tokens.go\<close>, \<open>ast/compound_assign.go\<close> and the files of \<open>internal/lexer\<close>: the
    scanner of one token, the loop over a line and the loop over the lines with the states of an open block
    comment or raw string. \<open>None\<close> is a panic. \<open>Lexer_Props\<close> has the invariants of the loops and \<open>Lexer_Thms\<close> the results:
    the lexer returns, loses nothing, places tokens correctly, and panics on a trailing escape.
  \<^item> \<open>Ast\<close>, \<open>AstOps\<close>, \<open>Statements\<close> model \<open>internal/ast\<close>: types, assertions, shapes, expressions, statements and
    declarations, their text and constructors. \<open>UnionTypes\<close> has the normal form of unions.
  \<^item> \<open>Parser_Base\<close>, \<open>Parser_Expr\<close>, \<open>Parser_Stmt\<close>, \<open>Parser_Block\<close>, \<open>Parser_File\<close> model the package \<open>internal/parser\<close>: a
    parser is a function from the state of the parser (tokens, index, scopes) to an error or a result and the next
    state, and a panic of the Go code is an error. The mutually recursive functions take the record \<open>parsers\<close> of the
    functions they call; \<open>parsers_at\<close> ties them together with a number of levels. \<open>Parser_Props\<close> has a calculus of
    how far parsers move (the locale \<open>ready_parsers\<close>, interpreted on \<open>parsers_at\<close>) and \<open>Parser_Fuel\<close> the result that
    \<open>enough_fuel\<close>, five levels for each token left and five more, always suffice and that more change nothing (the locale
    \<open>better_parsers\<close>). \<open>Parser_Round\<close> proves the reading of operators: precedence, associativity, parentheses.
  \<^item> \<open>Printer\<close>, \<open>Formatter\<close> model \<open>internal/printer\<close> and the formatting pipeline over lexer, parser and printer, with the
    edit of the language server and \<open>ParseExpressionSource\<close>. \<open>Printer_Props\<close> shows that the white-space pass is a
    normal form, that expressions which need no parentheses are written as the tokens they are read from, and what
    formatting loses.
  \<^item> \<open>TypeOps\<close>, \<open>LiteralUnion\<close> model \<open>typeops.go\<close>, \<open>flow_fact.go\<close>, \<open>typedef_binary.go\<close>, \<open>literal_union.go\<close>: joins and meets of
    types and literal unions.
  \<^item> \<open>Compat\<close> models assignability: \<open>compat_memo.go\<close>, \<open>go_builtins_compat.go\<close> and the structural comparisons of
    \<open>infer_shape.go\<close>, \<open>infer_funclit.go\<close> and \<open>receiver_methods.go\<close>, with the memo passed along. \<open>Compat_Props\<close> shows that it is
    reflexive, and where it accepts types that differ or does not end.
  \<^item> \<open>AssertionIR\<close>, \<open>AccessPath\<close>, \<open>Predicates\<close>, \<open>RefinementContext\<close>, \<open>Scopes\<close>, \<open>FactDeps\<close>, \<open>FactStore\<close> model the
    flow-sensitive part of the type checker: assertions lowered to a disjunction of conjunctions, interned paths and
    predicates, the facts of a program point and their joins, the store of scopes and symbols, the paths a fact depends
    on, and the invalidation of facts by writes, aliases, calls and branches. \<open>FactProps\<close> shows that a fact that is kept
    reads no cell a write can change and that a dropped fact is forgotten everywhere.
  \<^item> \<open>Labels\<close> models \<open>infer_goto.go\<close>, and \<open>Labels_Props\<close> shows that gotos of an accepted body stay within their
    blocks.
  \<^item> \<open>Hasher\<close> models \<open>internal/hasher\<close>: the bytes written for every node, their 64-bit FNV-1a sum, scope keys and the names made
    from hashes. \<open>Hasher_Props\<close> shows that the order of fields does not matter, that names correspond one-to-one to hashes, and what
    is not hashed.
  \<^item> \<open>TypeRegistry\<close> models the table of type definitions (\<open>register.go\<close>, \<open>type_registry.go\<close>, \<open>shape_alias_index.go\<close>,
    \<open>lookup_alias_chain.go\<close>, the end of \<open>inferShapeType\<close>) on top of \<open>Hasher\<close> and \<open>Compat\<close>; \<open>TypeRegistry_Props\<close> shows that the cached
    index agrees with the definitions in every reachable state, and where types are confused.
  \<^item> \<open>Reload\<close> models \<open>internal/reload\<close>, the gate of \<open>invokeserver/middleware.go\<close>, \<open>devserver/reload_coalescer.go\<close> and
    \<open>compileplan/cache.go\<close>: critical sections as steps that interleave freely, with invariants over all reachable states, and
    ranks that show that drains end and reloads start.
  \<^item> \<open>InvokeAuth\<close> models the authentication of \<open>internal/invokeserver\<close>; \<open>InvokeAuth_Props\<close> shows that no nonce is accepted twice,
    that a served request carries a valid proof, and the bounds of the stores and delays.
  \<^item> \<open>ProvidersGraph\<close> models \<open>internal/providersgraph\<close>; \<open>ProvidersProps\<close> shows that both fixed points exist and are closed,
    and that invalidation reaches every function whose slots can change.

  \<^bold>\<open>Interfaces.\<close> Where several operations rely on the same contract it is a locale: \<open>key_interner\<close>, a table that gives
  equal keys one representative, for access paths and for predicates; \<open>slot_propagation\<close>, the passes over call edges that add
  slots until nothing changes, for the graph of a package and for that of a module; \<open>narrowing_view\<close>, what a kind of
  record about facts forgets when facts are dropped, for guard names and for the refinement context; \<open>ready_parsers\<close>,
  parsers that move forward or fail without running out of levels, and \<open>better_parsers\<close>, parsers with more levels and the
  same answers, both for \<open>parsers_at\<close> at every number of levels; \<open>function_cache\<close>, the contract of the cache of emitted functions,
  for the cache in memory.

  \<^bold>\<open>Bounds and fuel.\<close> Fuel stands for recursion that is not structural: the parser (\<open>enough_fuel\<close>, proved sufficient), the
  may-alias test and the extraction of dependencies (bounded by the number of type definitions and guards, proved
  sufficient), the error-kind test (sufficient when the definitions are acyclic, and without end otherwise), and
  assignability, where the size of a type suffices to compare it with itself and cyclic aliases have no end. Loops that
  may not end are \<open>partial_function\<close>, with a proof that they return. Hashes, generations and symbol identifiers are words of their width.

  \<^bold>\<open>Parameters.\<close> Code outside the repository is an argument: \<open>strconv\<close> on floats and quoted text (\<open>ParseFloat\<close>, \<open>Unquote\<close>,
  \<open>UnquoteChar\<close>, \<open>Quote\<close>, \<open>QuoteRune\<close>), \<open>math.Float64bits\<close>, HMAC-SHA256, base64, random bytes, and what the operating system says
  about a peer. \<open>TypeOps\<close> takes assignability and the hash of a shape as arguments, \<open>Scopes\<close> the keys of scopes; \<open>Compat\<close> and
  \<open>Hasher\<close> have the definitions the program uses there.

  \<^bold>\<open>Not modelled.\<close> Source spans beyond the positions of tokens, the layout of error reports, and logging. The inference
  of expression types and the calls into \<open>go/types\<close>; the transformers to Go and TypeScript, which build
  trees of other libraries; the language server apart from formatting, the dev server apart from the
  coalescer, the HTTP handlers, the executor and the other commands, which are I/O around the parts above.
\<close>

end
